(* ===== verification/Nachos_Prelude.thy ===== *)
theory Nachos_Prelude
  imports Main "HOL-Library.Word" "HOL-Library.Signed_Division"
begin

text \<open>
  Shared vocabulary of the Nachos development: the outcome type of kernel code that can
  fail an \<open>ASSERT\<close>, C integer division, C strings, the little-endian byte layout of
  machine words, and the generic list lemmas the component theories use.
\<close>

unbundle bit_operations_syntax

named_theorems res_simps \<open>sequencing of fallible kernel code\<close>
named_theorems len_simps \<open>lengths of arrays, memories and tables\<close>


section \<open>Outcomes\<close>

text \<open>
  Kernel code stops in one of these ways without returning: a failed \<open>ASSERT\<close>
  (\<^verbatim>\<open>utility.h\<close>, the macro prints a message and calls \<open>Abort\<close>), an access outside an
  array, the use of a null pointer, behaviour that C++ leaves undefined, or the orderly shutdown of
  \<open>Interrupt::Halt\<close> (all kept apart from the values the code computes).
\<close>

datatype kerror = AssertFailed | OutOfBounds | NullDeref | Undefined | Halted

type_synonym 'a res = "kerror + 'a"

definition bindR :: "'a res \<Rightarrow> ('a \<Rightarrow> 'b res) \<Rightarrow> 'b res" where
  "bindR m f = (case m of Inl e \<Rightarrow> Inl e | Inr x \<Rightarrow> f x)"

definition ASSERT :: "bool \<Rightarrow> unit res" where
  "ASSERT c = (if c then Inr () else Inl AssertFailed)"

definition read_array :: "'a list \<Rightarrow> int \<Rightarrow> 'a res" where
  "read_array xs i = (if 0 \<le> i \<and> i < int (length xs) then Inr (xs ! nat i) else Inl OutOfBounds)"

definition write_array :: "'a list \<Rightarrow> int \<Rightarrow> 'a \<Rightarrow> 'a list res" where
  "write_array xs i v =
     (if 0 \<le> i \<and> i < int (length xs) then Inr (xs[nat i := v]) else Inl OutOfBounds)"

lemma bindR_simps [simp, res_simps]:
  "bindR (Inr x) f = f x"
  "bindR (Inl e) f = Inl e"
  by (simp_all add: bindR_def)

lemma bindR_eq_Inr [res_simps]:
  "bindR m f = Inr y \<longleftrightarrow> (\<exists>x. m = Inr x \<and> f x = Inr y)"
  by (cases m) auto

lemma bindR_InrE:
  assumes "bindR m f = Inr y"
  obtains x where "m = Inr x" "f x = Inr y"
  using assms by (auto simp: bindR_eq_Inr)

lemma bindR_assoc: "bindR (bindR m f) g = bindR m (\<lambda>x. bindR (f x) g)"
  by (cases m) auto

lemma bindR_cong [fundef_cong]:
  "m = m' \<Longrightarrow> (\<And>x. m' = Inr x \<Longrightarrow> f x = f' x) \<Longrightarrow> bindR m f = bindR m' f'"
  by (cases m') auto

lemma ASSERT_simps [simp, res_simps]:
  "ASSERT True = Inr ()"
  "ASSERT False = Inl AssertFailed"
  by (simp_all add: ASSERT_def)

lemma ASSERT_eq_Inr [simp, res_simps]: "ASSERT c = Inr u \<longleftrightarrow> c"
  by (simp add: ASSERT_def)

lemma read_array_eq_Inr [res_simps]:
  "read_array xs i = Inr v \<longleftrightarrow> 0 \<le> i \<and> i < int (length xs) \<and> v = xs ! nat i"
  by (auto simp: read_array_def)

lemma write_array_eq_Inr [res_simps]:
  "write_array xs i v = Inr ys \<longleftrightarrow> 0 \<le> i \<and> i < int (length xs) \<and> ys = xs[nat i := v]"
  by (auto simp: write_array_def)

lemma read_array_nat [simp]:
  "n < length xs \<Longrightarrow> read_array xs (int n) = Inr (xs ! n)"
  by (simp add: read_array_def)

lemma uint_less_int [simp]: "uint (w :: 'a::len word) < int n \<longleftrightarrow> unat w < n"
  by (metis of_nat_less_iff of_nat_unat)


section \<open>C integer division\<close>

text \<open>The macros of \<^verbatim>\<open>utility.h\<close>; C division truncates towards zero.\<close>

definition divRoundDown :: "int \<Rightarrow> int \<Rightarrow> int" where
  "divRoundDown n s = n sdiv s"

definition divRoundUp :: "int \<Rightarrow> int \<Rightarrow> int" where
  "divRoundUp n s = n sdiv s + (if n smod s > 0 then 1 else 0)"

lemma sdiv_nonneg [simp]: "0 \<le> (n::int) \<Longrightarrow> 0 < s \<Longrightarrow> n sdiv s = n div s"
  by (auto simp: signed_divide_int_def sgn_if)

lemma smod_nonneg [simp]: "0 \<le> (n::int) \<Longrightarrow> 0 < s \<Longrightarrow> n smod s = n mod s"
  by (cases "n = 0") (simp_all add: signed_modulo_int_def minus_mult_div_eq_mod)

lemma divRoundDown_nonneg: "0 \<le> n \<Longrightarrow> 0 < s \<Longrightarrow> divRoundDown n s = n div s"
  by (simp add: divRoundDown_def)

lemma divRoundUp_bounds:
  assumes "0 \<le> n" "0 < s"
  shows "n \<le> divRoundUp n s * s" "divRoundUp n s * s < n + s" "0 \<le> divRoundUp n s"
proof -
  define r where "r = n mod s"
  have m: "0 \<le> r" "r < s" using assms by (simp_all add: r_def)
  have d: "0 \<le> n div s" using assms by (simp add: pos_imp_zdiv_nonneg_iff)
  have up: "divRoundUp n s * s = n - r + (if r > 0 then s else 0)"
    using assms by (simp add: divRoundUp_def distrib_right minus_mod_eq_div_mult r_def)
  show "n \<le> divRoundUp n s * s" "divRoundUp n s * s < n + s"
    using m by (auto simp: up)
  show "0 \<le> divRoundUp n s" using d assms by (simp add: divRoundUp_def)
qed

lemma divRoundUp_0 [simp]: "0 < s \<Longrightarrow> divRoundUp 0 s = 0"
  by (simp add: divRoundUp_def)


section \<open>List lemmas\<close>

lemma nth_append_length_eq [simp]: "(xs @ x # ys) ! length xs = x"
  by simp

lemma take_drop_split: "i + n \<le> length xs \<Longrightarrow> xs = take i xs @ take n (drop i xs) @ drop (i + n) xs"
  by (metis append_take_drop_id drop_drop add.commute)

text \<open>Replace a segment of a list, as \<open>bcopy\<close> into the middle of a buffer does.\<close>

definition splice_at :: "nat \<Rightarrow> 'a list \<Rightarrow> 'a list \<Rightarrow> 'a list" where
  "splice_at i ys xs = take i xs @ ys @ drop (i + length ys) xs"

lemma length_splice_at [simp, len_simps]:
  "i + length ys \<le> length xs \<Longrightarrow> length (splice_at i ys xs) = length xs"
  by (simp add: splice_at_def)

lemma nth_splice_at:
  assumes "i + length ys \<le> length xs" "k < length xs"
  shows "splice_at i ys xs ! k = (if i \<le> k \<and> k < i + length ys then ys ! (k - i) else xs ! k)"
  using assms by (auto simp: splice_at_def nth_append)

lemma splice_at_segment:
  assumes "i + length ys \<le> length xs"
  shows "take (length ys) (drop i (splice_at i ys xs)) = ys"
  using assms by (simp add: splice_at_def)

end
