(* ===== verification/Bit_Map.thy ===== *)
theory Bit_Map
  imports Nachos_Prelude
begin

text \<open>
  The bitmap of \<^verbatim>\<open>userprog/bitmap.cc\<close>: an array of 32-bit words on which \<open>Mark\<close>,
  \<open>Clear\<close>, \<open>Test\<close>, \<open>Find\<close> and \<open>NumClear\<close> work bitwise.  It manages physical pages,
  process slots, semaphore slots and disk sectors.  The abstraction is the list of its
  bits; the locale \<open>bit_table\<close> is the interface its four clients rely on.
\<close>


section \<open>The bitmap of words\<close>

record BitMap =
  numBits :: int
  numWords :: int
  bmap :: "32 word list"

definition BitsInWord :: int where
  "BitsInWord = 32"

definition bit_mask :: "int \<Rightarrow> 32 word" where
  "bit_mask which = push_bit (nat (which smod BitsInWord)) 1"

definition BitMap_Mark :: "BitMap \<Rightarrow> int \<Rightarrow> BitMap res" where
  "BitMap_Mark bm which =
     bindR (ASSERT (which \<ge> 0 \<and> which < numBits bm)) (\<lambda>_.
     bindR (read_array (bmap bm) (which sdiv BitsInWord)) (\<lambda>w.
     bindR (write_array (bmap bm) (which sdiv BitsInWord) (w OR bit_mask which)) (\<lambda>m.
     Inr (bm\<lparr>bmap := m\<rparr>))))"

definition BitMap_Clear :: "BitMap \<Rightarrow> int \<Rightarrow> BitMap res" where
  "BitMap_Clear bm which =
     bindR (ASSERT (which \<ge> 0 \<and> which < numBits bm)) (\<lambda>_.
     bindR (read_array (bmap bm) (which sdiv BitsInWord)) (\<lambda>w.
     bindR (write_array (bmap bm) (which sdiv BitsInWord) (w AND NOT (bit_mask which))) (\<lambda>m.
     Inr (bm\<lparr>bmap := m\<rparr>))))"

definition BitMap_Test :: "BitMap \<Rightarrow> int \<Rightarrow> bool res" where
  "BitMap_Test bm which =
     bindR (ASSERT (which \<ge> 0 \<and> which < numBits bm)) (\<lambda>_.
     bindR (read_array (bmap bm) (which sdiv BitsInWord)) (\<lambda>w.
     Inr (w AND bit_mask which \<noteq> 0)))"

text \<open>The constructor allocates the words without initialising them: \<open>garbage\<close> is what the
  fresh memory holds.\<close>

fun BitMap_clear_all :: "int list \<Rightarrow> BitMap \<Rightarrow> BitMap res" where
  "BitMap_clear_all [] bm = Inr bm"
| "BitMap_clear_all (i # is) bm = bindR (BitMap_Clear bm i) (BitMap_clear_all is)"

definition BitMap_new :: "(nat \<Rightarrow> 32 word) \<Rightarrow> int \<Rightarrow> BitMap res" where
  "BitMap_new garbage nitems =
     (let nw = divRoundUp nitems BitsInWord;
          bm = \<lparr>numBits = nitems, numWords = nw, bmap = map garbage [0..<nat nw]\<rparr>
      in BitMap_clear_all [0..nitems - 1] bm)"

fun BitMap_Find_loop :: "int list \<Rightarrow> BitMap \<Rightarrow> (int \<times> BitMap) res" where
  "BitMap_Find_loop [] bm = Inr (-1, bm)"
| "BitMap_Find_loop (i # is) bm =
     bindR (BitMap_Test bm i) (\<lambda>t.
       if \<not> t then bindR (BitMap_Mark bm i) (\<lambda>bm'. Inr (i, bm'))
       else BitMap_Find_loop is bm)"

definition BitMap_Find :: "BitMap \<Rightarrow> (int \<times> BitMap) res" where
  "BitMap_Find bm = BitMap_Find_loop [0..numBits bm - 1] bm"

fun BitMap_NumClear_loop :: "int list \<Rightarrow> int \<Rightarrow> BitMap \<Rightarrow> int res" where
  "BitMap_NumClear_loop [] count bm = Inr count"
| "BitMap_NumClear_loop (i # is) count bm =
     bindR (BitMap_Test bm i) (\<lambda>t.
       BitMap_NumClear_loop is (if \<not> t then count + 1 else count) bm)"

definition BitMap_NumClear :: "BitMap \<Rightarrow> int res" where
  "BitMap_NumClear bm = BitMap_NumClear_loop [0..numBits bm - 1] 0 bm"

text \<open>\<open>Print\<close> lists the numbers of the bits that are set.\<close>

fun BitMap_Print_loop :: "int list \<Rightarrow> BitMap \<Rightarrow> int list res" where
  "BitMap_Print_loop [] bm = Inr []"
| "BitMap_Print_loop (i # is) bm =
     bindR (BitMap_Test bm i) (\<lambda>t. bindR (BitMap_Print_loop is bm) (\<lambda>out.
       Inr (if t then i # out else out)))"

definition BitMap_Print :: "BitMap \<Rightarrow> int list res" where
  "BitMap_Print bm = BitMap_Print_loop [0..numBits bm - 1] bm"

text \<open>Clients allocate several bits with a loop that calls \<open>Find\<close> once per item.\<close>

fun find_n :: "('b \<Rightarrow> (int \<times> 'b) res) \<Rightarrow> nat \<Rightarrow> 'b \<Rightarrow> (int list \<times> 'b) res" where
  "find_n find_bit 0 b = Inr ([], b)"
| "find_n find_bit (Suc n) b =
     bindR (find_bit b) (\<lambda>(i, b'). bindR (find_n find_bit n b') (\<lambda>(is, b''). Inr (i # is, b'')))"


section \<open>The interface its clients use\<close>

locale bit_table =
  fixes bits :: "'b \<Rightarrow> bool list"
    and ok :: "'b \<Rightarrow> bool"
    and test :: "'b \<Rightarrow> int \<Rightarrow> bool res"
    and mark :: "'b \<Rightarrow> int \<Rightarrow> 'b res"
    and clear :: "'b \<Rightarrow> int \<Rightarrow> 'b res"
    and find_bit :: "'b \<Rightarrow> (int \<times> 'b) res"
    and numClear :: "'b \<Rightarrow> int res"
  assumes test_in: "ok b \<Longrightarrow> i < length (bits b) \<Longrightarrow> test b (int i) = Inr (bits b ! i)"
    and test_out: "ok b \<Longrightarrow> \<not> (0 \<le> k \<and> k < int (length (bits b))) \<Longrightarrow> test b k = Inl AssertFailed"
    and mark_in: "ok b \<Longrightarrow> i < length (bits b) \<Longrightarrow>
      \<exists>b'. mark b (int i) = Inr b' \<and> ok b' \<and> bits b' = (bits b)[i := True]"
    and clear_in: "ok b \<Longrightarrow> i < length (bits b) \<Longrightarrow>
      \<exists>b'. clear b (int i) = Inr b' \<and> ok b' \<and> bits b' = (bits b)[i := False]"
    and find_free: "ok b \<Longrightarrow> False \<in> set (bits b) \<Longrightarrow>
      \<exists>i b'. find_bit b = Inr (int i, b') \<and> i < length (bits b) \<and> \<not> bits b ! i \<and>
        (\<forall>j<i. bits b ! j) \<and> ok b' \<and> bits b' = (bits b)[i := True]"
    and find_full: "ok b \<Longrightarrow> False \<notin> set (bits b) \<Longrightarrow> find_bit b = Inr (-1, b)"
    and numClear_eq: "ok b \<Longrightarrow> numClear b = Inr (int (count_list (bits b) False))"
begin

lemma count_False_pos: "0 < count_list (bits b) False \<longleftrightarrow> False \<in> set (bits b)"
  by (metis count_list_0_iff neq0_conv)

lemma count_False_update:
  "i < length bs \<Longrightarrow> \<not> bs ! i \<Longrightarrow> Suc (count_list (bs[i := True]) False) = count_list bs False"
  by (induction bs arbitrary: i) (auto split: nat.splits)

text \<open>Allocating \<open>n\<close> bits when at least \<open>n\<close> are clear yields \<open>n\<close> distinct bits that were
  clear, and sets exactly those.\<close>

lemma find_n_allocates:
  assumes "ok b" and "n \<le> count_list (bits b) False"
  shows "\<exists>is b'. find_n find_bit n b = Inr (map int is, b') \<and> length is = n \<and> distinct is \<and>
    (\<forall>i\<in>set is. i < length (bits b) \<and> \<not> bits b ! i) \<and> ok b' \<and>
    length (bits b') = length (bits b) \<and>
    (\<forall>j<length (bits b). bits b' ! j = (bits b ! j \<or> j \<in> set is))"
  using assms
proof (induction n arbitrary: b)
  case 0
  then show ?case by auto
next
  case (Suc n)
  then have "False \<in> set (bits b)" using count_False_pos [of b] by simp
  then obtain i b' where f: "find_bit b = Inr (int i, b')" "i < length (bits b)" "\<not> bits b ! i"
      "ok b'" "bits b' = (bits b)[i := True]"
    using find_free [OF Suc.prems(1)] by blast
  then have "n \<le> count_list (bits b') False"
    using Suc.prems(2) count_False_update [of i "bits b"] by simp
  from Suc.IH [OF f(4) this] obtain "is" b'' where g: "find_n find_bit n b' = Inr (map int is, b'')"
      "length is = n" "distinct is" "\<forall>j\<in>set is. j < length (bits b') \<and> \<not> bits b' ! j" "ok b''"
      "length (bits b'') = length (bits b')"
      "\<forall>j<length (bits b'). bits b'' ! j = (bits b' ! j \<or> j \<in> set is)"
    by blast
  have fresh: "i \<notin> set is" using g(4) f(2,5) by auto
  have clear: "\<forall>j\<in>set (i # is). j < length (bits b) \<and> \<not> bits b ! j"
    using g(4) f(2,3,5) by (auto simp: nth_list_update split: if_splits)
  have upd: "\<forall>j<length (bits b). bits b'' ! j = (bits b ! j \<or> j \<in> set (i # is))"
    using g(7) f(2,5) by (auto simp: nth_list_update)
  have "find_n find_bit (Suc n) b = Inr (map int (i # is), b'')"
    using f(1) g(1) by simp
  moreover have "length (i # is) = Suc n" "distinct (i # is)" "length (bits b'') = length (bits b)"
    using f(5) g(2,3,6) fresh by simp_all
  ultimately show ?case using clear upd g(5) by blast
qed

end


section \<open>The bitmap implements the interface\<close>

definition BitMap_ok :: "BitMap \<Rightarrow> bool" where
  "BitMap_ok bm \<longleftrightarrow> 0 \<le> numBits bm \<and> numWords bm = divRoundUp (numBits bm) BitsInWord \<and>
     length (bmap bm) = nat (numWords bm)"

definition BitMap_bit :: "BitMap \<Rightarrow> nat \<Rightarrow> bool" where
  "BitMap_bit bm i = bit (bmap bm ! (i div 32)) (i mod 32)"

definition BitMap_bits :: "BitMap \<Rightarrow> bool list" where
  "BitMap_bits bm = map (BitMap_bit bm) [0..<nat (numBits bm)]"

lemma length_BitMap_bits [simp, len_simps]: "length (BitMap_bits bm) = nat (numBits bm)"
  by (simp add: BitMap_bits_def)

lemma nth_BitMap_bits [simp]: "i < nat (numBits bm) \<Longrightarrow> BitMap_bits bm ! i = BitMap_bit bm i"
  by (simp add: BitMap_bits_def)

lemma BitMap_word_index:
  assumes "BitMap_ok bm" "i < nat (numBits bm)"
  shows "i div 32 < length (bmap bm)"
proof -
  have "numBits bm \<le> numWords bm * 32"
    using assms divRoundUp_bounds(1) [of "numBits bm" 32] by (simp add: BitMap_ok_def BitsInWord_def)
  then have "i < length (bmap bm) * 32" using assms by (simp add: BitMap_ok_def)
  then show ?thesis by (simp add: less_mult_imp_div_less)
qed

lemma bit_index_of_nat:
  "int i sdiv BitsInWord = int (i div 32)" "bit_mask (int i) = push_bit (i mod 32) 1"
  by (simp_all add: BitsInWord_def bit_mask_def zdiv_int nat_mod_as_int)

lemma BitMap_bits_update:
  assumes "BitMap_ok bm" "i < nat (numBits bm)"
    and w: "\<And>k. k < 32 \<Longrightarrow> bit w k = (if k = i mod 32 then v else bit (bmap bm ! (i div 32)) k)"
  shows "BitMap_bits (bm\<lparr>bmap := (bmap bm)[i div 32 := w]\<rparr>) = (BitMap_bits bm)[i := v]"
proof (rule nth_equalityI)
  fix j assume "j < length (BitMap_bits (bm\<lparr>bmap := (bmap bm)[i div 32 := w]\<rparr>))"
  then have j: "j < nat (numBits bm)" by simp
  have eq: "j = i" if "j div 32 = i div 32" "j mod 32 = i mod 32"
    using that by (metis div_mult_mod_eq)
  show "BitMap_bits (bm\<lparr>bmap := (bmap bm)[i div 32 := w]\<rparr>) ! j = (BitMap_bits bm)[i := v] ! j"
    using j assms(2) BitMap_word_index [OF assms(1,2)] w [of "j mod 32"] eq
    by (auto simp: BitMap_bit_def nth_list_update)
qed simp

lemma BitMap_Test_in:
  assumes "BitMap_ok bm" "i < nat (numBits bm)"
  shows "BitMap_Test bm (int i) = Inr (BitMap_bit bm i)"
  using assms BitMap_word_index [OF assms]
  by (simp add: BitMap_Test_def bit_index_of_nat read_array_def BitMap_bit_def
      bit_iff_and_push_bit_not_eq_0 ASSERT_def del: of_nat_div)

lemma BitMap_ok_update: "BitMap_ok bm \<Longrightarrow> BitMap_ok (bm\<lparr>bmap := (bmap bm)[k := w]\<rparr>)"
  by (simp add: BitMap_ok_def)

lemma BitMap_Mark_in:
  assumes "BitMap_ok bm" "i < nat (numBits bm)"
  shows "\<exists>bm'. BitMap_Mark bm (int i) = Inr bm' \<and> BitMap_ok bm' \<and>
           BitMap_bits bm' = (BitMap_bits bm)[i := True] \<and> numBits bm' = numBits bm"
proof -
  let ?w = "bmap bm ! (i div 32) OR push_bit (i mod 32) 1"
  have "BitMap_Mark bm (int i) = Inr (bm\<lparr>bmap := (bmap bm)[i div 32 := ?w]\<rparr>)"
    using assms BitMap_word_index [OF assms]
    by (simp add: BitMap_Mark_def bit_index_of_nat read_array_def write_array_def ASSERT_def
        del: of_nat_div)
  moreover have "BitMap_bits (bm\<lparr>bmap := (bmap bm)[i div 32 := ?w]\<rparr>) = (BitMap_bits bm)[i := True]"
    by (rule BitMap_bits_update [OF assms]) (auto simp: bit_or_iff bit_exp_iff)
  ultimately show ?thesis using BitMap_ok_update [OF assms(1)] by simp
qed

lemma BitMap_Clear_in:
  assumes "BitMap_ok bm" "i < nat (numBits bm)"
  shows "\<exists>bm'. BitMap_Clear bm (int i) = Inr bm' \<and> BitMap_ok bm' \<and>
           BitMap_bits bm' = (BitMap_bits bm)[i := False] \<and> numBits bm' = numBits bm"
proof -
  let ?w = "bmap bm ! (i div 32) AND NOT (push_bit (i mod 32) 1)"
  have "BitMap_Clear bm (int i) = Inr (bm\<lparr>bmap := (bmap bm)[i div 32 := ?w]\<rparr>)"
    using assms BitMap_word_index [OF assms]
    by (simp add: BitMap_Clear_def bit_index_of_nat read_array_def write_array_def ASSERT_def
        del: of_nat_div)
  moreover have "BitMap_bits (bm\<lparr>bmap := (bmap bm)[i div 32 := ?w]\<rparr>) = (BitMap_bits bm)[i := False]"
    by (rule BitMap_bits_update [OF assms])
       (auto simp: bit_and_iff bit_not_iff bit_exp_iff)
  ultimately show ?thesis using BitMap_ok_update [OF assms(1)] by simp
qed

lemma BitMap_out_of_range:
  assumes "\<not> (0 \<le> k \<and> k < numBits bm)"
  shows "BitMap_Test bm k = Inl AssertFailed" "BitMap_Mark bm k = Inl AssertFailed"
    "BitMap_Clear bm k = Inl AssertFailed"
  using assms by (auto simp: BitMap_Test_def BitMap_Mark_def BitMap_Clear_def ASSERT_def)

text \<open>The loops over \<open>[0..numBits - 1]\<close>, read over natural indices.\<close>

lemma upto_map_int: "0 \<le> n \<Longrightarrow> [0..n - 1] = map int [0..<nat n]"
proof (induction "nat n" arbitrary: n)
  case (Suc m)
  then have n: "n = int m + 1" "0 \<le> n - 1" by linarith+
  have "[0..n - 1] = [0..n - 1 - 1] @ [n - 1]" using n by (simp add: upto_rec2)
  also have "[0..n - 1 - 1] = map int [0..<m]" using Suc.hyps(1) [of "n - 1"] n by simp
  finally have "[0..n - 1] = map int [0..<Suc m]" using n(1) by simp
  then show ?case by (simp only: Suc.hyps(2))
qed simp

lemma BitMap_Find_loop_eq:
  assumes "BitMap_ok bm" "\<forall>i\<in>set is. i < nat (numBits bm)"
  shows "BitMap_Find_loop (map int is) bm =
    (case filter (\<lambda>i. \<not> BitMap_bit bm i) is of [] \<Rightarrow> Inr (-1, bm)
     | i # _ \<Rightarrow> bindR (BitMap_Mark bm (int i)) (\<lambda>bm'. Inr (int i, bm')))"
  using assms by (induction "is") (auto simp: BitMap_Test_in)

lemma BitMap_NumClear_loop_eq:
  assumes "BitMap_ok bm" "\<forall>i\<in>set is. i < nat (numBits bm)"
  shows "BitMap_NumClear_loop (map int is) c bm =
    Inr (c + int (count_list (map (BitMap_bit bm) is) False))"
  using assms by (induction "is" arbitrary: c) (auto simp: BitMap_Test_in)

lemma BitMap_Print_loop_eq:
  assumes "BitMap_ok bm" "\<forall>i\<in>set is. i < nat (numBits bm)"
  shows "BitMap_Print_loop (map int is) bm = Inr (map int (filter (BitMap_bit bm) is))"
  using assms by (induction "is") (auto simp: BitMap_Test_in)

lemma BitMap_clear_all_eq:
  assumes "BitMap_ok bm" "\<forall>i\<in>set is. i < nat (numBits bm)"
  shows "\<exists>bm'. BitMap_clear_all (map int is) bm = Inr bm' \<and> BitMap_ok bm' \<and> numBits bm' = numBits bm \<and>
    (\<forall>j<nat (numBits bm). BitMap_bit bm' j = (BitMap_bit bm j \<and> j \<notin> set is))"
  using assms
proof (induction "is" arbitrary: bm)
  case (Cons i "is")
  obtain bm1 where c: "BitMap_Clear bm (int i) = Inr bm1" "BitMap_ok bm1"
      "BitMap_bits bm1 = (BitMap_bits bm)[i := False]" "numBits bm1 = numBits bm"
    using BitMap_Clear_in [of bm i] Cons.prems by auto
  have b1: "BitMap_bit bm1 j = (BitMap_bit bm j \<and> j \<noteq> i)" if "j < nat (numBits bm)" for j
    using arg_cong [OF c(3), of "\<lambda>xs. xs ! j"] that c(4) Cons.prems(2)
    by (auto simp: nth_list_update)
  obtain bm' where "BitMap_clear_all (map int is) bm1 = Inr bm'" "BitMap_ok bm'"
      "numBits bm' = numBits bm1"
      "\<forall>j<nat (numBits bm1). BitMap_bit bm' j = (BitMap_bit bm1 j \<and> j \<notin> set is)"
    using Cons.IH [OF c(2)] Cons.prems c(4) by auto
  with c b1 show ?case by auto
qed simp

interpretation bitmap: bit_table BitMap_bits BitMap_ok BitMap_Test BitMap_Mark BitMap_Clear
  BitMap_Find BitMap_NumClear
proof
  fix bm :: BitMap assume ok: "BitMap_ok bm"
  show "BitMap_Test bm (int i) = Inr (BitMap_bits bm ! i)" if "i < length (BitMap_bits bm)" for i
    using that ok by (simp add: BitMap_Test_in)
  show "BitMap_Test bm k = Inl AssertFailed" if "\<not> (0 \<le> k \<and> k < int (length (BitMap_bits bm)))" for k
    using that ok by (intro BitMap_out_of_range) (auto simp: BitMap_ok_def)
  show "\<exists>b'. BitMap_Mark bm (int i) = Inr b' \<and> BitMap_ok b' \<and> BitMap_bits b' = (BitMap_bits bm)[i := True]"
    if "i < length (BitMap_bits bm)" for i
    using BitMap_Mark_in [OF ok, of i] that by auto
  show "\<exists>b'. BitMap_Clear bm (int i) = Inr b' \<and> BitMap_ok b' \<and> BitMap_bits b' = (BitMap_bits bm)[i := False]"
    if "i < length (BitMap_bits bm)" for i
    using BitMap_Clear_in [OF ok, of i] that by auto
  have find: "BitMap_Find bm = (case filter (\<lambda>i. \<not> BitMap_bit bm i) [0..<nat (numBits bm)] of
      [] \<Rightarrow> Inr (-1, bm) | i # _ \<Rightarrow> bindR (BitMap_Mark bm (int i)) (\<lambda>bm'. Inr (int i, bm')))"
    using ok BitMap_Find_loop_eq [OF ok, of "[0..<nat (numBits bm)]"]
    by (simp add: BitMap_Find_def upto_map_int BitMap_ok_def)
  show "\<exists>i b'. BitMap_Find bm = Inr (int i, b') \<and> i < length (BitMap_bits bm) \<and> \<not> BitMap_bits bm ! i \<and>
        (\<forall>j<i. BitMap_bits bm ! j) \<and> BitMap_ok b' \<and> BitMap_bits b' = (BitMap_bits bm)[i := True]"
    if "False \<in> set (BitMap_bits bm)"
  proof -
    have "\<exists>i. i < nat (numBits bm) \<and> \<not> BitMap_bit bm i"
      using that by (auto simp: BitMap_bits_def)
    then obtain i where i: "i < nat (numBits bm)" "\<not> BitMap_bit bm i" "\<forall>j<i. BitMap_bit bm j"
      using exists_least_iff [of "\<lambda>i. i < nat (numBits bm) \<and> \<not> BitMap_bit bm i"] by auto
    have "filter (\<lambda>i. \<not> BitMap_bit bm i) [0..<nat (numBits bm)] =
        i # filter (\<lambda>i. \<not> BitMap_bit bm i) [Suc i..<nat (numBits bm)]"
      using i upt_add_eq_append [of 0 i "nat (numBits bm) - i"]
      by (simp add: upt_conv_Cons filter_empty_conv)
    with find i BitMap_Mark_in [OF ok i(1)] show ?thesis by auto
  qed
  show "BitMap_Find bm = Inr (-1, bm)" if "False \<notin> set (BitMap_bits bm)"
  proof -
    have "filter (\<lambda>i. \<not> BitMap_bit bm i) [0..<nat (numBits bm)] = []"
      using that by (auto simp: filter_empty_conv BitMap_bits_def)
    with find show ?thesis by simp
  qed
  show "BitMap_NumClear bm = Inr (int (count_list (BitMap_bits bm) False))"
    using ok BitMap_NumClear_loop_eq [OF ok, of "[0..<nat (numBits bm)]" 0]
    by (simp add: BitMap_NumClear_def upto_map_int BitMap_ok_def BitMap_bits_def)
qed

lemma BitMap_new_spec:
  assumes "0 \<le> n"
  shows "\<exists>bm. BitMap_new garbage n = Inr bm \<and> BitMap_ok bm \<and> numBits bm = n \<and>
           BitMap_bits bm = replicate (nat n) False"
proof -
  let ?b0 = "\<lparr>numBits = n, numWords = divRoundUp n BitsInWord,
      bmap = map garbage [0..<nat (divRoundUp n BitsInWord)]\<rparr>"
  have "BitMap_ok ?b0" using assms by (simp add: BitMap_ok_def)
  from BitMap_clear_all_eq [OF this, of "[0..<nat n]"] obtain bm where
      bm: "BitMap_clear_all (map int [0..<nat n]) ?b0 = Inr bm" "BitMap_ok bm" "numBits bm = n"
      "\<forall>j<nat n. \<not> BitMap_bit bm j"
    by auto
  have "BitMap_bits bm = replicate (nat n) False"
    by (rule nth_equalityI) (use bm in auto)
  then show ?thesis using bm assms by (auto simp: BitMap_new_def upto_map_int Let_def)
qed



section \<open>Properties\<close>

text \<open>On a well-formed bitmap \<open>Find\<close> returns and sets the lowest clear bit and changes
  no other bit, or returns -1 and changes nothing when every bit is set.\<close>

theorem BitMap_Find_correct:
  assumes "BitMap_ok bm"
  shows "(\<exists>i bm'. BitMap_Find bm = Inr (int i, bm') \<and> i < nat (numBits bm) \<and> \<not> BitMap_bits bm ! i \<and>
       (\<forall>j<i. BitMap_bits bm ! j) \<and> BitMap_ok bm' \<and> BitMap_bits bm' = (BitMap_bits bm)[i := True]) \<or>
     (\<forall>i<nat (numBits bm). BitMap_bits bm ! i) \<and> BitMap_Find bm = Inr (-1, bm)"
proof (cases "False \<in> set (BitMap_bits bm)")
  case True
  with bitmap.find_free [OF assms] show ?thesis by simp
next
  case False
  then have "\<forall>i<nat (numBits bm). BitMap_bits bm ! i"
    by (metis length_BitMap_bits nth_mem)
  with bitmap.find_full [OF assms False] show ?thesis by blast
qed

definition sample_bitmap :: BitMap where
  "sample_bitmap = \<lparr>numBits = 3, numWords = 1, bmap = [1]\<rparr>"

lemma sample_bitmap_ok: "BitMap_ok sample_bitmap"
  by (simp add: BitMap_ok_def sample_bitmap_def divRoundUp_def BitsInWord_def)

theorem BitMap_Find_correct_witness:
  "(\<exists>i bm'. BitMap_Find sample_bitmap = Inr (int i, bm') \<and> i < nat (numBits sample_bitmap) \<and>
       \<not> BitMap_bits sample_bitmap ! i \<and> (\<forall>j<i. BitMap_bits sample_bitmap ! j) \<and> BitMap_ok bm' \<and>
       BitMap_bits bm' = (BitMap_bits sample_bitmap)[i := True]) \<or>
     (\<forall>i<nat (numBits sample_bitmap). BitMap_bits sample_bitmap ! i) \<and>
       BitMap_Find sample_bitmap = Inr (-1, sample_bitmap)"
  by (rule BitMap_Find_correct [OF sample_bitmap_ok])

text \<open>C34.  \<open>NumClear\<close> counts the clear bits, and when it is at least \<open>n\<close>, \<open>n\<close> calls of
  \<open>Find\<close> return \<open>n\<close> different bits that were clear and set exactly those; this is what the
  file system and the address spaces rely on when they check \<open>NumClear\<close> before allocating.\<close>

theorem BitMap_allocates:
  assumes "BitMap_ok bm" "BitMap_NumClear bm = Inr c" "int n \<le> c"
  shows "\<exists>is bm'. find_n BitMap_Find n bm = Inr (map int is, bm') \<and> length is = n \<and> distinct is \<and>
    (\<forall>i\<in>set is. i < nat (numBits bm) \<and> \<not> BitMap_bits bm ! i) \<and> BitMap_ok bm' \<and>
    (\<forall>j<nat (numBits bm). BitMap_bits bm' ! j = (BitMap_bits bm ! j \<or> j \<in> set is))"
proof -
  have "n \<le> count_list (BitMap_bits bm) False"
    using assms(2,3) bitmap.numClear_eq [OF assms(1)] by simp
  from bitmap.find_n_allocates [OF assms(1) this] show ?thesis by auto
qed

theorem BitMap_allocates_witness:
  "\<exists>c is bm'. BitMap_NumClear sample_bitmap = Inr c \<and>
    find_n BitMap_Find 2 sample_bitmap = Inr (map int is, bm') \<and> length is = 2 \<and> distinct is \<and>
    (\<forall>i\<in>set is. i < nat (numBits sample_bitmap) \<and> \<not> BitMap_bits sample_bitmap ! i) \<and> BitMap_ok bm'"
proof -
  have "BitMap_NumClear sample_bitmap = Inr 2"
    using bitmap.numClear_eq [OF sample_bitmap_ok]
    by (simp add: BitMap_bits_def sample_bitmap_def BitMap_bit_def BitsInWord_def upt_rec)
  with BitMap_allocates [OF sample_bitmap_ok, of 2 2] show ?thesis by auto
qed

end
