(* ===== verification/Linked_List.thy ===== *)
theory Linked_List
  imports Nachos_Prelude "HOL-Library.Multiset"
begin

text \<open>
  The singly linked list of \<^verbatim>\<open>threads/list.cc\<close>, with its elements on a heap: every
  \<open>ListElement\<close> lives at an address, and \<open>first\<close>, \<open>last\<close> and \<open>next\<close> are pointers.  The
  abstraction is the sequence of (item, key) pairs; the locale \<open>keyed_list\<close> is the
  interface the ready list, the semaphore queues and the pending-interrupt list rely on,
  and it is interpreted both on the pointers and on the sequences the other theories use.
\<close>


section \<open>List elements and pointers\<close>

record 'a ListElement =
  nextp :: "nat option"
  key :: int
  item :: 'a

record 'a List =
  firstp :: "nat option"
  lastp :: "nat option"
  cells :: "nat \<rightharpoonup> 'a ListElement"
  brk :: nat

text \<open>\<open>new ListElement\<close> returns an address that was never used before.\<close>

definition ListElement_new :: "'a \<Rightarrow> int \<Rightarrow> 'a ListElement" where
  "ListElement_new itemPtr sortKey = \<lparr>nextp = None, key = sortKey, item = itemPtr\<rparr>"

definition alloc_element :: "'a List \<Rightarrow> 'a \<Rightarrow> int \<Rightarrow> nat \<times> 'a List" where
  "alloc_element l x k =
     (brk l, l\<lparr>cells := (cells l)(brk l \<mapsto> ListElement_new x k), brk := Suc (brk l)\<rparr>)"

definition set_next :: "'a List \<Rightarrow> nat option \<Rightarrow> nat option \<Rightarrow> 'a List res" where
  "set_next l p q = (case p of None \<Rightarrow> Inl NullDeref
     | Some a \<Rightarrow> (case cells l a of None \<Rightarrow> Inl NullDeref
        | Some e \<Rightarrow> Inr (l\<lparr>cells := (cells l)(a \<mapsto> e\<lparr>nextp := q\<rparr>)\<rparr>)))"

definition deref :: "'a List \<Rightarrow> nat option \<Rightarrow> 'a ListElement res" where
  "deref l p = (case p of None \<Rightarrow> Inl NullDeref
     | Some a \<Rightarrow> (case cells l a of None \<Rightarrow> Inl NullDeref | Some e \<Rightarrow> Inr e))"

definition List_new :: "'a List" where
  "List_new = \<lparr>firstp = None, lastp = None, cells = Map.empty, brk = 0\<rparr>"

definition List_IsEmpty :: "'a List \<Rightarrow> bool" where
  "List_IsEmpty l \<longleftrightarrow> firstp l = None"

definition List_Append :: "'a List \<Rightarrow> 'a \<Rightarrow> 'a List res" where
  "List_Append l x =
     (let (element, l1) = alloc_element l x 0 in
      if List_IsEmpty l1 then Inr (l1\<lparr>firstp := Some element, lastp := Some element\<rparr>)
      else bindR (set_next l1 (lastp l1) (Some element)) (\<lambda>l2.
        Inr (l2\<lparr>lastp := Some element\<rparr>)))"

definition List_Prepend :: "'a List \<Rightarrow> 'a \<Rightarrow> 'a List res" where
  "List_Prepend l x =
     (let (element, l1) = alloc_element l x 0 in
      if List_IsEmpty l1 then Inr (l1\<lparr>firstp := Some element, lastp := Some element\<rparr>)
      else bindR (set_next l1 (Some element) (firstp l1)) (\<lambda>l2.
        Inr (l2\<lparr>firstp := Some element\<rparr>)))"

text \<open>The result carries the removed item and its key, which the code stores through
  \<open>keyPtr\<close> when that pointer is not null.\<close>

definition List_SortedRemove :: "'a List \<Rightarrow> (('a \<times> int) option \<times> 'a List) res" where
  "List_SortedRemove l =
     (if List_IsEmpty l then Inr (None, l)
      else bindR (deref l (firstp l)) (\<lambda>element.
        let thing = item element;
            l1 = (if firstp l = lastp l then l\<lparr>firstp := None, lastp := None\<rparr>
                  else l\<lparr>firstp := nextp element\<rparr>)
        in Inr (Some (thing, key element), l1\<lparr>cells := (cells l1)(the (firstp l) := None)\<rparr>)))"

definition List_Remove :: "'a List \<Rightarrow> ('a option \<times> 'a List) res" where
  "List_Remove l = bindR (List_SortedRemove l) (\<lambda>(r, l'). Inr (map_option fst r, l'))"

text \<open>The loops over \<open>next\<close> pointers end only on an acyclic list, so they are partial.\<close>

partial_function (option) List_find_place :: "'a List \<Rightarrow> int \<Rightarrow> nat option \<Rightarrow> (nat option \<times> bool) res option" where
  "List_find_place l sortKey ptr =
     (case deref l ptr of Inl e \<Rightarrow> Some (Inl e)
      | Inr pe \<Rightarrow>
        (if nextp pe = None then Some (Inr (ptr, False))
         else case deref l (nextp pe) of Inl e \<Rightarrow> Some (Inl e)
          | Inr ne \<Rightarrow> (if sortKey < key ne then Some (Inr (ptr, True))
                      else List_find_place l sortKey (nextp pe))))"

definition List_SortedInsert :: "'a List \<Rightarrow> 'a \<Rightarrow> int \<Rightarrow> 'a List res option" where
  "List_SortedInsert l x sortKey =
     (let (element, l1) = alloc_element l x sortKey in
      if List_IsEmpty l1 then Some (Inr (l1\<lparr>firstp := Some element, lastp := Some element\<rparr>))
      else case deref l1 (firstp l1) of Inl e \<Rightarrow> Some (Inl e)
       | Inr fe \<Rightarrow>
         (if sortKey < key fe then
            Some (bindR (set_next l1 (Some element) (firstp l1)) (\<lambda>l2.
              Inr (l2\<lparr>firstp := Some element\<rparr>)))
          else case List_find_place l1 sortKey (firstp l1) of None \<Rightarrow> None
           | Some (Inl e) \<Rightarrow> Some (Inl e)
           | Some (Inr (ptr, True)) \<Rightarrow>
               Some (bindR (deref l1 ptr) (\<lambda>pe.
                 bindR (set_next l1 (Some element) (nextp pe)) (\<lambda>l2.
                 set_next l2 ptr (Some element))))
           | Some (Inr (ptr, False)) \<Rightarrow>
               Some (bindR (set_next l1 (lastp l1) (Some element)) (\<lambda>l2.
                 Inr (l2\<lparr>lastp := Some element\<rparr>)))))"

partial_function (option) List_Mapcar_from :: "('a \<Rightarrow> 's \<Rightarrow> 's) \<Rightarrow> 'a List \<Rightarrow> nat option \<Rightarrow> 's \<Rightarrow> 's res option" where
  "List_Mapcar_from func l ptr s =
     (if ptr = None then Some (Inr s)
      else case deref l ptr of Inl e \<Rightarrow> Some (Inl e)
       | Inr pe \<Rightarrow> List_Mapcar_from func l (nextp pe) (func (item pe) s))"

definition List_Mapcar :: "('a \<Rightarrow> 's \<Rightarrow> 's) \<Rightarrow> 'a List \<Rightarrow> 's \<Rightarrow> 's res option" where
  "List_Mapcar func l s = List_Mapcar_from func l (firstp l) s"

text \<open>The destructor removes elements until \<open>Remove\<close> returns \<open>NULL\<close>.\<close>

partial_function (option) List_delete :: "'a List \<Rightarrow> 'a List res option" where
  "List_delete l =
     (case List_Remove l of Inl e \<Rightarrow> Some (Inl e)
      | Inr (r, l') \<Rightarrow> (if r = None then Some (Inr l') else List_delete l'))"


section \<open>The sequences the list stands for\<close>

text \<open>The same operations on the sequence of (item, key) pairs.  The scheduler, the
  semaphores and the interrupt simulation are written over these; the interpretation
  below shows that the pointer code computes them.\<close>

definition seq_Append :: "('a \<times> int) list \<Rightarrow> 'a \<Rightarrow> ('a \<times> int) list" where
  "seq_Append xs x = xs @ [(x, 0)]"

definition seq_Prepend :: "('a \<times> int) list \<Rightarrow> 'a \<Rightarrow> ('a \<times> int) list" where
  "seq_Prepend xs x = (x, 0) # xs"

fun seq_SortedInsert :: "('a \<times> int) list \<Rightarrow> 'a \<Rightarrow> int \<Rightarrow> ('a \<times> int) list" where
  "seq_SortedInsert [] x k = [(x, k)]"
| "seq_SortedInsert ((y, j) # ys) x k =
     (if k < j then (x, k) # (y, j) # ys else (y, j) # seq_SortedInsert ys x k)"

fun seq_SortedRemove :: "('a \<times> int) list \<Rightarrow> ('a \<times> int) option \<times> ('a \<times> int) list" where
  "seq_SortedRemove [] = (None, [])"
| "seq_SortedRemove (x # xs) = (Some x, xs)"

definition seq_Remove :: "('a \<times> int) list \<Rightarrow> 'a option \<times> ('a \<times> int) list" where
  "seq_Remove xs = (let (r, ys) = seq_SortedRemove xs in (map_option fst r, ys))"


section \<open>Abstraction of the pointer structure\<close>

primrec chain :: "(nat \<rightharpoonup> 'a ListElement) \<Rightarrow> nat option \<Rightarrow> nat list \<Rightarrow> nat option \<Rightarrow> bool" where
  "chain h p [] q \<longleftrightarrow> p = q"
| "chain h p (a # as) q \<longleftrightarrow> p = Some a \<and> (\<exists>e. h a = Some e \<and> chain h (nextp e) as q)"

definition entry :: "(nat \<rightharpoonup> 'a ListElement) \<Rightarrow> nat \<Rightarrow> 'a \<times> int" where
  "entry h a = (item (the (h a)), key (the (h a)))"

definition List_rep :: "'a List \<Rightarrow> nat list \<Rightarrow> ('a \<times> int) list \<Rightarrow> bool" where
  "List_rep l as xs \<longleftrightarrow> chain (cells l) (firstp l) as None \<and> distinct as \<and>
     dom (cells l) = set as \<and> (\<forall>a\<in>set as. a < brk l) \<and>
     lastp l = (if as = [] then None else Some (last as)) \<and> xs = map (entry (cells l)) as"

definition List_ok :: "'a List \<Rightarrow> bool" where
  "List_ok l \<longleftrightarrow> (\<exists>as xs. List_rep l as xs)"

partial_function (option) List_collect :: "'a List \<Rightarrow> nat option \<Rightarrow> ('a \<times> int) list option" where
  "List_collect l p = (case p of None \<Rightarrow> Some []
     | Some a \<Rightarrow> (case cells l a of None \<Rightarrow> Some []
        | Some e \<Rightarrow> Option.bind (List_collect l (nextp e)) (\<lambda>xs. Some ((item e, key e) # xs))))"

definition List_seq :: "'a List \<Rightarrow> ('a \<times> int) list" where
  "List_seq l = (case List_collect l (firstp l) of Some xs \<Rightarrow> xs | None \<Rightarrow> [])"

lemma chain_append [simp]: "chain h p (as @ bs) q \<longleftrightarrow> (\<exists>r. chain h p as r \<and> chain h r bs q)"
  by (induction as arbitrary: p) auto

lemma chain_upd [simp]: "a \<notin> set as \<Longrightarrow> chain (h(a := v)) p as q = chain h p as q"
  by (induction as arbitrary: p) auto

lemma entries_upd: "a \<notin> set as \<Longrightarrow> map (entry (h(a := v))) as = map (entry h) as"
  by (auto simp: entry_def)

lemma chain_collect:
  "chain (cells l) p as None \<Longrightarrow> List_collect l p = Some (map (entry (cells l)) as)"
  by (induction as arbitrary: p) (auto simp: List_collect.simps [of l] entry_def)

lemma List_rep_seq: "List_rep l as xs \<Longrightarrow> List_seq l = xs"
  by (auto simp: List_rep_def List_seq_def dest!: chain_collect)

lemma List_okE:
  assumes "List_ok l"
  obtains as where "List_rep l as (List_seq l)"
  using assms List_rep_seq by (auto simp: List_ok_def)

text \<open>Linking a fresh element at the front, and after a given element.\<close>

lemma List_rep_insert_front:
  assumes "List_rep l as xs"
    and l': "cells l' = (cells l)(brk l \<mapsto> \<lparr>nextp = firstp l, key = k, item = x\<rparr>)"
      "brk l' = Suc (brk l)" "firstp l' = Some (brk l)"
      "lastp l' = (if as = [] then Some (brk l) else lastp l)"
  shows "List_rep l' (brk l # as) ((x, k) # xs)"
proof -
  have n: "brk l \<notin> set as" using assms by (auto simp: List_rep_def)
  show ?thesis using assms n
    by (auto simp: List_rep_def entries_upd less_Suc_eq entry_def)
qed

lemma List_rep_insert_after:
  assumes r: "List_rep l (us @ b # vs) xs" and e: "cells l b = Some e"
    and l': "cells l' = (cells l)(brk l \<mapsto> \<lparr>nextp = nextp e, key = k, item = x\<rparr>,
        b \<mapsto> e\<lparr>nextp := Some (brk l)\<rparr>)" "brk l' = Suc (brk l)" "firstp l' = firstp l"
      "lastp l' = (if vs = [] then Some (brk l) else lastp l)"
  shows "List_rep l' (us @ b # brk l # vs)
      (map (entry (cells l)) (us @ [b]) @ (x, k) # map (entry (cells l)) vs)"
proof -
  have n: "brk l \<notin> set us" "brk l \<noteq> b" "brk l \<notin> set vs"
    using r by (auto simp: List_rep_def)
  have d: "b \<notin> set us" "b \<notin> set vs" "distinct us" "distinct vs" "set us \<inter> set vs = {}"
    using r by (auto simp: List_rep_def)
  have dom: "dom (cells l) = insert b (set us \<union> set vs)"
    using r by (simp add: List_rep_def)
  have "chain (cells l') (firstp l') (us @ b # brk l # vs) None"
    using r e n d l' by (auto simp: List_rep_def)
  moreover have "map (entry (cells l')) (us @ b # brk l # vs) =
      map (entry (cells l)) (us @ [b]) @ (x, k) # map (entry (cells l)) vs"
    using n d e l' by (simp add: entries_upd) (simp add: entry_def)
  moreover have "dom (cells l') = set (us @ b # brk l # vs)"
    using dom l' by auto
  ultimately show ?thesis using r n d l'
    by (auto simp: List_rep_def less_Suc_eq)
qed

lemma List_rep_first:
  assumes "List_rep l as xs" "as \<noteq> []"
  obtains e where "firstp l = Some (hd as)" "cells l (hd as) = Some e"
    "chain (cells l) (nextp e) (tl as) None" "hd xs = (item e, key e)"
  using assms by (cases as) (auto simp: List_rep_def entry_def)

lemma List_rep_last:
  assumes "List_rep l as xs" "as \<noteq> []"
  obtains bs z e where "as = bs @ [z]" "lastp l = Some z" "cells l z = Some e" "nextp e = None"
proof -
  obtain bs z where as: "as = bs @ [z]" using assms(2) by (metis rev_exhaust)
  with assms(1) that show ?thesis by (auto simp: List_rep_def)
qed

lemma List_IsEmpty_rep: "List_rep l as xs \<Longrightarrow> List_IsEmpty l \<longleftrightarrow> xs = []"
  by (cases as) (auto simp: List_rep_def List_IsEmpty_def)



section \<open>The operations refine the sequence operations\<close>

lemma List_new_rep: "List_rep List_new [] []"
  by (simp add: List_rep_def List_new_def)

lemmas List_link_defs = alloc_element_def List_IsEmpty_def ListElement_new_def set_next_def
  Let_def

lemma List_rep_firstp: "List_rep l as xs \<Longrightarrow> firstp l = None \<longleftrightarrow> as = []"
  by (cases as) (auto simp: List_rep_def)

lemma List_Append_rep:
  assumes "List_rep l as xs"
  shows "\<exists>l'. List_Append l x = Inr l' \<and> List_rep l' (as @ [brk l]) (seq_Append xs x)"
proof (cases "as = []")
  case True
  then have "firstp l = None" "xs = []" using assms by (auto simp: List_rep_def)
  then show ?thesis using True List_rep_insert_front [OF assms, of _ 0 x]
    by (simp add: List_Append_def List_link_defs seq_Append_def)
next
  case False
  obtain bs z e where as: "as = bs @ [z]" and z: "lastp l = Some z" "cells l z = Some e" "nextp e = None"
    by (rule List_rep_last [OF assms False])
  have "z \<in> set as" using as by simp
  then have ne: "z \<noteq> brk l" using assms by (auto simp: List_rep_def)
  have ne2: "firstp l \<noteq> None" using List_rep_firstp [OF assms] False by simp
  have xs: "xs = map (entry (cells l)) (bs @ [z])" using assms as by (simp add: List_rep_def)
  have r: "List_rep l (bs @ z # []) xs" using assms as by simp
  show ?thesis using List_rep_insert_after [OF r z(2), of _ 0 x] as z ne ne2 xs
    by (auto simp: List_Append_def List_link_defs seq_Append_def)
qed

lemma List_Prepend_rep:
  assumes "List_rep l as xs"
  shows "\<exists>l'. List_Prepend l x = Inr l' \<and> List_rep l' (brk l # as) (seq_Prepend xs x)"
  using List_rep_insert_front [OF assms, of _ 0 x] List_rep_firstp [OF assms]
  by (cases "as = []") (auto simp: List_Prepend_def List_link_defs seq_Prepend_def)

lemma List_SortedRemove_rep:
  assumes "List_rep l as xs"
  shows "\<exists>l'. List_SortedRemove l = Inr (fst (seq_SortedRemove xs), l') \<and>
           List_rep l' (tl as) (snd (seq_SortedRemove xs))"
proof (cases as)
  case Nil
  then show ?thesis using assms by (auto simp: List_rep_def List_SortedRemove_def List_IsEmpty_def)
next
  case (Cons a bs)
  then obtain e where e: "firstp l = Some a" "cells l a = Some e" "chain (cells l) (nextp e) bs None"
    using assms by (auto simp: List_rep_def)
  have xs: "xs = (item e, key e) # map (entry (cells l)) bs"
    using assms Cons e by (simp add: List_rep_def entry_def)
  have a: "a \<notin> set bs" "distinct bs" "dom (cells l) = insert a (set bs)"
      "lastp l = Some (last (a # bs))" "\<forall>c\<in>set bs. c < brk l"
    using assms Cons by (auto simp: List_rep_def)
  have eq: "firstp l = lastp l \<longleftrightarrow> bs = []"
    using a e by auto
  let ?l' = "(if bs = [] then l\<lparr>firstp := None, lastp := None\<rparr> else l\<lparr>firstp := nextp e\<rparr>)
      \<lparr>cells := (cells l)(a := None)\<rparr>"
  have "List_SortedRemove l = Inr (Some (item e, key e), ?l')"
    using e eq by (auto simp: List_SortedRemove_def List_IsEmpty_def deref_def Let_def)
  moreover have "List_rep ?l' bs (map (entry (cells l)) bs)"
    using a e by (auto simp: List_rep_def entries_upd)
  ultimately show ?thesis using xs Cons by simp
qed

lemma List_Remove_rep:
  assumes "List_rep l as xs"
  shows "\<exists>l'. List_Remove l = Inr (fst (seq_Remove xs), l') \<and> List_rep l' (tl as) (snd (seq_Remove xs))"
  using List_SortedRemove_rep [OF assms]
  by (auto simp: List_Remove_def seq_Remove_def split: prod.splits)

lemma seq_SortedInsert_split:
  "\<forall>p\<in>set ps. snd p \<le> k \<Longrightarrow> qs = [] \<or> k < snd (hd qs) \<Longrightarrow>
     seq_SortedInsert (ps @ qs) x k = ps @ (x, k) # qs"
proof (induction ps)
  case Nil
  then show ?case by (cases qs) auto
qed auto

lemma List_find_place_chain:
  assumes "chain (cells l) (Some a) (a # as) None" "key (the (cells l a)) \<le> k"
  shows "\<exists>us b vs flag. List_find_place l k (Some a) = Some (Inr (Some b, flag)) \<and>
    a # as = us @ b # vs \<and> (\<forall>c\<in>set (us @ [b]). key (the (cells l c)) \<le> k) \<and>
    (if flag then vs \<noteq> [] \<and> k < key (the (cells l (hd vs))) else vs = [])"
  using assms
proof (induction as arbitrary: a)
  case Nil
  then show ?case
    by (intro exI [of _ "[]"] exI [of _ a] exI [of _ False])
       (auto simp: List_find_place.simps [of l k "Some a"] deref_def)
next
  case (Cons c as)
  then obtain e f where e: "cells l a = Some e" "nextp e = Some c" "cells l c = Some f"
      "chain (cells l) (nextp f) as None" by auto
  show ?case
  proof (cases "k < key f")
    case True
    then have "List_find_place l k (Some a) = Some (Inr (Some a, True))"
      using e by (simp add: List_find_place.simps [of l k "Some a"] deref_def)
    then show ?thesis using True e Cons.prems(2)
      by (intro exI [of _ "[]"] exI [of _ a] exI [of _ "c # as"] exI [of _ True]) simp
  next
    case False
    then have step: "List_find_place l k (Some a) = List_find_place l k (Some c)"
      using e by (simp add: List_find_place.simps [of l k "Some a"] deref_def)
    obtain us b vs flag where ih: "List_find_place l k (Some c) = Some (Inr (Some b, flag))"
        "c # as = us @ b # vs" "\<forall>c\<in>set (us @ [b]). key (the (cells l c)) \<le> k"
        "if flag then vs \<noteq> [] \<and> k < key (the (cells l (hd vs))) else vs = []"
      using Cons.IH [of c] e False by auto
    show ?thesis using step ih e Cons.prems(2)
      by (intro exI [of _ "a # us"] exI [of _ b] exI [of _ vs] exI [of _ flag]) simp
  qed
qed

lemma List_find_place_rep:
  assumes r: "List_rep l (a # bs) xs" and k: "key (the (cells l a)) \<le> k"
  obtains us b vs eb where
    "List_find_place (snd (alloc_element l x k)) k (Some a) = Some (Inr (Some b, vs \<noteq> []))"
    "a # bs = us @ b # vs" "cells l b = Some eb"
    "seq_SortedInsert xs x k = map (entry (cells l)) (us @ [b]) @ (x, k) # map (entry (cells l)) vs"
proof -
  let ?l1 = "snd (alloc_element l x k)"
  have fresh: "brk l \<notin> set (a # bs)" using r by (auto simp: List_rep_def)
  have ch: "chain (cells ?l1) (Some a) (a # bs) None"
    using r fresh by (auto simp: List_rep_def alloc_element_def)
  obtain us b vs flag where p: "List_find_place ?l1 k (Some a) = Some (Inr (Some b, flag))"
      "a # bs = us @ b # vs" "\<forall>c\<in>set (us @ [b]). key (the (cells ?l1 c)) \<le> k"
      "if flag then vs \<noteq> [] \<and> k < key (the (cells ?l1 (hd vs))) else vs = []"
    using List_find_place_chain [OF ch, of k] k fresh by (auto simp: alloc_element_def)
  have nb: "brk l \<notin> set us" "brk l \<noteq> b" "brk l \<notin> set vs" using fresh p(2) by auto
  have r': "List_rep l (us @ b # vs) xs" using r p(2) by simp
  then obtain eb where eb: "cells l b = Some eb" by (auto simp: List_rep_def)
  have keys: "\<forall>c\<in>set (us @ [b]). key (the (cells l c)) \<le> k"
    using p(3) nb by (auto simp: alloc_element_def split: if_splits)
  have vs: "vs = [] \<or> k < snd (hd (map (entry (cells l)) vs))"
    using p(4) nb by (cases vs) (auto simp: entry_def alloc_element_def split: if_splits)
  have "seq_SortedInsert xs x k = map (entry (cells l)) (us @ [b]) @ (x, k) # map (entry (cells l)) vs"
    using seq_SortedInsert_split [of "map (entry (cells l)) (us @ [b])" k "map (entry (cells l)) vs" x]
      keys vs r' by (auto simp: entry_def List_rep_def)
  with that p eb show ?thesis by (auto split: if_splits)
qed

lemma List_SortedInsert_rep:
  assumes r: "List_rep l as xs"
  shows "\<exists>l' as'. List_SortedInsert l x k = Some (Inr l') \<and> List_rep l' as' (seq_SortedInsert xs x k)"
proof (cases "as = []")
  case True
  then have f: "firstp l = None" "xs = []" and r': "List_rep l [] []"
    using r by (auto simp: List_rep_def)
  show ?thesis using f
    by (simp add: List_SortedInsert_def List_link_defs)
       (rule exI, rule List_rep_insert_front [OF r', of _ k x], simp_all)
next
  case False
  then obtain a bs where as: "as = a # bs" by (cases as) auto
  obtain e where e: "firstp l = Some a" "cells l a = Some e" "a \<noteq> brk l"
    using r as by (auto simp: List_rep_def)
  show ?thesis
  proof (cases "k < key e")
    case True
    then have "seq_SortedInsert xs x k = (x, k) # xs"
      using r as e by (simp add: entry_def List_rep_def)
    then show ?thesis using True as e
      by (simp add: List_SortedInsert_def List_link_defs deref_def)
         (rule exI, rule List_rep_insert_front [OF r, of _ k x], simp_all)
  next
    case ge: False
    obtain us b vs eb where p:
        "List_find_place (snd (alloc_element l x k)) k (Some a) = Some (Inr (Some b, vs \<noteq> []))"
        "a # bs = us @ b # vs" "cells l b = Some eb"
      and ins: "seq_SortedInsert xs x k = map (entry (cells l)) (us @ [b]) @ (x, k) # map (entry (cells l)) vs"
      by (rule List_find_place_rep [of l a bs xs k x]) (use r as e ge in auto)
    have r': "List_rep l (us @ b # vs) xs" using r as p(2) by simp
    have last: "vs = [] \<Longrightarrow> lastp l = Some b \<and> nextp eb = None" and nb: "b \<noteq> brk l"
      using r' p(3) by (auto simp: List_rep_def)
    have link: "\<exists>l'. List_SortedInsert l x k = Some (Inr l') \<and>
        cells l' = (cells l)(brk l \<mapsto> \<lparr>nextp = nextp eb, key = k, item = x\<rparr>,
          b \<mapsto> eb\<lparr>nextp := Some (brk l)\<rparr>) \<and> brk l' = Suc (brk l) \<and> firstp l' = firstp l \<and>
        lastp l' = (if vs = [] then Some (brk l) else lastp l)"
      using e ge p(1,3) last nb
      by (cases "vs = []") (auto simp: List_SortedInsert_def List_link_defs deref_def)
    then show ?thesis unfolding ins using List_rep_insert_after [OF r' p(3), of _ k x] by blast
  qed
qed

lemma List_Mapcar_from_chain:
  "chain (cells l) p as None \<Longrightarrow>
     List_Mapcar_from f l p s = Some (Inr (fold (\<lambda>a. f (fst (entry (cells l) a))) as s))"
  by (induction as arbitrary: p s) (auto simp: List_Mapcar_from.simps [of f l] deref_def entry_def)

lemma List_Mapcar_rep:
  assumes "List_rep l as xs"
  shows "List_Mapcar f l s = Some (Inr (fold f (map fst xs) s))"
  using assms List_Mapcar_from_chain [of l "firstp l" as f s]
  by (simp add: List_rep_def List_Mapcar_def fold_map comp_def)

lemma List_delete_rep:
  "List_rep l as xs \<Longrightarrow> \<exists>l'. List_delete l = Some (Inr l') \<and> cells l' = Map.empty"
proof (induction xs arbitrary: l as)
  case Nil
  obtain l' where "List_Remove l = Inr (None, l')" "List_rep l' (tl as) []"
    using List_Remove_rep [OF Nil] by (auto simp: seq_Remove_def)
  then show ?case by (auto simp: List_delete.simps [of l] List_rep_def)
next
  case (Cons x xs)
  obtain l' where "List_Remove l = Inr (Some (fst x), l')" "List_rep l' (tl as) xs"
    using List_Remove_rep [OF Cons.prems] by (auto simp: seq_Remove_def)
  then show ?case using Cons.IH by (auto simp: List_delete.simps [of l])
qed



section \<open>The interface of the keyed list\<close>

text \<open>What the clients of a list rely on.  The operations may fail or, for the loops, not
  return; the laws say that on a well-formed list they return and what the sequence is then.\<close>

locale keyed_list =
  fixes ok :: "'l \<Rightarrow> bool"
    and seq :: "'l \<Rightarrow> ('a \<times> int) list"
    and empty :: 'l
    and append :: "'l \<Rightarrow> 'a \<Rightarrow> 'l res"
    and remove :: "'l \<Rightarrow> ('a option \<times> 'l) res"
    and sinsert :: "'l \<Rightarrow> 'a \<Rightarrow> int \<Rightarrow> 'l res option"
    and sremove :: "'l \<Rightarrow> (('a \<times> int) option \<times> 'l) res"
  assumes empty_law: "ok empty" "seq empty = []"
    and append_law: "ok l \<Longrightarrow> \<exists>l'. append l x = Inr l' \<and> ok l' \<and> seq l' = seq l @ [(x, 0)]"
    and remove_nil: "ok l \<Longrightarrow> seq l = [] \<Longrightarrow> \<exists>l'. remove l = Inr (None, l') \<and> ok l' \<and> seq l' = []"
    and remove_cons: "ok l \<Longrightarrow> seq l = (x, k) # xs \<Longrightarrow>
      \<exists>l'. remove l = Inr (Some x, l') \<and> ok l' \<and> seq l' = xs"
    and sinsert_law: "ok l \<Longrightarrow> \<exists>l'. sinsert l x k = Some (Inr l') \<and> ok l' \<and>
      seq l' = seq_SortedInsert (seq l) x k"
    and sremove_nil: "ok l \<Longrightarrow> seq l = [] \<Longrightarrow> \<exists>l'. sremove l = Inr (None, l') \<and> ok l' \<and> seq l' = []"
    and sremove_cons: "ok l \<Longrightarrow> seq l = p # xs \<Longrightarrow> \<exists>l'. sremove l = Inr (Some p, l') \<and> ok l' \<and> seq l' = xs"
begin

primrec append_all :: "'l \<Rightarrow> 'a list \<Rightarrow> 'l res" where
  "append_all l [] = Inr l"
| "append_all l (x # xs) = bindR (append l x) (\<lambda>l'. append_all l' xs)"

primrec remove_n :: "'l \<Rightarrow> nat \<Rightarrow> ('a option list \<times> 'l) res" where
  "remove_n l 0 = Inr ([], l)"
| "remove_n l (Suc n) = bindR (remove l) (\<lambda>(x, l'). bindR (remove_n l' n) (\<lambda>(xs, l''). Inr (x # xs, l'')))"

primrec insert_all :: "'l \<Rightarrow> ('a \<times> int) list \<Rightarrow> 'l res option" where
  "insert_all l [] = Some (Inr l)"
| "insert_all l (p # ps) = (case sinsert l (fst p) (snd p) of None \<Rightarrow> None
     | Some (Inl e) \<Rightarrow> Some (Inl e) | Some (Inr l') \<Rightarrow> insert_all l' ps)"

lemma append_all_seq:
  "ok l \<Longrightarrow> \<exists>l'. append_all l xs = Inr l' \<and> ok l' \<and> seq l' = seq l @ map (\<lambda>x. (x, 0)) xs"
proof (induction xs arbitrary: l)
  case (Cons x xs)
  obtain l1 where "append l x = Inr l1" "ok l1" "seq l1 = seq l @ [(x, 0)]"
    using append_law [OF Cons.prems] by blast
  with Cons.IH [of l1] show ?case by auto
qed simp

lemma remove_n_seq:
  "ok l \<Longrightarrow> n \<le> length (seq l) \<Longrightarrow>
     \<exists>l'. remove_n l n = Inr (map (Some \<circ> fst) (take n (seq l)), l') \<and> ok l' \<and> seq l' = drop n (seq l)"
proof (induction n arbitrary: l)
  case (Suc n)
  then obtain x k xs where s: "seq l = (x, k) # xs" by (cases "seq l") auto
  obtain l1 where "remove l = Inr (Some x, l1)" "ok l1" "seq l1 = xs"
    using remove_cons [OF Suc.prems(1) s] by blast
  with Suc.IH [of l1] Suc.prems(2) s show ?case by auto
qed simp

text \<open>First in, first out: what was appended to an empty list is removed in the same order.\<close>

lemma fifo: "\<exists>l l'. append_all empty xs = Inr l \<and> remove_n l (length xs) = Inr (map Some xs, l') \<and> seq l' = []"
proof -
  obtain l where l: "append_all empty xs = Inr l" "ok l" "seq l = map (\<lambda>x. (x, 0)) xs"
    using append_all_seq [OF empty_law(1)] empty_law(2) by auto
  with remove_n_seq [of l "length xs"] show ?thesis by (auto simp: comp_def)
qed

lemma insert_all_seq:
  "ok l \<Longrightarrow> \<exists>l'. insert_all l ps = Some (Inr l') \<and> ok l' \<and>
     seq l' = fold (\<lambda>p s. seq_SortedInsert s (fst p) (snd p)) ps (seq l)"
proof (induction ps arbitrary: l)
  case (Cons p ps)
  obtain l1 where "sinsert l (fst p) (snd p) = Some (Inr l1)" "ok l1"
      "seq l1 = seq_SortedInsert (seq l) (fst p) (snd p)"
    using sinsert_law [OF Cons.prems] by blast
  with Cons.IH [of l1] show ?case by auto
qed simp

end

interpretation pointer_list: keyed_list List_ok List_seq List_new List_Append List_Remove
  List_SortedInsert List_SortedRemove
proof
  show "List_ok List_new" "List_seq List_new = []"
    using List_new_rep List_rep_seq by (auto simp: List_ok_def)
  fix l :: "'a List" and x :: 'a and k p xs assume "List_ok l"
  then obtain as where r: "List_rep l as (List_seq l)" by (rule List_okE)
  show "\<exists>l'. List_Append l x = Inr l' \<and> List_ok l' \<and> List_seq l' = List_seq l @ [(x, 0)]"
    using List_Append_rep [OF r, of x] List_rep_seq by (fastforce simp: List_ok_def seq_Append_def)
  show "\<exists>l'. List_Remove l = Inr (None, l') \<and> List_ok l' \<and> List_seq l' = []" if "List_seq l = []"
    using List_Remove_rep [OF r] List_rep_seq that by (fastforce simp: List_ok_def seq_Remove_def)
  show "\<exists>l'. List_Remove l = Inr (Some x, l') \<and> List_ok l' \<and> List_seq l' = xs"
    if "List_seq l = (x, k) # xs"
    using List_Remove_rep [OF r] List_rep_seq that by (fastforce simp: List_ok_def seq_Remove_def)
  show "\<exists>l'. List_SortedInsert l x k = Some (Inr l') \<and> List_ok l' \<and>
      List_seq l' = seq_SortedInsert (List_seq l) x k"
    using List_SortedInsert_rep [OF r, of x k] List_rep_seq by (fastforce simp: List_ok_def)
  show "\<exists>l'. List_SortedRemove l = Inr (None, l') \<and> List_ok l' \<and> List_seq l' = []" if "List_seq l = []"
    using List_SortedRemove_rep [OF r] List_rep_seq that by (fastforce simp: List_ok_def)
  show "\<exists>l'. List_SortedRemove l = Inr (Some p, l') \<and> List_ok l' \<and> List_seq l' = xs"
    if "List_seq l = p # xs"
    using List_SortedRemove_rep [OF r] List_rep_seq that by (fastforce simp: List_ok_def)
qed

interpretation sequence: keyed_list "\<lambda>_. True" "\<lambda>xs. xs" "[]"
  "\<lambda>xs x. Inr (seq_Append xs x)" "\<lambda>xs. Inr (seq_Remove xs)"
  "\<lambda>xs x k. Some (Inr (seq_SortedInsert xs x k))" "\<lambda>xs. Inr (seq_SortedRemove xs)"
  by unfold_locales (auto simp: seq_Append_def seq_Remove_def)


section \<open>Sorted sequences\<close>

lemma seq_SortedInsert_eq:
  "seq_SortedInsert xs x k =
     takeWhile (\<lambda>p. snd p \<le> k) xs @ (x, k) # dropWhile (\<lambda>p. snd p \<le> k) xs"
  by (induction xs x k rule: seq_SortedInsert.induct) auto

lemma seq_SortedInsert_sorted:
  "sorted (map snd xs) \<Longrightarrow> sorted (map snd (seq_SortedInsert xs x k))"
proof (induction xs x k rule: seq_SortedInsert.induct)
  case (2 y j ys x k)
  have "snd ` set (seq_SortedInsert ys x k) = insert k (snd ` set ys)"
    by (induction ys x k rule: seq_SortedInsert.induct) auto
  with 2 show ?case by auto
qed simp

lemma length_seq_SortedInsert [simp, len_simps]: "length (seq_SortedInsert xs x k) = Suc (length xs)"
  by (induction xs x k rule: seq_SortedInsert.induct) auto

lemma set_seq_SortedInsert [simp]: "set (seq_SortedInsert xs x k) = insert (x, k) (set xs)"
  by (induction xs x k rule: seq_SortedInsert.induct) auto

lemma seq_SortedInsert_not_Nil [simp]: "seq_SortedInsert xs x k \<noteq> []"
  by (induction xs x k rule: seq_SortedInsert.induct) auto


lemma fold_SortedInsert_sorted:
  "sorted (map snd s) \<Longrightarrow> sorted (map snd (fold (\<lambda>p s. seq_SortedInsert s (fst p) (snd p)) ps s))"
  by (induction ps arbitrary: s) (simp_all add: seq_SortedInsert_sorted)

lemma mset_seq_SortedInsert [simp]:
  "mset (seq_SortedInsert xs x k) = add_mset (x, k) (mset xs)"
  by (induction xs x k rule: seq_SortedInsert.induct) auto

lemma fold_SortedInsert_mset:
  "mset (fold (\<lambda>p s. seq_SortedInsert s (fst p) (snd p)) ps s) = mset ps + mset s"
  by (induction ps arbitrary: s) simp_all


section \<open>Properties\<close>

lemma List_Prepend_seq:
  assumes "List_ok l"
  shows "\<exists>l'. List_Prepend l x = Inr l' \<and> List_ok l' \<and> List_seq l' = seq_Prepend (List_seq l) x"
proof -
  obtain as where r: "List_rep l as (List_seq l)" using assms by (rule List_okE)
  show ?thesis using List_Prepend_rep [OF r, of x] List_rep_seq by (fastforce simp: List_ok_def)
qed

lemma List_Mapcar_seq:
  assumes "List_ok l"
  shows "List_Mapcar f l s = Some (Inr (fold f (map fst (List_seq l)) s))"
proof -
  obtain as where r: "List_rep l as (List_seq l)" using assms by (rule List_okE)
  show ?thesis by (rule List_Mapcar_rep [OF r])
qed

text \<open>C33.  On a well-formed list the pointer code refines the sequence operations: each
  operation returns without a null dereference, keeps the list well formed, and commutes with
  the abstraction to the sequence of (item, key) pairs.\<close>

theorem List_refines_sequence:
  assumes "List_ok l"
  shows "(\<exists>l'. List_Append l x = Inr l' \<and> List_ok l' \<and> List_seq l' = seq_Append (List_seq l) x) \<and>
    (\<exists>l'. List_Prepend l x = Inr l' \<and> List_ok l' \<and> List_seq l' = seq_Prepend (List_seq l) x) \<and>
    (\<exists>l'. List_Remove l = Inr (fst (seq_Remove (List_seq l)), l') \<and> List_ok l' \<and>
       List_seq l' = snd (seq_Remove (List_seq l))) \<and>
    (\<exists>l'. List_SortedInsert l x k = Some (Inr l') \<and> List_ok l' \<and>
       List_seq l' = seq_SortedInsert (List_seq l) x k) \<and>
    (\<exists>l'. List_SortedRemove l = Inr (fst (seq_SortedRemove (List_seq l)), l') \<and> List_ok l' \<and>
       List_seq l' = snd (seq_SortedRemove (List_seq l))) \<and>
    List_Mapcar f l s = Some (Inr (fold f (map fst (List_seq l)) s))"
proof (intro conjI)
  show "\<exists>l'. List_Append l x = Inr l' \<and> List_ok l' \<and> List_seq l' = seq_Append (List_seq l) x"
    using pointer_list.append_law [OF assms] by (simp add: seq_Append_def)
  show "\<exists>l'. List_Remove l = Inr (fst (seq_Remove (List_seq l)), l') \<and> List_ok l' \<and>
      List_seq l' = snd (seq_Remove (List_seq l))"
    using pointer_list.remove_nil [OF assms] pointer_list.remove_cons [OF assms]
    by (cases "List_seq l") (auto simp: seq_Remove_def)
  show "\<exists>l'. List_SortedRemove l = Inr (fst (seq_SortedRemove (List_seq l)), l') \<and> List_ok l' \<and>
      List_seq l' = snd (seq_SortedRemove (List_seq l))"
    using pointer_list.sremove_nil [OF assms] pointer_list.sremove_cons [OF assms]
    by (cases "List_seq l") auto
qed (rule List_Prepend_seq [OF assms] pointer_list.sinsert_law [OF assms] List_Mapcar_seq [OF assms])+

theorem List_refines_sequence_witness:
  "(\<exists>l'. List_Append List_new (7::nat) = Inr l' \<and> List_ok l' \<and> List_seq l' = [(7, 0)]) \<and>
   (\<exists>l'. List_Remove (List_new :: nat List) = Inr (None, l') \<and> List_ok l')"
  using List_refines_sequence [OF pointer_list.empty_law(1), where x = "7::nat" and k = 0 and
      f = "\<lambda>_ s. s" and s = "()"]
  by (auto simp: seq_Append_def seq_Remove_def pointer_list.empty_law(2))

text \<open>First in, first out: a list filled with \<open>Append\<close> is emptied by \<open>Remove\<close> in the
  same order (the order the ready list and the semaphore queues rely on).\<close>

theorem List_fifo:
  "\<exists>l l'. pointer_list.append_all List_new xs = Inr l \<and>
     pointer_list.remove_n l (length xs) = Inr (map Some xs, l') \<and> List_seq l' = []"
  by (rule pointer_list.fifo)

text \<open>Any insertions with \<open>SortedInsert\<close> into a fresh list all return and leave a list
  sorted by key that holds exactly the inserted pairs.\<close>

theorem List_SortedInsert_sorts:
  "\<exists>l. pointer_list.insert_all List_new ps = Some (Inr l) \<and> List_ok l \<and>
     sorted (map snd (List_seq l)) \<and> mset (List_seq l) = mset ps"
  using pointer_list.insert_all_seq [OF pointer_list.empty_law(1), of ps]
    fold_SortedInsert_sorted [of "[]" ps] fold_SortedInsert_mset [of ps "[]"]
  by (auto simp: pointer_list.empty_law(2))

end
