(* ===== verification/Machine_Memory.thy ===== *)
theory Machine_Memory
  imports Nachos_Prelude
begin

text \<open>
  The simulated workstation of \<^verbatim>\<open>machine/machine.h\<close>, \<^verbatim>\<open>machine/machine.cc\<close> and
  \<^verbatim>\<open>machine/translate.cc\<close>: registers, physical memory, the page table or TLB, address
  translation, and reads and writes of virtual memory.  The host is little-endian (the
  i386 build), so \<open>WordToHost\<close> and its relatives are the identity.

  Registers and memory are functions from an index; every access is guarded by the bound
  of the C array.
\<close>


section \<open>Constants and types of machine.h\<close>

definition SectorSize :: nat where "SectorSize = 512"
definition PageSize :: nat where "PageSize = SectorSize"
definition NumPhysPages :: nat where "NumPhysPages = 128"
definition MemorySize :: nat where "MemorySize = NumPhysPages * PageSize"
definition TLBSize :: nat where "TLBSize = 4"

lemmas size_defs = SectorSize_def PageSize_def NumPhysPages_def MemorySize_def TLBSize_def

datatype ExceptionType = NoException | SyscallException | PageFaultException | ReadOnlyException
  | BusErrorException | AddressErrorException | OverflowException | IllegalInstrException
  | NumExceptionTypes

definition StackReg :: nat where "StackReg = 29"
definition RetAddrReg :: nat where "RetAddrReg = 31"
definition NumGPRegs :: nat where "NumGPRegs = 32"
definition HiReg :: nat where "HiReg = 32"
definition LoReg :: nat where "LoReg = 33"
definition PCReg :: nat where "PCReg = 34"
definition NextPCReg :: nat where "NextPCReg = 35"
definition PrevPCReg :: nat where "PrevPCReg = 36"
definition LoadReg :: nat where "LoadReg = 37"
definition LoadValueReg :: nat where "LoadValueReg = 38"
definition BadVAddrReg :: nat where "BadVAddrReg = 39"
definition NumTotalRegs :: nat where "NumTotalRegs = 40"

lemmas reg_defs = StackReg_def RetAddrReg_def NumGPRegs_def HiReg_def LoReg_def PCReg_def
  NextPCReg_def PrevPCReg_def LoadReg_def LoadValueReg_def BadVAddrReg_def NumTotalRegs_def

record TranslationEntry =
  virtualPage :: "32 word"
  physicalPage :: "32 word"
  valid :: bool
  readOnly :: bool
  use :: bool
  dirty :: bool

record Machine =
  registers :: "nat \<Rightarrow> 32 word"
  mainMemory :: "nat \<Rightarrow> 8 word"
  tlb :: "TranslationEntry list option"
  pageTable :: "TranslationEntry list option"
  pageTableSize :: nat
  singleStep :: bool


section \<open>Registers\<close>

definition Machine_new :: "bool \<Rightarrow> Machine" where
  "Machine_new debug = \<lparr>registers = (\<lambda>_. 0), mainMemory = (\<lambda>_. 0), tlb = None,
     pageTable = None, pageTableSize = 0, singleStep = debug\<rparr>"

definition ReadRegister :: "Machine \<Rightarrow> int \<Rightarrow> 32 word res" where
  "ReadRegister m num =
     bindR (ASSERT (num \<ge> 0 \<and> num < int NumTotalRegs)) (\<lambda>_. Inr (registers m (nat num)))"

definition WriteRegister :: "Machine \<Rightarrow> int \<Rightarrow> 32 word \<Rightarrow> Machine res" where
  "WriteRegister m num v =
     bindR (ASSERT (num \<ge> 0 \<and> num < int NumTotalRegs)) (\<lambda>_.
       Inr (m\<lparr>registers := (registers m)(nat num := v)\<rparr>))"

definition set_reg :: "nat \<Rightarrow> 32 word \<Rightarrow> Machine \<Rightarrow> Machine" where
  "set_reg r v m = m\<lparr>registers := (registers m)(r := v)\<rparr>"

text \<open>The delayed load: \<open>registers[registers[LoadReg]]\<close> is written first, then the next
  pending load is recorded and register 0 is forced to zero.\<close>

definition DelayedLoad :: "nat \<Rightarrow> 32 word \<Rightarrow> Machine \<Rightarrow> Machine res" where
  "DelayedLoad nextReg nextValue m =
     (let target = sint (registers m LoadReg) in
      if 0 \<le> target \<and> target < int NumTotalRegs
      then Inr (set_reg 0 0 (set_reg LoadValueReg nextValue (set_reg LoadReg (of_nat nextReg)
             (set_reg (nat target) (registers m LoadValueReg) m))))
      else Inl OutOfBounds)"

text \<open>The part of \<open>RaiseException\<close> that acts on the machine, before the kernel's
  \<open>ExceptionHandler\<close> runs.\<close>

definition RaiseException_enter :: "32 word \<Rightarrow> Machine \<Rightarrow> Machine res" where
  "RaiseException_enter badVAddr m = DelayedLoad 0 0 (set_reg BadVAddrReg badVAddr m)"


section \<open>Address translation\<close>

text \<open>The TLB loop: the index of the first valid entry for the page.\<close>

fun tlb_lookup :: "TranslationEntry list \<Rightarrow> nat \<Rightarrow> 32 word \<Rightarrow> nat option" where
  "tlb_lookup [] i vpn = None"
| "tlb_lookup (e # es) i vpn =
     (if valid e \<and> virtualPage e = vpn then Some i else tlb_lookup es (Suc i) vpn)"

definition misaligned :: "32 word \<Rightarrow> nat \<Rightarrow> bool" where
  "misaligned virtAddr sz \<longleftrightarrow>
     (sz = 4 \<and> virtAddr AND 3 \<noteq> 0) \<or> (sz = 2 \<and> virtAddr AND 1 \<noteq> 0)"

text \<open>Which entry of the table in use (the TLB when there is one, else the page table) a page
  has: its position and contents, or the exception.\<close>

definition find_entry :: "Machine \<Rightarrow> 32 word \<Rightarrow> (ExceptionType + nat \<times> TranslationEntry) res" where
  "find_entry m vpn =
     (case tlb m of
        None \<Rightarrow>
          (case pageTable m of None \<Rightarrow> Inl NullDeref
           | Some pt \<Rightarrow>
             if unat vpn \<ge> pageTableSize m then Inr (Inl AddressErrorException)
             else bindR (read_array pt (int (unat vpn))) (\<lambda>e.
               if \<not> valid e then Inr (Inl PageFaultException) else Inr (Inr (unat vpn, e))))
      | Some t \<Rightarrow>
          (case tlb_lookup (take TLBSize t) 0 vpn of None \<Rightarrow> Inr (Inl PageFaultException)
           | Some i \<Rightarrow> Inr (Inr (i, t ! i))))"

definition put_entry :: "Machine \<Rightarrow> nat \<Rightarrow> TranslationEntry \<Rightarrow> Machine" where
  "put_entry m i e =
     (case tlb m of None \<Rightarrow> m\<lparr>pageTable := map_option (\<lambda>pt. pt[i := e]) (pageTable m)\<rparr>
      | Some t \<Rightarrow> m\<lparr>tlb := Some (t[i := e])\<rparr>)"

text \<open>The result is the exception or the physical address, with the machine whose use and
  dirty bits have been set.\<close>

definition Translate :: "Machine \<Rightarrow> 32 word \<Rightarrow> nat \<Rightarrow> bool \<Rightarrow> ((ExceptionType + nat) \<times> Machine) res" where
  "Translate m virtAddr sz writing =
     (if misaligned virtAddr sz then Inr (Inl AddressErrorException, m)
      else
        bindR (ASSERT (tlb m = None \<or> pageTable m = None)) (\<lambda>_.
        bindR (ASSERT (tlb m \<noteq> None \<or> pageTable m \<noteq> None)) (\<lambda>_.
        let vpn = virtAddr div of_nat PageSize; offset = virtAddr mod of_nat PageSize in
        bindR (find_entry m vpn) (\<lambda>found. case found of
          Inl exc \<Rightarrow> Inr (Inl exc, m)
        | Inr (i, entry) \<Rightarrow>
            if readOnly entry \<and> writing then Inr (Inl ReadOnlyException, m)
            else
              let pageFrame = physicalPage entry in
              if unat pageFrame \<ge> NumPhysPages then Inr (Inl BusErrorException, m)
              else
                let entry' = entry\<lparr>use := True, dirty := (writing \<or> dirty entry)\<rparr>;
                    physAddr = unat pageFrame * PageSize + unat offset
                in bindR (ASSERT (physAddr + sz \<le> MemorySize)) (\<lambda>_.
                   Inr (Inr physAddr, put_entry m i entry'))))))"


section \<open>Virtual memory reads and writes\<close>

definition mem16 :: "(nat \<Rightarrow> 8 word) \<Rightarrow> nat \<Rightarrow> 32 word" where
  "mem16 mem a = ucast (mem a) OR push_bit 8 (ucast (mem (a + 1)))"

definition mem32 :: "(nat \<Rightarrow> 8 word) \<Rightarrow> nat \<Rightarrow> 32 word" where
  "mem32 mem a = ucast (mem a) OR push_bit 8 (ucast (mem (a + 1))) OR
     push_bit 16 (ucast (mem (a + 2))) OR push_bit 24 (ucast (mem (a + 3)))"

definition put16 :: "(nat \<Rightarrow> 8 word) \<Rightarrow> nat \<Rightarrow> 32 word \<Rightarrow> nat \<Rightarrow> 8 word" where
  "put16 mem a v = mem(a := ucast v, a + 1 := ucast (drop_bit 8 v))"

definition put32 :: "(nat \<Rightarrow> 8 word) \<Rightarrow> nat \<Rightarrow> 32 word \<Rightarrow> nat \<Rightarrow> 8 word" where
  "put32 mem a v = mem(a := ucast v, a + 1 := ucast (drop_bit 8 v),
     a + 2 := ucast (drop_bit 16 v), a + 3 := ucast (drop_bit 24 v))"

text \<open>A byte is read as a signed \<open>char\<close>, a half word as \<open>unsigned short\<close>.  A failed
  translation is reported as the exception, after the machine part of \<open>RaiseException\<close>.\<close>

definition ReadMem :: "Machine \<Rightarrow> 32 word \<Rightarrow> nat \<Rightarrow> ((ExceptionType + 32 word) \<times> Machine) res" where
  "ReadMem m addr sz =
     bindR (Translate m addr sz False) (\<lambda>(r, m'). case r of
       Inl exc \<Rightarrow> bindR (RaiseException_enter addr m') (\<lambda>m''. Inr (Inl exc, m''))
     | Inr pa \<Rightarrow>
         if sz = 1 then Inr (Inr (scast (mainMemory m' pa)), m')
         else if sz = 2 then Inr (Inr (mem16 (mainMemory m') pa), m')
         else if sz = 4 then Inr (Inr (mem32 (mainMemory m') pa), m')
         else Inl AssertFailed)"

definition WriteMem :: "Machine \<Rightarrow> 32 word \<Rightarrow> nat \<Rightarrow> 32 word \<Rightarrow> ((ExceptionType + unit) \<times> Machine) res" where
  "WriteMem m addr sz v =
     bindR (Translate m addr sz True) (\<lambda>(r, m'). case r of
       Inl exc \<Rightarrow> bindR (RaiseException_enter addr m') (\<lambda>m''. Inr (Inl exc, m''))
     | Inr pa \<Rightarrow>
         if sz = 1 then Inr (Inr (), m'\<lparr>mainMemory := (mainMemory m')(pa := ucast (v AND 0xff))\<rparr>)
         else if sz = 2 then
           Inr (Inr (), m'\<lparr>mainMemory := put16 (mainMemory m') pa (v AND 0xffff)\<rparr>)
         else if sz = 4 then Inr (Inr (), m'\<lparr>mainMemory := put32 (mainMemory m') pa v\<rparr>)
         else Inl AssertFailed)"


section \<open>Facts about translation\<close>

definition mmu_ok :: "Machine \<Rightarrow> bool" where
  "mmu_ok m \<longleftrightarrow> (case tlb m of
       None \<Rightarrow> (\<exists>pt. pageTable m = Some pt \<and> length pt = pageTableSize m)
     | Some t \<Rightarrow> pageTable m = None \<and> length t = TLBSize)"

lemma page_number: "unat (v div of_nat PageSize :: 32 word) = unat v div PageSize"
  and page_offset: "unat (v mod of_nat PageSize :: 32 word) = unat v mod PageSize"
  by (simp_all add: unat_div unat_mod size_defs)

lemma not_misaligned4: "\<not> misaligned v 4 \<Longrightarrow> unat v mod 4 = 0"
proof -
  assume "\<not> misaligned v 4"
  then have "v AND mask 2 = 0" by (simp add: misaligned_def mask_eq_exp_minus_1)
  then have "take_bit 2 v = 0" by (simp add: take_bit_eq_mask)
  then have "take_bit 2 (unat v) = 0" by (metis unat_0 unsigned_take_bit_eq)
  then show ?thesis by (simp add: take_bit_eq_mod)
qed

lemma not_misaligned2: "\<not> misaligned v 2 \<Longrightarrow> unat v mod 2 = 0"
proof -
  assume "\<not> misaligned v 2"
  then have "v AND mask 1 = 0" by (simp add: misaligned_def mask_eq_exp_minus_1)
  then have "take_bit 1 v = 0" by (simp add: take_bit_eq_mask)
  then have "take_bit 1 (unat v) = 0" by (metis unat_0 unsigned_take_bit_eq)
  then show ?thesis by (simp add: take_bit_eq_mod)
qed

lemma aligned_in_page:
  assumes "\<not> misaligned v sz" "sz \<in> {1, 2, 4}"
  shows "unat v mod PageSize + sz \<le> PageSize"
proof -
  have "unat v mod PageSize mod sz = 0"
    using assms not_misaligned4 [of v] not_misaligned2 [of v]
    by (auto simp: size_defs mod_mod_cancel)
  moreover have "unat v mod PageSize < PageSize" by (simp add: size_defs)
  ultimately show ?thesis using assms(2) by (auto simp: size_defs; presburger)
qed

lemma frame_in_memory:
  assumes "f < NumPhysPages" "off + sz \<le> PageSize"
  shows "f * PageSize + off + sz \<le> MemorySize"
proof -
  have "f * PageSize + PageSize \<le> NumPhysPages * PageSize"
    using assms(1) by (metis Suc_leI add.commute mult_Suc mult_le_mono1)
  with assms(2) show ?thesis by (simp add: MemorySize_def)
qed

lemma find_entry_ok:
  assumes "mmu_ok m"
  shows "\<exists>r. find_entry m vpn = Inr r"
  using assms
  by (auto simp: find_entry_def mmu_ok_def read_array_def split: option.splits)

lemma tlb_lookup_Some:
  "tlb_lookup es i vpn = Some j \<Longrightarrow> i \<le> j \<and> j - i < length es \<and> valid (es ! (j - i)) \<and>
     virtualPage (es ! (j - i)) = vpn"
proof (induction es arbitrary: i)
  case (Cons e es)
  show ?case
  proof (cases "valid e \<and> virtualPage e = vpn")
    case False
    with Cons have "Suc i \<le> j \<and> j - Suc i < length es \<and> valid (es ! (j - Suc i)) \<and>
        virtualPage (es ! (j - Suc i)) = vpn" by auto
    then show ?thesis by (auto simp: nth_Cons' Suc_diff_Suc)
  qed (use Cons.prems in auto)
qed simp

lemma tlb_lookup_update:
  "tlb_lookup es i vpn = Some j \<Longrightarrow> valid e \<Longrightarrow> virtualPage e = vpn \<Longrightarrow>
     tlb_lookup (es[j - i := e]) i vpn = Some j"
proof (induction es arbitrary: i)
  case (Cons x es)
  show ?case
  proof (cases "valid x \<and> virtualPage x = vpn")
    case False
    then have l: "tlb_lookup es (Suc i) vpn = Some j" using Cons.prems by auto
    then have "j - i = Suc (j - Suc i)" using tlb_lookup_Some [OF l] by arith
    with False Cons.IH [OF l Cons.prems(2,3)] show ?thesis by auto
  qed (use Cons.prems in auto)
qed simp

lemma find_entry_Some:
  assumes "find_entry m vpn = Inr (Inr (i, e))"
  shows "valid e" and "tlb m = None \<Longrightarrow> \<exists>pt. pageTable m = Some pt \<and> i < length pt \<and> e = pt ! i \<and> i = unat vpn"
  using assms
proof -
  show "valid e"
  proof (cases "tlb m")
    case None
    with assms show ?thesis
      by (auto simp: find_entry_def read_array_def split: option.splits if_splits)
  next
    case (Some t)
    with assms have "tlb_lookup (take TLBSize t) 0 vpn = Some i" "e = t ! i"
      by (auto simp: find_entry_def split: option.splits)
    with tlb_lookup_Some [of "take TLBSize t" 0 vpn i] show ?thesis by auto
  qed
  show "\<exists>pt. pageTable m = Some pt \<and> i < length pt \<and> e = pt ! i \<and> i = unat vpn" if "tlb m = None"
    using assms that by (auto simp: find_entry_def read_array_def split: option.splits if_splits)
qed

text \<open>Setting the use and dirty bits does not change which entry a page uses.\<close>

lemma find_entry_put_entry:
  assumes f: "find_entry m vpn = Inr (Inr (i, e))"
    and e': "valid e'" "virtualPage e' = virtualPage e"
  shows "find_entry (put_entry m i e') vpn = Inr (Inr (i, e'))"
proof (cases "tlb m")
  case None
  with f e' show ?thesis
    by (auto simp: find_entry_def put_entry_def read_array_def split: option.splits if_splits)
next
  case (Some t)
  with f have l: "tlb_lookup (take TLBSize t) 0 vpn = Some i" "e = t ! i"
    by (auto simp: find_entry_def split: option.splits)
  have i: "i < length (take TLBSize t)" "virtualPage e = vpn"
    using tlb_lookup_Some [OF l(1)] l(2) by auto
  have "tlb_lookup (take TLBSize (t[i := e'])) 0 vpn = Some i"
    using tlb_lookup_update [OF l(1) e'(1)] e'(2) i by (simp add: take_update_swap)
  then show ?thesis using Some i by (simp add: find_entry_def put_entry_def)
qed

lemma put_entry_simps [simp]:
  "mainMemory (put_entry m i e) = mainMemory m"
  "registers (put_entry m i e) = registers m"
  "pageTableSize (put_entry m i e) = pageTableSize m"
  "tlb (put_entry m i e) = None \<longleftrightarrow> tlb m = None"
  "pageTable (put_entry m i e) = None \<longleftrightarrow> pageTable m = None"
  by (auto simp: put_entry_def split: option.splits)

lemma mmu_ok_put_entry [simp]: "mmu_ok m \<Longrightarrow> mmu_ok (put_entry m i e)"
  by (auto simp: mmu_ok_def put_entry_def split: option.splits)

lemma Translate_Inr:
  assumes "Translate m va sz w = Inr (Inr pa, m')"
  obtains i e where "\<not> misaligned va sz" "find_entry m (va div of_nat PageSize) = Inr (Inr (i, e))"
    "\<not> (readOnly e \<and> w)" "unat (physicalPage e) < NumPhysPages"
    "pa = unat (physicalPage e) * PageSize + unat va mod PageSize" "pa + sz \<le> MemorySize"
    "m' = put_entry m i (e\<lparr>use := True, dirty := (w \<or> dirty e)\<rparr>)"
    "tlb m = None \<longleftrightarrow> pageTable m \<noteq> None"
proof -
  note t = assms [unfolded Translate_def Let_def]
  from t obtain found where f: "find_entry m (va div of_nat PageSize) = Inr found"
    by (auto simp: res_simps split: if_splits)
  with t obtain ie where "found = Inr ie"
    by (cases found) (auto simp: res_simps split: if_splits)
  moreover obtain i e where "ie = (i, e)" by (cases ie)
  ultimately show ?thesis using t f
    by (intro that [of i e]) (auto simp: res_simps page_offset split: if_splits)
qed


lemma Translate_total:
  assumes "mmu_ok m" "sz \<in> {1, 2, 4}"
  shows "\<exists>r m'. Translate m va sz w = Inr (r, m')"
proof (cases "misaligned va sz")
  case False
  from assms(1) obtain found where f: "find_entry m (va div of_nat PageSize) = Inr found"
    using find_entry_ok by blast
  have tab: "tlb m = None \<longleftrightarrow> pageTable m \<noteq> None"
    using assms(1) by (auto simp: mmu_ok_def split: option.splits)
  note pa = frame_in_memory [OF _ aligned_in_page [OF False assms(2)]]
  show ?thesis
  proof (cases found)
    case (Inr ie)
    then obtain i e where "found = Inr (i, e)" by (cases ie) auto
    with f False tab pa [of "unat (physicalPage e)"] show ?thesis
      by (auto simp: Translate_def Let_def page_offset ASSERT_def not_le)
  qed (use f False tab in \<open>auto simp: Translate_def Let_def\<close>)
qed (simp add: Translate_def)

lemma Translate_mmu_ok:
  assumes "Translate m va sz w = Inr (r, m')" "mmu_ok m"
  shows "mmu_ok m'" "mainMemory m' = mainMemory m" "registers m' = registers m"
proof (atomize (full), cases r)
  case (Inl exc)
  with assms have "m' = m"
    by (auto simp: Translate_def Let_def elim!: bindR_InrE split: if_splits sum.split_asm)
  with assms(2) show "mmu_ok m' \<and> mainMemory m' = mainMemory m \<and> registers m' = registers m" by simp
next
  case (Inr pa)
  show "mmu_ok m' \<and> mainMemory m' = mainMemory m \<and> registers m' = registers m"
    by (rule Translate_Inr [OF assms(1) [unfolded Inr]]) (use assms(2) in simp)
qed

lemma Translate_again:
  assumes "Translate m va sz w = Inr (Inr pa, m')"
  shows "\<exists>m''. Translate m' va sz False = Inr (Inr pa, m'') \<and> mainMemory m'' = mainMemory m'"
proof -
  from assms obtain i e where t:
    "\<not> misaligned va sz" "find_entry m (va div of_nat PageSize) = Inr (Inr (i, e))"
    "unat (physicalPage e) < NumPhysPages"
    "pa = unat (physicalPage e) * PageSize + unat va mod PageSize" "pa + sz \<le> MemorySize"
    "m' = put_entry m i (e\<lparr>use := True, dirty := (w \<or> dirty e)\<rparr>)"
    "tlb m = None \<longleftrightarrow> pageTable m \<noteq> None"
    by (rule Translate_Inr)
  have "find_entry m' (va div of_nat PageSize) =
      Inr (Inr (i, e\<lparr>use := True, dirty := (w \<or> dirty e)\<rparr>))"
    unfolding t(6) by (rule find_entry_put_entry [OF t(2)]) (simp_all add: find_entry_Some(1) [OF t(2)])
  with t show ?thesis by (auto simp: Translate_def Let_def page_offset)
qed


section \<open>Facts about reads and writes\<close>

lemma mem16_put16: "mem16 (put16 mem a (v AND 0xffff)) a = v AND 0xffff"
proof (rule bit_word_eqI)
  fix n assume "n < LENGTH(32)"
  have m: "(0xffff :: 32 word) = mask 16" by (simp add: mask_eq_exp_minus_1)
  show "bit (mem16 (put16 mem a (v AND 0xffff)) a) n = bit (v AND 0xffff) n"
    unfolding m mem16_def put16_def by (auto simp: bit_simps)
qed

lemma mem32_put32: "mem32 (put32 mem a v) a = v"
proof (rule bit_word_eqI)
  fix n assume "n < LENGTH(32)"
  then consider "n < 8" | "8 \<le> n" "n < 16" | "16 \<le> n" "n < 24" | "24 \<le> n" "n < 32"
    by force
  then show "bit (mem32 (put32 mem a v) a) n = bit v n"
    by cases (auto simp: mem32_def put32_def bit_simps)
qed

text \<open>What a stored value is read back as: the low byte sign-extended, the low half word
  zero-extended, or the word.\<close>

definition loaded :: "nat \<Rightarrow> 32 word \<Rightarrow> 32 word" where
  "loaded sz v = (if sz = 1 then scast (ucast v :: 8 word) else if sz = 2 then v AND 0xffff else v)"

text \<open>The bytes a store changes.\<close>

definition stored :: "nat \<Rightarrow> 32 word \<Rightarrow> nat \<Rightarrow> (nat \<Rightarrow> 8 word) \<Rightarrow> nat \<Rightarrow> 8 word" where
  "stored sz v pa mem = (if sz = 1 then mem(pa := ucast (v AND 0xff))
     else if sz = 2 then put16 mem pa (v AND 0xffff) else put32 mem pa v)"

lemma stored_other: "p < pa \<or> pa + sz \<le> p \<Longrightarrow> sz \<in> {1, 2, 4} \<Longrightarrow> stored sz v pa mem p = mem p"
  by (auto simp: stored_def put16_def put32_def)

lemma ucast_and_ff: "(ucast (v AND 0xff :: 32 word) :: 8 word) = ucast v"
proof (rule bit_word_eqI)
  fix n assume "n < LENGTH(8)"
  have m: "(0xff :: 32 word) = mask 8" by (simp add: mask_eq_exp_minus_1)
  show "bit (ucast (v AND 0xff :: 32 word) :: 8 word) n = bit (ucast v :: 8 word) n"
    unfolding m using \<open>n < LENGTH(8)\<close> by (auto simp: bit_simps)
qed

lemma WriteMem_Inr:
  assumes "WriteMem m va sz v = Inr (Inr (), m')"
  obtains pa m1 where "Translate m va sz True = Inr (Inr pa, m1)" "sz \<in> {1, 2, 4}"
    "m' = m1\<lparr>mainMemory := stored sz v pa (mainMemory m1)\<rparr>"
  using assms
  by (auto simp: WriteMem_def stored_def elim!: bindR_InrE split: if_splits sum.split_asm)

lemma find_entry_mainMemory [simp]: "find_entry (m\<lparr>mainMemory := x\<rparr>) vpn = find_entry m vpn"
  by (simp add: find_entry_def cong: option.case_cong)

lemma put_entry_mainMemory [simp]:
  "put_entry (m\<lparr>mainMemory := x\<rparr>) i e = (put_entry m i e)\<lparr>mainMemory := x\<rparr>"
  by (auto simp: put_entry_def split: option.splits)

lemma Translate_mainMemory:
  "Translate (m\<lparr>mainMemory := x\<rparr>) va sz w =
     bindR (Translate m va sz w) (\<lambda>(r, m'). Inr (r, m'\<lparr>mainMemory := x\<rparr>))"
  by (cases "find_entry m (va div of_nat PageSize)")
    (auto simp: Translate_def Let_def bindR_assoc ASSERT_def split: sum.splits)

lemma ReadMem_stored:
  "sz \<in> {1, 2, 4} \<Longrightarrow> Translate m va sz False = Inr (Inr pa, m1) \<Longrightarrow>
     mainMemory m1 = stored sz v pa mem \<Longrightarrow> ReadMem m va sz = Inr (Inr (loaded sz v), m1)"
  by (auto simp: ReadMem_def stored_def loaded_def ucast_and_ff mem16_put16 mem32_put32)


section \<open>Properties\<close>


definition sample_entry :: "32 word \<Rightarrow> 32 word \<Rightarrow> TranslationEntry" where
  "sample_entry v p = \<lparr>virtualPage = v, physicalPage = p, valid = True, readOnly = False,
     use = False, dirty = False\<rparr>"

definition sample_machine :: "TranslationEntry list \<Rightarrow> Machine" where
  "sample_machine pt = \<lparr>registers = (\<lambda>_. 0), mainMemory = (\<lambda>_. 0), tlb = None,
     pageTable = Some pt, pageTableSize = length pt, singleStep = False\<rparr>"

lemma sample_machine_ok [simp]: "mmu_ok (sample_machine pt)"
  by (simp add: mmu_ok_def sample_machine_def)


text \<open>C17.  A value stored at a virtual address is read back from it: the word, the low half
  word zero-extended or the low byte sign-extended, for a page table or a TLB.\<close>

theorem WriteMem_ReadMem:
  assumes "WriteMem m va sz v = Inr (Inr (), m')"
  shows "\<exists>m''. ReadMem m' va sz = Inr (Inr (loaded sz v), m'')"
proof -
  from assms obtain pa m1 where t: "Translate m va sz True = Inr (Inr pa, m1)" "sz \<in> {1, 2, 4}"
    "m' = m1\<lparr>mainMemory := stored sz v pa (mainMemory m1)\<rparr>"
    by (rule WriteMem_Inr)
  from Translate_again [OF t(1)] obtain m2 where "Translate m1 va sz False = Inr (Inr pa, m2)"
    by blast
  then have "Translate m' va sz False =
      Inr (Inr pa, m2\<lparr>mainMemory := stored sz v pa (mainMemory m1)\<rparr>)"
    by (simp add: t(3) Translate_mainMemory)
  then show ?thesis using ReadMem_stored [OF t(2)] by auto
qed

theorem WriteMem_ReadMem_witness:
  "\<exists>m' m''. WriteMem (sample_machine [sample_entry 0 5]) 8 1 0x1ff = Inr (Inr (), m') \<and>
     ReadMem m' 8 1 = Inr (Inr (loaded 1 0x1ff), m'')"
proof -
  have "\<exists>m'. WriteMem (sample_machine [sample_entry 0 5]) 8 1 0x1ff = Inr (Inr (), m')"
    by (simp add: WriteMem_def Translate_def misaligned_def sample_machine_def find_entry_def
        read_array_def sample_entry_def size_defs Let_def)
  then show ?thesis using WriteMem_ReadMem by blast
qed

text \<open>The frames a page table maps.\<close>

definition frames :: "TranslationEntry list \<Rightarrow> nat set" where
  "frames pt = (unat \<circ> physicalPage) ` set pt"

lemma Translate_frame:
  assumes "Translate m va sz w = Inr (Inr pa, m')" "tlb m = None" "pageTable m = Some pt"
    "sz \<in> {1, 2, 4}"
  shows "\<exists>f \<in> frames pt. f * PageSize \<le> pa \<and> pa + sz \<le> Suc f * PageSize"
proof -
  from assms(1) obtain i e where t: "\<not> misaligned va sz"
    "find_entry m (va div of_nat PageSize) = Inr (Inr (i, e))"
    "pa = unat (physicalPage e) * PageSize + unat va mod PageSize"
    by (rule Translate_Inr)
  from find_entry_Some(2) [OF t(2) assms(2)] assms(3) have "e \<in> set pt" by auto
  then have "unat (physicalPage e) \<in> frames pt" by (auto simp: frames_def)
  moreover have "unat (physicalPage e) * PageSize \<le> pa \<and> pa + sz \<le> Suc (unat (physicalPage e)) * PageSize"
    using aligned_in_page [OF t(1) assms(4)] t(3) by simp
  ultimately show ?thesis by blast
qed

definition use_table :: "TranslationEntry list \<Rightarrow> Machine \<Rightarrow> Machine" where
  "use_table pt m = m\<lparr>pageTable := Some pt, pageTableSize := length pt\<rparr>"


lemma RaiseException_enter_mainMemory:
  "RaiseException_enter a (m\<lparr>mainMemory := x\<rparr>) =
     bindR (RaiseException_enter a m) (\<lambda>m'. Inr (m'\<lparr>mainMemory := x\<rparr>))"
  by (simp add: RaiseException_enter_def DelayedLoad_def set_reg_def Let_def)

lemma reads_agree:
  assumes "\<And>k. k < 4 \<Longrightarrow> k < sz \<Longrightarrow> mem (a + k) = mem' (a + k)"
  shows "sz = 1 \<Longrightarrow> mem a = mem' a" "sz = 2 \<Longrightarrow> mem16 mem a = mem16 mem' a"
    "sz = 4 \<Longrightarrow> mem32 mem a = mem32 mem' a"
  using assms [of 0] assms [of 1] assms [of 2] assms [of 3]
  by (simp_all add: mem16_def mem32_def numeral_2_eq_2)

text \<open>A read through a table only sees the bytes of the frames it maps.\<close>

lemma ReadMem_local:
  assumes "tlb m = None" "pageTable m = Some pt" "mmu_ok m" "sz \<in> {1, 2, 4}"
    and agree: "\<And>f p. f \<in> frames pt \<Longrightarrow> f * PageSize \<le> p \<Longrightarrow> p < Suc f * PageSize \<Longrightarrow>
      x p = mainMemory m p"
  shows "map_sum id fst (ReadMem (m\<lparr>mainMemory := x\<rparr>) va sz) = map_sum id fst (ReadMem m va sz)"
proof -
  from Translate_total [OF assms(3,4)] obtain r n where t: "Translate m va sz False = Inr (r, n)" by blast
  show ?thesis
  proof (cases r)
    case (Inl exc)
    with t show ?thesis
      by (cases "RaiseException_enter va n")
        (simp_all add: ReadMem_def Translate_mainMemory RaiseException_enter_mainMemory)
  next
    case (Inr pa)
    from Translate_frame [OF t [unfolded Inr] assms(1,2,4)] obtain f where
      f: "f \<in> frames pt" "f * PageSize \<le> pa" "pa + sz \<le> Suc f * PageSize" by blast
    have "mainMemory n = mainMemory m" by (rule Translate_mmu_ok(2) [OF t assms(3)])
    moreover have ag: "x (pa + k) = mainMemory m (pa + k)" if "k < sz" for k
      by (rule agree [OF f(1)]) (use f that in auto)
    ultimately show ?thesis using t Inr ag [of 0] reads_agree(2,3) [of sz x pa "mainMemory m"] ag
      by (simp add: ReadMem_def Translate_mainMemory)
  qed
qed

text \<open>C11.  Isolation: a store through one page table does not change what any load sees
  through a page table that maps none of the same frames.\<close>

theorem WriteMem_isolated:
  assumes "WriteMem (use_table pt m) va sz v = Inr (Inr (), m')" "tlb m = None"
    "frames pt \<inter> frames pt' = {}" "sz' \<in> {1, 2, 4}"
  shows "map_sum id fst (ReadMem (use_table pt' m') va' sz') =
    map_sum id fst (ReadMem (use_table pt' m) va' sz')"
proof -
  from assms(1) obtain pa m1 where t: "Translate (use_table pt m) va sz True = Inr (Inr pa, m1)"
    "sz \<in> {1, 2, 4}" "m' = m1\<lparr>mainMemory := stored sz v pa (mainMemory m1)\<rparr>"
    by (rule WriteMem_Inr)
  obtain i e where "m1 = put_entry (use_table pt m) i e" by (rule Translate_Inr [OF t(1)])
  then have m': "use_table pt' m' = (use_table pt' m)\<lparr>mainMemory := stored sz v pa (mainMemory m)\<rparr>"
    using assms(2) t(3) by (simp add: use_table_def put_entry_def)
  from Translate_frame [OF t(1) _ _ t(2), of pt] assms(2) obtain f where
    f: "f \<in> frames pt" "f * PageSize \<le> pa" "pa + sz \<le> Suc f * PageSize" by (auto simp: use_table_def)
  show ?thesis unfolding m'
  proof (rule ReadMem_local [of _ pt'])
    fix g p assume g: "g \<in> frames pt'" "g * PageSize \<le> p" "p < Suc g * PageSize"
    have "Suc f \<le> g \<or> Suc g \<le> f" using f(1) g(1) assms(3) by (metis disjoint_iff le_less_linear less_Suc_eq_le order_antisym)
    then have "Suc f * PageSize \<le> g * PageSize \<or> Suc g * PageSize \<le> f * PageSize"
      using mult_le_mono1 by blast
    then show "stored sz v pa (mainMemory m) p = mainMemory (use_table pt' m) p"
      using f g by (auto simp: use_table_def intro!: stored_other [OF _ t(2)])
  qed (use assms in \<open>auto simp: use_table_def mmu_ok_def\<close>)
qed

theorem WriteMem_isolated_witness:
  "\<exists>m'. WriteMem (use_table [sample_entry 0 5] (sample_machine [])) 8 4 7 = Inr (Inr (), m') \<and>
     map_sum id fst (ReadMem (use_table [sample_entry 0 6] m') 8 4) =
     map_sum id fst (ReadMem (use_table [sample_entry 0 6] (sample_machine [])) 8 4)"
proof -
  have "\<exists>m'. WriteMem (use_table [sample_entry 0 5] (sample_machine [])) 8 4 7 = Inr (Inr (), m')"
    by (simp add: WriteMem_def Translate_def misaligned_def sample_machine_def find_entry_def
        read_array_def sample_entry_def use_table_def size_defs Let_def)
  then show ?thesis
    using WriteMem_isolated [of "[sample_entry 0 5]" "sample_machine []" 8 4 7 _ "[sample_entry 0 6]" 4 8]
    by (auto simp: frames_def sample_entry_def sample_machine_def)
qed

end
