(* ===== verification/Machine_CPU.thy ===== *)
theory Machine_CPU
  imports Machine_Memory
begin

text \<open>
  The MIPS simulator (\<^verbatim>\<open>machine/mipssim.cc\<close>, \<^verbatim>\<open>machine/mipssim.h\<close>): instruction decoding, the
  execution of one instruction, the software multiplication.  C's signed arithmetic is the
  two's complement arithmetic of the 32-bit host that the overflow tests of the code rely on;
  the one host instruction that traps (\<open>INT_MIN / -1\<close>) is the error \<^const>\<open>Undefined\<close>.
  An instruction that raises an exception ends in \<open>Trapped\<close>, after the machine part of
  \<open>RaiseException\<close>; the kernel's \<open>ExceptionHandler\<close> runs next.
\<close>

section \<open>Instructions and their decoding\<close>

datatype (plugins only: code size) OpCode = OP_ADD | OP_ADDI | OP_ADDIU | OP_ADDU | OP_AND | OP_ANDI | OP_BEQ | OP_BGEZ
  | OP_BGEZAL | OP_BGTZ | OP_BLEZ | OP_BLTZ | OP_BLTZAL | OP_BNE | OP_DIV | OP_DIVU | OP_J
  | OP_JAL | OP_JALR | OP_JR | OP_LB | OP_LBU | OP_LH | OP_LHU | OP_LUI | OP_LW | OP_LWL
  | OP_LWR | OP_MFHI | OP_MFLO | OP_MTHI | OP_MTLO | OP_MULT | OP_MULTU | OP_NOR | OP_OR
  | OP_ORI | OP_RFE | OP_SB | OP_SH | OP_SLL | OP_SLLV | OP_SLT | OP_SLTI | OP_SLTIU | OP_SLTU
  | OP_SRA | OP_SRAV | OP_SRL | OP_SRLV | OP_SUB | OP_SUBU | OP_SW | OP_SWL | OP_SWR | OP_XOR
  | OP_XORI | OP_SYSCALL | OP_UNIMP | OP_RES | SPECIAL | BCOND

datatype OpFormat = IFMT | JFMT | RFMT

definition opTable :: "(OpCode \<times> OpFormat) list" where
  "opTable = [
    (SPECIAL, RFMT), (BCOND, IFMT), (OP_J, JFMT), (OP_JAL, JFMT),
    (OP_BEQ, IFMT), (OP_BNE, IFMT), (OP_BLEZ, IFMT), (OP_BGTZ, IFMT),
    (OP_ADDI, IFMT), (OP_ADDIU, IFMT), (OP_SLTI, IFMT), (OP_SLTIU, IFMT),
    (OP_ANDI, IFMT), (OP_ORI, IFMT), (OP_XORI, IFMT), (OP_LUI, IFMT),
    (OP_UNIMP, IFMT), (OP_UNIMP, IFMT), (OP_UNIMP, IFMT), (OP_UNIMP, IFMT),
    (OP_RES, IFMT), (OP_RES, IFMT), (OP_RES, IFMT), (OP_RES, IFMT),
    (OP_RES, IFMT), (OP_RES, IFMT), (OP_RES, IFMT), (OP_RES, IFMT),
    (OP_RES, IFMT), (OP_RES, IFMT), (OP_RES, IFMT), (OP_RES, IFMT),
    (OP_LB, IFMT), (OP_LH, IFMT), (OP_LWL, IFMT), (OP_LW, IFMT),
    (OP_LBU, IFMT), (OP_LHU, IFMT), (OP_LWR, IFMT), (OP_RES, IFMT),
    (OP_SB, IFMT), (OP_SH, IFMT), (OP_SWL, IFMT), (OP_SW, IFMT),
    (OP_RES, IFMT), (OP_RES, IFMT), (OP_SWR, IFMT), (OP_RES, IFMT),
    (OP_UNIMP, IFMT), (OP_UNIMP, IFMT), (OP_UNIMP, IFMT), (OP_UNIMP, IFMT),
    (OP_RES, IFMT), (OP_RES, IFMT), (OP_RES, IFMT), (OP_RES, IFMT),
    (OP_UNIMP, IFMT), (OP_UNIMP, IFMT), (OP_UNIMP, IFMT), (OP_UNIMP, IFMT),
    (OP_RES, IFMT), (OP_RES, IFMT), (OP_RES, IFMT), (OP_RES, IFMT)]"

definition specialTable :: "OpCode list" where
  "specialTable = [
    OP_SLL, OP_RES, OP_SRL, OP_SRA, OP_SLLV, OP_RES, OP_SRLV, OP_SRAV,
    OP_JR, OP_JALR, OP_RES, OP_RES, OP_SYSCALL, OP_UNIMP, OP_RES, OP_RES,
    OP_MFHI, OP_MTHI, OP_MFLO, OP_MTLO, OP_RES, OP_RES, OP_RES, OP_RES,
    OP_MULT, OP_MULTU, OP_DIV, OP_DIVU, OP_RES, OP_RES, OP_RES, OP_RES,
    OP_ADD, OP_ADDU, OP_SUB, OP_SUBU, OP_AND, OP_OR, OP_XOR, OP_NOR,
    OP_RES, OP_RES, OP_SLT, OP_SLTU, OP_RES, OP_RES, OP_RES, OP_RES,
    OP_RES, OP_RES, OP_RES, OP_RES, OP_RES, OP_RES, OP_RES, OP_RES,
    OP_RES, OP_RES, OP_RES, OP_RES, OP_RES, OP_RES, OP_RES, OP_RES]"

record Instruction =
  opCode :: OpCode
  rs :: nat
  rt :: nat
  rd :: nat
  extra :: "32 word"

definition field5 :: "nat \<Rightarrow> 32 word \<Rightarrow> nat" where
  "field5 k v = unat (drop_bit k v AND 0x1f)"

definition decode_extra :: "OpFormat \<Rightarrow> 32 word \<Rightarrow> 32 word" where
  "decode_extra fmt v =
     (case fmt of
        IFMT \<Rightarrow> (let e = v AND 0xffff in if e AND 0x8000 \<noteq> 0 then e OR 0xffff0000 else e)
      | RFMT \<Rightarrow> drop_bit 6 v AND 0x1f
      | JFMT \<Rightarrow> v AND 0x3ffffff)"

definition decode_opCode :: "OpCode \<Rightarrow> 32 word \<Rightarrow> OpCode" where
  "decode_opCode op v =
     (if op = SPECIAL then specialTable ! unat (v AND 0x3f)
      else if op = BCOND then
        (let i = v AND 0x1f0000 in
         if i = 0 then OP_BLTZ
         else if i = 0x10000 then OP_BGEZ
         else if i = 0x100000 then OP_BLTZAL
         else if i = 0x110000 then OP_BGEZAL
         else OP_UNIMP)
      else op)"

definition Decode :: "32 word \<Rightarrow> Instruction" where
  "Decode v =
     (let (op, fmt) = opTable ! unat (drop_bit 26 v AND 0x3f) in
      \<lparr>opCode = decode_opCode op v, rs = field5 21 v, rt = field5 16 v, rd = field5 11 v,
       extra = decode_extra fmt v\<rparr>)"

definition IndexToAddr :: "32 word \<Rightarrow> 32 word" where
  "IndexToAddr x = push_bit 2 x"

definition SIGN_BIT :: "32 word" where "SIGN_BIT = 0x80000000"
definition R31 :: nat where "R31 = 31"


section \<open>Multiplication\<close>

text \<open>The shift-and-add loop with \<open>n\<close> iterations left; \<open>a >>= 1\<close> on an \<open>int\<close> is an arithmetic
  shift.\<close>

fun Mult_loop :: "nat \<Rightarrow> 32 word \<Rightarrow> 32 word \<Rightarrow> 32 word \<Rightarrow> 32 word \<Rightarrow> 32 word \<Rightarrow> 32 word \<times> 32 word" where
  "Mult_loop 0 a bHi bLo hi lo = (hi, lo)"
| "Mult_loop (Suc n) a bHi bLo hi lo =
     (let odd = a AND 1 \<noteq> 0;
          lo' = (if odd then lo + bLo else lo);
          hi' = (if odd then (if lo' < bLo then hi + 1 else hi) + bHi else hi)
      in if odd \<and> a AND 0xfffffffe = 0 then (hi', lo')
         else Mult_loop n (signed_drop_bit 1 a)
                (if bLo AND 0x80000000 \<noteq> 0 then push_bit 1 bHi OR 1 else push_bit 1 bHi)
                (push_bit 1 bLo) hi' lo')"

definition Mult :: "32 word \<Rightarrow> 32 word \<Rightarrow> bool \<Rightarrow> 32 word \<times> 32 word" where
  "Mult a b signedArith =
     (if a = 0 \<or> b = 0 then (0, 0)
      else
        let negative = signedArith \<and> (a <s 0) \<noteq> (b <s 0);
            a' = (if signedArith \<and> a <s 0 then - a else a);
            b' = (if signedArith \<and> b <s 0 then - b else b);
            (hi, lo) = Mult_loop 32 a' 0 b' 0 0
        in if negative
           then (let lo' = NOT lo + 1 in (if lo' = 0 then NOT hi + 1 else NOT hi, lo'))
           else (hi, lo))"


section \<open>One instruction\<close>

text \<open>What the \<open>switch\<close> leaves: \<open>pcAfter\<close>, \<open>nextLoadReg\<close> and \<open>nextLoadValue\<close> for the common
  tail, or an exception after which \<open>OneInstruction\<close> returns.\<close>

datatype exec = Next "32 word" nat "32 word" Machine | Raise ExceptionType Machine

definition RaiseException :: "ExceptionType \<Rightarrow> 32 word \<Rightarrow> Machine \<Rightarrow> exec res" where
  "RaiseException which badVAddr m =
     bindR (RaiseException_enter badVAddr m) (\<lambda>m'. Inr (Raise which m'))"

definition load_from :: "32 word \<Rightarrow> nat \<Rightarrow> Machine \<Rightarrow> (32 word \<Rightarrow> Machine \<Rightarrow> exec res) \<Rightarrow> exec res" where
  "load_from addr sz m k =
     bindR (ReadMem m addr sz) (\<lambda>(r, m'). case r of
       Inl exc \<Rightarrow> Inr (Raise exc m') | Inr v \<Rightarrow> k v m')"

definition store_to :: "32 word \<Rightarrow> nat \<Rightarrow> 32 word \<Rightarrow> Machine \<Rightarrow> (Machine \<Rightarrow> exec res) \<Rightarrow> exec res" where
  "store_to addr sz v m k =
     bindR (WriteMem m addr sz v) (\<lambda>(r, m'). case r of
       Inl exc \<Rightarrow> Inr (Raise exc m') | Inr _ \<Rightarrow> k m')"

text \<open>Each group of cases of the \<open>switch\<close> is a function that is \<^const>\<open>None\<close> on the
  opcodes of the other groups.\<close>

definition exec_arith :: "Instruction \<Rightarrow> 32 word \<Rightarrow> Machine \<Rightarrow> exec res option" where
  "exec_arith instr pcAfter m =
     (let a = registers m (rs instr); b = registers m (rt instr); x = extra instr; op = opCode instr in
        if op = OP_ADD then Some (
          let sum = a + b in
          if \<not> ((a XOR b) AND SIGN_BIT \<noteq> 0) \<and> (a XOR sum) AND SIGN_BIT \<noteq> 0
          then RaiseException OverflowException 0 m
          else Inr (Next pcAfter 0 0 (set_reg (rd instr) sum m)))
        else if op = OP_ADDI then Some (
          let sum = a + x in
          if \<not> ((a XOR x) AND SIGN_BIT \<noteq> 0) \<and> (x XOR sum) AND SIGN_BIT \<noteq> 0
          then RaiseException OverflowException 0 m
          else Inr (Next pcAfter 0 0 (set_reg (rt instr) sum m)))
        else if op = OP_ADDIU then Some (Inr (Next pcAfter 0 0 (set_reg (rt instr) (a + x) m)))
        else if op = OP_ADDU then Some (Inr (Next pcAfter 0 0 (set_reg (rd instr) (a + b) m)))
        else if op = OP_AND then Some (Inr (Next pcAfter 0 0 (set_reg (rd instr) (a AND b) m)))
        else if op = OP_ANDI then Some (Inr (Next pcAfter 0 0 (set_reg (rt instr) (a AND (x AND 0xffff)) m)))
        else None)"

text \<open>\<open>BGEZAL\<close> and \<open>BLTZAL\<close> fall through to the test that follows them, which reads the source
  register after R31 has been written.\<close>

definition exec_branch :: "Instruction \<Rightarrow> 32 word \<Rightarrow> Machine \<Rightarrow> exec res option" where
  "exec_branch instr pcAfter m =
     (let a = registers m (rs instr); b = registers m (rt instr);
          target = registers m NextPCReg + IndexToAddr (extra instr);
          link = set_reg R31 (registers m NextPCReg + 4) m;
          branch = (\<lambda>c m'. Some (Inr (Next (if c then target else pcAfter) 0 0 m')));
          op = opCode instr in
        if op = OP_BEQ then branch (a = b) m
        else if op = OP_BGEZAL then branch (\<not> (registers link (rs instr) AND SIGN_BIT \<noteq> 0)) link
        else if op = OP_BGEZ then branch (\<not> (a AND SIGN_BIT \<noteq> 0)) m
        else if op = OP_BGTZ then branch (0 <s a) m
        else if op = OP_BLEZ then branch (a \<le>s 0) m
        else if op = OP_BLTZAL then branch (registers link (rs instr) AND SIGN_BIT \<noteq> 0) link
        else if op = OP_BLTZ then branch (a AND SIGN_BIT \<noteq> 0) m
        else if op = OP_BNE then branch (a \<noteq> b) m
        else None)"


text \<open>\<open>JAL\<close> and \<open>JALR\<close> fall through to \<open>J\<close> and \<open>JR\<close>.\<close>

definition exec_div_jump :: "Instruction \<Rightarrow> 32 word \<Rightarrow> Machine \<Rightarrow> exec res option" where
  "exec_div_jump instr pcAfter m =
     (let a = registers m (rs instr); b = registers m (rt instr);
          set_hilo = (\<lambda>hi lo. set_reg HiReg hi (set_reg LoReg lo m));
          jump = (pcAfter AND 0xf0000000) OR IndexToAddr (extra instr);
          op = opCode instr in
        if op = OP_DIV then Some (
          if b = 0 then Inr (Next pcAfter 0 0 (set_hilo 0 0))
          else if sint a = - (2 ^ 31) \<and> sint b = -1 then Inl Undefined
          else Inr (Next pcAfter 0 0
            (set_hilo (word_of_int (sint a smod sint b)) (word_of_int (sint a sdiv sint b)))))
        else if op = OP_DIVU then Some (
          if b = 0 then Inr (Next pcAfter 0 0 (set_hilo 0 0))
          else Inr (Next pcAfter 0 0 (set_hilo (a mod b) (a div b))))
        else if op = OP_JAL then Some (Inr (Next jump 0 0 (set_reg R31 (registers m NextPCReg + 4) m)))
        else if op = OP_J then Some (Inr (Next jump 0 0 m))
        else if op = OP_JALR then Some (
          let m' = set_reg (rd instr) (registers m NextPCReg + 4) m in
          Inr (Next (registers m' (rs instr)) 0 0 m'))
        else if op = OP_JR then Some (Inr (Next a 0 0 m))
        else None)"

definition exec_load :: "Instruction \<Rightarrow> 32 word \<Rightarrow> Machine \<Rightarrow> exec res option" where
  "exec_load instr pcAfter m =
     (let tmp = registers m (rs instr) + extra instr; op = opCode instr;
          pending = (\<lambda>m'. if registers m' LoadReg = of_nat (rt instr) then registers m' LoadValueReg
                          else registers m' (rt instr)) in
        if op = OP_LB \<or> op = OP_LBU then Some (
          load_from tmp 1 m (\<lambda>v m'.
            Inr (Next pcAfter (rt instr)
              (if v AND 0x80 \<noteq> 0 \<and> op = OP_LB then v OR 0xffffff00 else v AND 0xff) m')))
        else if op = OP_LH \<or> op = OP_LHU then Some (
          if tmp AND 1 \<noteq> 0 then RaiseException AddressErrorException tmp m
          else load_from tmp 2 m (\<lambda>v m'.
            Inr (Next pcAfter (rt instr)
              (if v AND 0x8000 \<noteq> 0 \<and> op = OP_LH then v OR 0xffff0000 else v AND 0xffff) m')))
        else if op = OP_LUI then Some (Inr (Next pcAfter 0 0 (set_reg (rt instr) (push_bit 16 (extra instr)) m)))
        else if op = OP_LW then Some (
          if tmp AND 3 \<noteq> 0 then RaiseException AddressErrorException tmp m
          else load_from tmp 4 m (\<lambda>v m'. Inr (Next pcAfter (rt instr) v m')))
        else if op = OP_LWL then Some (
          bindR (ASSERT (tmp AND 3 = 0)) (\<lambda>_.
          load_from tmp 4 m (\<lambda>v m'. let p = pending m' in
            Inr (Next pcAfter (rt instr)
              (if tmp AND 3 = 0 then v
               else if tmp AND 3 = 1 then (p AND 0xff) OR push_bit 8 v
               else if tmp AND 3 = 2 then (p AND 0xffff) OR push_bit 16 v
               else (p AND 0xffffff) OR push_bit 24 v) m'))))
        else if op = OP_LWR then Some (
          bindR (ASSERT (tmp AND 3 = 0)) (\<lambda>_.
          load_from tmp 4 m (\<lambda>v m'. let p = pending m' in
            Inr (Next pcAfter (rt instr)
              (if tmp AND 3 = 0 then (p AND 0xffffff00) OR (signed_drop_bit 24 v AND 0xff)
               else if tmp AND 3 = 1 then (p AND 0xffff0000) OR (signed_drop_bit 16 v AND 0xffff)
               else if tmp AND 3 = 2 then (p AND 0xff000000) OR (signed_drop_bit 8 v AND 0xffffff)
               else v) m'))))
        else None)"

definition exec_move :: "Instruction \<Rightarrow> 32 word \<Rightarrow> Machine \<Rightarrow> exec res option" where
  "exec_move instr pcAfter m =
     (let a = registers m (rs instr); b = registers m (rt instr); op = opCode instr;
          into = (\<lambda>r v. Some (Inr (Next pcAfter 0 0 (set_reg r v m))));
          mult = (\<lambda>signedArith. let (hi, lo) = Mult a b signedArith in
            Some (Inr (Next pcAfter 0 0 (set_reg LoReg lo (set_reg HiReg hi m))))) in
        if op = OP_MFHI then into (rd instr) (registers m HiReg)
        else if op = OP_MFLO then into (rd instr) (registers m LoReg)
        else if op = OP_MTHI then into HiReg a
        else if op = OP_MTLO then into LoReg a
        else if op = OP_MULT then mult True
        else if op = OP_MULTU then mult False
        else if op = OP_NOR then into (rd instr) (NOT (a OR b))
        else if op = OP_OR then into (rd instr) (a OR a)
        else if op = OP_ORI then into (rt instr) (a OR (extra instr AND 0xffff))
        else None)"

text \<open>\<open>SRL\<close> and \<open>SRLV\<close> shift the \<open>int\<close> variable \<open>tmp\<close>, so their shift is arithmetic.\<close>

definition exec_store_shift :: "Instruction \<Rightarrow> 32 word \<Rightarrow> Machine \<Rightarrow> exec res option" where
  "exec_store_shift instr pcAfter m =
     (let a = registers m (rs instr); b = registers m (rt instr); x = extra instr;
          op = opCode instr;
          into = (\<lambda>r v. Some (Inr (Next pcAfter 0 0 (set_reg r v m))));
          store = (\<lambda>sz. Some (store_to (a + x) sz b m (\<lambda>m'. Inr (Next pcAfter 0 0 m')))) in
        if op = OP_SB then store 1
        else if op = OP_SH then store 2
        else if op = OP_SLL then into (rd instr) (push_bit (unat x) b)
        else if op = OP_SLLV then into (rd instr) (push_bit (unat (a AND 0x1f)) b)
        else if op = OP_SLT then into (rd instr) (if a <s b then 1 else 0)
        else if op = OP_SLTI then into (rt instr) (if a <s x then 1 else 0)
        else if op = OP_SLTIU then into (rt instr) (if a < x then 1 else 0)
        else if op = OP_SLTU then into (rd instr) (if a < b then 1 else 0)
        else if op = OP_SRA then into (rd instr) (signed_drop_bit (unat x) b)
        else if op = OP_SRAV then into (rd instr) (signed_drop_bit (unat (a AND 0x1f)) b)
        else if op = OP_SRL then into (rd instr) (signed_drop_bit (unat x) b)
        else if op = OP_SRLV then into (rd instr) (signed_drop_bit (unat (a AND 0x1f)) b)
        else None)"

definition exec_sub_misc :: "Instruction \<Rightarrow> 32 word \<Rightarrow> Machine \<Rightarrow> exec res option" where
  "exec_sub_misc instr pcAfter m =
     (let a = registers m (rs instr); b = registers m (rt instr); x = extra instr;
          op = opCode instr; tmp = a + x;
          into = (\<lambda>r v. Some (Inr (Next pcAfter 0 0 (set_reg r v m)))) in
        if op = OP_SUB then Some (
          let diff = a - b in
          if (a XOR b) AND SIGN_BIT \<noteq> 0 \<and> (a XOR diff) AND SIGN_BIT \<noteq> 0
          then RaiseException OverflowException 0 m
          else Inr (Next pcAfter 0 0 (set_reg (rd instr) diff m)))
        else if op = OP_SUBU then into (rd instr) (a - b)
        else if op = OP_SW then Some (store_to tmp 4 b m (\<lambda>m'. Inr (Next pcAfter 0 0 m')))
        else if op = OP_SWL then Some (
          bindR (ASSERT (tmp AND 3 = 0)) (\<lambda>_.
          load_from (tmp AND NOT 3) 4 m (\<lambda>v m'. let b' = registers m' (rt instr) in
            store_to (tmp AND NOT 3) 4
              (if tmp AND 3 = 0 then b'
               else if tmp AND 3 = 1 then (v AND 0xff000000) OR (signed_drop_bit 8 b' AND 0xffffff)
               else if tmp AND 3 = 2 then (v AND 0xffff0000) OR (signed_drop_bit 16 b' AND 0xffff)
               else (v AND 0xffffff00) OR (signed_drop_bit 24 b' AND 0xff))
              m' (\<lambda>m''. Inr (Next pcAfter 0 0 m'')))))
        else if op = OP_SWR then Some (
          bindR (ASSERT (tmp AND 3 = 0)) (\<lambda>_.
          load_from (tmp AND NOT 3) 4 m (\<lambda>v m'. let b' = registers m' (rt instr) in
            store_to (tmp AND NOT 3) 4
              (if tmp AND 3 = 0 then (v AND 0xffffff) OR push_bit 24 b'
               else if tmp AND 3 = 1 then (v AND 0xffff) OR push_bit 16 b'
               else if tmp AND 3 = 2 then (v AND 0xff) OR push_bit 8 b'
               else b')
              m' (\<lambda>m''. Inr (Next pcAfter 0 0 m'')))))
        else if op = OP_SYSCALL then Some (RaiseException SyscallException 0 m)
        else if op = OP_XOR then into (rd instr) (a XOR b)
        else if op = OP_XORI then into (rt instr) (a XOR (x AND 0xffff))
        else if op = OP_RES \<or> op = OP_UNIMP then Some (RaiseException IllegalInstrException 0 m)
        else None)"

text \<open>The whole \<open>switch\<close>; its \<open>default\<close> is \<open>ASSERT(FALSE)\<close>.\<close>

fun first_case :: "('a \<Rightarrow> 'b \<Rightarrow> 'c \<Rightarrow> 'd res option) list \<Rightarrow> 'a \<Rightarrow> 'b \<Rightarrow> 'c \<Rightarrow> 'd res" where
  "first_case [] i p m = Inl AssertFailed"
| "first_case (f # fs) i p m = (case f i p m of Some r \<Rightarrow> r | None \<Rightarrow> first_case fs i p m)"

definition execute :: "Instruction \<Rightarrow> 32 word \<Rightarrow> Machine \<Rightarrow> exec res" where
  "execute = first_case [exec_arith, exec_branch, exec_div_jump, exec_load, exec_move,
     exec_store_shift, exec_sub_misc]"

datatype outcome = Completed | Trapped ExceptionType

text \<open>The common tail: the delayed load and the three program counters.\<close>

definition finish_instruction :: "exec \<Rightarrow> (outcome \<times> Machine) res" where
  "finish_instruction e =
     (case e of
        Raise exc m \<Rightarrow> Inr (Trapped exc, m)
      | Next pcAfter nextLoadReg nextLoadValue m \<Rightarrow>
          bindR (DelayedLoad nextLoadReg nextLoadValue m) (\<lambda>m1.
            let m2 = set_reg PrevPCReg (registers m1 PCReg) m1;
                m3 = set_reg PCReg (registers m2 NextPCReg) m2
            in Inr (Completed, set_reg NextPCReg pcAfter m3)))"

definition OneInstruction :: "Machine \<Rightarrow> (outcome \<times> Machine) res" where
  "OneInstruction m =
     bindR (ReadMem m (registers m PCReg) 4) (\<lambda>(r, m1). case r of
       Inl exc \<Rightarrow> Inr (Trapped exc, m1)
     | Inr raw \<Rightarrow>
         bindR (execute (Decode raw) (registers m1 NextPCReg + 4) m1) finish_instruction)"

end
