(* ===== verification/CPU_Correct.thy ===== *)
theory CPU_Correct
  imports Machine_CPU
begin

text \<open>
  Correctness of the MIPS simulator: the software multiplication computes the 64-bit product,
  the overflow tests are exact, register 0 stays zero, every instruction keeps the machine well
  formed, and the load and branch delays are those of the R2000.
\<close>

section \<open>Multiplication\<close>

text \<open>The double word held in a pair of registers.\<close>

definition double :: "32 word \<Rightarrow> 32 word \<Rightarrow> 64 word" where
  "double hi lo = word_of_int (uint hi * 2 ^ 32 + uint lo)"

lemma word_of_int_wrap: "x = y + k * 2 ^ 64 \<Longrightarrow> word_of_int x = (word_of_int y :: 64 word)"
  by (simp add: word_of_int_eq_iff take_bit_eq_mod del: of_int_add of_int_mult)

lemma carry_out: "(lo + b < (b :: 32 word)) \<longleftrightarrow> 2 ^ 32 \<le> uint lo + uint b"
  using uint_bounded [of lo] uint_bounded [of b] by (auto simp: word_less_def uint_plus_if')

lemma uint_add_wrap: "\<exists>k. uint (x + y :: 32 word) = uint x + uint y + k * 2 ^ 32"
proof (cases "uint x + uint y < 2 ^ 32")
  case False
  then have "uint (x + y) = uint x + uint y + (- 1) * 2 ^ 32" by (simp add: uint_plus_if')
  then show ?thesis by blast
qed (auto simp: uint_plus_if' intro: exI [of _ 0])

lemma double_add:
  "double ((if lo + bLo < bLo then hi + 1 else hi) + bHi) (lo + bLo) = double hi lo + double bHi bLo"
proof -
  define c :: "32 word" where "c = (if lo + bLo < bLo then 1 else 0)"
  have lo: "uint (lo + bLo) = uint lo + uint bLo - uint c * 2 ^ 32"
    using carry_out [of lo bLo] by (auto simp: c_def uint_plus_if')
  obtain k1 k2 where h: "uint (hi + c + bHi) = uint (hi + c) + uint bHi + k1 * 2 ^ 32"
    "uint (hi + c) = uint hi + uint c + k2 * 2 ^ 32"
    using uint_add_wrap by metis
  have "double (hi + c + bHi) (lo + bLo) = double hi lo + double bHi bLo"
    unfolding double_def of_int_add [symmetric]
    by (rule word_of_int_wrap [where k = "k1 + k2"]) (unfold lo h, algebra)
  moreover have "(if lo + bLo < bLo then hi + 1 else hi) = hi + c" by (simp add: c_def)
  ultimately show ?thesis by simp
qed

lemma sign_bit_bit: "(w :: 32 word) AND 0x80000000 \<noteq> 0 \<longleftrightarrow> bit w 31"
proof -
  have "(0x80000000 :: 32 word) = push_bit 31 1" by (simp add: push_bit_eq_mult)
  then show ?thesis by (metis and_exp_eq_0_iff_not_bit push_bit_of_1)
qed

lemma bit31_uint: "bit (w :: 32 word) 31 \<longleftrightarrow> 2 ^ 31 \<le> uint w"
proof -
  have "uint w < 2 ^ 32" using uint_bounded [of w] by simp
  then have "uint w div 2 ^ 31 < 2" "0 \<le> uint w div 2 ^ 31"
    by (simp_all add: pos_imp_zdiv_nonneg_iff)
  moreover have "bit w 31 \<longleftrightarrow> odd (uint w div 2 ^ 31)"
    by (metis bit_iff_odd bit_uint_iff bit_imp_le_length impossible_bit)
  moreover have "0 < uint w div 2 ^ 31 \<longleftrightarrow> 2 ^ 31 \<le> uint w" by (simp add: pos_imp_zdiv_pos_iff)
  moreover have "odd q \<longleftrightarrow> 0 < q" if "q < 2" "0 \<le> q" for q :: int using that by presburger
  ultimately show ?thesis by blast
qed

lemma double_shift:
  "double (if bLo AND 0x80000000 \<noteq> 0 then push_bit 1 bHi OR 1 else push_bit 1 bHi) (push_bit 1 bLo) =
     double bHi bLo + double bHi bLo"
proof -
  have 1: "push_bit 1 x = x + x" for x :: "32 word" by (simp add: push_bit_eq_mult)
  have 2: "(bHi + bHi) OR 1 = bHi + 1 + bHi"
    by (simp add: or_one_eq algebra_simps)
  have 3: "(bLo AND 0x80000000 \<noteq> 0) \<longleftrightarrow> bLo + bLo < bLo"
    unfolding sign_bit_bit bit31_uint carry_out by auto
  show ?thesis
    unfolding double_add [symmetric] 3 by (simp only: 2 1 if_distrib [of "\<lambda>x. x + bHi"])
qed

text \<open>Before the top bit of the original \<open>a\<close> is reached, the arithmetic shift agrees with a
  logical one on the bits the loop still reads.\<close>

lemma take_bit_shift:
  assumes "Suc n \<le> 32"
  shows "take_bit (Suc n) (uint (a :: 32 word)) =
    take_bit n (uint (signed_drop_bit 1 a)) * 2 + of_bool (odd a)"
proof -
  have "take_bit n (uint (signed_drop_bit 1 a)) = take_bit n (uint a div 2)"
  proof (rule bit_eqI)
    fix i
    show "bit (take_bit n (uint (signed_drop_bit 1 a))) i = bit (take_bit n (uint a div 2)) i"
      using assms by (auto simp: bit_simps bit_Suc [symmetric])
  qed
  moreover have "uint a mod 2 = of_bool (odd a)"
    by (simp add: mod_2_eq_odd bit_uint_iff flip: bit_0)
  ultimately show ?thesis by (simp add: take_bit_Suc)
qed

lemma only_bit0: "(a :: 32 word) AND 0xfffffffe = 0 \<Longrightarrow> odd a \<Longrightarrow> a = 1"
proof (rule bit_word_eqI)
  fix i assume a: "a AND 0xfffffffe = 0" "odd a" and i: "i < LENGTH(32)"
  have "(0xfffffffe :: 32 word) = NOT 1" by simp
  with a(1) have "\<not> bit (a AND NOT 1) i" by simp
  with a(2) i show "bit a i = bit 1 i" by (cases i) (auto simp: bit_simps bit_0)
qed

lemma Mult_loop_correct:
  assumes "n \<le> 32"
  shows "(case Mult_loop n a bHi bLo hi lo of (h, l) \<Rightarrow> double h l) =
    double hi lo + of_int (take_bit n (uint a)) * double bHi bLo"
  using assms
proof (induction n arbitrary: a bHi bLo hi lo)
  case (Suc n)
  define lo' where "lo' = (if odd a then lo + bLo else lo)"
  define hi' where "hi' = (if odd a then (if lo' < bLo then hi + 1 else hi) + bHi else hi)"
  have d: "double hi' lo' = double hi lo + of_bool (odd a) * double bHi bLo"
    using double_add [of lo bLo hi bHi] by (simp add: hi'_def lo'_def)
  have odd: "a AND 1 \<noteq> 0 \<longleftrightarrow> odd a" by (simp add: and_one_eq odd_iff_mod_2_eq_one)
  show ?case
  proof (cases "odd a \<and> a AND 0xfffffffe = 0")
    case True
    then have "a = 1" using only_bit0 by blast
    then show ?thesis using d True by (simp add: Let_def odd hi'_def lo'_def take_bit_Suc)
  next
    case False
    have "(case Mult_loop (Suc n) a bHi bLo hi lo of (h, l) \<Rightarrow> double h l) =
        double hi' lo' + of_int (take_bit n (uint (signed_drop_bit 1 a))) * (double bHi bLo + double bHi bLo)"
      using Suc False
      by (simp only: Mult_loop.simps Let_def odd hi'_def [symmetric] lo'_def [symmetric] if_False
          double_shift [symmetric])
    also have "\<dots> = double hi lo + of_int (take_bit (Suc n) (uint a)) * double bHi bLo"
      unfolding take_bit_shift [OF Suc.prems] d by (simp add: algebra_simps)
    finally show ?thesis .
  qed
qed simp

lemma double_not: "double (NOT hi) (NOT lo) = - 1 - double hi lo"
proof -
  have n: "uint (NOT x) = 2 ^ 32 - 1 - uint x" for x :: "32 word"
  proof -
    have "uint (NOT x) = (2 ^ 32 - 1 - uint x) mod 2 ^ 32"
      using minus_mod_self1 [of "2 ^ 32" "uint x + 1"]
      by (simp add: not_eq_complement uint_word_ariths mod_simps minus_diff_commute [of "uint x" 1])
    moreover have "(2 ^ 32 - 1 - uint x) mod 2 ^ 32 = 2 ^ 32 - 1 - uint x"
    proof (rule mod_pos_pos_trivial)
      have "0 \<le> uint x" by simp
      then show "2 ^ 32 - 1 - uint x < (2 ^ 32 :: int)" by linarith
    qed (use uint_bounded [of x] in simp)
    ultimately show ?thesis by linarith
  qed
  have "word_of_int (uint (NOT hi) * 2 ^ 32 + uint (NOT lo)) =
      (word_of_int (- 1 - (uint hi * 2 ^ 32 + uint lo)) :: 64 word)"
    by (rule word_of_int_wrap [where k = 1]) (unfold n, algebra)
  then show ?thesis by (simp add: double_def)
qed

lemma double_negate:
  "double (if NOT lo + 1 = 0 then NOT hi + 1 else NOT hi) (NOT lo + 1) = - double hi lo"
proof -
  have "x < 1 \<longleftrightarrow> x = 0" for x :: "32 word" by (simp add: word_less_nat_alt unat_eq_zero)
  then show ?thesis
    using double_add [of "NOT lo" 1 "NOT hi" 0]
    by (simp only: double_not) (simp add: double_def)
qed

lemma sint_eq: "sint (a :: 32 word) = (if bit a 31 then uint a - 2 ^ 32 else uint a)"
  using uint_bounded [of a]
  by (simp add: sint_uint signed_take_bit_eq_take_bit_minus bit_uint_iff take_bit_int_eq_self)

lemma bit31_sint: "bit (w :: 32 word) 31 \<longleftrightarrow> sint w < 0"
  using bit_last_iff [of w] by simp

lemma uint_minus_neg:
  assumes "sint (a :: 32 word) < 0"
  shows "uint (- a) = - sint a"
proof -
  have b: "2 ^ 31 \<le> uint a" using assms by (simp only: bit31_sint [symmetric] bit31_uint)
  have "sint a = uint a - 2 ^ 32" by (metis assms bit31_sint sint_eq)
  moreover have "uint (- a) = (2 ^ 32 - uint a) mod 2 ^ 32"
    unfolding uint_word_ariths(4) minus_mod_self1 by simp
  moreover have "(2 ^ 32 - uint a) mod 2 ^ 32 = 2 ^ 32 - uint a"
    by (rule mod_pos_pos_trivial) (use b uint_bounded [of a] in auto)
  ultimately show ?thesis by linarith
qed

lemma uint_nonneg_sint: "\<not> sint (a :: 32 word) < 0 \<Longrightarrow> uint a = sint a"
  by (metis bit31_sint sint_eq)

lemma uint_magnitude: "uint (if a <s 0 then - a else a :: 32 word) = \<bar>sint a\<bar>"
  by (simp add: word_sless_alt uint_minus_neg uint_nonneg_sint)

text \<open>C12.  \<open>Mult\<close> leaves the 64-bit product of its arguments in the two registers, for
  signed and for unsigned multiplication.\<close>

theorem Mult_correct:
  "(case Mult a b signedArith of (hi, lo) \<Rightarrow> double hi lo) =
     (if signedArith then of_int (sint a * sint b) else of_int (uint a * uint b))"
proof -
  define a' where "a' = (if signedArith \<and> a <s 0 then - a else a)"
  define b' where "b' = (if signedArith \<and> b <s 0 then - b else b)"
  obtain hi lo where hl: "Mult_loop 32 a' 0 b' 0 0 = (hi, lo)" by fastforce
  have ab: "uint a' = (if signedArith then \<bar>sint a\<bar> else uint a)"
    "uint b' = (if signedArith then \<bar>sint b\<bar> else uint b)"
    using uint_magnitude [of a] uint_magnitude [of b] by (simp_all add: a'_def b'_def)
  have "double hi lo = of_int (uint a') * double 0 b'"
    using Mult_loop_correct [of 32 a' 0 b' 0 0] uint_bounded [of a'] hl
    by (simp add: take_bit_int_eq_self) (simp add: double_def)
  then have d: "double hi lo = of_int (uint a' * uint b')"
    by (simp add: double_def)
  have "(case Mult a b signedArith of (hi, lo) \<Rightarrow> double hi lo) =
      (if signedArith \<and> (a <s 0) \<noteq> (b <s 0) then - double hi lo else double hi lo)"
    if "a \<noteq> 0 \<and> b \<noteq> 0"
    unfolding Mult_def a'_def [symmetric] b'_def [symmetric] hl Let_def
    using that double_negate [of lo hi] by simp
  with d ab show ?thesis
    by (cases "a = 0 \<or> b = 0")
      (auto simp: Mult_def double_def word_sless_alt abs_if)
qed


section \<open>Overflow\<close>

lemma sint_word_of_int:
  "- (2 ^ 31) \<le> k \<Longrightarrow> k < 2 ^ 31 \<Longrightarrow> sint (word_of_int k :: 32 word) = k"
  by (simp add: signed_of_int signed_take_bit_int_eq_self)

lemma word_of_int_wrap32: "x = y + k * 2 ^ 32 \<Longrightarrow> word_of_int x = (word_of_int y :: 32 word)"
  by (simp add: word_of_int_eq_iff take_bit_eq_mod del: of_int_add of_int_mult)

text \<open>The sign of a 33-bit result kept in 32 bits.\<close>

lemma wrapped_sign:
  assumes "- (2 ^ 32) \<le> k" "k < 2 ^ 32"
  shows "sint (word_of_int k :: 32 word) < 0 \<longleftrightarrow> (if - (2 ^ 31) \<le> k \<and> k < 2 ^ 31 then k < 0 else 0 \<le> k)"
proof -
  consider "- (2 ^ 31) \<le> k" "k < 2 ^ 31" | "k < - (2 ^ 31)" | "2 ^ 31 \<le> k" by linarith
  then show ?thesis
  proof cases
    case 1 then show ?thesis by (simp add: sint_word_of_int)
  next
    case 2
    have "word_of_int k = (word_of_int (k + 2 ^ 32) :: 32 word)"
      by (rule word_of_int_wrap32 [where k = "-1"]) simp
    then have "sint (word_of_int k :: 32 word) = k + 2 ^ 32"
      using assms 2 sint_word_of_int [of "k + 2 ^ 32"] by (simp del: of_int_add)
    then show ?thesis using assms 2 by simp
  next
    case 3
    have "word_of_int k = (word_of_int (k - 2 ^ 32) :: 32 word)"
      by (rule word_of_int_wrap32 [where k = 1]) simp
    then have "sint (word_of_int k :: 32 word) = k - 2 ^ 32"
      using assms 3 sint_word_of_int [of "k - 2 ^ 32"] by (simp del: of_int_diff)
    then show ?thesis using assms 3 by simp
  qed
qed

lemma sint_range: "- (2 ^ 31) \<le> sint (a :: 32 word)" "sint (a :: 32 word) < 2 ^ 31"
  using sint_greater_eq [of a] sint_less [of a] by simp_all

lemma SIGN_BIT_sint: "(a XOR b) AND SIGN_BIT \<noteq> 0 \<longleftrightarrow> (sint a < 0) \<noteq> (sint b < 0)"
  unfolding SIGN_BIT_def sign_bit_bit bit_xor_iff bit31_sint [symmetric] by blast

lemma add_overflow:
  "\<not> ((a XOR b) AND SIGN_BIT \<noteq> 0) \<and> (a XOR (a + b)) AND SIGN_BIT \<noteq> 0 \<longleftrightarrow>
     \<not> (- (2 ^ 31) \<le> sint a + sint b \<and> sint a + sint b < 2 ^ 31)"
  using wrapped_sign [of "sint a + sint b"] sint_range [of a] sint_range [of b]
  unfolding SIGN_BIT_sint by (auto split: if_splits)

lemma sub_overflow:
  "(a XOR b) AND SIGN_BIT \<noteq> 0 \<and> (a XOR (a - b)) AND SIGN_BIT \<noteq> 0 \<longleftrightarrow>
     \<not> (- (2 ^ 31) \<le> sint a - sint b \<and> sint a - sint b < 2 ^ 31)"
  using wrapped_sign [of "sint a - sint b"] sint_range [of a] sint_range [of b]
  unfolding SIGN_BIT_sint by (auto split: if_splits)

text \<open>The mathematical result of a trapping arithmetic instruction and its destination.\<close>

definition exact_result :: "Instruction \<Rightarrow> Machine \<Rightarrow> int" where
  "exact_result i m =
     (if opCode i = OP_ADD then sint (registers m (rs i)) + sint (registers m (rt i))
      else if opCode i = OP_ADDI then sint (registers m (rs i)) + sint (extra i)
      else sint (registers m (rs i)) - sint (registers m (rt i)))"

definition result_reg :: "Instruction \<Rightarrow> nat" where
  "result_reg i = (if opCode i = OP_ADDI then rt i else rd i)"

lemma add_overflow': "\<not> ((a XOR b) AND SIGN_BIT \<noteq> 0) \<and> (b XOR (a + b)) AND SIGN_BIT \<noteq> 0 \<longleftrightarrow>
     \<not> (- (2 ^ 31) \<le> sint a + sint b \<and> sint a + sint b < 2 ^ 31)"
  using add_overflow [of b a] by (simp add: xor.commute add.commute)

text \<open>C28.  \<open>ADD\<close>, \<open>ADDI\<close> and \<open>SUB\<close> raise the overflow exception exactly when the result does
  not fit in a signed word, leaving the registers to the exception; otherwise they store it.\<close>

theorem overflow_exact:
  assumes "opCode i \<in> {OP_ADD, OP_ADDI, OP_SUB}"
  shows "execute i pc m =
    (if - (2 ^ 31) \<le> exact_result i m \<and> exact_result i m < 2 ^ 31
     then Inr (Next pc 0 0 (set_reg (result_reg i) (word_of_int (exact_result i m)) m))
     else RaiseException OverflowException 0 m)"
proof -
  consider "opCode i = OP_ADD" | "opCode i = OP_ADDI" | "opCode i = OP_SUB" using assms by blast
  then show ?thesis
  proof cases
    case 1
    then show ?thesis
      unfolding execute_def first_case.simps exec_arith_def Let_def add_overflow
      by (simp add: exact_result_def result_reg_def)
  next
    case 2
    then show ?thesis
      unfolding execute_def first_case.simps exec_arith_def Let_def add_overflow'
      by (simp add: exact_result_def result_reg_def)
  next
    case 3
    then show ?thesis
      unfolding execute_def first_case.simps exec_sub_misc_def Let_def sub_overflow
      by (simp add: exact_result_def result_reg_def exec_arith_def exec_branch_def exec_div_jump_def
          exec_load_def exec_move_def exec_store_shift_def)
  qed
qed

definition sample_instr :: "OpCode \<Rightarrow> Instruction" where
  "sample_instr op = \<lparr>opCode = op, rs = 1, rt = 2, rd = 3, extra = 0\<rparr>"

theorem overflow_exact_witness:
  "execute (sample_instr OP_SUB) 8 (sample_machine []) =
    (if - (2 ^ 31) \<le> exact_result (sample_instr OP_SUB) (sample_machine []) \<and>
        exact_result (sample_instr OP_SUB) (sample_machine []) < 2 ^ 31
     then Inr (Next 8 0 0 (set_reg (result_reg (sample_instr OP_SUB))
       (word_of_int (exact_result (sample_instr OP_SUB) (sample_machine []))) (sample_machine [])))
     else RaiseException OverflowException 0 (sample_machine []))"
  by (rule overflow_exact) (simp add: sample_instr_def)


section \<open>Well-formedness of the machine\<close>

definition load_ok :: "Machine \<Rightarrow> bool" where
  "load_ok m \<longleftrightarrow> mmu_ok m \<and> unat (registers m LoadReg) < NumGPRegs"

definition machine_ok :: "Machine \<Rightarrow> bool" where
  "machine_ok m \<longleftrightarrow> load_ok m \<and> registers m 0 = 0"

fun exec_ok :: "exec \<Rightarrow> bool" where
  "exec_ok (Next pc r v m) \<longleftrightarrow> load_ok m \<and> r < NumGPRegs"
| "exec_ok (Raise exc m) \<longleftrightarrow> machine_ok m"

definition instr_ok :: "Instruction \<Rightarrow> bool" where
  "instr_ok i \<longleftrightarrow> rs i < NumGPRegs \<and> rt i < NumGPRegs \<and> rd i < NumGPRegs \<and>
     opCode i \<notin> {OP_RFE, SPECIAL, BCOND}"

text \<open>The instructions that stop the simulator itself: the unaligned-word instructions at an
  unaligned address, whose \<open>ASSERT\<close> fails, and the division of the least integer by \<open>-1\<close>.\<close>

definition host_abort :: "Instruction \<Rightarrow> Machine \<Rightarrow> bool" where
  "host_abort i m \<longleftrightarrow>
     (opCode i \<in> {OP_LWL, OP_LWR, OP_SWL, OP_SWR} \<and>
        (registers m (rs i) + extra i) AND 3 \<noteq> 0) \<or>
     (opCode i = OP_DIV \<and> sint (registers m (rs i)) = - (2 ^ 31) \<and> sint (registers m (rt i)) = -1)"

lemma mmu_ok_set_reg [simp]: "mmu_ok (set_reg r v m) = mmu_ok m"
  by (simp add: mmu_ok_def set_reg_def split: option.split)

lemma set_reg_simps [simp]:
  "registers (set_reg r v m) = (registers m)(r := v)"
  "mainMemory (set_reg r v m) = mainMemory m"
  by (simp_all add: set_reg_def)

lemma load_ok_set_reg: "load_ok m \<Longrightarrow> r \<noteq> LoadReg \<Longrightarrow> load_ok (set_reg r v m)"
  by (simp add: load_ok_def)

lemma not_LoadReg: "r < NumGPRegs \<Longrightarrow> r \<noteq> LoadReg" "R31 \<noteq> LoadReg" "HiReg \<noteq> LoadReg" "LoReg \<noteq> LoadReg"
  "BadVAddrReg \<noteq> LoadReg" "PCReg \<noteq> LoadReg" "NextPCReg \<noteq> LoadReg" "PrevPCReg \<noteq> LoadReg"
  by (simp_all add: reg_defs R31_def)

lemma sint_small: "unat (w :: 32 word) < NumGPRegs \<Longrightarrow> sint w = int (unat w)"
proof -
  assume "unat w < NumGPRegs"
  then have "uint w < 32" using uint_less_int [of w 32] by (simp add: reg_defs)
  then have "\<not> bit w 31" by (simp add: bit31_uint)
  then show ?thesis by (simp add: sint_eq)
qed

lemma DelayedLoad_ok:
  assumes "load_ok m" "r < NumGPRegs"
  shows "\<exists>m'. DelayedLoad r v m = Inr m' \<and> machine_ok m' \<and> mainMemory m' = mainMemory m"
  using assms sint_small [of "registers m LoadReg"] uint_less_int [of "registers m LoadReg" 40]
  by (auto simp: DelayedLoad_def load_ok_def machine_ok_def reg_defs unat_of_nat Let_def)

lemma RaiseException_enter_ok:
  "load_ok m \<Longrightarrow> \<exists>m'. RaiseException_enter a m = Inr m' \<and> machine_ok m'"
  using DelayedLoad_ok [OF load_ok_set_reg [OF _ not_LoadReg(5)], of m 0 0 a]
  by (auto simp: RaiseException_enter_def reg_defs)

lemma RaiseException_ok:
  "load_ok m \<Longrightarrow> \<exists>e. RaiseException exc a m = Inr e \<and> exec_ok e"
  using RaiseException_enter_ok [of m a] by (auto simp: RaiseException_def)

lemma ReadMem_ok:
  assumes "load_ok m" "sz \<in> {1, 2, 4}"
  obtains (val) v m' where "ReadMem m a sz = Inr (Inr v, m')" "load_ok m'" "registers m' = registers m"
  | (exc) exc m' where "ReadMem m a sz = Inr (Inl exc, m')" "machine_ok m'"
proof -
  have "mmu_ok m" using assms(1) by (simp add: load_ok_def)
  from Translate_total [OF this assms(2)] obtain r n where t: "Translate m a sz False = Inr (r, n)" by blast
  note n = Translate_mmu_ok [OF t \<open>mmu_ok m\<close>]
  then have l: "load_ok n" using assms(1) by (simp add: load_ok_def)
  show thesis
  proof (cases r)
    case (Inl exc)
    with t RaiseException_enter_ok [OF l, of a] show thesis
      by (auto simp: ReadMem_def intro: that(2))
  next
    case (Inr pa)
    with t l n assms(2) show thesis by (auto simp: ReadMem_def intro: that(1))
  qed
qed

lemma WriteMem_ok:
  assumes "load_ok m" "sz \<in> {1, 2, 4}"
  obtains (ok) m' where "WriteMem m a sz v = Inr (Inr (), m')" "load_ok m'" "registers m' = registers m"
  | (exc) exc m' where "WriteMem m a sz v = Inr (Inl exc, m')" "machine_ok m'"
proof -
  have "mmu_ok m" using assms(1) by (simp add: load_ok_def)
  from Translate_total [OF this assms(2)] obtain r n where t: "Translate m a sz True = Inr (r, n)" by blast
  note n = Translate_mmu_ok [OF t \<open>mmu_ok m\<close>]
  then have l: "load_ok n" using assms(1) by (simp add: load_ok_def)
  then have l': "load_ok (n\<lparr>mainMemory := x\<rparr>)" for x
    by (simp add: load_ok_def mmu_ok_def split: option.splits)
  show thesis
  proof (cases r)
    case (Inl exc)
    with t RaiseException_enter_ok [OF l, of a] show thesis
      by (auto simp: WriteMem_def intro: that(2))
  next
    case (Inr pa)
    with t l' n assms(2) show thesis by (auto simp: WriteMem_def intro: that(1))
  qed
qed

lemma load_from_ok:
  assumes "load_ok m" "sz \<in> {1, 2, 4}"
    and "\<And>v m'. load_ok m' \<Longrightarrow> registers m' = registers m \<Longrightarrow> \<exists>e. k v m' = Inr e \<and> exec_ok e"
  shows "\<exists>e. load_from a sz m k = Inr e \<and> exec_ok e"
  by (rule ReadMem_ok [OF assms(1,2), of a]) (auto simp: load_from_def intro: assms(3))

lemma store_to_ok:
  assumes "load_ok m" "sz \<in> {1, 2, 4}"
    and "\<And>m'. load_ok m' \<Longrightarrow> registers m' = registers m \<Longrightarrow> \<exists>e. k m' = Inr e \<and> exec_ok e"
  shows "\<exists>e. store_to a sz v m k = Inr e \<and> exec_ok e"
  by (rule WriteMem_ok [OF assms(1,2), of a v]) (auto simp: store_to_def intro: assms(3))

text \<open>Each group of instructions keeps the machine well formed.\<close>

definition group_ok :: "(Instruction \<Rightarrow> 32 word \<Rightarrow> Machine \<Rightarrow> exec res option) \<Rightarrow> bool" where
  "group_ok f \<longleftrightarrow> (\<forall>i pc m r. load_ok m \<longrightarrow> instr_ok i \<longrightarrow> \<not> host_abort i m \<longrightarrow> f i pc m = Some r \<longrightarrow>
     (\<exists>e. r = Inr e \<and> exec_ok e))"

lemmas exec_ok_simps = load_ok_set_reg not_LoadReg RaiseException_ok instr_ok_def Let_def

lemma Next_ok: "load_ok m \<Longrightarrow> r < NumGPRegs \<Longrightarrow> \<exists>e. Inr (Next pc r v m) = Inr e \<and> exec_ok e"
  by simp

lemma zero_reg: "0 < NumGPRegs" by (simp add: reg_defs)

lemma exec_arith_ok: "group_ok exec_arith"
  unfolding group_ok_def exec_arith_def
  by (auto simp: exec_ok_simps zero_reg split: if_splits)

lemma exec_branch_ok: "group_ok exec_branch"
  unfolding group_ok_def exec_branch_def
  by (auto simp: exec_ok_simps zero_reg split: if_splits)

lemma exec_div_jump_ok: "group_ok exec_div_jump"
  unfolding group_ok_def exec_div_jump_def
  by (auto simp: exec_ok_simps zero_reg host_abort_def split: if_splits)

lemma exec_load_ok: "group_ok exec_load"
  unfolding group_ok_def exec_load_def
  by (auto simp: exec_ok_simps zero_reg host_abort_def split: if_splits intro!: load_from_ok)

lemma exec_move_ok: "group_ok exec_move"
  unfolding group_ok_def exec_move_def
  by (auto simp: exec_ok_simps zero_reg split: if_splits prod.splits)

lemma exec_store_shift_ok: "group_ok exec_store_shift"
  unfolding group_ok_def exec_store_shift_def
  by (auto simp: exec_ok_simps zero_reg split: if_splits intro!: store_to_ok)

lemma exec_sub_misc_ok: "group_ok exec_sub_misc"
  unfolding group_ok_def exec_sub_misc_def
  by (auto simp: exec_ok_simps zero_reg host_abort_def split: if_splits intro!: load_from_ok store_to_ok)

lemma exec_None:
  "exec_arith i pc m = None \<Longrightarrow> opCode i \<notin> {OP_ADD, OP_ADDI, OP_ADDIU, OP_ADDU, OP_AND, OP_ANDI}"
  "exec_branch i pc m = None \<Longrightarrow> opCode i \<notin> {OP_BEQ, OP_BGEZAL, OP_BGEZ, OP_BGTZ, OP_BLEZ, OP_BLTZAL,
     OP_BLTZ, OP_BNE}"
  "exec_div_jump i pc m = None \<Longrightarrow> opCode i \<notin> {OP_DIV, OP_DIVU, OP_JAL, OP_J, OP_JALR, OP_JR}"
  "exec_load i pc m = None \<Longrightarrow> opCode i \<notin> {OP_LB, OP_LBU, OP_LH, OP_LHU, OP_LUI, OP_LW, OP_LWL, OP_LWR}"
  "exec_move i pc m = None \<Longrightarrow> opCode i \<notin> {OP_MFHI, OP_MFLO, OP_MTHI, OP_MTLO, OP_MULT, OP_MULTU, OP_NOR,
     OP_OR, OP_ORI}"
  "exec_store_shift i pc m = None \<Longrightarrow> opCode i \<notin> {OP_SB, OP_SH, OP_SLL, OP_SLLV, OP_SLT, OP_SLTI, OP_SLTIU,
     OP_SLTU, OP_SRA, OP_SRAV, OP_SRL, OP_SRLV}"
  "exec_sub_misc i pc m = None \<Longrightarrow> opCode i \<notin> {OP_SUB, OP_SUBU, OP_SW, OP_SWL, OP_SWR, OP_SYSCALL, OP_XOR,
     OP_XORI, OP_RES, OP_UNIMP}"
  by (auto simp: exec_arith_def exec_branch_def exec_div_jump_def exec_load_def exec_move_def
      exec_store_shift_def exec_sub_misc_def Let_def split: if_splits prod.splits)

lemma first_case_ok:
  assumes "\<And>f. f \<in> set fs \<Longrightarrow> group_ok f" "\<exists>f \<in> set fs. f i pc m \<noteq> None"
    "load_ok m" "instr_ok i" "\<not> host_abort i m"
  shows "\<exists>e. first_case fs i pc m = Inr e \<and> exec_ok e"
  using assms
proof (induction fs)
  case (Cons f fs)
  show ?case
  proof (cases "f i pc m")
    case (Some r)
    moreover have "group_ok f" using Cons.prems(1) by simp
    ultimately show ?thesis using Cons.prems(3-5) by (auto simp: group_ok_def)
  qed (use Cons in auto)
qed simp

lemma execute_ok:
  assumes "load_ok m" "instr_ok i" "\<not> host_abort i m"
  shows "\<exists>e. execute i pc m = Inr e \<and> exec_ok e"
  unfolding execute_def
proof (rule first_case_ok [OF _ _ assms])
  show "\<exists>f \<in> set [exec_arith, exec_branch, exec_div_jump, exec_load, exec_move, exec_store_shift,
      exec_sub_misc]. f i pc m \<noteq> None"
  proof (rule ccontr)
    assume "\<not> ?thesis"
    then have "opCode i \<in> {OP_RFE, SPECIAL, BCOND}"
      using exec_None [of i pc m] by (cases "opCode i") auto
    then show False using assms(2) by (simp add: instr_ok_def)
  qed
qed (auto simp: exec_arith_ok exec_branch_ok exec_div_jump_ok exec_load_ok exec_move_ok
    exec_store_shift_ok exec_sub_misc_ok)

lemma unat_and_mask: "unat (w AND mask n :: 32 word) < 2 ^ n"
proof -
  have "unat (take_bit n w) = take_bit n (unat w)" by (simp add: unsigned_take_bit_eq)
  then show ?thesis by (simp add: take_bit_eq_mask [symmetric])
qed

lemma field5_bound: "field5 k v < NumGPRegs"
  using unat_and_mask [of "drop_bit k v" 5] by (simp add: field5_def mask_eq_exp_minus_1 reg_defs)

lemma table_index: "unat (w AND 0x3f :: 32 word) < 64"
  using unat_and_mask [of w 6] by (simp add: mask_eq_exp_minus_1)

lemma opTable_ops: "(op, fmt) \<in> set opTable \<Longrightarrow> op \<noteq> OP_RFE"
  by (auto simp: opTable_def)

lemma specialTable_ops: "op \<in> set specialTable \<Longrightarrow> op \<notin> {OP_RFE, SPECIAL, BCOND}"
  by (auto simp: specialTable_def)

lemma table_lengths: "length opTable = 64" "length specialTable = 64"
  by (simp_all add: opTable_def specialTable_def)

lemma decode_opCode_ok: "op \<noteq> OP_RFE \<Longrightarrow> decode_opCode op v \<notin> {OP_RFE, SPECIAL, BCOND}"
  using specialTable_ops [OF nth_mem, of "unat (v AND 0x3f)"] table_index [of v]
  by (auto simp: decode_opCode_def Let_def table_lengths)

lemma Decode_ok: "instr_ok (Decode v)"
proof -
  obtain op fmt where e: "opTable ! unat (drop_bit 26 v AND 0x3f) = (op, fmt)" by fastforce
  then have "(op, fmt) \<in> set opTable"
    using nth_mem [of "unat (drop_bit 26 v AND 0x3f)" opTable] table_index by (simp add: table_lengths)
  from decode_opCode_ok [OF opTable_ops [OF this], of v] show ?thesis
    by (simp add: instr_ok_def Decode_def e field5_bound)
qed

lemma low_masks:
  "(0xffff :: 32 word) = mask 16" "(0x7fff :: 32 word) = mask 15" "(- 0x8000 :: 32 word) = NOT (mask 15)"
  "(0xffff0000 :: 32 word) = NOT (mask 16)" "(0x8000 :: 32 word) = 2 ^ 15"
  by code_simp+

lemma bit15: "(x AND 0x8000 \<noteq> 0) = bit (x :: 32 word) 15"
  unfolding low_masks(5) using and_exp_eq_0_iff_not_bit [of x 15] by blast

lemma IFMT_extra: "decode_extra IFMT v = signed_take_bit 15 v"
proof -
  have "bit (decode_extra IFMT v) n = bit (signed_take_bit 15 v) n" if "n < 32" for n
    using that
    by (cases "n < 15"; cases "n = 15"; cases "bit v 15")
      (auto simp: decode_extra_def Let_def bit15 low_masks(1-4) bit_simps min_def)
  then show ?thesis by (auto intro: bit_word_eqI)
qed

text \<open>C30. Decoding is total: whatever the word, the two tables are read inside their bounds, the register fields name general
  registers, the opcode is one the simulator has a case for, and the immediate operand has the range of
  its format, sign-extended for the I format.\<close>

theorem Decode_well_formed:
  "let i = Decode v; n = unat (drop_bit 26 v AND 0x3f) in
     n < length opTable \<and> unat (v AND 0x3f) < length specialTable \<and>
     rs i < NumGPRegs \<and> rt i < NumGPRegs \<and> rd i < NumGPRegs \<and> opCode i \<notin> {OP_RFE, SPECIAL, BCOND} \<and>
     (case snd (opTable ! n) of IFMT \<Rightarrow> extra i = signed_take_bit 15 v | RFMT \<Rightarrow> unat (extra i) < 2 ^ 5
      | JFMT \<Rightarrow> unat (extra i) < 2 ^ 26)"
proof -
  obtain op fmt where e: "opTable ! unat (drop_bit 26 v AND 0x3f) = (op, fmt)" by fastforce
  have "case fmt of IFMT \<Rightarrow> extra (Decode v) = signed_take_bit 15 v | RFMT \<Rightarrow> unat (extra (Decode v)) < 2 ^ 5
      | JFMT \<Rightarrow> unat (extra (Decode v)) < 2 ^ 26"
    using unat_and_mask [of "drop_bit 6 v" 5] unat_and_mask [of v 26]
    by (cases fmt) (simp_all add: Decode_def e IFMT_extra, simp_all add: decode_extra_def mask_eq_exp_minus_1)
  then show ?thesis using Decode_ok [of v] table_index by (simp add: Let_def e instr_ok_def table_lengths)
qed

lemma finish_instruction_ok:
  "exec_ok e \<Longrightarrow> \<exists>r m'. finish_instruction e = Inr (r, m') \<and> machine_ok m'"
proof (cases e)
  case (Next pc r v m)
  assume "exec_ok e"
  with Next DelayedLoad_ok [of m r v] obtain m1 where m1: "DelayedLoad r v m = Inr m1" "machine_ok m1"
    by auto
  then show ?thesis using Next
    by (auto simp: finish_instruction_def Let_def machine_ok_def load_ok_def reg_defs)
qed (simp add: finish_instruction_def)

text \<open>C9.  From a well-formed machine an instruction always ends (completed or trapped) in a
  well-formed machine (one translation table, a pending load into a general register, register
  0 zero), unless the fetched instruction is one that stops the simulator.  In particular no
  register access is out of range and the \<open>default\<close> case of the \<open>switch\<close> is unreachable.\<close>

theorem OneInstruction_ok:
  assumes "machine_ok m"
    and "\<forall>raw m1. ReadMem m (registers m PCReg) 4 = Inr (Inr raw, m1) \<longrightarrow> \<not> host_abort (Decode raw) m1"
  shows "\<exists>r m'. OneInstruction m = Inr (r, m') \<and> machine_ok m'"
proof -
  have l: "load_ok m" using assms(1) by (simp add: machine_ok_def)
  show ?thesis
  proof (rule ReadMem_ok [OF l, of 4 "registers m PCReg"])
    fix raw m1 assume r: "ReadMem m (registers m PCReg) 4 = Inr (Inr raw, m1)" "load_ok m1"
    from execute_ok [OF r(2) Decode_ok] assms(2) r(1) obtain e where
      "execute (Decode raw) (registers m1 NextPCReg + 4) m1 = Inr e" "exec_ok e" by blast
    with r(1) finish_instruction_ok [of e] show ?thesis by (simp add: OneInstruction_def)
  qed (auto simp: OneInstruction_def)
qed

theorem OneInstruction_ok_witness:
  "\<exists>r m'. OneInstruction (sample_machine [sample_entry 0 5]) = Inr (r, m') \<and> machine_ok m'"
proof (rule OneInstruction_ok)
  show "machine_ok (sample_machine [sample_entry 0 5])"
    by (simp add: machine_ok_def load_ok_def sample_machine_def reg_defs mmu_ok_def)
  show "\<forall>raw m1. ReadMem (sample_machine [sample_entry 0 5])
      (registers (sample_machine [sample_entry 0 5]) PCReg) 4 = Inr (Inr raw, m1) \<longrightarrow>
      \<not> host_abort (Decode raw) m1"
    by (auto simp: ReadMem_def Translate_def misaligned_def sample_machine_def find_entry_def
        read_array_def sample_entry_def size_defs Let_def host_abort_def put_entry_def mem32_def
        Decode_def opTable_def decode_opCode_def specialTable_def)
qed


section \<open>The delayed load and the program counters\<close>

text \<open>An instruction leaves the program counters and the pending load to the common tail; an
  exception commits the pending load.\<close>

definition keeps :: "Machine \<Rightarrow> Machine \<Rightarrow> bool" where
  "keeps m m' \<longleftrightarrow> (\<forall>k. PCReg \<le> k \<longrightarrow> k \<le> LoadValueReg \<longrightarrow> registers m' k = registers m k)"

definition commits :: "Machine \<Rightarrow> Machine \<Rightarrow> bool" where
  "commits m m' \<longleftrightarrow> (let r = unat (registers m LoadReg) in
     registers m' r = (if r = 0 then 0 else registers m LoadValueReg))"

fun exec_frame :: "Machine \<Rightarrow> exec \<Rightarrow> bool" where
  "exec_frame m (Next pc r v m') \<longleftrightarrow> keeps m m'"
| "exec_frame m (Raise exc m') \<longleftrightarrow> commits m m'"

lemma keeps_refl [simp]: "keeps m m"
  by (simp add: keeps_def)

lemma keeps_registers: "registers m' = registers m \<Longrightarrow> keeps m m'"
  by (simp add: keeps_def)

lemma keeps_set_reg: "keeps m m' \<Longrightarrow> r < PCReg \<Longrightarrow> keeps m (set_reg r v m')"
  by (simp add: keeps_def)

lemma reg_less_PC: "r < NumGPRegs \<Longrightarrow> r < PCReg" "R31 < PCReg" "HiReg < PCReg" "LoReg < PCReg"
  by (simp_all add: reg_defs R31_def)

lemma DelayedLoad_commits:
  assumes u: "unat (registers m LoadReg) < NumGPRegs" and "DelayedLoad r v m = Inr m'"
  shows "commits m m'" "\<And>k. PCReg \<le> k \<Longrightarrow> k < LoadReg \<Longrightarrow> registers m' k = registers m k"
  using assms sint_small [OF u]
  by (auto simp: DelayedLoad_def commits_def Let_def reg_defs split: if_splits)

lemma commits_trans: "keeps m n \<Longrightarrow> commits n m' \<Longrightarrow> commits m m'"
  by (simp add: keeps_def commits_def Let_def reg_defs)

lemma RaiseException_enter_commits:
  assumes "load_ok m" "RaiseException_enter a m = Inr m'"
  shows "commits m m'"
proof -
  have "unat (registers (set_reg BadVAddrReg a m) LoadReg) < NumGPRegs"
    using assms(1) by (simp add: load_ok_def reg_defs)
  from DelayedLoad_commits(1) [OF this assms(2) [unfolded RaiseException_enter_def]] show ?thesis
    by (simp add: commits_def reg_defs Let_def)
qed

lemma RaiseException_frame:
  "load_ok m \<Longrightarrow> RaiseException exc a m = Inr e \<Longrightarrow> exec_frame m e"
  by (auto simp: RaiseException_def RaiseException_enter_commits elim!: bindR_InrE)

lemma load_ok_registers: "load_ok m \<Longrightarrow> mmu_ok n \<Longrightarrow> registers n = registers m \<Longrightarrow> load_ok n"
  by (simp add: load_ok_def)

lemma ReadMem_frame:
  assumes "load_ok m" "ReadMem m a sz = Inr (r, m')"
  shows "case r of Inl _ \<Rightarrow> commits m m' | Inr _ \<Rightarrow> load_ok m' \<and> registers m' = registers m"
proof -
  from assms(2) obtain t n where t: "Translate m a sz False = Inr (t, n)"
    by (auto simp: ReadMem_def elim!: bindR_InrE)
  have m: "mmu_ok m" using assms(1) by (simp add: load_ok_def)
  note n = Translate_mmu_ok [OF t m]
  have l: "load_ok n" using n by (intro load_ok_registers [OF assms(1)])
  have k: "keeps m n" using n by (intro keeps_registers)
  show ?thesis
  proof (cases t)
    case (Inl exc)
    with assms(2) t have "r = Inl exc" "RaiseException_enter a n = Inr m'"
      by (auto simp: ReadMem_def elim!: bindR_InrE)
    then show ?thesis using commits_trans [OF k RaiseException_enter_commits [OF l]] by simp
  next
    case (Inr pa)
    with assms(2) t have "\<exists>v. r = Inr v" "m' = n"
      by (auto simp: ReadMem_def split: if_splits)
    then show ?thesis using l n by auto
  qed
qed

lemma WriteMem_frame:
  assumes "load_ok m" "WriteMem m a sz v = Inr (r, m')"
  shows "case r of Inl _ \<Rightarrow> commits m m' | Inr _ \<Rightarrow> registers m' = registers m"
proof -
  from assms(2) obtain t n where t: "Translate m a sz True = Inr (t, n)"
    by (auto simp: WriteMem_def elim!: bindR_InrE)
  have m: "mmu_ok m" using assms(1) by (simp add: load_ok_def)
  note n = Translate_mmu_ok [OF t m]
  have l: "load_ok n" using n by (intro load_ok_registers [OF assms(1)])
  have k: "keeps m n" using n by (intro keeps_registers)
  show ?thesis
  proof (cases t)
    case (Inl exc)
    with assms(2) t have "r = Inl exc" "RaiseException_enter a n = Inr m'"
      by (auto simp: WriteMem_def elim!: bindR_InrE)
    then show ?thesis using commits_trans [OF k RaiseException_enter_commits [OF l]] by simp
  next
    case (Inr pa)
    with assms(2) t have "r = Inr ()" "registers m' = registers n"
      by (auto simp: WriteMem_def split: if_splits)
    then show ?thesis using n by auto
  qed
qed

lemma load_from_frame:
  assumes "load_from a sz m k = Inr e" "load_ok m"
    and "\<And>v m'. load_ok m' \<Longrightarrow> registers m' = registers m \<Longrightarrow> k v m' = Inr e \<Longrightarrow> exec_frame m e"
  shows "exec_frame m e"
proof -
  from assms(1) obtain r m' where r: "ReadMem m a sz = Inr (r, m')"
    by (auto simp: load_from_def elim!: bindR_InrE)
  with assms ReadMem_frame [OF assms(2) r] show ?thesis
    by (auto simp: load_from_def split: sum.splits)
qed

lemma store_to_frame:
  assumes "store_to a sz v m k = Inr e" "load_ok m"
    and "\<And>m'. registers m' = registers m \<Longrightarrow> k m' = Inr e \<Longrightarrow> exec_frame m e"
  shows "exec_frame m e"
proof -
  from assms(1) obtain r m' where r: "WriteMem m a sz v = Inr (r, m')"
    by (auto simp: store_to_def elim!: bindR_InrE)
  with assms WriteMem_frame [OF assms(2) r] show ?thesis
    by (auto simp: store_to_def split: sum.splits)
qed

lemma exec_frame_registers: "registers m = registers n \<Longrightarrow> exec_frame m e = exec_frame n e"
  by (cases e) (simp_all add: keeps_def commits_def)

definition group_frame :: "(Instruction \<Rightarrow> 32 word \<Rightarrow> Machine \<Rightarrow> exec res option) \<Rightarrow> bool" where
  "group_frame f \<longleftrightarrow> (\<forall>i pc m e. load_ok m \<longrightarrow> instr_ok i \<longrightarrow> f i pc m = Some (Inr e) \<longrightarrow> exec_frame m e)"

lemmas frame_simps = keeps_set_reg keeps_registers reg_less_PC RaiseException_frame instr_ok_def Let_def

lemma exec_arith_frame: "group_frame exec_arith"
  unfolding group_frame_def exec_arith_def
  by (auto simp: frame_simps split: if_splits)

lemma exec_branch_frame: "group_frame exec_branch"
  unfolding group_frame_def exec_branch_def
  by (auto simp: frame_simps split: if_splits)

lemma exec_div_jump_frame: "group_frame exec_div_jump"
  unfolding group_frame_def exec_div_jump_def
  by (auto simp: frame_simps split: if_splits)

lemma exec_load_frame: "group_frame exec_load"
  unfolding group_frame_def exec_load_def
  by (auto simp: frame_simps split: if_splits elim!: load_from_frame bindR_InrE)

lemma exec_move_frame: "group_frame exec_move"
  unfolding group_frame_def exec_move_def
  by (auto simp: frame_simps split: if_splits prod.splits)

lemma exec_store_shift_frame: "group_frame exec_store_shift"
  unfolding group_frame_def exec_store_shift_def
  by (auto simp: frame_simps split: if_splits elim!: store_to_frame)

lemma exec_sub_misc_frame: "group_frame exec_sub_misc"
proof -
  have s: "store_to a 4 v m' (\<lambda>m''. Inr (Next pc 0 0 m'')) = Inr e \<Longrightarrow> load_ok m' \<Longrightarrow>
      registers m' = registers m \<Longrightarrow> exec_frame m e" for a v m' pc e m
    by (subst exec_frame_registers [of m m']) (auto simp: keeps_registers elim!: store_to_frame)
  show ?thesis
    unfolding group_frame_def exec_sub_misc_def
    by (auto simp: frame_simps split: if_splits elim!: load_from_frame bindR_InrE intro: s)
qed

lemma first_case_frame:
  "(\<And>f. f \<in> set fs \<Longrightarrow> group_frame f) \<Longrightarrow> load_ok m \<Longrightarrow> instr_ok i \<Longrightarrow>
     first_case fs i pc m = Inr e \<Longrightarrow> exec_frame m e"
proof (induction fs)
  case (Cons f fs)
  have "group_frame f" using Cons.prems(1) by simp
  then have f: "exec_frame m e" if "f i pc m = Some (Inr e)"
    using Cons.prems(2,3) that by (simp add: group_frame_def)
  show ?case
  proof (cases "f i pc m")
    case None
    then have "first_case fs i pc m = Inr e" using Cons.prems(4) by simp
    then show ?thesis using Cons.IH Cons.prems(1-3) by simp
  qed (use Cons.prems(4) f in simp)
qed simp

lemma execute_frame: "load_ok m \<Longrightarrow> instr_ok i \<Longrightarrow> execute i pc m = Inr e \<Longrightarrow> exec_frame m e"
  unfolding execute_def
  by (rule first_case_frame)
    (auto simp del: first_case.simps
      simp: exec_arith_frame exec_branch_frame exec_div_jump_frame exec_load_frame exec_move_frame
      exec_store_shift_frame exec_sub_misc_frame)

lemma finish_instruction_frame:
  assumes "exec_frame m e" "load_ok m" "finish_instruction e = Inr (r, m')"
  shows "commits m m'"
    and "r = Completed \<Longrightarrow> registers m' PCReg = registers m NextPCReg \<and> registers m' PrevPCReg = registers m PCReg"
proof (atomize (full), cases e)
  case (Next pc lr v n)
  with assms(3) obtain n1 where d: "DelayedLoad lr v n = Inr n1"
    by (auto simp: finish_instruction_def elim!: bindR_InrE)
  have l: "unat (registers n LoadReg) < NumGPRegs" "keeps m n"
    using assms Next by (auto simp: load_ok_def keeps_def reg_defs)
  note c = commits_trans [OF l(2) DelayedLoad_commits(1) [OF l(1) d]] DelayedLoad_commits(2) [OF l(1) d]
  have "unat (registers m LoadReg) < NumGPRegs"
    using l by (simp add: load_ok_def keeps_def reg_defs)
  then show "commits m m' \<and> (r = Completed \<longrightarrow>
      registers m' PCReg = registers m NextPCReg \<and> registers m' PrevPCReg = registers m PCReg)"
    using c assms(3) Next d l(2)
    by (auto simp: finish_instruction_def Let_def commits_def keeps_def reg_defs)
qed (use assms in \<open>auto simp: finish_instruction_def\<close>)




section \<open>Two instructions that do not follow the R2000\<close>

text \<open>\<open>OR\<close> copies its first operand: the result never depends on the second.\<close>

theorem OR_ignores_rt:
  "opCode i = OP_OR \<Longrightarrow> execute i pc m = Inr (Next pc 0 0 (set_reg (rd i) (registers m (rs i)) m))"
  by (simp add: execute_def exec_arith_def exec_branch_def exec_div_jump_def exec_load_def
      exec_move_def Let_def)

theorem OR_ignores_rt_witness:
  "execute (sample_instr OP_OR) 8 (set_reg 2 6 (sample_machine [])) =
     Inr (Next 8 0 0 (set_reg 3 0 (set_reg 2 6 (sample_machine []))))"
  using OR_ignores_rt [of "sample_instr OP_OR" 8 "set_reg 2 6 (sample_machine [])"]
  by (simp add: sample_instr_def sample_machine_def)

text \<open>\<open>SRL\<close> and \<open>SRLV\<close> do exactly what \<open>SRA\<close> and \<open>SRAV\<close> do: they copy the sign bit
  instead of shifting in zeros.\<close>

theorem SRL_is_SRA:
  "execute (i\<lparr>opCode := OP_SRL\<rparr>) pc m = execute (i\<lparr>opCode := OP_SRA\<rparr>) pc m \<and>
   execute (i\<lparr>opCode := OP_SRLV\<rparr>) pc m = execute (i\<lparr>opCode := OP_SRAV\<rparr>) pc m"
  by (simp add: execute_def exec_arith_def exec_branch_def exec_div_jump_def exec_load_def
      exec_move_def exec_store_shift_def Let_def)
end
