(* ===== verification/File_Header.thy ===== *)
theory File_Header
  imports Disk_Device Bit_Map
begin

text \<open>
  File headers (\<^verbatim>\<open>filesys/filehdr.cc\<close>) and open files (\<^verbatim>\<open>filesys/openfile.cc\<close>) of the real
  file system.  A header lives in one disk sector as the bytes of its C++ object: 128
  little-endian 32-bit integers.  Signed additions that can leave the range of \<open>int\<close> are
  checked; memory that the code allocates and does not initialise is a parameter (\<open>junk\<close>).
  The file system never runs these operations concurrently, so the disk is threaded through
  as the contents of its sectors.
\<close>

section \<open>Integers as bytes\<close>

definition word_bytes :: "32 word \<Rightarrow> 8 word list" where
  "word_bytes w = [ucast w, ucast (drop_bit 8 w), ucast (drop_bit 16 w), ucast (drop_bit 24 w)]"

fun bytes_words :: "8 word list \<Rightarrow> 32 word list" where
  "bytes_words (a # b # c # d # r) =
     (ucast a OR push_bit 8 (ucast b) OR push_bit 16 (ucast c) OR push_bit 24 (ucast d)) # bytes_words r"
| "bytes_words _ = []"

definition words_bytes :: "32 word list \<Rightarrow> 8 word list" where
  "words_bytes ws = concat (map word_bytes ws)"

definition ck32 :: "int \<Rightarrow> int res" where
  "ck32 i = (if - (2 ^ 31) \<le> i \<and> i < 2 ^ 31 then Inr i else Inl Undefined)"


section \<open>File headers\<close>

definition NumDirect :: nat where "NumDirect = (SectorSize - 2 * 4) div 4"
definition MaxFileSize :: nat where "MaxFileSize = NumDirect * SectorSize"

record FileHeader =
  numBytes :: int
  numSectors :: int
  dataSectors :: "int list"

definition header_bytes :: "FileHeader \<Rightarrow> 8 word list" where
  "header_bytes h = words_bytes (map word_of_int (numBytes h # numSectors h # dataSectors h))"

definition bytes_header :: "8 word list \<Rightarrow> FileHeader" where
  "bytes_header bs = (let ws = map sint (bytes_words bs) in
     \<lparr>numBytes = ws ! 0, numSectors = ws ! 1, dataSectors = drop 2 ws\<rparr>)"

fun Allocate_loop :: "int list \<Rightarrow> FileHeader \<Rightarrow> BitMap \<Rightarrow> (FileHeader \<times> BitMap) res" where
  "Allocate_loop [] h freeMap = Inr (h, freeMap)"
| "Allocate_loop (i # is) h freeMap =
     bindR (BitMap_Find freeMap) (\<lambda>(s, freeMap').
     bindR (write_array (dataSectors h) i s) (\<lambda>ds.
     Allocate_loop is (h\<lparr>dataSectors := ds\<rparr>) freeMap'))"

definition Allocate :: "FileHeader \<Rightarrow> BitMap \<Rightarrow> int \<Rightarrow> (bool \<times> FileHeader \<times> BitMap) res" where
  "Allocate h0 freeMap fileSize =
     (let h = h0\<lparr>numBytes := fileSize, numSectors := divRoundUp fileSize (int SectorSize)\<rparr> in
      bindR (BitMap_NumClear freeMap) (\<lambda>c.
        if c < numSectors h then Inr (False, h, freeMap)
        else bindR (Allocate_loop [0..numSectors h - 1] h freeMap) (\<lambda>(h', freeMap').
          Inr (True, h', freeMap'))))"

fun Deallocate_loop :: "int list \<Rightarrow> FileHeader \<Rightarrow> BitMap \<Rightarrow> BitMap res" where
  "Deallocate_loop [] h freeMap = Inr freeMap"
| "Deallocate_loop (i # is) h freeMap =
     bindR (read_array (dataSectors h) i) (\<lambda>s.
     bindR (BitMap_Test freeMap s) (\<lambda>b.
     bindR (ASSERT b) (\<lambda>_.
     bindR (BitMap_Clear freeMap s) (\<lambda>freeMap'.
     Deallocate_loop is h freeMap'))))"

definition Deallocate :: "FileHeader \<Rightarrow> BitMap \<Rightarrow> BitMap res" where
  "Deallocate h freeMap = Deallocate_loop [0..numSectors h - 1] h freeMap"

definition FileHeader_FetchFrom :: "disk \<Rightarrow> int \<Rightarrow> FileHeader res" where
  "FileHeader_FetchFrom dsk sector = bindR (ReadSector dsk sector) (\<lambda>bs. Inr (bytes_header bs))"

definition FileHeader_WriteBack :: "FileHeader \<Rightarrow> int \<Rightarrow> disk \<Rightarrow> disk res" where
  "FileHeader_WriteBack h sector dsk = WriteSector dsk sector (header_bytes h)"

definition ByteToSector :: "FileHeader \<Rightarrow> int \<Rightarrow> int res" where
  "ByteToSector h offset = read_array (dataSectors h) (offset sdiv int SectorSize)"

definition FileLength :: "FileHeader \<Rightarrow> int" where
  "FileLength h = numBytes h"


section \<open>Open files\<close>

record OpenFile =
  hdr :: FileHeader
  seekPosition :: int
  ftype :: int

text \<open>The one-argument constructor leaves \<open>type\<close> uninitialised (\<open>t0\<close>).\<close>

definition OpenFile_new :: "int \<Rightarrow> disk \<Rightarrow> int \<Rightarrow> OpenFile res" where
  "OpenFile_new t0 dsk sector =
     bindR (FileHeader_FetchFrom dsk sector) (\<lambda>h. Inr \<lparr>hdr = h, seekPosition = 0, ftype = t0\<rparr>)"

definition OpenFile_new_type :: "disk \<Rightarrow> int \<Rightarrow> int \<Rightarrow> OpenFile res" where
  "OpenFile_new_type dsk sector t =
     bindR (FileHeader_FetchFrom dsk sector) (\<lambda>h. Inr \<lparr>hdr = h, seekPosition = 0, ftype = t\<rparr>)"

definition Seek :: "OpenFile \<Rightarrow> int \<Rightarrow> OpenFile" where
  "Seek f position = f\<lparr>seekPosition := position\<rparr>"

fun read_sectors :: "disk \<Rightarrow> FileHeader \<Rightarrow> int list \<Rightarrow> 8 word list res" where
  "read_sectors dsk h [] = Inr []"
| "read_sectors dsk h (i # is) =
     bindR (ByteToSector h (i * int SectorSize)) (\<lambda>s.
     bindR (ReadSector dsk s) (\<lambda>bs.
     bindR (read_sectors dsk h is) (\<lambda>rest. Inr (bs @ rest))))"

definition copy_out :: "8 word list \<Rightarrow> int \<Rightarrow> int \<Rightarrow> 8 word list res" where
  "copy_out buf i n =
     (if 0 \<le> i \<and> 0 \<le> n \<and> i + n \<le> int (length buf) then Inr (take (nat n) (drop (nat i) buf))
      else Inl OutOfBounds)"

definition copy_in :: "8 word list \<Rightarrow> 8 word list \<Rightarrow> int \<Rightarrow> 8 word list res" where
  "copy_in bs buf i =
     (if 0 \<le> i \<and> i + int (length bs) \<le> int (length buf) then Inr (splice_at (nat i) bs buf)
      else Inl OutOfBounds)"

text \<open>The number of bytes a request transfers, after the checks at the head of both operations.\<close>

definition clip_request :: "int \<Rightarrow> int \<Rightarrow> int \<Rightarrow> int res" where
  "clip_request fileLength n position =
     (if n \<le> 0 \<or> position \<ge> fileLength then Inr 0
      else bindR (ck32 (position + n)) (\<lambda>e. Inr (if e > fileLength then fileLength - position else n)))"

text \<open>The result is the bytes copied to \<open>into\<close>; the number the code returns is their length.\<close>

definition ReadAt :: "disk \<Rightarrow> OpenFile \<Rightarrow> int \<Rightarrow> int \<Rightarrow> 8 word list res" where
  "ReadAt dsk f n position =
     bindR (clip_request (FileLength (hdr f)) n position) (\<lambda>n'.
       if n' = 0 then Inr []
       else
         let firstSec = divRoundDown position (int SectorSize);
             lastSec = divRoundDown (position + n' - 1) (int SectorSize)
         in bindR (read_sectors dsk (hdr f) [firstSec..lastSec]) (\<lambda>buf.
            copy_out buf (position - firstSec * int SectorSize) n'))"

fun write_sectors :: "FileHeader \<Rightarrow> 8 word list \<Rightarrow> int \<Rightarrow> int list \<Rightarrow> disk \<Rightarrow> disk res" where
  "write_sectors h buf firstSec [] dsk = Inr dsk"
| "write_sectors h buf firstSec (i # is) dsk =
     bindR (ByteToSector h (i * int SectorSize)) (\<lambda>s.
     bindR (copy_out buf ((i - firstSec) * int SectorSize) (int SectorSize)) (\<lambda>bs.
     bindR (WriteSector dsk s bs) (\<lambda>dsk'.
     write_sectors h buf firstSec is dsk')))"

definition WriteAt :: "(nat \<Rightarrow> 8 word) \<Rightarrow> disk \<Rightarrow> OpenFile \<Rightarrow> 8 word list \<Rightarrow> int \<Rightarrow> int \<Rightarrow> (int \<times> disk) res" where
  "WriteAt junk dsk f bytes n position =
     bindR (clip_request (FileLength (hdr f)) n position) (\<lambda>n'.
       if n' = 0 then Inr (0, dsk)
       else
         let firstSec = divRoundDown position (int SectorSize);
             lastSec = divRoundDown (position + n' - 1) (int SectorSize);
             numSecs = 1 + lastSec - firstSec;
             buf = map junk [0..<nat (numSecs * int SectorSize)];
             firstAligned = (position = firstSec * int SectorSize);
             lastAligned = (position + n' = (lastSec + 1) * int SectorSize)
         in
         bindR (if \<not> firstAligned
                then bindR (ReadAt dsk f (int SectorSize) (firstSec * int SectorSize)) (\<lambda>bs. copy_in bs buf 0)
                else Inr buf) (\<lambda>buf1.
         bindR (if \<not> lastAligned \<and> (firstSec \<noteq> lastSec \<or> firstAligned)
                then bindR (ReadAt dsk f (int SectorSize) (lastSec * int SectorSize))
                       (\<lambda>bs. copy_in bs buf1 ((lastSec - firstSec) * int SectorSize))
                else Inr buf1) (\<lambda>buf2.
         bindR (copy_out bytes 0 n') (\<lambda>bs.
         bindR (copy_in bs buf2 (position - firstSec * int SectorSize)) (\<lambda>buf3.
         bindR (write_sectors (hdr f) buf3 firstSec [firstSec..lastSec] dsk) (\<lambda>dsk'.
         Inr (n', dsk')))))))"

definition OpenFile_Read :: "disk \<Rightarrow> OpenFile \<Rightarrow> int \<Rightarrow> (8 word list \<times> OpenFile) res" where
  "OpenFile_Read dsk f n =
     bindR (ReadAt dsk f n (seekPosition f)) (\<lambda>bs.
       Inr (bs, f\<lparr>seekPosition := seekPosition f + int (length bs)\<rparr>))"

definition OpenFile_Write ::
    "(nat \<Rightarrow> 8 word) \<Rightarrow> disk \<Rightarrow> OpenFile \<Rightarrow> 8 word list \<Rightarrow> int \<Rightarrow> (int \<times> OpenFile \<times> disk) res" where
  "OpenFile_Write junk dsk f bytes n =
     bindR (WriteAt junk dsk f bytes n (seekPosition f)) (\<lambda>(result, dsk').
       Inr (result, f\<lparr>seekPosition := seekPosition f + result\<rparr>, dsk'))"

definition OpenFile_Length :: "OpenFile \<Rightarrow> int" where
  "OpenFile_Length f = FileLength (hdr f)"

end
