(* ===== verification/File_IO.thy ===== *)
theory File_IO
  imports File_Header
begin

text \<open>
  Correctness of file headers and open files: the on-disk form of a header round-trips, the
  sector-wise \<open>ReadAt\<close> and \<open>WriteAt\<close> implement reads and writes of a byte sequence, and a write
  touches no sector outside its file.
\<close>

section \<open>Round trips of the byte layout\<close>

lemma bytes_words_word_bytes [simp]: "bytes_words (word_bytes w @ r) = w # bytes_words r"
proof -
  have "ucast (ucast w :: 8 word) OR push_bit 8 (ucast (ucast (drop_bit 8 w) :: 8 word)) OR
      push_bit 16 (ucast (ucast (drop_bit 16 w) :: 8 word)) OR
      push_bit 24 (ucast (ucast (drop_bit 24 w) :: 8 word)) = w" (is "?v = w")
  proof (rule bit_word_eqI)
    fix n assume "n < LENGTH(32)"
    then consider "n < 8" | "8 \<le> n" "n < 16" | "16 \<le> n" "n < 24" | "24 \<le> n" "n < 32"
      by force
    then show "bit ?v n = bit w n" by cases (auto simp: bit_simps)
  qed
  then show ?thesis by (simp only: word_bytes_def append.simps bytes_words.simps)
qed

lemma bytes_words_words_bytes [simp]: "bytes_words (words_bytes ws) = ws"
  unfolding words_bytes_def by (induction ws) simp_all

lemma length_words_bytes [simp, len_simps]: "length (words_bytes ws) = 4 * length ws"
  by (induction ws) (simp_all add: words_bytes_def word_bytes_def)

definition int32 :: "int \<Rightarrow> bool" where
  "int32 i \<longleftrightarrow> - (2 ^ 31) \<le> i \<and> i < 2 ^ 31"

lemma sint_word_of_int32 [simp]: "int32 i \<Longrightarrow> sint (word_of_int i :: 32 word) = i"
  by (simp add: int32_def signed_of_int signed_take_bit_int_eq_self)

definition header_fits :: "FileHeader \<Rightarrow> bool" where
  "header_fits h \<longleftrightarrow> length (dataSectors h) = NumDirect \<and> int32 (numBytes h) \<and> int32 (numSectors h) \<and>
     (\<forall>s\<in>set (dataSectors h). int32 s)"

lemma header_roundtrip: "header_fits h \<Longrightarrow> bytes_header (header_bytes h) = h"
  by (auto simp: bytes_header_def header_bytes_def header_fits_def Let_def comp_def map_idI)

lemma length_header_bytes: "header_fits h \<Longrightarrow> length (header_bytes h) = SectorSize"
  by (simp add: header_bytes_def header_fits_def NumDirect_def size_defs)


section \<open>Sequences of blocks\<close>

lemma concat_blocks:
  assumes "\<And>b. b \<in> set bs \<Longrightarrow> length b = n"
  shows "take (k * n) (drop (i * n) (concat bs)) = concat (take k (drop i bs))"
proof -
  have d: "drop (i * n) (concat bs) = concat (drop i bs)" for i
    using assms
  proof (induction i arbitrary: bs)
    case (Suc i)
    then show ?case by (cases bs) simp_all
  qed simp
  have t: "take (k * n) (concat cs) = concat (take k cs)" if "\<And>b. b \<in> set cs \<Longrightarrow> length b = n" for k cs
    using that
  proof (induction k arbitrary: cs)
    case (Suc k)
    then show ?case by (cases cs) simp_all
  qed simp
  show ?thesis unfolding d [of i] by (rule t) (rule assms, erule in_set_dropD)
qed

lemma length_concat_blocks:
  "(\<And>b. b \<in> set bs \<Longrightarrow> length b = n) \<Longrightarrow> length (concat bs) = length bs * n"
  by (induction bs) simp_all

lemma nth_concat_blocks:
  "(\<And>b. b \<in> set bs \<Longrightarrow> length b = n) \<Longrightarrow> k < length bs * n \<Longrightarrow> concat bs ! k = bs ! (k div n) ! (k mod n)"
proof (induction bs arbitrary: k)
  case (Cons b bs)
  show ?case
  proof (cases "k < n")
    case False
    moreover have "0 < n" using Cons.prems(2) by (cases n) auto
    ultimately have "k div n = Suc ((k - n) div n)" "k mod n = (k - n) mod n"
      using le_div_geq [of n k] le_mod_geq [of n k] by simp_all
    then show ?thesis using False Cons by (simp add: nth_append)
  qed (use Cons.prems in \<open>simp add: nth_append\<close>)
qed simp


section \<open>Files as byte sequences\<close>

definition disk_ok :: "disk \<Rightarrow> bool" where
  "disk_ok dsk \<longleftrightarrow> length dsk = nat NumSectors \<and> (\<forall>b\<in>set dsk. length b = SectorSize)"

definition used :: "FileHeader \<Rightarrow> int list" where
  "used h = take (nat (numSectors h)) (dataSectors h)"

definition header_ok :: "FileHeader \<Rightarrow> bool" where
  "header_ok h \<longleftrightarrow> 0 \<le> numBytes h \<and> numSectors h = divRoundUp (numBytes h) (int SectorSize) \<and>
     numSectors h \<le> int NumDirect \<and> length (dataSectors h) = NumDirect \<and>
     distinct (used h) \<and> (\<forall>s\<in>set (used h). 0 \<le> s \<and> s < NumSectors)"

definition raw_bytes :: "disk \<Rightarrow> FileHeader \<Rightarrow> 8 word list" where
  "raw_bytes dsk h = concat (map (\<lambda>s. dsk ! nat s) (used h))"

definition file_bytes :: "disk \<Rightarrow> FileHeader \<Rightarrow> 8 word list" where
  "file_bytes dsk h = take (nat (numBytes h)) (raw_bytes dsk h)"

lemma header_okD:
  assumes "header_ok h"
  shows "0 \<le> numBytes h" "numBytes h \<le> numSectors h * int SectorSize" "0 \<le> numSectors h"
    "length (used h) = nat (numSectors h)"
  using assms divRoundUp_bounds [of "numBytes h" "int SectorSize"]
  by (auto simp: header_ok_def used_def size_defs)

lemma used_block:
  assumes "disk_ok dsk" "header_ok h" "b \<in> set (map (\<lambda>s. dsk ! nat s) (used h))"
  shows "length b = SectorSize"
proof -
  from assms(3) obtain s where "s \<in> set (used h)" "b = dsk ! nat s" by auto
  moreover from this assms(2) have "nat s < nat NumSectors" by (auto simp: header_ok_def)
  ultimately show ?thesis using assms(1) by (auto simp: disk_ok_def)
qed

lemma length_raw_bytes:
  assumes "disk_ok dsk" "header_ok h"
  shows "length (raw_bytes dsk h) = nat (numSectors h) * SectorSize"
proof -
  have "length (raw_bytes dsk h) = length (map (\<lambda>s. dsk ! nat s) (used h)) * SectorSize"
    unfolding raw_bytes_def by (rule length_concat_blocks) (rule used_block [OF assms])
  then show ?thesis using header_okD(4) [OF assms(2)] by simp
qed

lemma length_file_bytes [len_simps]:
  assumes "disk_ok dsk" "header_ok h"
  shows "length (file_bytes dsk h) = nat (numBytes h)"
proof -
  have "nat (numBytes h) \<le> nat (numSectors h) * SectorSize"
    using header_okD(1-3) [OF assms(2)] nat_mono [of "numBytes h" "numSectors h * int SectorSize"]
    by (simp add: nat_mult_distrib)
  then show ?thesis by (simp add: file_bytes_def length_raw_bytes [OF assms])
qed

lemma ByteToSector_used:
  "header_ok h \<Longrightarrow> i < nat (numSectors h) \<Longrightarrow> ByteToSector h (int i * int SectorSize) = Inr (used h ! i)"
  using header_okD [of h]
  by (auto simp: ByteToSector_def header_ok_def used_def size_defs read_array_def)

lemma ReadSector_used:
  assumes "disk_ok dsk" "header_ok h" "s \<in> set (used h)"
  shows "ReadSector dsk s = Inr (dsk ! nat s)"
  using assms by (auto simp: ReadSector_def header_ok_def disk_ok_def read_array_def ASSERT_def)

lemma read_sectors_eq:
  assumes "disk_ok dsk" "header_ok h" "\<forall>i\<in>set is. i < nat (numSectors h)"
  shows "read_sectors dsk h (map int is) = Inr (concat (map (\<lambda>i. dsk ! nat (used h ! i)) is))"
  using assms(3)
proof (induction "is")
  case (Cons i "is")
  then have "used h ! i \<in> set (used h)" using header_okD(4) [OF assms(2)] by simp
  with Cons show ?case
    by (simp add: ByteToSector_used [OF assms(2)] ReadSector_used [OF assms(1,2)])
qed simp


lemma nth_raw_bytes:
  assumes "disk_ok dsk" "header_ok h" "k < nat (numSectors h) * SectorSize"
  shows "raw_bytes dsk h ! k = dsk ! nat (used h ! (k div SectorSize)) ! (k mod SectorSize)"
proof -
  have l: "k < length (map (\<lambda>s. dsk ! nat s) (used h)) * SectorSize"
    using assms(3) header_okD(4) [OF assms(2)] by simp
  have "raw_bytes dsk h ! k = map (\<lambda>s. dsk ! nat s) (used h) ! (k div SectorSize) ! (k mod SectorSize)"
    unfolding raw_bytes_def by (rule nth_concat_blocks [OF _ l]) (rule used_block [OF assms(1,2)])
  moreover have "k div SectorSize < length (used h)"
    using l by (simp add: size_defs less_mult_imp_div_less)
  ultimately show ?thesis by simp
qed

text \<open>The sectors of a segment, as part of the raw bytes.\<close>

lemma upto_seg: "i \<le> j \<Longrightarrow> [int i..int j] = map int [i..<Suc j]"
  by (rule nth_equalityI) (auto simp: nth_append)

lemma read_segment:
  assumes "disk_ok dsk" "header_ok h" "i \<le> j" "j < nat (numSectors h)"
  shows "read_sectors dsk h [int i..int j] =
    Inr (take (Suc (j - i) * SectorSize) (drop (i * SectorSize) (raw_bytes dsk h)))"
proof -
  note seg = upto_seg [OF assms(3)]
  have "map (\<lambda>i. dsk ! nat (used h ! i)) [i..<Suc j] =
      take (Suc (j - i)) (drop i (map (\<lambda>s. dsk ! nat s) (used h)))"
    by (rule nth_equalityI) (use assms(3,4) header_okD(4) [OF assms(2)] in \<open>auto simp del: upt_Suc\<close>)
  moreover have "concat (take (Suc (j - i)) (drop i (map (\<lambda>s. dsk ! nat s) (used h)))) =
      take (Suc (j - i) * SectorSize) (drop (i * SectorSize) (raw_bytes dsk h))"
    unfolding raw_bytes_def by (rule concat_blocks [symmetric]) (rule used_block [OF assms(1,2)])
  moreover have "\<forall>k\<in>set [i..<Suc j]. k < nat (numSectors h)" using assms(4) by auto
  ultimately show ?thesis unfolding seg
    using read_sectors_eq [OF assms(1,2), of "[i..<Suc j]"] by (simp only:)
qed

lemma divRoundDown_nat: "divRoundDown (int p) (int SectorSize) = int (p div SectorSize)"
  by (simp add: divRoundDown_def size_defs zdiv_int)

lemma clip_request_eq:
  assumes "0 \<le> position" "n < 2 ^ 31 - position"
  shows "clip_request fl n position =
    Inr (if n \<le> 0 \<or> position \<ge> fl then 0 else min n (fl - position))"
  using assms by (auto simp: clip_request_def ck32_def)

text \<open>A non-empty request for \<open>n\<close> bytes at \<open>p\<close> inside the file.\<close>

lemma request_sectors:
  assumes "header_ok h" "0 < n" "int p + int n \<le> numBytes h"
  shows "(p + n - 1) div SectorSize < nat (numSectors h)"
    and "p div SectorSize \<le> (p + n - 1) div SectorSize"
    and "p - p div SectorSize * SectorSize + n \<le> Suc ((p + n - 1) div SectorSize - p div SectorSize) * SectorSize"
proof -
  have "int (p + n - 1) < numSectors h * int SectorSize"
    using assms(2,3) header_okD(2) [OF assms(1)] by linarith
  then have "p + n - 1 < nat (numSectors h) * SectorSize"
    using header_okD(3) [OF assms(1)] by (simp add: nat_less_iff size_defs)
  then show "(p + n - 1) div SectorSize < nat (numSectors h)" by (simp add: less_mult_imp_div_less)
  show le: "p div SectorSize \<le> (p + n - 1) div SectorSize" using assms(2) by (simp add: div_le_mono)
  have "p + n - 1 < Suc ((p + n - 1) div SectorSize) * SectorSize"
    using dividend_less_div_times [of SectorSize "p + n - 1"] by (simp add: size_defs)
  with le show "p - p div SectorSize * SectorSize + n \<le>
      Suc ((p + n - 1) div SectorSize - p div SectorSize) * SectorSize"
    using assms(2) by (simp add: diff_mult_distrib size_defs) linarith
qed

lemma take_drop_seg: "a + n \<le> m \<Longrightarrow> take n (drop a (take m (drop b xs))) = take n (drop (a + b) xs)"
  by (simp add: drop_take min_def)

lemma copy_out_nat: "a + n \<le> length buf \<Longrightarrow> copy_out buf (int a) (int n) = Inr (take n (drop a buf))"
  by (simp add: copy_out_def)

lemma copy_in_nat: "a + length bs \<le> length buf \<Longrightarrow> copy_in bs buf (int a) = Inr (splice_at a bs buf)"
  by (simp add: copy_in_def)

lemma ReadAt_inside:
  assumes "disk_ok dsk" "header_ok (hdr f)" "0 < n" "int p + int n \<le> numBytes (hdr f)"
    and c: "clip_request (FileLength (hdr f)) m (int p) = Inr (int n)"
  shows "ReadAt dsk f m (int p) = Inr (take n (drop p (file_bytes dsk (hdr f))))"
proof -
  let ?i = "p div SectorSize" and ?j = "(p + n - 1) div SectorSize"
  note r = request_sectors [OF assms(2-4)]
  have j: "divRoundDown (int p + int n - 1) (int SectorSize) = int ?j"
    using divRoundDown_nat [of "p + n - 1"] assms(3) by (simp add: of_nat_diff)
  have len: "Suc (?j - ?i) * SectorSize \<le> length (drop (?i * SectorSize) (raw_bytes dsk (hdr f)))"
  proof -
    have "(?i + Suc (?j - ?i)) * SectorSize \<le> nat (numSectors (hdr f)) * SectorSize"
      by (rule mult_le_mono1) (use r in simp)
    then show ?thesis by (simp add: length_raw_bytes [OF assms(1,2)] algebra_simps)
  qed
  have off: "int p - int ?i * int SectorSize = int (p - ?i * SectorSize)"
    by (simp add: of_nat_diff)
  have "ReadAt dsk f m (int p) =
      copy_out (take (Suc (?j - ?i) * SectorSize) (drop (?i * SectorSize) (raw_bytes dsk (hdr f))))
        (int (p - ?i * SectorSize)) (int n)"
    unfolding ReadAt_def c bindR_simps Let_def j divRoundDown_nat
      read_segment [OF assms(1,2) r(2,1)] off
    using assms(3) by (simp only: of_nat_eq_0_iff if_False neq0_conv [symmetric])
  also have "\<dots> = Inr (take n (drop p (raw_bytes dsk (hdr f))))"
    by (subst copy_out_nat, unfold length_take min_absorb2 [OF len], rule r(3),
        subst take_drop_seg [OF r(3)], simp)
  also have "take n (drop p (raw_bytes dsk (hdr f))) = take n (drop p (file_bytes dsk (hdr f)))"
    using take_drop_seg [of p n "nat (numBytes (hdr f))" 0 "raw_bytes dsk (hdr f)"] assms(4)
    by (simp add: file_bytes_def nat_le_iff le_nat_iff)
  finally show ?thesis .
qed


lemma ReadAt_eq:
  assumes "disk_ok dsk" "header_ok (hdr f)" "0 \<le> position" "n < 2 ^ 31 - position"
  shows "ReadAt dsk f n position = Inr (take (nat n) (drop (nat position) (file_bytes dsk (hdr f))))"
proof (cases "n \<le> 0 \<or> position \<ge> numBytes (hdr f)")
  case True
  then have "clip_request (FileLength (hdr f)) n position = Inr 0"
    by (auto simp: clip_request_def FileLength_def)
  then show ?thesis using True by (auto simp: ReadAt_def length_file_bytes [OF assms(1,2)])
next
  case False
  let ?k = "nat (min n (numBytes (hdr f) - position))"
  have "clip_request (FileLength (hdr f)) n (int (nat position)) = Inr (int ?k)"
    using clip_request_eq [OF assms(3,4)] False assms(3) by (simp add: FileLength_def)
  from ReadAt_inside [OF assms(1,2) _ _ this] False assms(3)
  have "ReadAt dsk f n position = Inr (take ?k (drop (nat position) (file_bytes dsk (hdr f))))"
    by auto
  also have "take ?k (drop (nat position) (file_bytes dsk (hdr f))) =
      take (nat n) (drop (nat position) (file_bytes dsk (hdr f)))"
    using False assms(3) by (cases "n \<le> numBytes (hdr f) - position")
      (auto simp: length_file_bytes [OF assms(1,2)] min_def nat_diff_distrib)
  finally show ?thesis .
qed

lemma write_sectors_eq:
  assumes "header_ok h" "disk_ok dsk" "distinct is"
    "\<forall>i\<in>set is. first \<le> i \<and> i < nat (numSectors h) \<and> Suc (i - first) * SectorSize \<le> length buf"
  shows "\<exists>dsk'. write_sectors h buf (int first) (map int is) dsk = Inr dsk' \<and> disk_ok dsk' \<and>
    (\<forall>i\<in>set is. dsk' ! nat (used h ! i) = take SectorSize (drop ((i - first) * SectorSize) buf)) \<and>
    (\<forall>s. (\<forall>i\<in>set is. s \<noteq> nat (used h ! i)) \<longrightarrow> dsk' ! s = dsk ! s)"
  using assms(2-4)
proof (induction "is" arbitrary: dsk)
  case (Cons i "is")
  let ?b = "take SectorSize (drop ((i - first) * SectorSize) buf)" and ?s = "used h ! i"
  have i: "first \<le> i" "i < nat (numSectors h)" "(i - first) * SectorSize + SectorSize \<le> length buf"
    using Cons.prems(3) by auto
  have "?s \<in> set (used h)" using i header_okD(4) [OF assms(1)] by simp
  then have s: "0 \<le> ?s" "?s < NumSectors" using assms(1) by (auto simp: header_ok_def)
  have co: "copy_out buf ((int i - int first) * int SectorSize) (int SectorSize) = Inr ?b"
    using copy_out_nat [OF i(3)] i(1) by (simp add: of_nat_diff)
  have ok: "disk_ok (dsk[nat ?s := ?b])"
    using Cons.prems(1) i(3) by (auto simp: disk_ok_def dest!: set_update_subset_insert [THEN subsetD])
  have w: "WriteSector dsk ?s ?b = Inr (dsk[nat ?s := ?b])"
    using s Cons.prems(1) by (simp add: WriteSector_def ASSERT_def write_array_def disk_ok_def)
  obtain dsk' where IH: "write_sectors h buf (int first) (map int is) (dsk[nat ?s := ?b]) = Inr dsk'" "disk_ok dsk'"
    "\<forall>i\<in>set is. dsk' ! nat (used h ! i) = take SectorSize (drop ((i - first) * SectorSize) buf)"
    "\<forall>s. (\<forall>i\<in>set is. s \<noteq> nat (used h ! i)) \<longrightarrow> dsk' ! s = dsk[nat ?s := ?b] ! s"
    using Cons.IH [OF ok] Cons.prems(2,3) by auto
  have new: "\<forall>j\<in>set is. nat ?s \<noteq> nat (used h ! j)"
  proof
    fix j assume j: "j \<in> set is"
    then have "j \<noteq> i" "j < nat (numSectors h)" using Cons.prems(2,3) by auto
    then have "used h ! j \<noteq> ?s" using assms(1) i(2) header_okD(4) [OF assms(1)]
      by (simp add: header_ok_def nth_eq_iff_index_eq)
    moreover have "used h ! j \<in> set (used h)"
      using \<open>j < nat (numSectors h)\<close> header_okD(4) [OF assms(1)] by simp
    ultimately show "nat ?s \<noteq> nat (used h ! j)"
      using s(1) assms(1) by (auto simp: header_ok_def)
  qed
  have "dsk' ! nat ?s = ?b"
    using IH(4) new s Cons.prems(1) by (simp add: disk_ok_def)
  moreover have "write_sectors h buf (int first) (map int (i # is)) dsk = Inr dsk'"
    using ByteToSector_used [OF assms(1) i(2)] by (simp add: co w IH(1))
  ultimately show ?case using IH(2-4) by auto
qed simp


text \<open>The buffer \<open>WriteAt\<close> fills before it copies the new bytes in: sectors \<open>i\<close> to \<open>j\<close> of the
  request of \<open>k\<close> bytes at \<open>p\<close>, with the old bytes \<open>fb\<close> of the file where they are kept.\<close>

definition first_filled :: "8 word list \<Rightarrow> nat \<Rightarrow> nat \<Rightarrow> 8 word list \<Rightarrow> 8 word list" where
  "first_filled fb p i buf =
     (if p = i * SectorSize then buf else splice_at 0 (take SectorSize (drop (i * SectorSize) fb)) buf)"

definition last_filled :: "8 word list \<Rightarrow> nat \<Rightarrow> nat \<Rightarrow> nat \<Rightarrow> nat \<Rightarrow> 8 word list \<Rightarrow> 8 word list" where
  "last_filled fb p k i j buf =
     (if p + k \<noteq> Suc j * SectorSize \<and> (i \<noteq> j \<or> p = i * SectorSize)
      then splice_at ((j - i) * SectorSize) (take SectorSize (drop (j * SectorSize) fb)) buf else buf)"

lemma length_filled [simp, len_simps]:
  "length buf = Suc (j - i) * SectorSize \<Longrightarrow> length (first_filled fb p i buf) = length buf"
  "length buf = Suc (j - i) * SectorSize \<Longrightarrow> length (last_filled fb p k i j buf) = length buf"
  by (simp_all add: first_filled_def last_filled_def)

lemma filled_keeps:
  assumes "i = p div SectorSize" "j = (p + k - 1) div SectorSize" "0 < k" "p + k \<le> length fb"
    "length buf = Suc (j - i) * SectorSize" "q < length buf" "i * SectorSize + q < length fb"
    "i * SectorSize + q < p \<or> p + k \<le> i * SectorSize + q"
  shows "last_filled fb p k i j (first_filled fb p i buf) ! q = fb ! (i * SectorSize + q)"
proof -
  let ?S = SectorSize
  have S: "0 < ?S" by (simp add: size_defs)
  have ij: "i \<le> j" using assms(1-3) by (simp add: div_le_mono)
  have p: "i * ?S \<le> p" "p < i * ?S + ?S"
    using assms(1) S div_times_less_eq_dividend [of p ?S] dividend_less_div_times [OF S, of p] by simp_all
  have pk: "j * ?S \<le> p + k - 1" "p + k - 1 < j * ?S + ?S"
    using assms(2) S div_times_less_eq_dividend [of "p + k - 1" ?S]
      dividend_less_div_times [OF S, of "p + k - 1"] by simp_all
  have ji: "(j - i) * ?S + i * ?S = j * ?S" using ij by (simp add: diff_mult_distrib)
  have ij': "i < j \<Longrightarrow> i * ?S + ?S \<le> j * ?S" using mult_le_mono1 [of "Suc i" j ?S] by simp
  have f: "first_filled fb p i buf ! q = fb ! (i * ?S + q)" if "p \<noteq> i * ?S" "q < ?S"
    using that assms(5-7) by (simp add: first_filled_def nth_splice_at less_diff_conv add.commute)
  show ?thesis
  proof (cases "i * ?S + q < p")
    case True
    then have q: "q < ?S" "p \<noteq> i * ?S" using p by linarith+
    have "last_filled fb p k i j (first_filled fb p i buf) ! q = first_filled fb p i buf ! q"
      using q ij ij' ji assms(5,6) by (auto simp: last_filled_def nth_splice_at)
    then show ?thesis using f q by simp
  next
    case False
    then have q: "p + k \<le> i * ?S + q" using assms(8) by simp
    then have n: "p + k \<noteq> Suc j * ?S" using assms(5,6) ji by auto
    show ?thesis
    proof (cases "i \<noteq> j \<or> p = i * ?S")
      case True
      have "(j - i) * ?S \<le> q" using q pk(1) ji assms(3) by linarith
      moreover have "q < (j - i) * ?S + ?S" using assms(5,6) by simp
      moreover have "j * ?S + (q - (j - i) * ?S) = i * ?S + q" using calculation(1) ji by linarith
      ultimately show ?thesis
        using True n assms(5-7) ji by (auto simp: last_filled_def nth_splice_at less_diff_conv add.commute)
    next
      case False
      then have "q < ?S" using assms(5,6) by simp
      then show ?thesis using False f by (simp add: last_filled_def)
    qed
  qed
qed


definition write_buffer ::
    "(nat \<Rightarrow> 8 word) \<Rightarrow> 8 word list \<Rightarrow> nat \<Rightarrow> nat \<Rightarrow> nat \<Rightarrow> nat \<Rightarrow> 8 word list \<Rightarrow> 8 word list" where
  "write_buffer junk fb p k i j bytes =
     splice_at (p - i * SectorSize) (take k bytes)
       (last_filled fb p k i j (first_filled fb p i (map junk [0..<Suc (j - i) * SectorSize])))"

lemma ReadAt_sector:
  assumes "disk_ok dsk" "header_ok (hdr f)" "i < nat (numSectors (hdr f))"
  shows "ReadAt dsk f (int SectorSize) (int i * int SectorSize) =
    Inr (take SectorSize (drop (i * SectorSize) (file_bytes dsk (hdr f))))"
proof -
  have "int i < 126" using assms(2,3) by (auto simp: header_ok_def NumDirect_def size_defs)
  then show ?thesis
    using ReadAt_eq [OF assms(1,2), of "int i * int SectorSize" "int SectorSize"]
    by (simp add: size_defs nat_mult_distrib)
qed

lemma WriteAt_sectors:
  assumes "disk_ok dsk" "header_ok (hdr f)" "0 < k" "int p + int k \<le> numBytes (hdr f)"
    and c: "clip_request (FileLength (hdr f)) m (int p) = Inr (int k)" and "k \<le> length bytes"
    and i: "i = p div SectorSize" and j: "j = (p + k - 1) div SectorSize"
  shows "WriteAt junk dsk f bytes m (int p) =
    bindR (write_sectors (hdr f) (write_buffer junk (file_bytes dsk (hdr f)) p k i j bytes) (int i)
      [int i..int j] dsk) (\<lambda>dsk'. Inr (int k, dsk'))"
proof -
  let ?fb = "file_bytes dsk (hdr f)" and ?n = "Suc (j - i) * SectorSize"
  note r = request_sectors [OF assms(2-4), folded i j]
  have ij: "i < nat (numSectors (hdr f))" "j < nat (numSectors (hdr f))" "i \<le> j" using r by auto
  have d: "divRoundDown (int p) (int SectorSize) = int i"
    "divRoundDown (int p + int k - 1) (int SectorSize) = int j"
    using divRoundDown_nat [of p] divRoundDown_nat [of "p + k - 1"] assms(3) i j
    by (simp_all add: of_nat_diff)
  have al: "int p = int i * int SectorSize \<longleftrightarrow> p = i * SectorSize"
    "int p + int k = (int j + 1) * int SectorSize \<longleftrightarrow> p + k = Suc j * SectorSize"
    by (simp_all only: of_nat_eq_iff [where 'a = int, symmetric] of_nat_mult of_nat_add of_nat_Suc add.commute)
  have "1 + int j - int i = int (Suc (j - i))" using ij(3) by simp
  then have n: "nat ((1 + int j - int i) * int SectorSize) = ?n"
    by (simp only: of_nat_mult [symmetric] nat_int)
  have ji: "(int j - int i) * int SectorSize = int ((j - i) * SectorSize)"
    "int p - int i * int SectorSize = int (p - i * SectorSize)"
    using ij(3) i by (simp_all add: of_nat_diff)
  let ?b0 = "map junk [0..<?n]"
  have f1: "(if \<not> p = i * SectorSize
      then bindR (ReadAt dsk f (int SectorSize) (int i * int SectorSize)) (\<lambda>bs. copy_in bs ?b0 0)
      else Inr ?b0) = Inr (first_filled ?fb p i ?b0)"
    using copy_in_nat [of 0 "take SectorSize (drop (i * SectorSize) ?fb)" ?b0]
    by (simp add: ReadAt_sector [OF assms(1,2) ij(1)] first_filled_def)
  have l1: "length (first_filled ?fb p i ?b0) = ?n"
    using length_filled(1) [of ?b0 j i ?fb p] by simp
  have l2: "length (last_filled ?fb p k i j (first_filled ?fb p i ?b0)) = ?n"
    using length_filled(2) [OF l1] l1 by simp
  have f2: "(if \<not> p + k = Suc j * SectorSize \<and> (int i \<noteq> int j \<or> p = i * SectorSize)
      then bindR (ReadAt dsk f (int SectorSize) (int j * int SectorSize))
        (\<lambda>bs. copy_in bs (first_filled ?fb p i ?b0) (int ((j - i) * SectorSize)))
      else Inr (first_filled ?fb p i ?b0)) = Inr (last_filled ?fb p k i j (first_filled ?fb p i ?b0))"
    using copy_in_nat [of "(j - i) * SectorSize" "take SectorSize (drop (j * SectorSize) ?fb)"
        "first_filled ?fb p i ?b0"] l1
    by (simp add: ReadAt_sector [OF assms(1,2) ij(2)] last_filled_def)
  have f3: "copy_out bytes 0 (int k) = Inr (take k bytes)"
    using copy_out_nat [of 0 k bytes] assms(6) by simp
  have f4: "copy_in (take k bytes) (last_filled ?fb p k i j (first_filled ?fb p i ?b0)) (int (p - i * SectorSize)) =
      Inr (write_buffer junk ?fb p k i j bytes)"
    using copy_in_nat [of "p - i * SectorSize" "take k bytes" "last_filled ?fb p k i j (first_filled ?fb p i ?b0)"]
      l2 r(3) assms(6) unfolding write_buffer_def by simp
  have k: "(int k = 0) = False" using assms(3) by simp
  show ?thesis
    unfolding WriteAt_def c bindR_simps k if_False Let_def d al n ji f1 f2 f3 f4 ..
qed


lemma length_write_buffer:
  assumes "p - i * SectorSize + k \<le> Suc (j - i) * SectorSize" "k \<le> length bytes"
  shows "length (write_buffer junk fb p k i j bytes) = Suc (j - i) * SectorSize"
  unfolding write_buffer_def
  using assms length_filled(1) [of "map junk [0..<Suc (j - i) * SectorSize]" j i fb p]
  by (subst length_splice_at) simp_all

lemma nth_write_buffer:
  assumes "i = p div SectorSize" "j = (p + k - 1) div SectorSize" "0 < k" "p + k \<le> length fb"
    "k \<le> length bytes" "i * SectorSize \<le> x" "x < Suc j * SectorSize" "x < length fb" "i \<le> j"
    and off: "p - i * SectorSize + k \<le> Suc (j - i) * SectorSize"
  shows "write_buffer junk fb p k i j bytes ! (x - i * SectorSize) = splice_at p (take k bytes) fb ! x"
proof -
  let ?b0 = "map junk [0..<Suc (j - i) * SectorSize]" and ?q = "x - i * SectorSize"
  let ?b2 = "last_filled fb p k i j (first_filled fb p i ?b0)"
  have l0: "length ?b0 = Suc (j - i) * SectorSize" by simp
  have l: "length ?b2 = Suc (j - i) * SectorSize"
    using length_filled(1) [OF l0, of fb p] length_filled(2) [of "first_filled fb p i ?b0" j i] by simp
  have ip: "i * SectorSize \<le> p" using assms(1) by simp
  have "Suc j = i + Suc (j - i)" using assms(9) by simp
  then have "Suc j * SectorSize = i * SectorSize + Suc (j - i) * SectorSize"
    by (metis add_mult_distrib)
  then have q: "?q < Suc (j - i) * SectorSize" using assms(6,7) by linarith
  have s: "splice_at p (take k bytes) fb ! x = (if p \<le> x \<and> x < p + k then take k bytes ! (x - p) else fb ! x)"
    using assms(4,5,8) by (subst nth_splice_at) auto
  have b: "write_buffer junk fb p k i j bytes ! ?q =
      (if p - i * SectorSize \<le> ?q \<and> ?q < p - i * SectorSize + k
       then take k bytes ! (?q - (p - i * SectorSize)) else ?b2 ! ?q)"
    unfolding write_buffer_def using off assms(5) l q by (subst nth_splice_at) auto
  show ?thesis
  proof (cases "p \<le> x \<and> x < p + k")
    case True
    then show ?thesis unfolding s b using ip by auto
  next
    case False
    then have "?b2 ! ?q = fb ! (i * SectorSize + ?q)"
      by (intro filled_keeps [OF assms(1-4) l0]) (use assms(6,8) q in auto)
    then show ?thesis unfolding s b using False ip assms(6) by auto
  qed
qed

lemma used_nat: "header_ok h \<Longrightarrow> x < length (used h) \<Longrightarrow> used h ! x = int (nat (used h ! x))"
  by (auto simp: header_ok_def)

text \<open>One byte of the file after the sectors \<open>i\<close> to \<open>j\<close> have been written back.\<close>

lemma file_byte_after:
  assumes "disk_ok dsk" "header_ok h" "disk_ok dsk'" "x < nat (numBytes h)"
    and ij: "i = p div SectorSize" "j = (p + k - 1) div SectorSize"
    and r: "j < nat (numSectors h)" "i \<le> j" "p - i * SectorSize + k \<le> Suc (j - i) * SectorSize"
    and w: "\<forall>y\<in>set [i..<Suc j]. dsk' ! nat (used h ! y) =
      take SectorSize (drop ((y - i) * SectorSize) (write_buffer junk (file_bytes dsk h) p k i j bytes))"
      "\<forall>s. (\<forall>y\<in>set [i..<Suc j]. s \<noteq> nat (used h ! y)) \<longrightarrow> dsk' ! s = dsk ! s"
    and pk: "0 < k" "int p + int k \<le> numBytes h" "k \<le> length bytes"
  shows "file_bytes dsk' h ! x = splice_at p (take k bytes) (file_bytes dsk h) ! x"
proof -
  let ?S = SectorSize and ?y = "x div SectorSize" and ?fb = "file_bytes dsk h"
  have S: "0 < ?S" by (simp add: size_defs)
  have fb: "length ?fb = nat (numBytes h)" by (rule length_file_bytes [OF assms(1,2)])
  have "x < nat (numSectors h * int ?S)" using assms(4) header_okD(2) [OF assms(2)] by linarith
  then have x: "x < nat (numSectors h) * ?S" using header_okD(3) [OF assms(2)] by (simp add: nat_mult_distrib)
  then have y: "?y < nat (numSectors h)" by (simp add: less_mult_imp_div_less)
  have new: "file_bytes dsk' h ! x = dsk' ! nat (used h ! ?y) ! (x mod ?S)"
    using assms(4) nth_raw_bytes [OF assms(3,2) x] by (simp add: file_bytes_def)
  have old: "?fb ! x = dsk ! nat (used h ! ?y) ! (x mod ?S)"
    using assms(4) nth_raw_bytes [OF assms(1,2) x] by (simp add: file_bytes_def)
  show ?thesis
  proof (cases "i \<le> ?y \<and> ?y \<le> j")
    case True
    then have iy: "i * ?S \<le> ?y * ?S" and yj: "?y * ?S \<le> j * ?S" by (blast intro: mult_le_mono1)+
    have xs: "i * ?S \<le> x" "x < Suc j * ?S"
      using iy yj div_times_less_eq_dividend [of x ?S] dividend_less_div_times [OF S, of x]
      by (simp_all only: mult_Suc)
    have e: "(?y - i) * ?S + x mod ?S = x - i * ?S"
      using iy div_mult_mod_eq [of x ?S] by (simp only: diff_mult_distrib)
    have l: "(?y - i) * ?S \<le> length (write_buffer junk ?fb p k i j bytes)"
      unfolding length_write_buffer [OF r(3) pk(3)] using True
      by (intro mult_le_mono1 le_SucI diff_le_mono) blast
    have "file_bytes dsk' h ! x =
        take ?S (drop ((?y - i) * ?S) (write_buffer junk ?fb p k i j bytes)) ! (x mod ?S)"
      using bspec [OF w(1), of ?y] True unfolding new by (simp del: upt_Suc)
    also have "\<dots> = write_buffer junk ?fb p k i j bytes ! (x - i * ?S)" using l e S by simp
    also have "\<dots> = splice_at p (take k bytes) ?fb ! x"
      by (rule nth_write_buffer [OF ij pk(1) _ pk(3) xs _ r(2,3)]) (use fb pk assms(4) in auto)
    finally show ?thesis .
  next
    case False
    have "\<forall>z\<in>set [i..<Suc j]. nat (used h ! ?y) \<noteq> nat (used h ! z)"
    proof
      fix z assume z: "z \<in> set [i..<Suc j]"
      then have "z \<noteq> ?y" "z < length (used h)" using False r(1) header_okD(4) [OF assms(2)] by auto
      then show "nat (used h ! ?y) \<noteq> nat (used h ! z)"
        using assms(2) y used_nat [OF assms(2)] header_okD(4) [OF assms(2)]
        by (metis header_ok_def nth_eq_iff_index_eq)
    qed
    then have "file_bytes dsk' h ! x = ?fb ! x" using w(2) unfolding new old by simp
    moreover have "\<not> (p \<le> x \<and> x < p + k)"
      using False ij pk(1) by (auto simp: div_le_mono)
    ultimately show ?thesis using fb pk assms(4) by (subst nth_splice_at) auto
  qed
qed

lemma WriteAt_inside:
  assumes "disk_ok dsk" "header_ok (hdr f)" "0 < k" "int p + int k \<le> numBytes (hdr f)"
    and c: "clip_request (FileLength (hdr f)) m (int p) = Inr (int k)" and k: "k \<le> length bytes"
  shows "\<exists>dsk'. WriteAt junk dsk f bytes m (int p) = Inr (int k, dsk') \<and> disk_ok dsk' \<and>
    file_bytes dsk' (hdr f) = splice_at p (take k bytes) (file_bytes dsk (hdr f)) \<and>
    (\<forall>s. int s \<notin> set (used (hdr f)) \<longrightarrow> dsk' ! s = dsk ! s)"
proof -
  let ?S = SectorSize and ?h = "hdr f" and ?fb = "file_bytes dsk (hdr f)"
  define i j where ij: "i = p div ?S" "j = (p + k - 1) div ?S"
  let ?buf = "write_buffer junk ?fb p k i j bytes"
  note r = request_sectors [OF assms(2-4), folded ij]
  have fb: "length ?fb = nat (numBytes ?h)" by (rule length_file_bytes [OF assms(1,2)])
  note lb = length_write_buffer [OF r(3) k, of junk ?fb]
  have "\<forall>x\<in>set [i..<Suc j]. i \<le> x \<and> x < nat (numSectors ?h) \<and> Suc (x - i) * ?S \<le> length ?buf"
    using r(1) by (auto simp: lb simp del: mult_Suc)
  from write_sectors_eq [OF assms(2,1) distinct_upt this] obtain dsk' where
    w: "write_sectors ?h ?buf (int i) [int i..int j] dsk = Inr dsk'" "disk_ok dsk'"
    "\<forall>x\<in>set [i..<Suc j]. dsk' ! nat (used ?h ! x) = take ?S (drop ((x - i) * ?S) ?buf)"
    "\<forall>s. (\<forall>x\<in>set [i..<Suc j]. s \<noteq> nat (used ?h ! x)) \<longrightarrow> dsk' ! s = dsk ! s"
    unfolding upto_seg [OF r(2)] by blast
  have "file_bytes dsk' ?h = splice_at p (take k bytes) ?fb"
  proof (rule nth_equalityI)
    show "length (file_bytes dsk' ?h) = length (splice_at p (take k bytes) ?fb)"
      using assms(4) k by (simp add: length_file_bytes [OF w(2) assms(2)] fb)
  next
    fix x assume "x < length (file_bytes dsk' ?h)"
    then have x: "x < nat (numBytes ?h)" by (simp add: length_file_bytes [OF w(2) assms(2)])
    show "file_bytes dsk' ?h ! x = splice_at p (take k bytes) ?fb ! x"
      by (rule file_byte_after [OF assms(1,2) w(2) x ij r w(3,4)]) (use assms(3,4) k in auto)
  qed
  moreover have "\<forall>s. int s \<notin> set (used ?h) \<longrightarrow> dsk' ! s = dsk ! s"
  proof (intro allI impI)
    fix s assume s: "int s \<notin> set (used ?h)"
    have "s \<noteq> nat (used ?h ! x)" if "x \<in> set [i..<Suc j]" for x
    proof -
      have "x < length (used ?h)" using that r(1) header_okD(4) [OF assms(2)] by auto
      then show ?thesis using s used_nat [OF assms(2)] nth_mem by metis
    qed
    then show "dsk' ! s = dsk ! s" using w(4) by blast
  qed
  ultimately show ?thesis
    using WriteAt_sectors [OF assms(1-4) c k ij, of junk] w(1,2) by auto
qed


text \<open>How many bytes a write of \<open>n\<close> bytes at \<open>position\<close> transfers.\<close>

definition transferred :: "FileHeader \<Rightarrow> int \<Rightarrow> int \<Rightarrow> nat" where
  "transferred h n position =
     (if n \<le> 0 \<or> position \<ge> numBytes h then 0 else nat (min n (numBytes h - position)))"

lemma WriteAt_eq:
  assumes "disk_ok dsk" "header_ok (hdr f)" "0 \<le> position" "n < 2 ^ 31 - position" "n \<le> int (length bytes)"
  shows "\<exists>dsk'. WriteAt junk dsk f bytes n position = Inr (int (transferred (hdr f) n position), dsk') \<and>
    disk_ok dsk' \<and>
    file_bytes dsk' (hdr f) =
      splice_at (nat position) (take (transferred (hdr f) n position) bytes) (file_bytes dsk (hdr f)) \<and>
    (\<forall>s. int s \<notin> set (used (hdr f)) \<longrightarrow> dsk' ! s = dsk ! s)"
proof (cases "n \<le> 0 \<or> position \<ge> numBytes (hdr f)")
  case True
  then have "clip_request (FileLength (hdr f)) n position = Inr 0"
    by (auto simp: clip_request_def FileLength_def)
  then show ?thesis using True assms(1) by (simp add: WriteAt_def transferred_def splice_at_def)
next
  case False
  let ?k = "transferred (hdr f) n position"
  have k: "0 < ?k" "position + int ?k \<le> numBytes (hdr f)" "?k \<le> length bytes"
    using False assms(5) by (auto simp: transferred_def)
  have "clip_request (FileLength (hdr f)) n (int (nat position)) = Inr (int ?k)"
    using clip_request_eq [OF assms(3,4)] False assms(3) by (simp add: FileLength_def transferred_def)
  from WriteAt_inside [OF assms(1,2) k(1) _ this k(3)] k(2) assms(3) show ?thesis by simp
qed


section \<open>Properties\<close>

text \<open>C25.  \<open>ReadAt\<close> returns exactly the bytes of the file at the position, as many as were asked
  for and the file still has.\<close>

theorem ReadAt_correct:
  assumes "disk_ok dsk" "header_ok (hdr f)" "0 \<le> position" "n < 2 ^ 31 - position"
  shows "ReadAt dsk f n position = Inr (take (nat n) (drop (nat position) (file_bytes dsk (hdr f))))"
  by (rule ReadAt_eq [OF assms])

definition sample_header :: FileHeader where
  "sample_header = \<lparr>numBytes = 600, numSectors = 2, dataSectors = [3, 7] @ replicate 124 0\<rparr>"

definition sample_file :: OpenFile where
  "sample_file = \<lparr>hdr = sample_header, seekPosition = 0, ftype = 0\<rparr>"

lemma sample_file_ok: "header_ok (hdr sample_file)" "disk_ok (sectors sample_disk)"
  by (simp_all add: header_ok_def sample_file_def sample_header_def size_defs divRoundUp_def NumDirect_def
      used_def disk_defs disk_ok_def sample_disk_def Disk_new_def)

theorem ReadAt_correct_witness:
  "ReadAt (sectors sample_disk) sample_file 40 580 =
     Inr (take (nat 40) (drop (nat 580) (file_bytes (sectors sample_disk) (hdr sample_file))))"
  by (rule ReadAt_correct) (simp_all add: sample_file_ok)

text \<open>C24.  \<open>WriteAt\<close> replaces exactly the addressed bytes of the file (clipped to its length) by
  the buffer's, whatever the uninitialised bytes of its sector buffer are, and changes no sector
  that is not a data sector of the file.\<close>

theorem WriteAt_correct:
  assumes "disk_ok dsk" "header_ok (hdr f)" "0 \<le> position" "n < 2 ^ 31 - position" "n \<le> int (length bytes)"
  shows "\<exists>dsk'. WriteAt junk dsk f bytes n position = Inr (int (transferred (hdr f) n position), dsk') \<and>
    disk_ok dsk' \<and>
    file_bytes dsk' (hdr f) =
      splice_at (nat position) (take (transferred (hdr f) n position) bytes) (file_bytes dsk (hdr f)) \<and>
    (\<forall>s. int s \<notin> set (used (hdr f)) \<longrightarrow> dsk' ! s = dsk ! s)"
  by (rule WriteAt_eq [OF assms])

theorem WriteAt_correct_witness:
  "\<exists>dsk'. WriteAt (\<lambda>_. 9) (sectors sample_disk) sample_file [1, 2, 3] 3 511 =
      Inr (int (transferred (hdr sample_file) 3 511), dsk') \<and> disk_ok dsk' \<and>
    file_bytes dsk' (hdr sample_file) =
      splice_at (nat 511) (take (transferred (hdr sample_file) 3 511) [1, 2, 3])
        (file_bytes (sectors sample_disk) (hdr sample_file)) \<and>
    (\<forall>s. int s \<notin> set (used (hdr sample_file)) \<longrightarrow> dsk' ! s = sectors sample_disk ! s)"
  by (rule WriteAt_correct) (simp_all add: sample_file_ok)

end
