(* ===== verification/File_Directory.thy ===== *)
theory File_Directory
  imports File_IO
begin

text \<open>
  Directories (\<^verbatim>\<open>filesys/directory.cc\<close>): a fixed table of entries, each a C++ object of 20 bytes
  on the 32-bit host (the flag, three bytes of padding, the sector, ten bytes of name, two bytes
  of padding), stored as the contents of an ordinary file.  A C string argument is the list of
  its bytes without the terminating zero.  The table refines a finite map from the first nine
  bytes of a name to the sector of its header.
\<close>

section \<open>C strings of bounded length\<close>

definition FileNameMaxLen :: nat where "FileNameMaxLen = 9"

text \<open>\<open>strncmp(a, b, n) == 0\<close>; past the end of a string is its zero byte.\<close>

fun strncmp0 :: "nat \<Rightarrow> 8 word list \<Rightarrow> 8 word list \<Rightarrow> bool" where
  "strncmp0 0 a b = True"
| "strncmp0 (Suc n) a b =
     (let x = (case a of [] \<Rightarrow> 0 | c # _ \<Rightarrow> c); y = (case b of [] \<Rightarrow> 0 | c # _ \<Rightarrow> c) in
      if x \<noteq> y then False else if x = 0 then True else strncmp0 n (tl a) (tl b))"

definition strncpy :: "8 word list \<Rightarrow> 8 word list \<Rightarrow> nat \<Rightarrow> 8 word list" where
  "strncpy dst src n =
     (let s = takeWhile (\<lambda>c. c \<noteq> 0) (take n src) in s @ replicate (n - length s) 0 @ drop n dst)"


section \<open>Entries and their bytes\<close>

record DirectoryEntry =
  inUse :: bool
  sector :: int
  fname :: "8 word list"
  pad1 :: "8 word list"
  pad2 :: "8 word list"

type_synonym Directory = "DirectoryEntry list"

definition entry_bytes :: "DirectoryEntry \<Rightarrow> 8 word list" where
  "entry_bytes e = (if inUse e then 1 else 0) # pad1 e @ word_bytes (word_of_int (sector e)) @
     fname e @ pad2 e"

definition sizeof_DirectoryEntry :: nat where "sizeof_DirectoryEntry = 20"

definition bytes_entry :: "8 word list \<Rightarrow> DirectoryEntry" where
  "bytes_entry bs = \<lparr>inUse = (bs ! 0 \<noteq> 0), sector = sint (hd (bytes_words (take 4 (drop 4 bs)))),
     fname = take 10 (drop 8 bs), pad1 = take 3 (drop 1 bs), pad2 = drop 18 bs\<rparr>"

definition table_bytes :: "Directory \<Rightarrow> 8 word list" where
  "table_bytes table = concat (map entry_bytes table)"

definition bytes_table :: "nat \<Rightarrow> 8 word list \<Rightarrow> Directory" where
  "bytes_table n bs = map (\<lambda>i. bytes_entry
     (take sizeof_DirectoryEntry (drop (i * sizeof_DirectoryEntry) bs))) [0..<n]"


section \<open>Operations\<close>

text \<open>\<open>new DirectoryEntry[size]\<close> is uninitialised memory (\<open>junk\<close>) with the flags then cleared.\<close>

definition Directory_new :: "(nat \<Rightarrow> 8 word) \<Rightarrow> nat \<Rightarrow> Directory" where
  "Directory_new junk n =
     map (\<lambda>e. e\<lparr>inUse := False\<rparr>) (bytes_table n (map junk [0..<n * sizeof_DirectoryEntry]))"

definition Directory_FetchFrom :: "disk \<Rightarrow> OpenFile \<Rightarrow> Directory \<Rightarrow> Directory res" where
  "Directory_FetchFrom dsk f table =
     bindR (ReadAt dsk f (int (length table * sizeof_DirectoryEntry)) 0) (\<lambda>bs.
       Inr (bytes_table (length table) (splice_at 0 bs (table_bytes table))))"

definition Directory_WriteBack ::
    "(nat \<Rightarrow> 8 word) \<Rightarrow> disk \<Rightarrow> OpenFile \<Rightarrow> Directory \<Rightarrow> disk res" where
  "Directory_WriteBack junk dsk f table =
     bindR (WriteAt junk dsk f (table_bytes table) (int (length table * sizeof_DirectoryEntry)) 0)
       (\<lambda>(_, dsk'). Inr dsk')"

fun FindIndex_loop :: "Directory \<Rightarrow> int \<Rightarrow> 8 word list \<Rightarrow> int" where
  "FindIndex_loop [] i nm = -1"
| "FindIndex_loop (e # es) i nm =
     (if inUse e \<and> strncmp0 FileNameMaxLen (fname e) nm then i else FindIndex_loop es (i + 1) nm)"

definition FindIndex :: "Directory \<Rightarrow> 8 word list \<Rightarrow> int" where
  "FindIndex table nm = FindIndex_loop table 0 nm"

definition Directory_Find :: "Directory \<Rightarrow> 8 word list \<Rightarrow> int" where
  "Directory_Find table nm =
     (let i = FindIndex table nm in if i \<noteq> -1 then sector (table ! nat i) else -1)"

fun Add_loop :: "Directory \<Rightarrow> 8 word list \<Rightarrow> int \<Rightarrow> bool \<times> Directory" where
  "Add_loop [] nm newSector = (False, [])"
| "Add_loop (e # es) nm newSector =
     (if \<not> inUse e
      then (True, e\<lparr>inUse := True, fname := strncpy (fname e) nm FileNameMaxLen, sector := newSector\<rparr> # es)
      else let (ok, es') = Add_loop es nm newSector in (ok, e # es'))"

definition Directory_Add :: "Directory \<Rightarrow> 8 word list \<Rightarrow> int \<Rightarrow> bool \<times> Directory" where
  "Directory_Add table nm newSector =
     (if FindIndex table nm \<noteq> -1 then (False, table) else Add_loop table nm newSector)"

definition Directory_Remove :: "Directory \<Rightarrow> 8 word list \<Rightarrow> bool \<times> Directory" where
  "Directory_Remove table nm =
     (let i = FindIndex table nm in
      if i = -1 then (False, table) else (True, table[nat i := (table ! nat i)\<lparr>inUse := False\<rparr>]))"

text \<open>\<open>List\<close> prints the name of every used entry with \<open>printf("%s")\<close>, which reads up to the first
  zero byte; a name array without one is read past its end.\<close>

fun Directory_List :: "Directory \<Rightarrow> 8 word list list res" where
  "Directory_List [] = Inr []"
| "Directory_List (e # es) =
     (if inUse e
      then if 0 \<in> set (fname e)
           then bindR (Directory_List es) (\<lambda>ns. Inr (takeWhile (\<lambda>c. c \<noteq> 0) (fname e) # ns))
           else Inl OutOfBounds
      else Directory_List es)"


section \<open>The map a directory stands for\<close>

definition cname :: "8 word list \<Rightarrow> 8 word list" where
  "cname nm = takeWhile (\<lambda>c. c \<noteq> 0) (take FileNameMaxLen nm)"

definition dir_map :: "Directory \<Rightarrow> 8 word list \<rightharpoonup> int" where
  "dir_map table = map_of (map (\<lambda>e. (cname (fname e), sector e)) (filter inUse table))"

definition entry_ok :: "DirectoryEntry \<Rightarrow> bool" where
  "entry_ok e \<longleftrightarrow> length (fname e) = Suc FileNameMaxLen \<and> length (pad1 e) = 3 \<and> length (pad2 e) = 2 \<and>
     int32 (sector e)"

definition dir_ok :: "Directory \<Rightarrow> bool" where
  "dir_ok table \<longleftrightarrow> distinct (map (\<lambda>e. cname (fname e)) (filter inUse table)) \<and> (\<forall>e\<in>set table. entry_ok e)"

lemma strncmp0_iff:
  "strncmp0 n a b \<longleftrightarrow> takeWhile (\<lambda>c. c \<noteq> 0) (take n a) = takeWhile (\<lambda>c. c \<noteq> 0) (take n b)"
  by (induction n arbitrary: a b) (auto simp: Let_def split: list.splits)

lemma strncmp0_cname [simp]: "strncmp0 FileNameMaxLen a b \<longleftrightarrow> cname a = cname b"
  by (simp add: strncmp0_iff cname_def)

lemma takeWhile_zeros: "0 \<notin> set s \<Longrightarrow> takeWhile (\<lambda>c. c \<noteq> (0 :: 8 word)) (s @ replicate k 0) = s"
  by (induction s) (auto intro: takeWhile_eq_Nil_iff [THEN iffD2] simp: hd_replicate)

lemma cname_strncpy [simp]: "cname (strncpy dst src FileNameMaxLen) = cname src"
proof -
  let ?s = "cname src"
  have "length ?s \<le> FileNameMaxLen"
    unfolding cname_def by (metis length_take length_takeWhile_le le_trans min.cobounded2)
  then have "take FileNameMaxLen (strncpy dst src FileNameMaxLen) = ?s @ replicate (FileNameMaxLen - length ?s) 0"
    by (simp add: strncpy_def cname_def Let_def)
  moreover have "0 \<notin> set ?s" unfolding cname_def by (auto dest: set_takeWhileD)
  ultimately show ?thesis using takeWhile_zeros by (simp add: cname_def [of "strncpy _ _ _"])
qed

lemma length_strncpy: "length dst = Suc FileNameMaxLen \<Longrightarrow> length (strncpy dst src FileNameMaxLen) = Suc FileNameMaxLen"
proof -
  assume a: "length dst = Suc FileNameMaxLen"
  have "length (takeWhile (\<lambda>c. c \<noteq> 0) (take FileNameMaxLen src)) \<le> FileNameMaxLen"
    by (metis length_take length_takeWhile_le le_trans min.cobounded2)
  with a show ?thesis by (simp add: strncpy_def Let_def)
qed

lemma FindIndex_loop_cases:
  assumes "0 \<le> i"
  shows "FindIndex_loop es i nm = -1 \<and> dir_map es (cname nm) = None \<or>
    (\<exists>xs e ys. es = xs @ e # ys \<and> FindIndex_loop es i nm = i + int (length xs) \<and> inUse e \<and>
       cname (fname e) = cname nm \<and> dir_map xs (cname nm) = None \<and> dir_map es (cname nm) = Some (sector e))"
  using assms
proof (induction es arbitrary: i)
  case (Cons e es)
  show ?case
  proof (cases "inUse e \<and> cname (fname e) = cname nm")
    case True
    then have "e # es = [] @ e # es \<and> FindIndex_loop (e # es) i nm = i + int (length ([] :: Directory)) \<and>
        dir_map [] (cname nm) = None \<and> dir_map (e # es) (cname nm) = Some (sector e)"
      by (simp add: dir_map_def)
    with True show ?thesis by blast
  next
    case False
    then have m: "dir_map (e # zs) (cname nm) = dir_map zs (cname nm)" for zs by (auto simp: dir_map_def)
    have f: "FindIndex_loop (e # es) i nm = FindIndex_loop es (i + 1) nm" using False by auto
    have "0 \<le> i + 1" using Cons.prems by simp
    from Cons.IH [OF this] show ?thesis
    proof
      assume "FindIndex_loop es (i + 1) nm = -1 \<and> dir_map es (cname nm) = None"
      then show ?thesis using f m by simp
    next
      assume "\<exists>xs e ys. es = xs @ e # ys \<and> FindIndex_loop es (i + 1) nm = i + 1 + int (length xs) \<and> inUse e \<and>
        cname (fname e) = cname nm \<and> dir_map xs (cname nm) = None \<and> dir_map es (cname nm) = Some (sector e)"
      then obtain xs e' ys where x: "es = xs @ e' # ys" "FindIndex_loop es (i + 1) nm = i + 1 + int (length xs)"
        "inUse e'" "cname (fname e') = cname nm" "dir_map xs (cname nm) = None"
        "dir_map es (cname nm) = Some (sector e')" by blast
      then have "e # es = (e # xs) @ e' # ys" "FindIndex_loop (e # es) i nm = i + int (length (e # xs))"
        "dir_map (e # xs) (cname nm) = None" "dir_map (e # es) (cname nm) = Some (sector e')"
        using f m by simp_all
      with x(3,4) show ?thesis by blast
    qed
  qed
qed (simp add: dir_map_def)

lemma FindIndex_None: "FindIndex t nm = -1 \<longleftrightarrow> dir_map t (cname nm) = None"
  using FindIndex_loop_cases [of 0 t nm] by (auto simp: FindIndex_def)

lemma Directory_Find_eq:
  "Directory_Find t nm = (case dir_map t (cname nm) of None \<Rightarrow> -1 | Some s \<Rightarrow> s)"
  using FindIndex_loop_cases [of 0 t nm] by (auto simp: Directory_Find_def FindIndex_def Let_def)


lemma Add_loop_refines:
  assumes "dir_map t (cname nm) = None"
  shows "(case Add_loop t nm s of (ok, t') \<Rightarrow>
     if ok then dir_map t' = (dir_map t)(cname nm \<mapsto> s) else t' = t \<and> (\<forall>e\<in>set t. inUse e))"
  using assms
proof (induction t)
  case (Cons e t)
  show ?case
  proof (cases "inUse e")
    case True
    then have c: "dir_map (e # z) = (dir_map z)(cname (fname e) \<mapsto> sector e)" for z
      by (simp add: dir_map_def)
    then have "cname (fname e) \<noteq> cname nm" "dir_map t (cname nm) = None"
      using Cons.prems by (auto split: if_splits)
    with Cons.IH True show ?thesis
      by (auto simp: c fun_upd_twist split: prod.splits if_splits)
  qed (use Cons.prems in \<open>simp add: dir_map_def\<close>)
qed (simp add: dir_map_def)

lemma dir_ok_Cons: "dir_ok (e # t) \<longleftrightarrow> entry_ok e \<and> dir_ok t \<and> (inUse e \<longrightarrow> dir_map t (cname (fname e)) = None)"
  by (auto simp: dir_ok_def dir_map_def map_of_eq_None_iff image_image)

lemma Add_loop_dir_ok:
  assumes "dir_ok t" "dir_map t (cname nm) = None" "int32 s"
  shows "dir_ok (snd (Add_loop t nm s))"
  using assms
proof (induction t)
  case (Cons e t)
  show ?case
  proof (cases "inUse e")
    case True
    then have "dir_map t (cname nm) = None" "cname (fname e) \<noteq> cname nm"
      using Cons.prems(2) by (auto simp: dir_map_def split: if_splits)
    with Cons Add_loop_refines [of t nm s] True show ?thesis
      by (auto simp: dir_ok_Cons split: prod.splits if_splits)
  next
    case False
    with Cons.prems show ?thesis
      by (auto simp: dir_ok_Cons entry_ok_def length_strncpy dir_map_def)
  qed
qed simp

lemma length_Add_loop [simp, len_simps]: "length (snd (Add_loop t nm s)) = length t"
  by (induction t) (auto split: prod.splits)

lemma dir_map_append: "dir_map (xs @ ys) = dir_map ys ++ dir_map xs"
  by (simp add: dir_map_def map_add_def)

lemma dir_ok_append:
  "dir_ok (xs @ ys) \<longleftrightarrow> dir_ok xs \<and> dir_ok ys \<and> (\<forall>n. dir_map xs n = None \<or> dir_map ys n = None)"
proof -
  have "dir_map t n = None \<longleftrightarrow> n \<notin> set (map (\<lambda>e. cname (fname e)) (filter inUse t))" for t n
    by (auto simp: dir_map_def map_of_eq_None_iff image_image)
  then show ?thesis unfolding dir_ok_def by auto
qed

lemma Remove_refines:
  assumes "dir_ok t"
  shows "case Directory_Remove t nm of (ok, t') \<Rightarrow> dir_ok t' \<and> length t' = length t \<and>
     (if ok then dir_map t (cname nm) \<noteq> None \<and> dir_map t' = (dir_map t)(cname nm := None)
      else dir_map t (cname nm) = None \<and> t' = t)"
proof (cases "FindIndex t nm = -1")
  case True
  then show ?thesis using assms FindIndex_None [of t nm] by (simp add: Directory_Remove_def)
next
  case False
  with FindIndex_loop_cases [of 0 t nm] obtain xs e ys where x: "t = xs @ e # ys"
    "FindIndex t nm = int (length xs)" "inUse e" "cname (fname e) = cname nm"
    "dir_map xs (cname nm) = None" "dir_map t (cname nm) = Some (sector e)"
    by (auto simp: FindIndex_def)
  let ?e = "e\<lparr>inUse := False\<rparr>"
  have r: "Directory_Remove t nm = (True, xs @ ?e # ys)"
    using False x(1,2) by (simp add: Directory_Remove_def)
  have ys: "dir_map ys (cname nm) = None"
    using assms x(3,4) by (auto simp: x(1) dir_ok_append dir_ok_Cons)
  have e: "dir_map (e # ys) = (dir_map ys)(cname nm \<mapsto> sector e)" "dir_map (?e # ys) = dir_map ys"
    using x(3,4) by (simp_all add: dir_map_def)
  have disj: "dir_map xs n = None \<or> dir_map ys n = None" for n
  proof (cases "n = cname nm")
    case False
    have "dir_map xs n = None \<or> dir_map (e # ys) n = None"
      using assms by (simp add: x(1) dir_ok_append)
    then show ?thesis using False by (simp add: e)
  qed (use x(5) in simp)
  have "dir_ok (xs @ ?e # ys)"
    using assms disj by (auto simp: x(1) dir_ok_append dir_ok_Cons e(2) entry_ok_def)
  moreover have "dir_map (xs @ ?e # ys) = (dir_map t)(cname nm := None)"
    using x(5) ys by (auto simp: x(1) dir_map_append e map_add_def fun_eq_iff split: option.splits)
  ultimately show ?thesis unfolding r using x(1,6) by simp
qed

lemma Add_refines:
  "case Directory_Add t nm s of (ok, t') \<Rightarrow>
     if ok then dir_map t (cname nm) = None \<and> dir_map t' = (dir_map t)(cname nm \<mapsto> s)
     else t' = t \<and> (dir_map t (cname nm) \<noteq> None \<or> (\<forall>e\<in>set t. inUse e))"
  using Add_loop_refines [of t nm s] FindIndex_None [of t nm]
  by (auto simp: Directory_Add_def split: prod.splits if_splits)

lemma Add_dir_ok: "dir_ok t \<Longrightarrow> int32 s \<Longrightarrow> dir_ok (snd (Directory_Add t nm s))"
  using Add_loop_dir_ok [of t nm s] FindIndex_None [of t nm] by (auto simp: Directory_Add_def)

lemma length_Add [simp, len_simps]: "length (snd (Directory_Add t nm s)) = length t"
  by (simp add: Directory_Add_def)


section \<open>The bytes of a directory\<close>

lemma entry_roundtrip:
  assumes "entry_ok e"
  shows "bytes_entry (entry_bytes e) = e" "length (entry_bytes e) = sizeof_DirectoryEntry"
proof -
  have l: "length (fname e) = 10" "length (pad1 e) = 3" "length (pad2 e) = 2" "int32 (sector e)"
    using assms by (auto simp: entry_ok_def FileNameMaxLen_def)
  have w: "length (word_bytes w) = 4" for w by (simp add: word_bytes_def)
  have b: "bytes_words (word_bytes w) = [w]" for w
    using bytes_words_word_bytes [of w "[]"] by simp
  show "bytes_entry (entry_bytes e) = e"
    using l by (simp add: bytes_entry_def entry_bytes_def w b drop_Cons' numeral_eq_Suc)
  show "length (entry_bytes e) = sizeof_DirectoryEntry"
    using l by (simp add: entry_bytes_def w sizeof_DirectoryEntry_def)
qed

lemma length_table_bytes:
  "(\<forall>e\<in>set t. entry_ok e) \<Longrightarrow> length (table_bytes t) = length t * sizeof_DirectoryEntry"
  unfolding table_bytes_def by (subst length_concat_blocks [of _ sizeof_DirectoryEntry])
    (auto simp: entry_roundtrip)

lemma table_roundtrip:
  assumes "\<forall>e\<in>set t. entry_ok e"
  shows "bytes_table (length t) (table_bytes t) = t"
proof (rule nth_equalityI)
  fix i assume "i < length (bytes_table (length t) (table_bytes t))"
  then have i: "i < length t" by (simp add: bytes_table_def)
  have "take (1 * sizeof_DirectoryEntry) (drop (i * sizeof_DirectoryEntry) (table_bytes t)) =
      concat (take 1 (drop i (map entry_bytes t)))"
    unfolding table_bytes_def by (rule concat_blocks) (use assms entry_roundtrip in auto)
  also have "\<dots> = entry_bytes (t ! i)"
    using i by (simp add: take_Suc hd_map hd_drop_conv_nth drop_map)
  finally show "bytes_table (length t) (table_bytes t) ! i = t ! i"
    using i assms entry_roundtrip(1) by (simp add: bytes_table_def)
qed (simp add: bytes_table_def)


lemma header_ok_numBytes: "header_ok h \<Longrightarrow> numBytes h < 2 ^ 31"
  using header_okD(2) [of h] by (simp add: header_ok_def NumDirect_def size_defs)

text \<open>A file whose bytes are the bytes of a table.\<close>

lemma fetch_directory:
  assumes "disk_ok dsk" "header_ok (hdr f)" "file_bytes dsk (hdr f) = table_bytes t"
    "\<forall>e\<in>set t. entry_ok e" "\<forall>e\<in>set t0. entry_ok e" "length t0 = length t"
  shows "Directory_FetchFrom dsk f t0 = Inr t"
proof -
  have n: "numBytes (hdr f) = int (length t * sizeof_DirectoryEntry)"
    using assms(3) length_file_bytes [OF assms(1,2)] length_table_bytes [OF assms(4)]
      header_okD(1) [OF assms(2)] by simp
  have "ReadAt dsk f (int (length t0 * sizeof_DirectoryEntry)) 0 = Inr (table_bytes t)"
    using ReadAt_eq [OF assms(1,2), of 0 "int (length t * sizeof_DirectoryEntry)"]
      header_ok_numBytes [OF assms(2)] assms(3,6) length_table_bytes [OF assms(4)]
    by (simp add: n del: of_nat_mult)
  moreover have "splice_at 0 (table_bytes t) (table_bytes t0) = table_bytes t"
    using length_table_bytes [OF assms(4)] length_table_bytes [OF assms(5)] assms(6)
    by (simp add: splice_at_def)
  ultimately show ?thesis
    using table_roundtrip [OF assms(4)] assms(6) by (simp add: Directory_FetchFrom_def)
qed

lemma write_directory:
  assumes "disk_ok dsk" "header_ok (hdr f)" "\<forall>e\<in>set t. entry_ok e"
    "numBytes (hdr f) = int (length t * sizeof_DirectoryEntry)"
  shows "\<exists>dsk'. Directory_WriteBack junk dsk f t = Inr dsk' \<and> disk_ok dsk' \<and>
    file_bytes dsk' (hdr f) = table_bytes t \<and>
    (\<forall>s. int s \<notin> set (used (hdr f)) \<longrightarrow> dsk' ! s = dsk ! s)"
proof -
  have l: "length (table_bytes t) = length t * sizeof_DirectoryEntry"
    by (rule length_table_bytes [OF assms(3)])
  have "transferred (hdr f) (int (length t * sizeof_DirectoryEntry)) 0 = length t * sizeof_DirectoryEntry"
    using assms(4) by (simp add: transferred_def del: of_nat_mult)
  moreover have "splice_at 0 (table_bytes t) (file_bytes dsk (hdr f)) = table_bytes t"
    using l length_file_bytes [OF assms(1,2)] assms(4) by (simp add: splice_at_def del: of_nat_mult)
  ultimately show ?thesis
    using WriteAt_eq [OF assms(1,2), of 0 "int (length t * sizeof_DirectoryEntry)" "table_bytes t" junk]
      header_ok_numBytes [OF assms(2)] l assms(4)
    by (auto simp: Directory_WriteBack_def simp del: of_nat_mult)
qed

section \<open>Properties\<close>

text \<open>C26.  The directory refines a finite map from the first nine bytes of a name to a sector:
  \<open>Find\<close> looks the name up (-1 when absent), \<open>Add\<close> fails when the name is present or the table
  is full and otherwise adds the binding, \<open>Remove\<close> deletes it and fails when it is absent; all
  other names are unaffected and the table stays well formed.\<close>

theorem Directory_refines_map:
  assumes "dir_ok t" "int32 s"
  shows "Directory_Find t nm = (case dir_map t (cname nm) of None \<Rightarrow> -1 | Some x \<Rightarrow> x) \<and>
    (case Directory_Add t nm s of (ok, t') \<Rightarrow> dir_ok t' \<and> length t' = length t \<and>
       (if ok then dir_map t (cname nm) = None \<and> dir_map t' = (dir_map t)(cname nm \<mapsto> s)
        else t' = t \<and> (dir_map t (cname nm) \<noteq> None \<or> (\<forall>e\<in>set t. inUse e)))) \<and>
    (case Directory_Remove t nm of (ok, t') \<Rightarrow> dir_ok t' \<and> length t' = length t \<and>
       (if ok then dir_map t (cname nm) \<noteq> None \<and> dir_map t' = (dir_map t)(cname nm := None)
        else dir_map t (cname nm) = None \<and> t' = t))"
proof -
  obtain ok t' where a: "Directory_Add t nm s = (ok, t')" by fastforce
  have "dir_ok t'" "length t' = length t"
    using Add_dir_ok [OF assms, of nm] length_Add [of t nm s] unfolding a by simp_all
  with Directory_Find_eq [of t nm] Add_refines [of t nm s] Remove_refines [OF assms(1), of nm] a
  show ?thesis by simp
qed

definition sample_entry_used :: "8 word list \<Rightarrow> int \<Rightarrow> DirectoryEntry" where
  "sample_entry_used nm s = \<lparr>inUse = True, sector = s, fname = nm, pad1 = replicate 3 0, pad2 = replicate 2 0\<rparr>"

theorem Directory_refines_map_witness:
  "Directory_Find [sample_entry_used (replicate 10 7) 5] (replicate 12 7) =
     (case dir_map [sample_entry_used (replicate 10 7) 5] (cname (replicate 12 7)) of None \<Rightarrow> -1 | Some x \<Rightarrow> x)"
  using Directory_refines_map [of "[sample_entry_used (replicate 10 7) 5]" 3 "replicate 12 7"]
  by (simp add: dir_ok_def entry_ok_def sample_entry_used_def FileNameMaxLen_def int32_def)

text \<open>C27.  A directory written back to its file is what \<open>FetchFrom\<close> reads again, whatever table
  of the same size it reads into.\<close>

theorem Directory_roundtrip:
  assumes "disk_ok dsk" "header_ok (hdr f)" "dir_ok t" "dir_ok t0" "length t0 = length t"
    "numBytes (hdr f) = int (length t * sizeof_DirectoryEntry)"
  shows "\<exists>dsk'. Directory_WriteBack junk dsk f t = Inr dsk' \<and> Directory_FetchFrom dsk' f t0 = Inr t \<and>
    (\<forall>s. int s \<notin> set (used (hdr f)) \<longrightarrow> dsk' ! s = dsk ! s)"
proof -
  have e: "\<forall>e\<in>set t. entry_ok e" "\<forall>e\<in>set t0. entry_ok e" using assms(3,4) by (auto simp: dir_ok_def)
  from write_directory [OF assms(1,2) e(1) assms(6)] fetch_directory [OF _ assms(2) _ e assms(5)]
  show ?thesis by blast
qed

definition sample_table :: Directory where
  "sample_table = replicate 30 ((sample_entry_used (replicate 10 7) 5)\<lparr>inUse := False\<rparr>)"

theorem Directory_roundtrip_witness:
  "\<exists>dsk'. Directory_WriteBack (\<lambda>_. 9) (sectors sample_disk) sample_file sample_table = Inr dsk' \<and>
     Directory_FetchFrom dsk' sample_file sample_table = Inr sample_table \<and>
     (\<forall>s. int s \<notin> set (used (hdr sample_file)) \<longrightarrow> dsk' ! s = sectors sample_disk ! s)"
  by (rule Directory_roundtrip [OF sample_file_ok(2,1)]) (simp_all add: sample_table_def dir_ok_def entry_ok_def
      sample_entry_used_def FileNameMaxLen_def int32_def sample_file_def sample_header_def
      sizeof_DirectoryEntry_def)

text \<open>C37.  \<open>Add\<close> does not write the tenth byte of the name array, so a name of nine bytes is
  terminated only if that byte already was zero: with uninitialised memory there, \<open>List\<close> reads
  past the array.\<close>

theorem List_unterminated:
  assumes "inUse e = False" "length (fname e) = 10" "fname e ! 9 \<noteq> 0"
    "length nm \<ge> 9" "0 \<notin> set (take 9 nm)"
  shows "Directory_List (snd (Directory_Add [e] nm s)) = Inl OutOfBounds"
proof -
  have w: "takeWhile (\<lambda>c. c \<noteq> 0) (take 9 nm) = take 9 nm"
    using assms(5) by (auto simp: takeWhile_eq_all_conv)
  have "strncpy (fname e) nm FileNameMaxLen = take 9 nm @ drop 9 (fname e)"
    unfolding strncpy_def FileNameMaxLen_def w Let_def using assms(4) by simp
  moreover have "drop 9 (fname e) = [fname e ! 9]"
    using assms(2) by (simp add: Cons_nth_drop_Suc [symmetric])
  ultimately have "0 \<notin> set (strncpy (fname e) nm FileNameMaxLen)" using assms(3,5) by simp
  then show ?thesis using assms(1) by (simp add: Directory_Add_def FindIndex_def)
qed

theorem List_unterminated_witness:
  "Directory_List (snd (Directory_Add [hd sample_table] (replicate 9 65) 4)) = Inl OutOfBounds"
  by (rule List_unterminated) (simp_all add: sample_table_def sample_entry_used_def)

end
