(* ===== verification/File_System.thy ===== *)
theory File_System
  imports File_Directory
begin

text \<open>
  The real file system (\<^verbatim>\<open>filesys/filesys.cc\<close>) and the on-disk form of the free-sector bitmap
  (\<^verbatim>\<open>userprog/bitmap.cc\<close>, \<open>FetchFrom\<close> and \<open>WriteBack\<close>).  The state is the disk and the two files
  the file system keeps open; memory the code leaves uninitialised comes from the record
  \<open>Junk\<close>.
\<close>

section \<open>The bitmap as a file\<close>

definition BitMap_FetchFrom :: "disk \<Rightarrow> OpenFile \<Rightarrow> BitMap \<Rightarrow> BitMap res" where
  "BitMap_FetchFrom dsk f bm =
     bindR (ReadAt dsk f (numWords bm * 4) 0) (\<lambda>bs.
       Inr (bm\<lparr>bmap := bytes_words (splice_at 0 bs (words_bytes (bmap bm)))\<rparr>))"

definition BitMap_WriteBack :: "(nat \<Rightarrow> 8 word) \<Rightarrow> disk \<Rightarrow> OpenFile \<Rightarrow> BitMap \<Rightarrow> disk res" where
  "BitMap_WriteBack junk dsk f bm =
     bindR (WriteAt junk dsk f (words_bytes (bmap bm)) (numWords bm * 4) 0) (\<lambda>(_, dsk'). Inr dsk')"


section \<open>The file system\<close>

definition FreeMapSector :: int where "FreeMapSector = 0"
definition DirectorySector :: int where "DirectorySector = 1"
definition FreeMapFileSize :: int where "FreeMapFileSize = NumSectors div 8"
definition NumDirEntries :: nat where "NumDirEntries = 10"
definition DirectoryFileSize :: int where
  "DirectoryFileSize = int (sizeof_DirectoryEntry * NumDirEntries)"

lemmas fs_defs = FreeMapSector_def DirectorySector_def FreeMapFileSize_def NumDirEntries_def
  DirectoryFileSize_def sizeof_DirectoryEntry_def disk_defs

text \<open>\<open>openf\<close> is \<^const>\<open>None\<close> until it points to an array; the constructor of the real file system
  never sets it.\<close>

record FileSystem =
  freeMapFile :: OpenFile
  directoryFile :: OpenFile
  openf :: "OpenFile option list option"

record Junk =
  jbytes :: "nat \<Rightarrow> 8 word"
  jwords :: "nat \<Rightarrow> 32 word"
  jheader :: FileHeader
  jtype :: int

definition FileSystem_new :: "Junk \<Rightarrow> bool \<Rightarrow> disk \<Rightarrow> (FileSystem \<times> disk) res" where
  "FileSystem_new J format dsk =
     (if format then
        bindR (BitMap_new (jwords J) NumSectors) (\<lambda>freeMap0.
        let directory = Directory_new (jbytes J) NumDirEntries in
        bindR (BitMap_Mark freeMap0 FreeMapSector) (\<lambda>freeMap1.
        bindR (BitMap_Mark freeMap1 DirectorySector) (\<lambda>freeMap2.
        bindR (Allocate (jheader J) freeMap2 FreeMapFileSize) (\<lambda>(ok1, mapHdr, freeMap3).
        bindR (ASSERT ok1) (\<lambda>_.
        bindR (Allocate (jheader J) freeMap3 DirectoryFileSize) (\<lambda>(ok2, dirHdr, freeMap4).
        bindR (ASSERT ok2) (\<lambda>_.
        bindR (FileHeader_WriteBack mapHdr FreeMapSector dsk) (\<lambda>dsk1.
        bindR (FileHeader_WriteBack dirHdr DirectorySector dsk1) (\<lambda>dsk2.
        bindR (OpenFile_new (jtype J) dsk2 FreeMapSector) (\<lambda>mapFile.
        bindR (OpenFile_new (jtype J) dsk2 DirectorySector) (\<lambda>dirFile.
        bindR (BitMap_WriteBack (jbytes J) dsk2 mapFile freeMap4) (\<lambda>dsk3.
        bindR (Directory_WriteBack (jbytes J) dsk3 dirFile directory) (\<lambda>dsk4.
        Inr (\<lparr>freeMapFile = mapFile, directoryFile = dirFile, openf = None\<rparr>, dsk4))))))))))))))
      else
        bindR (OpenFile_new (jtype J) dsk FreeMapSector) (\<lambda>mapFile.
        bindR (OpenFile_new (jtype J) dsk DirectorySector) (\<lambda>dirFile.
        Inr (\<lparr>freeMapFile = mapFile, directoryFile = dirFile, openf = None\<rparr>, dsk))))"

definition fetch_dir :: "Junk \<Rightarrow> FileSystem \<Rightarrow> disk \<Rightarrow> Directory res" where
  "fetch_dir J fs dsk = Directory_FetchFrom dsk (directoryFile fs) (Directory_new (jbytes J) NumDirEntries)"

definition fetch_map :: "Junk \<Rightarrow> FileSystem \<Rightarrow> disk \<Rightarrow> BitMap res" where
  "fetch_map J fs dsk =
     bindR (BitMap_new (jwords J) NumSectors) (\<lambda>bm. BitMap_FetchFrom dsk (freeMapFile fs) bm)"

definition Create :: "Junk \<Rightarrow> FileSystem \<Rightarrow> disk \<Rightarrow> 8 word list \<Rightarrow> int \<Rightarrow> (bool \<times> disk) res" where
  "Create J fs dsk nm initialSize =
     bindR (fetch_dir J fs dsk) (\<lambda>directory.
       if Directory_Find directory nm \<noteq> -1 then Inr (False, dsk)
       else
         bindR (fetch_map J fs dsk) (\<lambda>freeMap.
         bindR (BitMap_Find freeMap) (\<lambda>(sec, freeMap1).
           if sec = -1 then Inr (False, dsk)
           else
             let (added, directory1) = Directory_Add directory nm sec in
             if \<not> added then Inr (False, dsk)
             else
               bindR (Allocate (jheader J) freeMap1 initialSize) (\<lambda>(allocated, h, freeMap2).
                 if \<not> allocated then Inr (False, dsk)
                 else
                   bindR (FileHeader_WriteBack h sec dsk) (\<lambda>dsk1.
                   bindR (Directory_WriteBack (jbytes J) dsk1 (directoryFile fs) directory1) (\<lambda>dsk2.
                   bindR (BitMap_WriteBack (jbytes J) dsk2 (freeMapFile fs) freeMap2) (\<lambda>dsk3.
                   Inr (True, dsk3))))))))"

definition Open :: "Junk \<Rightarrow> FileSystem \<Rightarrow> disk \<Rightarrow> 8 word list \<Rightarrow> OpenFile option res" where
  "Open J fs dsk nm =
     bindR (fetch_dir J fs dsk) (\<lambda>directory.
       let sec = Directory_Find directory nm in
       if sec \<ge> 0 then bindR (OpenFile_new (jtype J) dsk sec) (\<lambda>f. Inr (Some f)) else Inr None)"

fun FindFreeSlot_loop :: "OpenFile option list \<Rightarrow> int list \<Rightarrow> int res" where
  "FindFreeSlot_loop fs [] = Inr (-1)"
| "FindFreeSlot_loop fs (i # is) =
     bindR (read_array fs i) (\<lambda>f. if f = None then Inr i else FindFreeSlot_loop fs is)"

definition FindFreeSlot :: "FileSystem \<Rightarrow> int res" where
  "FindFreeSlot fs =
     (case openf fs of None \<Rightarrow> Inl Undefined | Some slots \<Rightarrow> FindFreeSlot_loop slots [2..14])"

definition Open_type :: "Junk \<Rightarrow> FileSystem \<Rightarrow> disk \<Rightarrow> 8 word list \<Rightarrow> int \<Rightarrow> (OpenFile option \<times> FileSystem) res" where
  "Open_type J fs dsk nm t =
     bindR (FindFreeSlot fs) (\<lambda>freeSlot.
     bindR (fetch_dir J fs dsk) (\<lambda>directory.
       let sec = Directory_Find directory nm; slots = the (openf fs) in
       bindR (if sec \<ge> 0
              then bindR (OpenFile_new_type dsk sec t) (\<lambda>f. write_array slots freeSlot (Some f))
              else Inr slots) (\<lambda>slots'.
       bindR (read_array slots' freeSlot) (\<lambda>f. Inr (f, fs\<lparr>openf := Some slots'\<rparr>)))))"

definition Remove :: "Junk \<Rightarrow> FileSystem \<Rightarrow> disk \<Rightarrow> 8 word list \<Rightarrow> (bool \<times> disk) res" where
  "Remove J fs dsk nm =
     bindR (fetch_dir J fs dsk) (\<lambda>directory.
       let sec = Directory_Find directory nm in
       if sec = -1 then Inr (False, dsk)
       else
         bindR (FileHeader_FetchFrom dsk sec) (\<lambda>fileHdr.
         bindR (fetch_map J fs dsk) (\<lambda>freeMap.
         bindR (Deallocate fileHdr freeMap) (\<lambda>freeMap1.
         bindR (BitMap_Clear freeMap1 sec) (\<lambda>freeMap2.
         let (_, directory1) = Directory_Remove directory nm in
         bindR (BitMap_WriteBack (jbytes J) dsk (freeMapFile fs) freeMap2) (\<lambda>dsk1.
         bindR (Directory_WriteBack (jbytes J) dsk1 (directoryFile fs) directory1) (\<lambda>dsk2.
         Inr (True, dsk2))))))))"

definition FileSystem_List :: "Junk \<Rightarrow> FileSystem \<Rightarrow> disk \<Rightarrow> 8 word list list res" where
  "FileSystem_List J fs dsk = bindR (fetch_dir J fs dsk) Directory_List"



end
