(* ===== verification/File_System_Correct.thy ===== *)
theory File_System_Correct
  imports File_System "HOL-Library.Multiset"
begin

text \<open>
  Correctness of the file system.  The invariant \<open>fs_inv\<close> says that every sector is either free
  in the stored bitmap or owned by exactly one header or file; formatting establishes it, the
  operations keep it, and they refine updates of a finite map from names to byte sequences.
\<close>

section \<open>Allocation of sectors\<close>

lemma length_find_n: "find_n find_bit n b = Inr (xs, b') \<Longrightarrow> length xs = n"
  by (induction n arbitrary: b xs b') (auto elim!: bindR_InrE)

lemma splice_at_Cons:
  "k < length ds \<Longrightarrow> splice_at (Suc k) xs (ds[k := x]) = splice_at k (x # xs) ds"
  by (simp add: splice_at_def upd_conv_take_nth_drop add.commute)

lemma Allocate_loop_find_n:
  "find_n BitMap_Find n bm = Inr (xs, bm') \<Longrightarrow> k + n \<le> length (dataSectors h) \<Longrightarrow>
     Allocate_loop (map int [k..<k + n]) h bm = Inr (h\<lparr>dataSectors := splice_at k xs (dataSectors h)\<rparr>, bm')"
proof (induction n arbitrary: k h bm xs)
  case 0
  then show ?case by (simp add: splice_at_def)
next
  case (Suc n)
  then obtain x bm1 ys where f: "BitMap_Find bm = Inr (x, bm1)" "find_n BitMap_Find n bm1 = Inr (ys, bm')"
    "xs = x # ys" by (auto elim!: bindR_InrE)
  have u: "[k..<k + Suc n] = k # [Suc k..<Suc k + n]" by (simp add: upt_conv_Cons)
  have "Allocate_loop (map int [Suc k..<Suc k + n]) (h\<lparr>dataSectors := (dataSectors h)[k := x]\<rparr>) bm1 =
      Inr (h\<lparr>dataSectors := splice_at (Suc k) ys ((dataSectors h)[k := x])\<rparr>, bm')"
    using Suc.IH [OF f(2), of "Suc k" "h\<lparr>dataSectors := (dataSectors h)[k := x]\<rparr>"] Suc.prems(2) by simp
  then show ?case unfolding u using f Suc.prems(2)
    by (simp add: write_array_def splice_at_Cons)
qed

lemma length_bits_numBits:
  "BitMap_ok bm \<Longrightarrow> BitMap_ok bm' \<Longrightarrow> length (BitMap_bits bm') = length (BitMap_bits bm) \<Longrightarrow>
     numBits bm' = numBits bm"
  by (auto simp: BitMap_ok_def)

lemma divRoundUp_max: "0 \<le> fsz \<Longrightarrow> fsz \<le> int MaxFileSize \<Longrightarrow> divRoundUp fsz (int SectorSize) \<le> int NumDirect"
proof -
  assume a: "0 \<le> fsz" "fsz \<le> int MaxFileSize"
  have "divRoundUp fsz (int SectorSize) * int SectorSize < fsz + int SectorSize"
    by (rule divRoundUp_bounds(2)) (use a in \<open>simp_all add: size_defs\<close>)
  then show ?thesis using a(2) by (simp add: MaxFileSize_def NumDirect_def size_defs)
qed

lemma Allocate_spec:
  assumes "BitMap_ok bm" "0 \<le> fsz" "fsz \<le> int MaxFileSize" "length (dataSectors h0) = NumDirect"
  shows "(\<exists>h'. Allocate h0 bm fsz = Inr (False, h', bm) \<and>
       count_list (BitMap_bits bm) False < nat (divRoundUp fsz (int SectorSize))) \<or>
    (\<exists>is h bm'. Allocate h0 bm fsz = Inr (True, h, bm') \<and> numBytes h = fsz \<and>
       numSectors h = divRoundUp fsz (int SectorSize) \<and> length (dataSectors h) = NumDirect \<and>
       used h = map int is \<and> set (dataSectors h) \<subseteq> set (dataSectors h0) \<union> int ` set is \<and> distinct is \<and>
       (\<forall>i\<in>set is. i < nat (numBits bm) \<and> \<not> BitMap_bits bm ! i) \<and> BitMap_ok bm' \<and> numBits bm' = numBits bm \<and>
       (\<forall>j<nat (numBits bm). BitMap_bits bm' ! j = (BitMap_bits bm ! j \<or> j \<in> set is)))"
proof -
  define n where "n = nat (divRoundUp fsz (int SectorSize))"
  have n: "divRoundUp fsz (int SectorSize) = int n"
    using divRoundUp_bounds(3) [of fsz "int SectorSize"] assms(2) by (simp add: n_def size_defs)
  have "n \<le> NumDirect" using divRoundUp_max [OF assms(2,3)] n by simp
  note c = bitmap.numClear_eq [OF assms(1)]
  show ?thesis
  proof (cases "count_list (BitMap_bits bm) False < n")
    case True
    then have "Allocate h0 bm fsz = Inr (False, h0\<lparr>numBytes := fsz, numSectors := int n\<rparr>, bm)"
      by (simp add: Allocate_def Let_def c n)
    then show ?thesis using True unfolding n_def by blast
  next
    case False
    then have "n \<le> count_list (BitMap_bits bm) False" by simp
    then obtain "is" bm' where f: "find_n BitMap_Find n bm = Inr (map int is, bm')" "length is = n" "distinct is"
      "\<forall>i\<in>set is. i < length (BitMap_bits bm) \<and> \<not> BitMap_bits bm ! i" "BitMap_ok bm'"
      "length (BitMap_bits bm') = length (BitMap_bits bm)"
      "\<forall>j<length (BitMap_bits bm). BitMap_bits bm' ! j = (BitMap_bits bm ! j \<or> j \<in> set is)"
      using bitmap.find_n_allocates [OF assms(1)] by blast
    let ?g = "h0\<lparr>numBytes := fsz, numSectors := int n\<rparr>"
    let ?h = "?g\<lparr>dataSectors := splice_at 0 (map int is) (dataSectors h0)\<rparr>"
    have "Allocate_loop (map int [0..<n]) ?g bm = Inr (?h, bm')"
      using Allocate_loop_find_n [OF f(1), of 0 ?g] assms(4) \<open>n \<le> NumDirect\<close> by simp
    moreover have "[0..int n - 1] = map int [0..<n]" using upto_map_int [of "int n"] by simp
    ultimately have "Allocate h0 bm fsz = Inr (True, ?h, bm')"
      using False c n by (simp add: Allocate_def Let_def)
    moreover have "used ?h = map int is" "length (dataSectors ?h) = NumDirect"
      "set (dataSectors ?h) \<subseteq> set (dataSectors h0) \<union> int ` set is"
      using f(2) assms(4) \<open>n \<le> NumDirect\<close>
      by (auto simp: used_def splice_at_def dest: in_set_dropD)
    moreover have "numBits bm' = numBits bm" by (rule length_bits_numBits [OF assms(1) f(5,6)])
    moreover have "numBytes ?h = fsz" "numSectors ?h = divRoundUp fsz (int SectorSize)" using n by simp_all
    ultimately show ?thesis using f(3-5,7) by (intro disjI2 exI [of _ "is"] exI [of _ ?h] exI [of _ bm']) auto
  qed
qed


lemma Deallocate_loop_spec:
  assumes "header_ok h" "distinct ks" "\<forall>k\<in>set ks. k < length (used h)" "BitMap_ok bm"
    "numBits bm = NumSectors" "\<forall>k\<in>set ks. BitMap_bits bm ! nat (used h ! k)"
  shows "\<exists>bm'. Deallocate_loop (map int ks) h bm = Inr bm' \<and> BitMap_ok bm' \<and> numBits bm' = NumSectors \<and>
    (\<forall>j<nat NumSectors. BitMap_bits bm' ! j = (BitMap_bits bm ! j \<and> int j \<notin> (\<lambda>k. used h ! k) ` set ks))"
  using assms(2-6)
proof (induction ks arbitrary: bm)
  case (Cons k ks)
  let ?s = "used h ! k" and ?B = BitMap_bits
  have k: "k < length (used h)" using Cons.prems(2) by simp
  then have "?s \<in> set (used h)" by simp
  then have s: "0 \<le> ?s" "nat ?s < nat NumSectors" using assms(1) by (auto simp: header_ok_def)
  have r: "read_array (dataSectors h) (int k) = Inr ?s"
    using k assms(1) by (simp add: used_def header_ok_def)
  have len: "length (?B bm) = nat NumSectors" using Cons.prems(4) by simp
  have t: "BitMap_Test bm ?s = Inr True"
    using bitmap.test_in [OF Cons.prems(3), of "nat ?s"] s Cons.prems(4,5) by simp
  obtain bm1 where c: "BitMap_Clear bm ?s = Inr bm1" "BitMap_ok bm1" "?B bm1 = (?B bm)[nat ?s := False]"
    using bitmap.clear_in [OF Cons.prems(3), of "nat ?s"] s Cons.prems(4) by auto
  have nb: "numBits bm1 = NumSectors"
    using length_bits_numBits [OF Cons.prems(3) c(2)] c(3) Cons.prems(4) by simp
  have "\<forall>k'\<in>set ks. ?B bm1 ! nat (used h ! k')"
  proof
    fix k' assume k': "k' \<in> set ks"
    then have "k' \<noteq> k" "k' < length (used h)" using Cons.prems(1,2) by auto
    then have "nat (used h ! k') \<noteq> nat ?s"
      using assms(1) k used_nat [OF assms(1)] by (metis header_ok_def nth_eq_iff_index_eq)
    then show "?B bm1 ! nat (used h ! k')" using Cons.prems(5) k' c(3) by simp
  qed
  with Cons.IH [of bm1] Cons.prems(1,2) c(2) nb obtain bm' where
    d: "Deallocate_loop (map int ks) h bm1 = Inr bm'" "BitMap_ok bm'" "numBits bm' = NumSectors"
    "\<forall>j<nat NumSectors. ?B bm' ! j = (?B bm1 ! j \<and> int j \<notin> (\<lambda>k. used h ! k) ` set ks)" by auto
  have "?B bm1 ! j = (?B bm ! j \<and> int j \<noteq> ?s)" if "j < nat NumSectors" for j
    using c(3) len that s by (auto simp: nth_list_update)
  with d(4) have "\<forall>j<nat NumSectors. ?B bm' ! j = (?B bm ! j \<and> int j \<notin> (\<lambda>k. used h ! k) ` set (k # ks))"
    by auto
  with r t c(1) d(1-3) show ?case by simp
qed simp

lemma Deallocate_spec:
  assumes "header_ok h" "BitMap_ok bm" "numBits bm = NumSectors" "\<forall>s\<in>set (used h). BitMap_bits bm ! nat s"
  shows "\<exists>bm'. Deallocate h bm = Inr bm' \<and> BitMap_ok bm' \<and> numBits bm' = NumSectors \<and>
    (\<forall>j<nat NumSectors. BitMap_bits bm' ! j = (BitMap_bits bm ! j \<and> int j \<notin> set (used h)))"
proof -
  have "[0..numSectors h - 1] = map int [0..<length (used h)]"
    using upto_map_int [OF header_okD(3) [OF assms(1)]] header_okD(4) [OF assms(1)] by simp
  moreover have "(\<lambda>k. used h ! k) ` set [0..<length (used h)] = set (used h)"
    by (auto simp: in_set_conv_nth)
  ultimately show ?thesis
    using Deallocate_loop_spec [OF assms(1) distinct_upt _ assms(2,3), of 0 "length (used h)"] assms(4)
    by (auto simp: Deallocate_def)
qed


section \<open>The stored bitmap and directory\<close>

lemma BitMap_words: "BitMap_ok bm \<Longrightarrow> numBits bm = NumSectors \<Longrightarrow> numWords bm = 32 \<and> length (bmap bm) = 32"
  by (simp add: BitMap_ok_def disk_defs divRoundUp_def BitsInWord_def)

lemma fetch_bitmap:
  assumes "disk_ok dsk" "header_ok (hdr f)" "file_bytes dsk (hdr f) = words_bytes (bmap bm)"
    "BitMap_ok bm" "numBits bm = NumSectors" "BitMap_ok bm0" "numBits bm0 = NumSectors"
  shows "BitMap_FetchFrom dsk f bm0 = Inr bm"
proof -
  note w = BitMap_words [OF assms(4,5)] BitMap_words [OF assms(6,7)]
  have "ReadAt dsk f 128 0 = Inr (words_bytes (bmap bm))"
    using ReadAt_eq [OF assms(1,2), of 0 128] assms(3) w by simp
  moreover have "splice_at 0 (words_bytes (bmap bm)) (words_bytes (bmap bm0)) = words_bytes (bmap bm)"
    using w by (simp add: splice_at_def)
  ultimately have "BitMap_FetchFrom dsk f bm0 = Inr (bm0\<lparr>bmap := bmap bm\<rparr>)"
    using w by (simp add: BitMap_FetchFrom_def)
  moreover have "bm0\<lparr>bmap := bmap bm\<rparr> = bm" using w assms(5,7) by simp
  ultimately show ?thesis by simp
qed

lemma write_bitmap:
  assumes "disk_ok dsk" "header_ok (hdr f)" "BitMap_ok bm" "numBits bm = NumSectors"
    "numBytes (hdr f) = FreeMapFileSize"
  shows "\<exists>dsk'. BitMap_WriteBack junk dsk f bm = Inr dsk' \<and> disk_ok dsk' \<and>
    file_bytes dsk' (hdr f) = words_bytes (bmap bm) \<and>
    (\<forall>s. int s \<notin> set (used (hdr f)) \<longrightarrow> dsk' ! s = dsk ! s)"
proof -
  note w = BitMap_words [OF assms(3,4)]
  have n: "numBytes (hdr f) = 128" using assms(5) by (simp add: fs_defs)
  then have "transferred (hdr f) 128 0 = 128" by (simp add: transferred_def)
  moreover have "splice_at 0 (words_bytes (bmap bm)) (file_bytes dsk (hdr f)) = words_bytes (bmap bm)"
    using w n length_file_bytes [OF assms(1,2)] by (simp add: splice_at_def)
  ultimately show ?thesis
    using WriteAt_eq [OF assms(1,2), of 0 128 "words_bytes (bmap bm)" junk] w
    by (auto simp: BitMap_WriteBack_def)
qed

lemma sint_int32: "int32 (sint (w :: 32 word))"
  using sint_greater_eq [of w] sint_less [of w] by (simp add: int32_def)

lemma bytes_entry_ok: "length bs = 20 \<Longrightarrow> entry_ok ((bytes_entry bs)\<lparr>inUse := b\<rparr>)"
  by (simp add: entry_ok_def bytes_entry_def FileNameMaxLen_def sint_int32)

lemma Directory_new_ok:
  "dir_ok (Directory_new junk n)" "length (Directory_new junk n) = n"
  by (auto simp: dir_ok_def Directory_new_def bytes_table_def sizeof_DirectoryEntry_def intro!: bytes_entry_ok)


section \<open>The invariant\<close>

definition stored_header :: "disk \<Rightarrow> int \<Rightarrow> FileHeader" where
  "stored_header dsk s = bytes_header (dsk ! nat s)"

definition file_sectors :: "disk \<Rightarrow> DirectoryEntry \<Rightarrow> int list" where
  "file_sectors dsk e = sector e # used (stored_header dsk (sector e))"

definition system_sectors :: "FileSystem \<Rightarrow> int list" where
  "system_sectors fs = [FreeMapSector, DirectorySector] @ used (hdr (freeMapFile fs)) @ used (hdr (directoryFile fs))"

definition owned :: "FileSystem \<Rightarrow> disk \<Rightarrow> Directory \<Rightarrow> int list" where
  "owned fs dsk t = system_sectors fs @ concat (map (file_sectors dsk) (filter inUse t))"

definition headers_on_disk :: "FileSystem \<Rightarrow> disk \<Rightarrow> bool" where
  "headers_on_disk fs dsk \<longleftrightarrow> stored_header dsk FreeMapSector = hdr (freeMapFile fs) \<and>
     stored_header dsk DirectorySector = hdr (directoryFile fs)"

definition fs_inv :: "FileSystem \<Rightarrow> disk \<Rightarrow> BitMap \<Rightarrow> Directory \<Rightarrow> bool" where
  "fs_inv fs dsk bm t \<longleftrightarrow>
     disk_ok dsk \<and> headers_on_disk fs dsk \<and> header_ok (hdr (freeMapFile fs)) \<and> header_ok (hdr (directoryFile fs)) \<and>
     numBytes (hdr (freeMapFile fs)) = FreeMapFileSize \<and> numBytes (hdr (directoryFile fs)) = DirectoryFileSize \<and>
     BitMap_ok bm \<and> numBits bm = NumSectors \<and>
     file_bytes dsk (hdr (freeMapFile fs)) = words_bytes (bmap bm) \<and>
     dir_ok t \<and> length t = NumDirEntries \<and> file_bytes dsk (hdr (directoryFile fs)) = table_bytes t \<and>
     (\<forall>e\<in>set t. inUse e \<longrightarrow> header_ok (stored_header dsk (sector e))) \<and>
     distinct (owned fs dsk t) \<and> (\<forall>s\<in>set (owned fs dsk t). 0 \<le> s \<and> s < NumSectors) \<and>
     (\<forall>i<nat NumSectors. BitMap_bits bm ! i \<longleftrightarrow> int i \<in> set (owned fs dsk t))"

text \<open>The abstract file system: the bytes of every file, by name.\<close>

definition stored_table :: "FileSystem \<Rightarrow> disk \<Rightarrow> Directory" where
  "stored_table fs dsk = bytes_table NumDirEntries (file_bytes dsk (hdr (directoryFile fs)))"

definition files :: "FileSystem \<Rightarrow> disk \<Rightarrow> 8 word list \<rightharpoonup> 8 word list" where
  "files fs dsk = (\<lambda>n. map_option (\<lambda>s. file_bytes dsk (stored_header dsk s)) (dir_map (stored_table fs dsk) n))"

lemma stored_table_eq: "fs_inv fs dsk bm t \<Longrightarrow> stored_table fs dsk = t"
  using table_roundtrip [of t] by (simp add: stored_table_def fs_inv_def dir_ok_def)

lemma fetch_dir_eq:
  assumes "fs_inv fs dsk bm t"
  shows "fetch_dir J fs dsk = Inr t"
proof -
  have "\<forall>e\<in>set (Directory_new (jbytes J) NumDirEntries). entry_ok e"
    using Directory_new_ok(1) [of "jbytes J" NumDirEntries] by (simp add: dir_ok_def)
  then show ?thesis
    using fetch_directory [of dsk "directoryFile fs" t] assms Directory_new_ok(2) [of "jbytes J" NumDirEntries]
    by (simp add: fetch_dir_def fs_inv_def dir_ok_def)
qed

lemma fetch_map_eq:
  assumes "fs_inv fs dsk bm t"
  shows "fetch_map J fs dsk = Inr bm"
proof -
  obtain bm0 where "BitMap_new (jwords J) NumSectors = Inr bm0" "BitMap_ok bm0" "numBits bm0 = NumSectors"
    using BitMap_new_spec [of NumSectors "jwords J"] by (auto simp: disk_defs)
  then show ?thesis
    using fetch_bitmap [of dsk "freeMapFile fs" bm bm0] assms by (simp add: fetch_map_def fs_inv_def)
qed

lemma in_use_owned:
  "e \<in> set t \<Longrightarrow> inUse e \<Longrightarrow> set (file_sectors dsk e) \<subseteq> set (owned fs dsk t)"
  by (auto simp: owned_def)

lemma dir_map_entry:
  "dir_map t n = Some s \<Longrightarrow> \<exists>e\<in>set t. inUse e \<and> cname (fname e) = n \<and> sector e = s"
  unfolding dir_map_def by (auto dest!: map_of_SomeD)

text \<open>Bytes of a file whose sectors are untouched.\<close>

lemma file_bytes_cong:
  "(\<And>s. s \<in> set (used h) \<Longrightarrow> dsk' ! nat s = dsk ! nat s) \<Longrightarrow> file_bytes dsk' h = file_bytes dsk h"
  unfolding file_bytes_def raw_bytes_def by (metis (mono_tags, lifting) map_cong)


lemma Add_loop_mset:
  "Add_loop t nm s = (True, t') \<Longrightarrow>
     \<exists>e. inUse e \<and> sector e = s \<and> mset (filter inUse t') = add_mset e (mset (filter inUse t))"
proof (induction t arbitrary: t')
  case (Cons a t)
  show ?case
  proof (cases "inUse a")
    case True
    with Cons.prems obtain t1 where t1: "Add_loop t nm s = (True, t1)" "t' = a # t1"
      by (auto split: prod.splits)
    from Cons.IH [OF t1(1)] obtain e where "inUse e" "sector e = s"
      "mset (filter inUse t1) = add_mset e (mset (filter inUse t))" by blast
    with t1 True show ?thesis by auto
  qed (use Cons.prems in auto)
qed simp

lemma mset_owned:
  "mset (owned fs dsk t) = mset (system_sectors fs) +
     \<Sum>\<^sub># (image_mset (\<lambda>e. mset (file_sectors dsk e)) (mset (filter inUse t)))"
  by (simp add: owned_def mset_concat sum_mset_sum_list [symmetric] multiset.map_comp comp_def)

lemma distinct_owned_system:
  "fs_inv fs dsk bm t \<Longrightarrow> e \<in> set t \<Longrightarrow> inUse e \<Longrightarrow> x \<in> set (file_sectors dsk e) \<Longrightarrow> x \<notin> set (system_sectors fs)"
  by (auto simp: fs_inv_def owned_def)

text \<open>A file is untouched by a change of free sectors and of the two system files.\<close>

lemma untouched:
  assumes inv: "fs_inv fs dsk bm t" and e: "e \<in> set t" "inUse e"
    and eq: "\<And>x. int x \<notin> set (system_sectors fs) \<Longrightarrow> int x \<in> set (owned fs dsk t) \<Longrightarrow> dsk' ! x = dsk ! x"
  shows "stored_header dsk' (sector e) = stored_header dsk (sector e)"
    "file_sectors dsk' e = file_sectors dsk e"
    "file_bytes dsk' (stored_header dsk (sector e)) = file_bytes dsk (stored_header dsk (sector e))"
proof -
  have same: "dsk' ! nat x = dsk ! nat x" if "x \<in> set (file_sectors dsk e)" for x
  proof -
    have o: "x \<in> set (owned fs dsk t)" using in_use_owned [OF e, of dsk fs] that by blast
    then have "0 \<le> x" using inv by (auto simp: fs_inv_def)
    then show ?thesis using eq [of "nat x"] o distinct_owned_system [OF inv e that] by simp
  qed
  from same [of "sector e"] show h: "stored_header dsk' (sector e) = stored_header dsk (sector e)"
    by (simp add: stored_header_def file_sectors_def)
  then show "file_sectors dsk' e = file_sectors dsk e" by (simp add: file_sectors_def)
  show "file_bytes dsk' (stored_header dsk (sector e)) = file_bytes dsk (stored_header dsk (sector e))"
    by (rule file_bytes_cong) (use same in \<open>simp add: file_sectors_def\<close>)
qed

lemma files_entry:
  assumes "fs_inv fs dsk bm t"
  shows "files fs dsk n = map_option (\<lambda>s. file_bytes dsk (stored_header dsk s)) (dir_map t n)"
  by (simp add: files_def stored_table_eq [OF assms])

lemma files_untouched:
  assumes inv: "fs_inv fs dsk bm t"
    and eq: "\<And>x. int x \<notin> set (system_sectors fs) \<Longrightarrow> int x \<in> set (owned fs dsk t) \<Longrightarrow> dsk' ! x = dsk ! x"
  shows "map_option (\<lambda>s. file_bytes dsk' (stored_header dsk' s)) (dir_map t n) = files fs dsk n"
proof (cases "dir_map t n")
  case (Some s)
  from dir_map_entry [OF Some] obtain e where "e \<in> set t" "inUse e" "sector e = s" by blast
  with untouched [OF inv _ _ eq, of e] show ?thesis by (auto simp: files_entry [OF inv] Some)
qed (simp add: files_entry [OF inv])



section \<open>Create\<close>

lemma fs_invD:
  assumes "fs_inv fs dsk bm t"
  shows "disk_ok dsk" "header_ok (hdr (freeMapFile fs))" "header_ok (hdr (directoryFile fs))"
    "numBytes (hdr (freeMapFile fs)) = FreeMapFileSize" "numBytes (hdr (directoryFile fs)) = DirectoryFileSize"
    "BitMap_ok bm" "numBits bm = NumSectors" "dir_ok t" "length t = NumDirEntries" "distinct (owned fs dsk t)"
    "\<And>s. s \<in> set (owned fs dsk t) \<Longrightarrow> 0 \<le> s \<and> s < NumSectors"
    "\<And>i. i < nat NumSectors \<Longrightarrow> BitMap_bits bm ! i \<longleftrightarrow> int i \<in> set (owned fs dsk t)"
    "\<And>e. e \<in> set t \<Longrightarrow> inUse e \<Longrightarrow> header_ok (stored_header dsk (sector e))"
  using assms by (auto simp: fs_inv_def)

text \<open>Writing the two system files leaves the disk a file system with the new table and map.\<close>

lemma write_system_files:
  assumes "disk_ok dsk" "header_ok (hdr (freeMapFile fs))" "header_ok (hdr (directoryFile fs))"
    "numBytes (hdr (freeMapFile fs)) = FreeMapFileSize" "numBytes (hdr (directoryFile fs)) = DirectoryFileSize"
    "BitMap_ok bm" "numBits bm = NumSectors" "dir_ok t" "length t = NumDirEntries"
    "set (used (hdr (freeMapFile fs))) \<inter> set (used (hdr (directoryFile fs))) = {}"
  shows "\<exists>d1 d2. Directory_WriteBack junk dsk (directoryFile fs) t = Inr d1 \<and>
      BitMap_WriteBack junk d1 (freeMapFile fs) bm = Inr d2 \<and> disk_ok d2 \<and>
      file_bytes d2 (hdr (freeMapFile fs)) = words_bytes (bmap bm) \<and>
      file_bytes d2 (hdr (directoryFile fs)) = table_bytes t \<and>
      (\<forall>x. int x \<notin> set (used (hdr (freeMapFile fs))) \<union> set (used (hdr (directoryFile fs))) \<longrightarrow> d2 ! x = dsk ! x)"
    and "\<exists>d1 d2. BitMap_WriteBack junk dsk (freeMapFile fs) bm = Inr d1 \<and>
      Directory_WriteBack junk d1 (directoryFile fs) t = Inr d2 \<and> disk_ok d2 \<and>
      file_bytes d2 (hdr (freeMapFile fs)) = words_bytes (bmap bm) \<and>
      file_bytes d2 (hdr (directoryFile fs)) = table_bytes t \<and>
      (\<forall>x. int x \<notin> set (used (hdr (freeMapFile fs))) \<union> set (used (hdr (directoryFile fs))) \<longrightarrow> d2 ! x = dsk ! x)"
proof -
  let ?m = "hdr (freeMapFile fs)" and ?d = "hdr (directoryFile fs)"
  have e: "\<forall>e\<in>set t. entry_ok e" using assms(8) by (simp add: dir_ok_def)
  have n: "numBytes ?d = int (length t * sizeof_DirectoryEntry)"
    using assms(5,9) by (simp add: DirectoryFileSize_def mult.commute)
  have nat: "\<exists>x. s = int x \<and> s \<in> set (used h)" if "header_ok h" "s \<in> set (used h)" for s h
    using that by (metis header_ok_def nonneg_int_cases)
  obtain d1 where d1: "Directory_WriteBack junk dsk (directoryFile fs) t = Inr d1" "disk_ok d1"
    "file_bytes d1 ?d = table_bytes t" "\<forall>x. int x \<notin> set (used ?d) \<longrightarrow> d1 ! x = dsk ! x"
    using write_directory [OF assms(1,3) e n] by blast
  obtain d2 where d2: "BitMap_WriteBack junk d1 (freeMapFile fs) bm = Inr d2" "disk_ok d2"
    "file_bytes d2 ?m = words_bytes (bmap bm)" "\<forall>x. int x \<notin> set (used ?m) \<longrightarrow> d2 ! x = d1 ! x"
    using write_bitmap [OF d1(2) assms(2,6,7,4)] by blast
  have "file_bytes d2 ?d = file_bytes d1 ?d"
  proof (rule file_bytes_cong)
    fix s assume "s \<in> set (used ?d)"
    with nat [OF assms(3) this] assms(10) d2(4) show "d2 ! nat s = d1 ! nat s" by auto
  qed
  with d1 d2 show "\<exists>d1 d2. Directory_WriteBack junk dsk (directoryFile fs) t = Inr d1 \<and>
      BitMap_WriteBack junk d1 (freeMapFile fs) bm = Inr d2 \<and> disk_ok d2 \<and>
      file_bytes d2 ?m = words_bytes (bmap bm) \<and> file_bytes d2 ?d = table_bytes t \<and>
      (\<forall>x. int x \<notin> set (used ?m) \<union> set (used ?d) \<longrightarrow> d2 ! x = dsk ! x)" by auto
  obtain c1 where c1: "BitMap_WriteBack junk dsk (freeMapFile fs) bm = Inr c1" "disk_ok c1"
    "file_bytes c1 ?m = words_bytes (bmap bm)" "\<forall>x. int x \<notin> set (used ?m) \<longrightarrow> c1 ! x = dsk ! x"
    using write_bitmap [OF assms(1,2,6,7,4)] by blast
  obtain c2 where c2: "Directory_WriteBack junk c1 (directoryFile fs) t = Inr c2" "disk_ok c2"
    "file_bytes c2 ?d = table_bytes t" "\<forall>x. int x \<notin> set (used ?d) \<longrightarrow> c2 ! x = c1 ! x"
    using write_directory [OF c1(2) assms(3) e n] by blast
  have "file_bytes c2 ?m = file_bytes c1 ?m"
  proof (rule file_bytes_cong)
    fix s assume "s \<in> set (used ?m)"
    with nat [OF assms(2) this] assms(10) c2(4) show "c2 ! nat s = c1 ! nat s" by auto
  qed
  with c1 c2 show "\<exists>d1 d2. BitMap_WriteBack junk dsk (freeMapFile fs) bm = Inr d1 \<and>
      Directory_WriteBack junk d1 (directoryFile fs) t = Inr d2 \<and> disk_ok d2 \<and>
      file_bytes d2 ?m = words_bytes (bmap bm) \<and> file_bytes d2 ?d = table_bytes t \<and>
      (\<forall>x. int x \<notin> set (used ?m) \<union> set (used ?d) \<longrightarrow> d2 ! x = dsk ! x)" by auto
qed

lemma system_disjoint:
  "fs_inv fs dsk bm t \<Longrightarrow> set (used (hdr (freeMapFile fs))) \<inter> set (used (hdr (directoryFile fs))) = {}"
  by (auto simp: fs_inv_def owned_def system_sectors_def)


text \<open>The two system headers stay on the disk when their sectors keep their contents.\<close>

lemma headers_kept:
  assumes "fs_inv fs dsk bm t"
    "\<And>x. x < 2 \<Longrightarrow> int x \<notin> set (used (hdr (freeMapFile fs))) \<union> set (used (hdr (directoryFile fs))) \<Longrightarrow>
      int x \<in> set (owned fs dsk t) \<Longrightarrow> d ! x = dsk ! x"
  shows "headers_on_disk fs d"
proof -
  have "d ! x = dsk ! x" if "x = 0 \<or> x = 1" for x
    by (rule assms(2)) (use that fs_invD(10) [OF assms(1)] in
      \<open>auto simp: owned_def system_sectors_def FreeMapSector_def DirectorySector_def\<close>)
  moreover have "headers_on_disk fs dsk" using assms(1) by (simp add: fs_inv_def)
  ultimately show ?thesis
    by (simp add: headers_on_disk_def stored_header_def FreeMapSector_def DirectorySector_def)
qed

lemma mset_distinct_set: "mset xs = mset ys \<Longrightarrow> distinct ys \<Longrightarrow> distinct xs \<and> set xs = set ys"
  by (metis mset_eq_imp_distinct_iff mset_eq_setD)

lemma Create_commit:
  assumes inv: "fs_inv fs dsk bm t"
    and s: "0 \<le> s" "s < NumSectors" "s \<notin> set (owned fs dsk t)"
    and h: "header_ok h" "header_fits h" "s \<notin> set (used h)" "set (used h) \<inter> set (owned fs dsk t) = {}"
    and t': "dir_ok t'" "length t' = NumDirEntries" "sector e = s"
      "mset (filter inUse t') = add_mset e (mset (filter inUse t))"
    and bm': "BitMap_ok bm'" "numBits bm' = NumSectors"
      "\<forall>i<nat NumSectors. BitMap_bits bm' ! i \<longleftrightarrow> BitMap_bits bm ! i \<or> int i = s \<or> int i \<in> set (used h)"
  obtains d1 d2 d3 where "FileHeader_WriteBack h s dsk = Inr d1"
    "Directory_WriteBack junk d1 (directoryFile fs) t' = Inr d2"
    "BitMap_WriteBack junk d2 (freeMapFile fs) bm' = Inr d3"
    "fs_inv fs d3 bm' t'" "stored_header d3 s = h"
    "\<And>x. int x \<notin> set (system_sectors fs) \<Longrightarrow> int x \<in> set (owned fs dsk t) \<Longrightarrow> d3 ! x = dsk ! x"
proof -
  note I = fs_invD [OF inv]
  let ?d1 = "dsk[nat s := header_bytes h]"
  have ok1: "disk_ok ?d1"
    using I(1) length_header_bytes [OF h(2)]
    by (auto simp: disk_ok_def dest!: set_update_subset_insert [THEN subsetD])
  have w1: "FileHeader_WriteBack h s dsk = Inr ?d1"
    using s(1,2) I(1) by (simp add: FileHeader_WriteBack_def WriteSector_def ASSERT_def write_array_def disk_ok_def)
  obtain d2 d3 where d: "Directory_WriteBack junk ?d1 (directoryFile fs) t' = Inr d2"
    "BitMap_WriteBack junk d2 (freeMapFile fs) bm' = Inr d3" "disk_ok d3"
    "file_bytes d3 (hdr (freeMapFile fs)) = words_bytes (bmap bm')"
    "file_bytes d3 (hdr (directoryFile fs)) = table_bytes t'"
    "\<forall>x. int x \<notin> set (used (hdr (freeMapFile fs))) \<union> set (used (hdr (directoryFile fs))) \<longrightarrow> d3 ! x = ?d1 ! x"
    using write_system_files(1) [OF ok1 I(2-5) bm'(1,2) t'(1,2) system_disjoint [OF inv], of junk] by blast
  have same: "d3 ! x = dsk ! x" if "int x \<notin> set (system_sectors fs)" "int x \<in> set (owned fs dsk t)" for x
  proof -
    have "d3 ! x = ?d1 ! x" using d(6) that(1) by (auto simp: system_sectors_def)
    also have "\<dots> = dsk ! x" using that(2) s(1,3) by (cases "x = nat s") auto
    finally show ?thesis .
  qed
  have "s \<notin> set (system_sectors fs)" using s(3) by (auto simp: owned_def)
  then have "d3 ! nat s = ?d1 ! nat s" using d(6) s(1) by (auto simp: system_sectors_def)
  then have hs: "stored_header d3 s = h"
    using s(1,2) I(1) header_roundtrip [OF h(2)] by (simp add: stored_header_def disk_ok_def)
  have "image_mset (\<lambda>e. mset (file_sectors d3 e)) (mset (filter inUse t)) =
      image_mset (\<lambda>e. mset (file_sectors dsk e)) (mset (filter inUse t))"
    by (rule image_mset_cong) (use untouched(2) [OF inv _ _ same] in auto)
  then have m: "mset (owned fs d3 t') = mset (owned fs dsk t @ s # used h)"
    unfolding mset_owned t'(4) using hs t'(3) by (simp add: file_sectors_def mset_owned)
  have own: "distinct (owned fs d3 t')" "set (owned fs d3 t') = set (owned fs dsk t) \<union> {s} \<union> set (used h)"
    using mset_distinct_set [OF m] I(10) s(3) h(3,4) h(1) by (auto simp: header_ok_def)
  have hdrs: "header_ok (stored_header d3 (sector a))" if "a \<in> set t'" "inUse a" for a
  proof -
    have "a \<in># mset (filter inUse t')" using that by simp
    then consider "a = e" | "a \<in> set t" unfolding t'(4) by auto
    then show ?thesis
      using hs t'(3) h(1) untouched(1) [OF inv _ that(2) same] I(13) [OF _ that(2)] by cases auto
  qed
  have r: "\<forall>x\<in>set (owned fs d3 t'). 0 \<le> x \<and> x < NumSectors"
    using own(2) I(11) s h(1) by (auto simp: header_ok_def)
  have b: "\<forall>i<nat NumSectors. BitMap_bits bm' ! i \<longleftrightarrow> int i \<in> set (owned fs d3 t')"
    using bm'(3) I(12) own(2) by auto
  have "nat s \<noteq> x" if "int x \<in> set (owned fs dsk t)" for x using that s(1,3) by auto
  then have "headers_on_disk fs d3" by (intro headers_kept [OF inv]) (use d(6) in auto)
  then have "fs_inv fs d3 bm' t'"
    unfolding fs_inv_def using I(2-5) d(3-5) bm'(1,2) t'(1,2) own(1) hdrs r b by blast
  then show thesis using that w1 d(1,2) hs same by blast
qed


definition junk_ok :: "Junk \<Rightarrow> bool" where
  "junk_ok J \<longleftrightarrow> length (dataSectors (jheader J)) = NumDirect \<and> (\<forall>s\<in>set (dataSectors (jheader J)). int32 s)"

definition fs_ok :: "FileSystem \<Rightarrow> disk \<Rightarrow> bool" where
  "fs_ok fs dsk \<longleftrightarrow> (\<exists>bm t. fs_inv fs dsk bm t)"

text \<open>Not enough room: every directory entry is in use, or fewer free sectors than the header and
  the data need.\<close>

definition no_room :: "BitMap \<Rightarrow> Directory \<Rightarrow> int \<Rightarrow> bool" where
  "no_room bm t fsz \<longleftrightarrow> (\<forall>e\<in>set t. inUse e) \<or>
     count_list (BitMap_bits bm) False < Suc (nat (divRoundUp fsz (int SectorSize)))"

lemma dir_map_files:
  "fs_inv fs dsk bm t \<Longrightarrow> files fs dsk n = None \<longleftrightarrow> dir_map t n = None"
  by (simp add: files_entry)

lemma Find_absent:
  assumes "fs_inv fs dsk bm t"
  shows "Directory_Find t nm = -1 \<longleftrightarrow> dir_map t (cname nm) = None"
proof (cases "dir_map t (cname nm)")
  case (Some s)
  from dir_map_entry [OF Some] obtain e where e: "e \<in> set t" "inUse e" "sector e = s" by blast
  then have "s \<in> set (owned fs dsk t)" using in_use_owned [OF e(1,2), of dsk fs] by (auto simp: file_sectors_def)
  then have "0 \<le> s" using fs_invD(11) [OF assms] by blast
  then show ?thesis using Some by (simp add: Directory_Find_eq)
qed (simp add: Directory_Find_eq)

lemma allocated_header:
  assumes "junk_ok J" "0 \<le> fsz" "fsz \<le> int MaxFileSize" "numBytes h = fsz"
    "numSectors h = divRoundUp fsz (int SectorSize)" "length (dataSectors h) = NumDirect"
    "used h = map int is" "set (dataSectors h) \<subseteq> set (dataSectors (jheader J)) \<union> int ` set is" "distinct is"
    "\<forall>i\<in>set is. i < nat NumSectors"
  shows "header_ok h" "header_fits h"
proof -
  have b: "divRoundUp fsz (int SectorSize) \<le> int NumDirect" "0 \<le> divRoundUp fsz (int SectorSize)"
    using divRoundUp_max [OF assms(2,3)] divRoundUp_bounds(3) [of fsz "int SectorSize"] assms(2)
    by (simp_all add: size_defs)
  show "header_ok h"
    using assms b by (auto simp: header_ok_def distinct_map)
  have "int32 (int i)" if "i \<in> set is" for i
    using assms(10) that by (auto simp: int32_def disk_defs)
  then show "header_fits h"
    using assms b by (auto simp: header_fits_def junk_ok_def int32_def MaxFileSize_def NumDirect_def size_defs)
qed

lemma Create_success:
  assumes inv: "fs_inv fs dsk bm t" and absent: "dir_map t (cname nm) = None"
    and i: "i < nat NumSectors" "\<not> BitMap_bits bm ! i"
    and a: "Directory_Add t nm (int i) = (True, t')"
    and h: "header_ok h" "header_fits h" "used h = map int is"
      "\<forall>j\<in>set is. j < nat NumSectors \<and> \<not> BitMap_bits bm ! j \<and> j \<noteq> i"
    and bm': "BitMap_ok bm'" "numBits bm' = NumSectors"
      "\<forall>j<nat NumSectors. BitMap_bits bm' ! j = (BitMap_bits bm ! j \<or> j = i \<or> j \<in> set is)"
  shows "\<exists>d1 d2 d3. FileHeader_WriteBack h (int i) dsk = Inr d1 \<and>
    Directory_WriteBack junk d1 (directoryFile fs) t' = Inr d2 \<and>
    BitMap_WriteBack junk d2 (freeMapFile fs) bm' = Inr d3 \<and> fs_inv fs d3 bm' t' \<and>
    (\<exists>bs. length bs = nat (numBytes h) \<and> files fs d3 = (files fs dsk)(cname nm \<mapsto> bs))"
proof -
  note I = fs_invD [OF inv]
  have "FindIndex t nm = -1" using FindIndex_None absent by blast
  then have al: "Add_loop t nm (int i) = (True, t')" using a by (simp add: Directory_Add_def)
  then obtain e where e: "inUse e" "sector e = int i" "mset (filter inUse t') = add_mset e (mset (filter inUse t))"
    using Add_loop_mset by blast
  have i32: "int32 (int i)" using i(1) by (simp add: int32_def disk_defs)
  have t': "dir_ok t'" "length t' = NumDirEntries" "dir_map t' = (dir_map t)(cname nm \<mapsto> int i)"
    using Add_dir_ok [OF I(8) i32, of nm] length_Add [of t nm "int i"] Add_refines [of t nm "int i"] I(9) a by simp_all
  have free: "int j \<notin> set (owned fs dsk t)" if "j < nat NumSectors" "\<not> BitMap_bits bm ! j" for j
    using I(12) that by blast
  have s: "0 \<le> int i" "int i < NumSectors" "int i \<notin> set (owned fs dsk t)"
    using i free by auto
  have u: "int i \<notin> set (used h)" "set (used h) \<inter> set (owned fs dsk t) = {}"
    using h(3,4) free by auto
  have b: "\<forall>j<nat NumSectors. BitMap_bits bm' ! j \<longleftrightarrow> BitMap_bits bm ! j \<or> int j = int i \<or> int j \<in> set (used h)"
    using bm'(3) h(3) by auto
  obtain d1 d2 d3 where d: "FileHeader_WriteBack h (int i) dsk = Inr d1"
    "Directory_WriteBack junk d1 (directoryFile fs) t' = Inr d2"
    "BitMap_WriteBack junk d2 (freeMapFile fs) bm' = Inr d3" "fs_inv fs d3 bm' t'" "stored_header d3 (int i) = h"
    "\<And>x. int x \<notin> set (system_sectors fs) \<Longrightarrow> int x \<in> set (owned fs dsk t) \<Longrightarrow> d3 ! x = dsk ! x"
    using Create_commit [OF inv s h(1,2) u t'(1,2) e(2,3) bm'(1,2) b] by blast
  let ?bs = "file_bytes d3 h"
  have "files fs d3 n = ((files fs dsk)(cname nm \<mapsto> ?bs)) n" for n
    using files_untouched [OF inv d(6), of n] d(5)
    by (simp add: files_entry [OF d(4)] t'(3))
  moreover have "length ?bs = nat (numBytes h)"
    by (rule length_file_bytes [OF fs_invD(1) [OF d(4)] h(1)])
  ultimately show ?thesis using d(1-4) by blast
qed

lemma Create_spec:
  assumes inv: "fs_inv fs dsk bm t" and J: "junk_ok J" and sz: "0 \<le> fsz" "fsz \<le> int MaxFileSize"
  shows "Create J fs dsk nm fsz = Inr (False, dsk) \<and> (dir_map t (cname nm) \<noteq> None \<or> no_room bm t fsz) \<or>
    dir_map t (cname nm) = None \<and>
    (\<exists>dsk' bm' t' bs. Create J fs dsk nm fsz = Inr (True, dsk') \<and> fs_inv fs dsk' bm' t' \<and> length bs = nat fsz \<and>
       files fs dsk' = (files fs dsk)(cname nm \<mapsto> bs))"
proof (cases "dir_map t (cname nm)")
  case (Some s)
  then show ?thesis
    using Find_absent [OF inv, of nm] by (simp add: Create_def fetch_dir_eq [OF inv])
next
  case absent: None
  note I = fs_invD [OF inv]
  have c0: "Create J fs dsk nm fsz = bindR (BitMap_Find bm) (\<lambda>(sec, freeMap1).
      if sec = -1 then Inr (False, dsk)
      else let (added, directory1) = Directory_Add t nm sec in
        if \<not> added then Inr (False, dsk)
        else bindR (Allocate (jheader J) freeMap1 fsz) (\<lambda>(allocated, h, freeMap2).
          if \<not> allocated then Inr (False, dsk)
          else bindR (FileHeader_WriteBack h sec dsk) (\<lambda>dsk1.
            bindR (Directory_WriteBack (jbytes J) dsk1 (directoryFile fs) directory1) (\<lambda>dsk2.
            bindR (BitMap_WriteBack (jbytes J) dsk2 (freeMapFile fs) freeMap2) (\<lambda>dsk3. Inr (True, dsk3))))))"
    using Find_absent [OF inv, of nm] absent
    by (simp add: Create_def fetch_dir_eq [OF inv] fetch_map_eq [OF inv])
  show ?thesis
  proof (cases "False \<in> set (BitMap_bits bm)")
    case False
    then have "count_list (BitMap_bits bm) False = 0" by (simp add: count_list_0_iff)
    then show ?thesis using bitmap.find_full [OF I(6) False] by (simp add: c0 no_room_def)
  next
    case True
    obtain i bm1 where f: "BitMap_Find bm = Inr (int i, bm1)" "i < nat NumSectors" "\<not> BitMap_bits bm ! i"
      "BitMap_ok bm1" "BitMap_bits bm1 = (BitMap_bits bm)[i := True]"
      using bitmap.find_free [OF I(6) True] I(7) by auto
    have nb: "numBits bm1 = NumSectors"
      using length_bits_numBits [OF I(6) f(4)] f(5) I(7) by simp
    have cnt: "Suc (count_list (BitMap_bits bm1) False) = count_list (BitMap_bits bm) False"
      using bitmap.count_False_update [of i "BitMap_bits bm"] f(2,3,5) I(7) by simp
    obtain added t' where a: "Directory_Add t nm (int i) = (added, t')" by fastforce
    show ?thesis
    proof (cases added)
      case False
      then show ?thesis using Add_refines [of t nm "int i"] a absent f(1) by (auto simp: c0 no_room_def)
    next
      case added: True
      from Allocate_spec [OF f(4) sz, of "jheader J"] J
      consider h' where "Allocate (jheader J) bm1 fsz = Inr (False, h', bm1)"
          "count_list (BitMap_bits bm1) False < nat (divRoundUp fsz (int SectorSize))"
        | "is" h bm' where "Allocate (jheader J) bm1 fsz = Inr (True, h, bm')" "numBytes h = fsz"
          "numSectors h = divRoundUp fsz (int SectorSize)" "length (dataSectors h) = NumDirect"
          "used h = map int is" "set (dataSectors h) \<subseteq> set (dataSectors (jheader J)) \<union> int ` set is"
          "distinct is" "\<forall>j\<in>set is. j < nat NumSectors \<and> \<not> BitMap_bits bm1 ! j" "BitMap_ok bm'"
          "numBits bm' = NumSectors"
          "\<forall>j<nat NumSectors. BitMap_bits bm' ! j = (BitMap_bits bm1 ! j \<or> j \<in> set is)"
        unfolding junk_ok_def nb by blast
      then show ?thesis
      proof cases
        case 1
        then show ?thesis using a added f(1) cnt by (simp add: c0 no_room_def)
      next
        case 2
        have len: "length (BitMap_bits bm) = nat NumSectors" using I(7) by simp
        have b1: "BitMap_bits bm1 ! j = (BitMap_bits bm ! j \<or> j = i)" if "j < nat NumSectors" for j
          by (metis f(2,5) len nth_list_update_eq nth_list_update_neq)
        have "\<forall>j\<in>set is. j < nat NumSectors" using 2(8) by blast
        note H = allocated_header [OF J sz 2(2-7) this]
        have a': "Directory_Add t nm (int i) = (True, t')" using a added by simp
        have u1: "\<forall>j\<in>set is. j < nat NumSectors \<and> \<not> BitMap_bits bm ! j \<and> j \<noteq> i" using 2(8) b1 by blast
        have u2: "\<forall>j<nat NumSectors. BitMap_bits bm' ! j = (BitMap_bits bm ! j \<or> j = i \<or> j \<in> set is)"
          using 2(11) b1 by blast
        obtain d1 d2 d3 bs where d: "FileHeader_WriteBack h (int i) dsk = Inr d1"
          "Directory_WriteBack (jbytes J) d1 (directoryFile fs) t' = Inr d2"
          "BitMap_WriteBack (jbytes J) d2 (freeMapFile fs) bm' = Inr d3" "fs_inv fs d3 bm' t'"
          "length bs = nat fsz" "files fs d3 = (files fs dsk)(cname nm \<mapsto> bs)"
          using Create_success [OF inv absent f(2,3) a' H 2(5) u1 2(9,10) u2, of "jbytes J"]
          unfolding 2(2) by blast
        then have "Create J fs dsk nm fsz = Inr (True, d3)" using a' f(1) 2(1) by (simp add: c0)
        then show ?thesis using d(4-6) absent by blast
      qed
    qed
  qed
qed



section \<open>Remove\<close>

lemma Remove_mset:
  assumes "dir_ok t" "Directory_Remove t nm = (True, t')"
  shows "\<exists>e. e \<in> set t \<and> inUse e \<and> dir_map t (cname nm) = Some (sector e) \<and>
    mset (filter inUse t) = add_mset e (mset (filter inUse t'))"
proof -
  have "FindIndex t nm \<noteq> -1" using assms(2) by (auto simp: Directory_Remove_def Let_def split: if_splits)
  with FindIndex_loop_cases [of 0 t nm] obtain xs e ys where x: "t = xs @ e # ys"
    "FindIndex t nm = int (length xs)" "inUse e" "dir_map t (cname nm) = Some (sector e)"
    by (auto simp: FindIndex_def)
  then have "t' = xs @ e\<lparr>inUse := False\<rparr> # ys" using assms(2) by (simp add: Directory_Remove_def)
  then show ?thesis using x by auto
qed

lemma Remove_commit:
  assumes inv: "fs_inv fs dsk bm t"
    and e: "mset (filter inUse t) = add_mset e (mset (filter inUse t'))"
    and t': "dir_ok t'" "length t' = NumDirEntries"
    and d: "disk_ok d" "file_bytes d (hdr (freeMapFile fs)) = words_bytes (bmap bm')"
      "file_bytes d (hdr (directoryFile fs)) = table_bytes t'"
      "\<And>x. int x \<notin> set (used (hdr (freeMapFile fs))) \<union> set (used (hdr (directoryFile fs))) \<Longrightarrow> d ! x = dsk ! x"
    and bm': "BitMap_ok bm'" "numBits bm' = NumSectors"
      "\<forall>j<nat NumSectors. BitMap_bits bm' ! j \<longleftrightarrow> BitMap_bits bm ! j \<and> int j \<notin> set (file_sectors dsk e)"
  shows "fs_inv fs d bm' t'"
proof -
  note I = fs_invD [OF inv]
  have d4: "d ! x = dsk ! x" if "int x \<notin> set (system_sectors fs)" for x
    by (rule d(4)) (use that in \<open>auto simp: system_sectors_def\<close>)
  have sub: "a \<in> set t" if "a \<in> set t'" "inUse a" for a
  proof -
    have "a \<in># mset (filter inUse t)" unfolding e using that by simp
    then show ?thesis by simp
  qed
  have "image_mset (\<lambda>e. mset (file_sectors d e)) (mset (filter inUse t')) =
      image_mset (\<lambda>e. mset (file_sectors dsk e)) (mset (filter inUse t'))"
    by (rule image_mset_cong) (use untouched(2) [OF inv sub _ d4] in auto)
  then have m: "mset (owned fs d t' @ file_sectors dsk e) = mset (owned fs dsk t)"
    by (simp add: mset_owned e del: mset_filter)
  have own: "distinct (owned fs d t' @ file_sectors dsk e)"
    "set (owned fs d t') \<union> set (file_sectors dsk e) = set (owned fs dsk t)"
    using mset_distinct_set [OF m I(10)] by auto
  have hdrs: "header_ok (stored_header d (sector a))" if "a \<in> set t'" "inUse a" for a
    using untouched(1) [OF inv sub [OF that] that(2) d4] I(13) [OF sub [OF that] that(2)] by simp
  have r: "\<forall>x\<in>set (owned fs d t'). 0 \<le> x \<and> x < NumSectors" using own(2) I(11) by blast
  have b: "\<forall>i<nat NumSectors. BitMap_bits bm' ! i \<longleftrightarrow> int i \<in> set (owned fs d t')"
    using bm'(3) I(12) own by auto
  have "headers_on_disk fs d" by (rule headers_kept [OF inv]) (use d(4) in blast)
  moreover have "distinct (owned fs d t')" using own(1) by simp
  ultimately show ?thesis
    unfolding fs_inv_def using I(2-5) d(1-3) bm'(1,2) t' hdrs r b by blast
qed

lemma Remove_spec:
  assumes inv: "fs_inv fs dsk bm t"
  shows "dir_map t (cname nm) = None \<and> Remove J fs dsk nm = Inr (False, dsk) \<or>
    dir_map t (cname nm) \<noteq> None \<and>
    (\<exists>dsk' bm' t'. Remove J fs dsk nm = Inr (True, dsk') \<and> fs_inv fs dsk' bm' t' \<and>
       files fs dsk' = (files fs dsk)(cname nm := None))"
proof (cases "dir_map t (cname nm)")
  case None
  then show ?thesis
    using Find_absent [OF inv, of nm] by (simp add: Remove_def fetch_dir_eq [OF inv])
next
  case (Some s)
  note I = fs_invD [OF inv]
  obtain t' where r: "Directory_Remove t nm = (True, t')" "dir_ok t'" "length t' = length t"
    "dir_map t' = (dir_map t)(cname nm := None)"
    using Remove_refines [OF I(8), of nm] Some by (auto split: prod.splits if_splits)
  obtain e where e: "e \<in> set t" "inUse e" "sector e = s" "mset (filter inUse t) = add_mset e (mset (filter inUse t'))"
    using Remove_mset [OF I(8) r(1)] Some by auto
  let ?h = "stored_header dsk s"
  have own: "set (s # used ?h) \<subseteq> set (owned fs dsk t)"
    using in_use_owned [OF e(1,2), of dsk fs] e(3) by (simp add: file_sectors_def)
  have s: "0 \<le> s" "s < NumSectors" using own I(11) by auto
  have h: "header_ok ?h" using I(13) e by blast
  have fetch: "FileHeader_FetchFrom dsk s = Inr ?h"
    using s I(1) by (simp add: FileHeader_FetchFrom_def ReadSector_def ASSERT_def read_array_def
        disk_ok_def stored_header_def)
  have "BitMap_bits bm ! nat x" if "x \<in> set (used ?h)" for x
  proof -
    have "0 \<le> x" "x < NumSectors" using that own I(11) by auto
    then show ?thesis using I(12) [of "nat x"] that own by auto
  qed
  then obtain bm1 where b1: "Deallocate ?h bm = Inr bm1" "BitMap_ok bm1" "numBits bm1 = NumSectors"
    "\<forall>j<nat NumSectors. BitMap_bits bm1 ! j = (BitMap_bits bm ! j \<and> int j \<notin> set (used ?h))"
    using Deallocate_spec [OF h I(6,7)] by blast
  obtain bm2 where b2: "BitMap_Clear bm1 s = Inr bm2" "BitMap_ok bm2" "BitMap_bits bm2 = (BitMap_bits bm1)[nat s := False]"
    using bitmap.clear_in [OF b1(2), of "nat s"] s b1(3) by auto
  have nb: "numBits bm2 = NumSectors" using length_bits_numBits [OF b1(2) b2(2)] b2(3) b1(3) by simp
  obtain d1 d2 where d: "BitMap_WriteBack (jbytes J) dsk (freeMapFile fs) bm2 = Inr d1"
    "Directory_WriteBack (jbytes J) d1 (directoryFile fs) t' = Inr d2" "disk_ok d2"
    "file_bytes d2 (hdr (freeMapFile fs)) = words_bytes (bmap bm2)"
    "file_bytes d2 (hdr (directoryFile fs)) = table_bytes t'"
    "\<forall>x. int x \<notin> set (used (hdr (freeMapFile fs))) \<union> set (used (hdr (directoryFile fs))) \<longrightarrow> d2 ! x = dsk ! x"
    using write_system_files(2) [OF I(1-5) b2(2) nb r(2) _ system_disjoint [OF inv], of "jbytes J"] r(3) I(9) by auto
  have same: "d2 ! x = dsk ! x" if "int x \<notin> set (system_sectors fs)" for x
    using d(6) that by (auto simp: system_sectors_def)
  have "Remove J fs dsk nm = Inr (True, d2)"
    using Some s(1) by (simp add: Remove_def fetch_dir_eq [OF inv] fetch_map_eq [OF inv] Directory_Find_eq
        fetch b1(1) b2(1) r(1) d(1,2) Let_def)
  moreover have "fs_inv fs d2 bm2 t'"
  proof (rule Remove_commit [OF inv e(4) r(2) _ d(3-5) d(6) [rule_format] b2(2) nb])
    have "BitMap_bits bm2 ! j = (BitMap_bits bm1 ! j \<and> j \<noteq> nat s)" if "j < nat NumSectors" for j
      using b2(3) b1(3) that by (metis length_BitMap_bits nth_list_update_eq nth_list_update_neq)
    then show "\<forall>j<nat NumSectors. BitMap_bits bm2 ! j \<longleftrightarrow> BitMap_bits bm ! j \<and> int j \<notin> set (file_sectors dsk e)"
      using b1(4) s(1) e(3) by (auto simp: file_sectors_def)
  qed (use r(3) I(9) in simp)
  moreover from this have "files fs d2 = (files fs dsk)(cname nm := None)"
    using files_untouched [OF inv same] by (auto simp: files_entry r(4) fun_eq_iff)
  ultimately show ?thesis using Some by blast
qed



section \<open>Open and Write\<close>

lemma fetch_stored:
  assumes "fs_inv fs dsk bm t" "dir_map t n = Some s"
  shows "FileHeader_FetchFrom dsk s = Inr (stored_header dsk s)" "0 \<le> s" "header_ok (stored_header dsk s)"
proof -
  from dir_map_entry [OF assms(2)] obtain e where e: "e \<in> set t" "inUse e" "sector e = s" by blast
  then have "s \<in> set (owned fs dsk t)"
    using in_use_owned [OF e(1,2), of dsk fs] by (auto simp: file_sectors_def)
  then have s: "0 \<le> s" "s < NumSectors" using fs_invD(11) [OF assms(1)] by auto
  then show "FileHeader_FetchFrom dsk s = Inr (stored_header dsk s)" "0 \<le> s"
    using fs_invD(1) [OF assms(1)] by (simp_all add: FileHeader_FetchFrom_def ReadSector_def ASSERT_def
        read_array_def disk_ok_def stored_header_def)
  show "header_ok (stored_header dsk s)" using fs_invD(13) [OF assms(1)] e by blast
qed

lemma Open_spec:
  assumes "fs_inv fs dsk bm t"
  shows "Open J fs dsk nm = Inr (map_option (\<lambda>s.
    \<lparr>hdr = stored_header dsk s, seekPosition = 0, ftype = jtype J\<rparr>) (dir_map t (cname nm)))"
  using fetch_stored [OF assms, of "cname nm"]
  by (cases "dir_map t (cname nm)")
    (simp_all add: Open_def fetch_dir_eq [OF assms] Directory_Find_eq OpenFile_new_def)

lemma distinct_concat_disjoint:
  "distinct (concat (map f xs)) \<Longrightarrow> a \<in> set xs \<Longrightarrow> b \<in> set xs \<Longrightarrow> a \<noteq> b \<Longrightarrow> set (f a) \<inter> set (f b) = {}"
  by (induction xs) auto

lemma files_disjoint:
  assumes "fs_inv fs dsk bm t" "a \<in> set t" "inUse a" "b \<in> set t" "inUse b" "a \<noteq> b"
  shows "set (file_sectors dsk a) \<inter> set (file_sectors dsk b) = {}"
  using distinct_concat_disjoint [of "file_sectors dsk" "filter inUse t" a b] assms
  by (simp add: fs_inv_def owned_def)

lemma data_sectors_write:
  assumes inv: "fs_inv fs dsk bm t" and e: "e \<in> set t" "inUse e"
    and d: "disk_ok dsk'" "\<And>x. int x \<notin> set (used (stored_header dsk (sector e))) \<Longrightarrow> dsk' ! x = dsk ! x"
  shows "fs_inv fs dsk' bm t" "\<And>a. a \<in> set t \<Longrightarrow> inUse a \<Longrightarrow> stored_header dsk' (sector a) = stored_header dsk (sector a)"
    "\<And>a. a \<in> set t \<Longrightarrow> inUse a \<Longrightarrow> a \<noteq> e \<Longrightarrow>
      file_bytes dsk' (stored_header dsk (sector a)) = file_bytes dsk (stored_header dsk (sector a))"
proof -
  note I = fs_invD [OF inv]
  let ?u = "set (used (stored_header dsk (sector e)))"
  have keep: "dsk' ! nat x = dsk ! nat x" if "x \<notin> ?u" "0 \<le> x" for x
    using d(2) [of "nat x"] that by simp
  have nn: "0 \<le> x" if "x \<in> set (file_sectors dsk a)" "a \<in> set t" "inUse a" for x a
    using in_use_owned [OF that(2,3), of dsk fs] that(1) I(11) by blast
  have sec: "sector a \<notin> ?u" if "a \<in> set t" "inUse a" for a
  proof (cases "a = e")
    case True
    have "distinct (file_sectors dsk e)"
      using I(10) e by (auto simp: owned_def distinct_concat_iff)
    then show ?thesis using True by (simp add: file_sectors_def)
  next
    case False
    then show ?thesis using files_disjoint [OF inv that e] by (auto simp: file_sectors_def)
  qed
  show h: "stored_header dsk' (sector a) = stored_header dsk (sector a)" if "a \<in> set t" "inUse a" for a
    using keep [OF sec [OF that]] nn [of "sector a" a] that by (simp add: stored_header_def file_sectors_def)
  show "file_bytes dsk' (stored_header dsk (sector a)) = file_bytes dsk (stored_header dsk (sector a))"
    if "a \<in> set t" "inUse a" "a \<noteq> e" for a
    by (rule file_bytes_cong, rule keep)
      (use files_disjoint [OF inv that(1,2) e that(3)] nn [OF _ that(1,2)] in \<open>auto simp: file_sectors_def\<close>)
  have sys: "file_bytes dsk' g = file_bytes dsk g" if "set (used g) \<subseteq> set (system_sectors fs)" "header_ok g" for g
    by (rule file_bytes_cong, rule keep)
      (use distinct_owned_system [OF inv e] that in \<open>auto simp: file_sectors_def header_ok_def\<close>)
  have "map (file_sectors dsk') (filter inUse t) = map (file_sectors dsk) (filter inUse t)"
    using h by (simp add: file_sectors_def)
  then have own: "owned fs dsk' t = owned fs dsk t" unfolding owned_def by (rule arg_cong)
  have "headers_on_disk fs dsk'"
    by (rule headers_kept [OF inv], rule d(2)) (use distinct_owned_system [OF inv e, of 0] distinct_owned_system [OF inv e, of 1] in
      \<open>auto simp: file_sectors_def system_sectors_def FreeMapSector_def DirectorySector_def less_2_cases_iff\<close>)
  then show "fs_inv fs dsk' bm t"
    using inv d(1) sys [of "hdr (freeMapFile fs)"] sys [of "hdr (directoryFile fs)"] h
    unfolding fs_inv_def own by (auto simp: system_sectors_def)
qed


lemma Write_spec:
  assumes inv: "fs_inv fs dsk bm t" and s: "dir_map t n = Some s" "hdr f = stored_header dsk s"
    and w: "0 \<le> position" "k < 2 ^ 31 - position" "k \<le> int (length bytes)"
  shows "\<exists>dsk'. WriteAt junk dsk f bytes k position = Inr (int (transferred (hdr f) k position), dsk') \<and>
    fs_inv fs dsk' bm t \<and>
    files fs dsk' = (files fs dsk)(n \<mapsto> splice_at (nat position) (take (transferred (hdr f) k position) bytes)
      (file_bytes dsk (hdr f))) \<and>
    stored_header dsk' s = stored_header dsk s"
proof -
  note I = fs_invD [OF inv]
  have h: "header_ok (hdr f)" using fetch_stored(3) [OF inv s(1)] s(2) by simp
  from dir_map_entry [OF s(1)] obtain e where e: "e \<in> set t" "inUse e" "cname (fname e) = n" "sector e = s" by blast
  let ?bs = "splice_at (nat position) (take (transferred (hdr f) k position) bytes) (file_bytes dsk (hdr f))"
  from WriteAt_eq [OF I(1) h w, of junk] obtain dsk' where
    d: "WriteAt junk dsk f bytes k position = Inr (int (transferred (hdr f) k position), dsk')" "disk_ok dsk'"
    "file_bytes dsk' (hdr f) = ?bs" "\<forall>x. int x \<notin> set (used (hdr f)) \<longrightarrow> dsk' ! x = dsk ! x" by blast
  note D = data_sectors_write [OF inv e(1,2) d(2)]
  have eq: "\<And>x. int x \<notin> set (used (stored_header dsk (sector e))) \<Longrightarrow> dsk' ! x = dsk ! x"
    using d(4) s(2) e(4) by simp
  have inv': "fs_inv fs dsk' bm t" by (rule D(1)) (rule eq)
  have "files fs dsk' m = ((files fs dsk)(n \<mapsto> ?bs)) m" for m
  proof (cases "dir_map t m")
    case None
    then show ?thesis using s(1) by (auto simp: files_entry [OF inv'] files_entry [OF inv])
  next
    case (Some s')
    from dir_map_entry [OF Some] obtain a where a: "a \<in> set t" "inUse a" "cname (fname a) = m" "sector a = s'" by blast
    show ?thesis
    proof (cases "m = n")
      case True
      then show ?thesis using s Some D(2) [OF eq e(1,2)] e(4) d(3)
        by (simp add: files_entry [OF inv'])
    next
      case False
      then have "a \<noteq> e" using a e by auto
      with D(2,3) [OF eq a(1,2)] Some False a(4) show ?thesis
        by (simp add: files_entry [OF inv'] files_entry [OF inv])
    qed
  qed
  with d(1) inv' D(2) [OF eq e(1,2)] e(4) show ?thesis by blast
qed



section \<open>Formatting\<close>

lemma mark_bit:
  assumes "BitMap_ok bm" "numBits bm = NumSectors" "i < nat NumSectors"
  shows "\<exists>bm'. BitMap_Mark bm (int i) = Inr bm' \<and> BitMap_ok bm' \<and> numBits bm' = NumSectors \<and>
    BitMap_bits bm' = (BitMap_bits bm)[i := True]"
proof -
  have "i < length (BitMap_bits bm)" using assms(2,3) by simp
  from bitmap.mark_in [OF assms(1) this] obtain bm' where
    m: "BitMap_Mark bm (int i) = Inr bm'" "BitMap_ok bm'" "BitMap_bits bm' = (BitMap_bits bm)[i := True]" by blast
  have "length (BitMap_bits bm') = length (BitMap_bits bm)" unfolding m(3) by (rule length_list_update)
  from length_bits_numBits [OF assms(1) m(2) this] m assms(2) show ?thesis by simp
qed

lemma Allocate_room:
  assumes "junk_ok J" "BitMap_ok bm" "numBits bm = NumSectors" "0 \<le> fsz" "fsz \<le> int SectorSize"
    "count_list (BitMap_bits bm) False > 0"
  shows "\<exists>is h bm'. Allocate (jheader J) bm fsz = Inr (True, h, bm') \<and> header_ok h \<and> header_fits h \<and>
    numBytes h = fsz \<and> used h = map int is \<and> (\<forall>i\<in>set is. i < nat NumSectors \<and> \<not> BitMap_bits bm ! i) \<and>
    BitMap_ok bm' \<and> numBits bm' = NumSectors \<and>
    (\<forall>j<nat NumSectors. BitMap_bits bm' ! j = (BitMap_bits bm ! j \<or> j \<in> set is))"
proof -
  have "divRoundUp fsz (int SectorSize) \<le> 1"
    using divRoundUp_bounds(2) [of fsz "int SectorSize"] assms(4,5) by (simp add: size_defs)
  then have n: "\<not> count_list (BitMap_bits bm) False < nat (divRoundUp fsz (int SectorSize))" using assms(6) by simp
  have m: "fsz \<le> int MaxFileSize" using assms(5) by (simp add: MaxFileSize_def NumDirect_def size_defs)
  have l: "length (dataSectors (jheader J)) = NumDirect" using assms(1) by (simp add: junk_ok_def)
  obtain "is" h bm' where a: "Allocate (jheader J) bm fsz = Inr (True, h, bm')" "numBytes h = fsz"
      "numSectors h = divRoundUp fsz (int SectorSize)" "length (dataSectors h) = NumDirect"
      "used h = map int is" "set (dataSectors h) \<subseteq> set (dataSectors (jheader J)) \<union> int ` set is" "distinct is"
      "\<forall>j\<in>set is. j < nat NumSectors \<and> \<not> BitMap_bits bm ! j" "BitMap_ok bm'" "numBits bm' = NumSectors"
      "\<forall>j<nat NumSectors. BitMap_bits bm' ! j = (BitMap_bits bm ! j \<or> j \<in> set is)"
    using Allocate_spec [OF assms(2,4) m l] n unfolding assms(3) by blast
  have "\<forall>j\<in>set is. j < nat NumSectors" using a(8) by blast
  with allocated_header [OF assms(1,4) m a(2-7)] a show ?thesis by blast
qed

lemma free_positive: "\<lbrakk>i < length bs; \<not> bs ! i\<rbrakk> \<Longrightarrow> count_list bs False > 0"
  by (metis count_list_0_iff gr0I nth_mem)

text \<open>The second half of formatting: the headers and the two system files are written.\<close>

lemma format_writes:
  assumes "junk_ok J" "disk_ok dsk"
    and h1: "header_ok h1" "header_fits h1" "numBytes h1 = FreeMapFileSize" "used h1 = map int is1"
    and h2: "header_ok h2" "header_fits h2" "numBytes h2 = DirectoryFileSize" "used h2 = map int is2"
    and bm: "BitMap_ok bm" "numBits bm = NumSectors"
    and sect: "\<forall>i\<in>set is1. 2 \<le> i" "\<forall>i\<in>set is2. 2 \<le> i \<and> i \<notin> set is1"
      "\<forall>i\<in>set is1 \<union> set is2. i < nat NumSectors"
    and bits: "\<And>j. j < nat NumSectors \<Longrightarrow> BitMap_bits bm ! j = (j < 2 \<or> j \<in> set is1 \<or> j \<in> set is2)"
  shows "\<exists>fs dsk' t.
      bindR (FileHeader_WriteBack h1 0 dsk) (\<lambda>dsk1.
      bindR (FileHeader_WriteBack h2 1 dsk1) (\<lambda>dsk2.
      bindR (OpenFile_new (jtype J) dsk2 0) (\<lambda>mapFile.
      bindR (OpenFile_new (jtype J) dsk2 1) (\<lambda>dirFile.
      bindR (BitMap_WriteBack (jbytes J) dsk2 mapFile bm) (\<lambda>dsk3.
      bindR (Directory_WriteBack (jbytes J) dsk3 dirFile (Directory_new (jbytes J) NumDirEntries)) (\<lambda>dsk4.
      Inr (\<lparr>freeMapFile = mapFile, directoryFile = dirFile, openf = None\<rparr>, dsk4))))))) = Inr (fs, dsk') \<and>
      fs_inv fs dsk' bm t \<and> files fs dsk' = Map.empty"
proof -
  let ?d1 = "dsk[0 := header_bytes h1]" and ?t = "Directory_new (jbytes J) NumDirEntries"
  let ?d2 = "?d1[1 := header_bytes h2]"
  let ?f = "\<lambda>h. \<lparr>hdr = h, seekPosition = 0, ftype = jtype J\<rparr>"
  let ?fs = "\<lparr>freeMapFile = ?f h1, directoryFile = ?f h2, openf = None\<rparr>"
  have len: "length dsk = 1024" using assms(2) by (simp add: disk_ok_def disk_defs)
  have ok: "disk_ok ?d2"
    using assms(2) length_header_bytes [OF h1(2)] length_header_bytes [OF h2(2)]
    by (auto simp: disk_ok_def dest!: set_update_subset_insert [THEN subsetD])
  have w: "FileHeader_WriteBack h1 0 dsk = Inr ?d1" "FileHeader_WriteBack h2 1 ?d1 = Inr ?d2"
    using len by (simp_all add: FileHeader_WriteBack_def WriteSector_def ASSERT_def write_array_def disk_defs)
  have r: "OpenFile_new (jtype J) ?d2 0 = Inr (?f h1)" "OpenFile_new (jtype J) ?d2 1 = Inr (?f h2)"
    using len header_roundtrip [OF h1(2)] header_roundtrip [OF h2(2)]
    by (simp_all add: OpenFile_new_def FileHeader_FetchFrom_def ReadSector_def ASSERT_def read_array_def disk_defs)
  have disj: "set (used h1) \<inter> set (used h2) = {}" using sect(2) h1(4) h2(4) by auto
  obtain d3 d4 where d: "BitMap_WriteBack (jbytes J) ?d2 (?f h1) bm = Inr d3"
    "Directory_WriteBack (jbytes J) d3 (?f h2) ?t = Inr d4" "disk_ok d4"
    "file_bytes d4 h1 = words_bytes (bmap bm)" "file_bytes d4 h2 = table_bytes ?t"
    "\<forall>x. int x \<notin> set (used h1) \<union> set (used h2) \<longrightarrow> d4 ! x = ?d2 ! x"
    using write_system_files(2) [of ?d2 ?fs bm ?t "jbytes J"] ok h1 h2 bm Directory_new_ok disj by auto
  have none: "filter inUse ?t = []" by (simp add: Directory_new_def filter_empty_conv)
  have own: "owned ?fs d4 ?t = [0, 1] @ map int (is1 @ is2)"
    by (simp add: owned_def none system_sectors_def h1(4) h2(4) FreeMapSector_def DirectorySector_def)
  have dist: "distinct is1" "distinct is2"
    using h1(1,4) h2(1,4) by (auto simp: header_ok_def distinct_map)
  have "distinct (owned ?fs d4 ?t)"
    unfolding own using dist sect(1,2) by (auto simp: distinct_map)
  moreover have "\<forall>x\<in>set (owned ?fs d4 ?t). 0 \<le> x \<and> x < NumSectors"
    unfolding own using sect(3) by (auto simp: disk_defs)
  moreover have "\<forall>i<nat NumSectors. BitMap_bits bm ! i \<longleftrightarrow> int i \<in> set (owned ?fs d4 ?t)"
    unfolding own using bits by (auto simp: less_2_cases_iff)
  moreover have "d4 ! x = ?d2 ! x" if "x = 0 \<or> x = 1" for x
  proof -
    have "int x \<notin> set (used h1) \<union> set (used h2)" using sect(1,2) that by (fastforce simp: h1(4) h2(4))
    then show ?thesis using d(6) by blast
  qed
  then have "headers_on_disk ?fs d4"
    using len header_roundtrip [OF h1(2)] header_roundtrip [OF h2(2)]
    by (simp add: headers_on_disk_def stored_header_def FreeMapSector_def DirectorySector_def)
  moreover have "\<forall>e\<in>set ?t. \<not> inUse e" using none by (simp add: filter_empty_conv)
  ultimately have inv: "fs_inv ?fs d4 bm ?t"
    using d(3-5) h1 h2 bm Directory_new_ok [of "jbytes J" NumDirEntries] by (auto simp: fs_inv_def)
  have "files ?fs d4 = Map.empty"
    by (simp add: files_entry [OF inv] fun_eq_iff dir_map_def none)
  then show ?thesis using inv unfolding w r d(1,2) bindR_simps by blast
qed

lemma format_spec:
  assumes J: "junk_ok J" and d: "disk_ok dsk"
  shows "\<exists>fs dsk' bm t. FileSystem_new J True dsk = Inr (fs, dsk') \<and> fs_inv fs dsk' bm t \<and> files fs dsk' = Map.empty"
proof -
  let ?N = "nat NumSectors" and ?B = BitMap_bits and ?t = "Directory_new (jbytes J) NumDirEntries"
  obtain b0 where b0: "BitMap_new (jwords J) NumSectors = Inr b0" "BitMap_ok b0" "numBits b0 = NumSectors"
    "?B b0 = replicate ?N False"
    using BitMap_new_spec [of NumSectors "jwords J"] by (auto simp: disk_defs)
  obtain b1 where b1: "BitMap_Mark b0 0 = Inr b1" "BitMap_ok b1" "numBits b1 = NumSectors" "?B b1 = (?B b0)[0 := True]"
    using mark_bit [OF b0(2,3), of 0] by (auto simp: disk_defs)
  obtain b2 where b2: "BitMap_Mark b1 1 = Inr b2" "BitMap_ok b2" "numBits b2 = NumSectors" "?B b2 = (?B b1)[1 := True]"
    using mark_bit [OF b1(2,3), of 1] by (auto simp: disk_defs)
  have B2: "?B b2 ! j = (j < 2)" if "j < ?N" for j
    unfolding b2(4) b1(4) b0(4) using that by (auto simp: nth_list_update disk_defs)
  have c2: "count_list (?B b2) False > 0"
    by (rule free_positive [of 2]) (use b2(3) B2 [of 2] in \<open>auto simp: disk_defs\<close>)
  obtain is1 h1 b3 where a1: "Allocate (jheader J) b2 FreeMapFileSize = Inr (True, h1, b3)" "header_ok h1" "header_fits h1"
    "numBytes h1 = FreeMapFileSize" "used h1 = map int is1" "\<forall>i\<in>set is1. i < ?N \<and> \<not> ?B b2 ! i" "BitMap_ok b3"
    "numBits b3 = NumSectors" "\<forall>j<?N. ?B b3 ! j = (?B b2 ! j \<or> j \<in> set is1)"
    using Allocate_room [OF J b2(2,3) _ _ c2, of FreeMapFileSize] by (auto simp: fs_defs size_defs)
  have "numSectors h1 = 1"
    using a1(2,4) by (simp add: header_ok_def fs_defs size_defs divRoundUp_def)
  then have "length is1 = 1" using header_okD(4) [OF a1(2)] a1(5) by simp
  then obtain a where "is1 = [a]" by (auto simp: length_Suc_conv)
  then obtain j where j: "j = 2 \<or> j = 3" "j \<notin> set is1" by (cases "a = 2") auto
  then have jN: "j < ?N" by (auto simp: disk_defs)
  then have "\<not> ?B b3 ! j" using a1(9) B2 [OF jN] j by auto
  then have c3: "count_list (?B b3) False > 0" using jN a1(8) by (intro free_positive [of j]) auto
  obtain is2 h2 b4 where a2: "Allocate (jheader J) b3 DirectoryFileSize = Inr (True, h2, b4)" "header_ok h2" "header_fits h2"
    "numBytes h2 = DirectoryFileSize" "used h2 = map int is2" "\<forall>i\<in>set is2. i < ?N \<and> \<not> ?B b3 ! i" "BitMap_ok b4"
    "numBits b4 = NumSectors" "\<forall>j<?N. ?B b4 ! j = (?B b3 ! j \<or> j \<in> set is2)"
    using Allocate_room [OF J a1(7,8) _ _ c3, of DirectoryFileSize] by (auto simp: fs_defs size_defs)
  have new: "FileSystem_new J True dsk =
      bindR (FileHeader_WriteBack h1 0 dsk) (\<lambda>dsk1.
      bindR (FileHeader_WriteBack h2 1 dsk1) (\<lambda>dsk2.
      bindR (OpenFile_new (jtype J) dsk2 0) (\<lambda>mapFile.
      bindR (OpenFile_new (jtype J) dsk2 1) (\<lambda>dirFile.
      bindR (BitMap_WriteBack (jbytes J) dsk2 mapFile b4) (\<lambda>dsk3.
      bindR (Directory_WriteBack (jbytes J) dsk3 dirFile ?t) (\<lambda>dsk4.
      Inr (\<lparr>freeMapFile = mapFile, directoryFile = dirFile, openf = None\<rparr>, dsk4)))))))"
    by (simp add: FileSystem_new_def b0(1) FreeMapSector_def DirectorySector_def b1(1) b2(1) a1(1) a2(1))
  have B4: "?B b4 ! j = (j < 2 \<or> j \<in> set is1 \<or> j \<in> set is2)" if "j < ?N" for j
    using a2(9) a1(9) B2 that by blast
  have "\<forall>i\<in>set is1. 2 \<le> i" "\<forall>i\<in>set is2. 2 \<le> i \<and> i \<notin> set is1"
    using a1(6,9) a2(6) B2 by (meson not_less)+
  then show ?thesis
    using format_writes [OF J d a1(2-5) a2(2-5,7,8) _ _ _ B4] a1(6) a2(6) unfolding new by blast
qed

text \<open>Mounting a formatted disk again finds the same files.\<close>

lemma remount_spec:
  assumes inv: "fs_inv fs dsk bm t"
  shows "\<exists>fs'. FileSystem_new J False dsk = Inr (fs', dsk) \<and> fs_inv fs' dsk bm t \<and> files fs' dsk = files fs dsk"
proof -
  let ?f = "\<lambda>h. \<lparr>hdr = h, seekPosition = 0, ftype = jtype J\<rparr>"
  let ?fs = "\<lparr>freeMapFile = ?f (hdr (freeMapFile fs)), directoryFile = ?f (hdr (directoryFile fs)), openf = None\<rparr>"
  have h: "headers_on_disk fs dsk" and d: "disk_ok dsk" using inv by (simp_all add: fs_inv_def)
  then have "FileSystem_new J False dsk = Inr (?fs, dsk)"
    by (simp add: FileSystem_new_def OpenFile_new_def FileHeader_FetchFrom_def ReadSector_def ASSERT_def
        read_array_def disk_ok_def headers_on_disk_def stored_header_def fs_defs)
  moreover have "owned ?fs dsk t = owned fs dsk t" by (simp add: owned_def system_sectors_def)
  then have "fs_inv ?fs dsk bm t" using inv by (simp add: fs_inv_def headers_on_disk_def del: nth_BitMap_bits)
  moreover from this inv have "files ?fs dsk = files fs dsk" by (simp add: files_entry fun_eq_iff)
  ultimately show ?thesis by blast
qed

end
