(* ===== verification/File_System_Calls.thy ===== *)
theory File_System_Calls
  imports File_System_Correct
begin

text \<open>
  The file system as its clients see it: every history of calls on a formatted disk refines a map
  from names to contents.  The individual contracts of \<open>Create\<close>, \<open>Remove\<close> and of formatting are
  stated here over \<open>fs_inv\<close> and \<open>files\<close>.
\<close>

section \<open>Histories of calls\<close>

text \<open>A client of the file system: it creates and removes files, opens a file by name to read or
  write at a position, and mounts the disk again.  Each call comes with the uninitialised memory
  it may see.\<close>

datatype fs_call =
    CreateCall "8 word list" int
  | RemoveCall "8 word list"
  | ReadCall "8 word list" int int
  | WriteCall "8 word list" "8 word list" int
  | MountCall

datatype fs_result = Status bool | Bytes "8 word list option" | Count "int option"

fun fs_exec :: "Junk \<Rightarrow> FileSystem \<times> disk \<Rightarrow> fs_call \<Rightarrow> (fs_result \<times> FileSystem \<times> disk) res" where
  "fs_exec J (fs, dsk) (CreateCall nm fsz) = bindR (Create J fs dsk nm fsz) (\<lambda>(ok, dsk'). Inr (Status ok, fs, dsk'))"
| "fs_exec J (fs, dsk) (RemoveCall nm) = bindR (Remove J fs dsk nm) (\<lambda>(ok, dsk'). Inr (Status ok, fs, dsk'))"
| "fs_exec J (fs, dsk) (ReadCall nm n position) =
     bindR (Open J fs dsk nm) (\<lambda>f. case f of None \<Rightarrow> Inr (Bytes None, fs, dsk)
       | Some f \<Rightarrow> bindR (ReadAt dsk f n position) (\<lambda>bs. Inr (Bytes (Some bs), fs, dsk)))"
| "fs_exec J (fs, dsk) (WriteCall nm bytes position) =
     bindR (Open J fs dsk nm) (\<lambda>f. case f of None \<Rightarrow> Inr (Count None, fs, dsk)
       | Some f \<Rightarrow> bindR (WriteAt (jbytes J) dsk f bytes (int (length bytes)) position)
           (\<lambda>(n, dsk'). Inr (Count (Some n), fs, dsk')))"
| "fs_exec J (fs, dsk) MountCall = bindR (FileSystem_new J False dsk) (\<lambda>(fs', dsk'). Inr (Status True, fs', dsk'))"

fun fs_run :: "FileSystem \<times> disk \<Rightarrow> (Junk \<times> fs_call) list \<Rightarrow> (fs_result list \<times> FileSystem \<times> disk) res" where
  "fs_run s [] = Inr ([], s)"
| "fs_run s ((J, c) # cs) = bindR (fs_exec J s c) (\<lambda>(r, s'). bindR (fs_run s' cs) (\<lambda>(rs, s''). Inr (r # rs, s'')))"

fun call_ok :: "fs_call \<Rightarrow> bool" where
  "call_ok (CreateCall nm fsz) \<longleftrightarrow> 0 \<le> fsz \<and> fsz \<le> int MaxFileSize"
| "call_ok (RemoveCall nm) \<longleftrightarrow> True"
| "call_ok (ReadCall nm n position) \<longleftrightarrow> 0 \<le> position \<and> n < 2 ^ 31 - position"
| "call_ok (WriteCall nm bytes position) \<longleftrightarrow> 0 \<le> position \<and> int (length bytes) < 2 ^ 31 - position"
| "call_ok MountCall \<longleftrightarrow> True"

text \<open>The abstract file system is a map from names to contents.  A new file has the requested
  length and arbitrary contents, and creation may fail for lack of room.\<close>

inductive map_step :: "(8 word list \<rightharpoonup> 8 word list) \<Rightarrow> fs_call \<Rightarrow> fs_result \<Rightarrow> (8 word list \<rightharpoonup> 8 word list) \<Rightarrow> bool" where
  create: "F (cname nm) = None \<Longrightarrow> length bs = nat fsz \<Longrightarrow>
    map_step F (CreateCall nm fsz) (Status True) (F(cname nm \<mapsto> bs))"
| create_fail: "map_step F (CreateCall nm fsz) (Status False) F"
| remove: "F (cname nm) \<noteq> None \<Longrightarrow> map_step F (RemoveCall nm) (Status True) (F(cname nm := None))"
| remove_fail: "F (cname nm) = None \<Longrightarrow> map_step F (RemoveCall nm) (Status False) F"
| read: "map_step F (ReadCall nm n position)
    (Bytes (map_option (\<lambda>bs. take (nat n) (drop (nat position) bs)) (F (cname nm)))) F"
| written: "F (cname nm) = Some bs \<Longrightarrow> k = min (length bytes) (length bs - nat position) \<Longrightarrow>
    map_step F (WriteCall nm bytes position) (Count (Some (int k)))
      (F(cname nm \<mapsto> splice_at (nat position) (take k bytes) bs))"
| write_fail: "F (cname nm) = None \<Longrightarrow> map_step F (WriteCall nm bytes position) (Count None) F"
| mount: "map_step F MountCall (Status True) F"

fun map_run :: "(8 word list \<rightharpoonup> 8 word list) \<Rightarrow> fs_call list \<Rightarrow> fs_result list \<Rightarrow> (8 word list \<rightharpoonup> 8 word list) \<Rightarrow> bool" where
  "map_run F [] rs F' \<longleftrightarrow> rs = [] \<and> F' = F"
| "map_run F (c # cs) rs F' \<longleftrightarrow> (\<exists>r rs' F1. rs = r # rs' \<and> map_step F c r F1 \<and> map_run F1 cs rs' F')"

lemma transferred_min:
  assumes "disk_ok dsk" "header_ok h" "0 \<le> position"
  shows "transferred h (int n) position = min n (length (file_bytes dsk h) - nat position)"
  using assms(3) by (auto simp: transferred_def length_file_bytes [OF assms(1,2)])

lemma fs_exec_refines:
  assumes inv: "fs_inv fs dsk bm t" and J: "junk_ok J" and ok: "call_ok c"
  shows "\<exists>r fs' dsk' bm' t'. fs_exec J (fs, dsk) c = Inr (r, fs', dsk') \<and> fs_inv fs' dsk' bm' t' \<and>
    map_step (files fs dsk) c r (files fs' dsk')"
proof (cases c)
  case (CreateCall nm fsz)
  then show ?thesis
    using Create_spec [OF inv J, of fsz nm] ok inv
    by (auto simp: dir_map_files [OF inv, symmetric] intro: map_step.intros) (fastforce intro: map_step.intros)+
next
  case (RemoveCall nm)
  then show ?thesis
    using Remove_spec [OF inv, of nm J] inv
    by (auto simp: dir_map_files [OF inv, symmetric]) (fastforce intro: map_step.intros)+
next
  case MountCall
  with remount_spec [OF inv, of J] show ?thesis by (fastforce intro: map_step.intros)
next
  case (ReadCall nm n position)
  show ?thesis
  proof (cases "dir_map t (cname nm)")
    case None
    have "files fs dsk (cname nm) = None" using None by (simp add: files_entry [OF inv])
    with None ReadCall inv map_step.read [of "files fs dsk" nm n position] show ?thesis
      by (auto simp: Open_spec [OF inv])
  next
    case (Some s)
    have "files fs dsk (cname nm) = Some (file_bytes dsk (stored_header dsk s))" using Some by (simp add: files_entry [OF inv])
    with Some ReadCall ok inv map_step.read [of "files fs dsk" nm n position] show ?thesis
      by (auto simp: Open_spec [OF inv] ReadAt_eq fs_invD(1) [OF inv] fetch_stored(3) [OF inv Some])
  qed
next
  case (WriteCall nm bytes position)
  show ?thesis
  proof (cases "dir_map t (cname nm)")
    case None
    have "files fs dsk (cname nm) = None" using None by (simp add: files_entry [OF inv])
    with None WriteCall inv map_step.write_fail [of "files fs dsk" nm bytes position] show ?thesis
      by (auto simp: Open_spec [OF inv])
  next
    case (Some s)
    let ?f = "\<lparr>hdr = stored_header dsk s, seekPosition = 0, ftype = jtype J\<rparr>"
    let ?bs = "file_bytes dsk (stored_header dsk s)"
    let ?k = "min (length bytes) (length ?bs - nat position)"
    have F: "files fs dsk (cname nm) = Some ?bs" using Some by (simp add: files_entry [OF inv])
    have k: "transferred (stored_header dsk s) (int (length bytes)) position = ?k"
      using transferred_min [OF fs_invD(1) [OF inv] fetch_stored(3) [OF inv Some]] ok WriteCall by simp
    obtain dsk' where "WriteAt (jbytes J) dsk ?f bytes (int (length bytes)) position = Inr (int ?k, dsk')"
      "fs_inv fs dsk' bm t" "files fs dsk' = (files fs dsk)(cname nm \<mapsto> splice_at (nat position) (take ?k bytes) ?bs)"
      using Write_spec [OF inv Some, of ?f position "int (length bytes)" bytes "jbytes J"] ok WriteCall
      by (auto simp: k)
    with map_step.written [where F = "files fs dsk", OF F refl, of bytes position] Some WriteCall show ?thesis
      by (auto simp: Open_spec [OF inv])
  qed
qed

lemma fs_run_refines:
  assumes "fs_inv fs dsk bm t" "\<forall>(J, c)\<in>set cs. junk_ok J \<and> call_ok c"
  shows "\<exists>rs fs' dsk' bm' t'. fs_run (fs, dsk) cs = Inr (rs, fs', dsk') \<and> fs_inv fs' dsk' bm' t' \<and>
    map_run (files fs dsk) (map snd cs) rs (files fs' dsk')"
  using assms
proof (induction cs arbitrary: fs dsk bm t)
  case (Cons x cs)
  obtain J c where x: "x = (J, c)" by (cases x)
  from fs_exec_refines [OF Cons.prems(1), of J c] Cons.prems(2) obtain r fs1 dsk1 bm1 t1 where
    "fs_exec J (fs, dsk) c = Inr (r, fs1, dsk1)" "fs_inv fs1 dsk1 bm1 t1" "map_step (files fs dsk) c r (files fs1 dsk1)"
    unfolding x by auto
  moreover from Cons.IH [OF this(2)] Cons.prems(2) obtain rs fs' dsk' bm' t' where
    "fs_run (fs1, dsk1) cs = Inr (rs, fs', dsk')" "fs_inv fs' dsk' bm' t'"
    "map_run (files fs1 dsk1) (map snd cs) rs (files fs' dsk')" by auto
  ultimately show ?case by (auto simp: x)
qed auto


section \<open>Properties\<close>

definition sample_junk :: Junk where
  "sample_junk = \<lparr>jbytes = (\<lambda>_. 170), jwords = (\<lambda>_. 3735928559),
     jheader = \<lparr>numBytes = 0, numSectors = 0, dataSectors = replicate 126 (-1)\<rparr>, jtype = 5\<rparr>"

lemma sample_junk_ok: "junk_ok sample_junk"
  by (simp add: junk_ok_def sample_junk_def NumDirect_def size_defs int32_def)

text \<open>C10.  Formatting a disk and then serving any sequence of legal calls never fails an assertion
  or reads out of bounds, and the results the callers see are those of a map from file names to
  contents: whatever the uninitialised memory was, a file keeps what was written to it and no
  call changes another file.  The final state satisfies the file system invariant, so the free map
  marks exactly the sectors some file owns and no sector is owned twice.\<close>

theorem FileSystem_refines_map:
  assumes "junk_ok J" "disk_ok dsk" "\<forall>(J', c)\<in>set cs. junk_ok J' \<and> call_ok c"
  shows "\<exists>fs0 dsk0 rs fs dsk'. FileSystem_new J True dsk = Inr (fs0, dsk0) \<and>
    fs_run (fs0, dsk0) cs = Inr (rs, fs, dsk') \<and> fs_ok fs dsk' \<and>
    map_run Map.empty (map snd cs) rs (files fs dsk')"
proof -
  obtain fs0 dsk0 bm t where "FileSystem_new J True dsk = Inr (fs0, dsk0)" "fs_inv fs0 dsk0 bm t"
    "files fs0 dsk0 = Map.empty" using format_spec [OF assms(1,2)] by blast
  with fs_run_refines [OF this(2) assms(3)] show ?thesis unfolding fs_ok_def by metis
qed

theorem FileSystem_refines_map_witness:
  "\<exists>fs0 dsk0 rs fs dsk'. FileSystem_new sample_junk True (sectors sample_disk) = Inr (fs0, dsk0) \<and>
    fs_run (fs0, dsk0) [(sample_junk, CreateCall [97] 600), (sample_junk, WriteCall [97] [1, 2, 3] 510),
      (sample_junk, MountCall), (sample_junk, ReadCall [97] 3 510)] = Inr (rs, fs, dsk') \<and> fs_ok fs dsk' \<and>
    map_run Map.empty [CreateCall [97] 600, WriteCall [97] [1, 2, 3] 510, MountCall, ReadCall [97] 3 510]
      rs (files fs dsk')"
  using FileSystem_refines_map [OF sample_junk_ok sample_file_ok(2),
    of "[(sample_junk, CreateCall [97] 600), (sample_junk, WriteCall [97] [1, 2, 3] 510),
      (sample_junk, MountCall), (sample_junk, ReadCall [97] 3 510)]"]
  by (simp add: sample_junk_ok MaxFileSize_def NumDirect_def size_defs del: fs_run.simps map_run.simps)

text \<open>C14.  \<open>Create\<close> either fails and leaves the disk as it was, and then the name was taken, the
  directory was full or there were fewer free sectors than the file needs; or it adds exactly one
  file of the requested length under the name.  In both cases the disk stays a file system.\<close>

theorem Create_correct:
  assumes "fs_inv fs dsk bm t" "junk_ok J" "0 \<le> fsz" "fsz \<le> int MaxFileSize"
  shows "Create J fs dsk nm fsz = Inr (False, dsk) \<and> (files fs dsk (cname nm) \<noteq> None \<or> no_room bm t fsz) \<or>
    files fs dsk (cname nm) = None \<and>
    (\<exists>dsk' bs. Create J fs dsk nm fsz = Inr (True, dsk') \<and> fs_ok fs dsk' \<and> length bs = nat fsz \<and>
       files fs dsk' = (files fs dsk)(cname nm \<mapsto> bs))"
  using Create_spec [OF assms, of nm] unfolding fs_ok_def dir_map_files [OF assms(1)] by blast

theorem Create_correct_witness:
  "\<exists>fs dsk bm t. FileSystem_new sample_junk True (sectors sample_disk) = Inr (fs, dsk) \<and> fs_inv fs dsk bm t \<and>
    (Create sample_junk fs dsk [97, 98] 600 = Inr (False, dsk) \<and>
       (files fs dsk (cname [97, 98]) \<noteq> None \<or> no_room bm t 600) \<or>
     files fs dsk (cname [97, 98]) = None \<and>
     (\<exists>dsk' bs. Create sample_junk fs dsk [97, 98] 600 = Inr (True, dsk') \<and> fs_ok fs dsk' \<and> length bs = nat 600 \<and>
       files fs dsk' = (files fs dsk)(cname [97, 98] \<mapsto> bs)))"
proof -
  obtain fs dsk bm t where f: "FileSystem_new sample_junk True (sectors sample_disk) = Inr (fs, dsk)" "fs_inv fs dsk bm t"
    using format_spec [OF sample_junk_ok sample_file_ok(2)] by blast
  have "(0::int) \<le> 600" "(600::int) \<le> int MaxFileSize" by (simp_all add: MaxFileSize_def NumDirect_def size_defs)
  from f Create_correct [OF f(2) sample_junk_ok this, of "[97, 98]"] show ?thesis by blast
qed

text \<open>The constructor of the real file system never creates the table of open files, so
  opening a file with a type dereferences an uninitialised pointer on every mounted disk.\<close>

theorem Open_type_uninitialised:
  assumes "FileSystem_new J format dsk = Inr (fs, dsk')"
  shows "Open_type J' fs d nm typ = Inl Undefined"
proof -
  have "openf fs = None"
    using assms by (auto simp: FileSystem_new_def Let_def elim!: bindR_InrE split: if_splits prod.splits)
  then show ?thesis by (simp add: Open_type_def FindFreeSlot_def)
qed

theorem Open_type_uninitialised_witness:
  "\<exists>fs dsk'. FileSystem_new sample_junk True (sectors sample_disk) = Inr (fs, dsk') \<and>
    Open_type sample_junk fs dsk' [97] 0 = Inl Undefined"
  using format_spec [OF sample_junk_ok sample_file_ok(2)] Open_type_uninitialised by blast

end
