(* ===== verification/Kernel_State.thy ===== *)
theory Kernel_State
  imports Machine_Memory Linked_List
begin

text \<open>
  The state of the kernel proper: the statistics (\<^verbatim>\<open>machine/stats.h\<close>), the interrupt simulation
  (\<^verbatim>\<open>machine/interrupt.h\<close>), threads (\<^verbatim>\<open>threads/thread.h\<close>), semaphores (\<^verbatim>\<open>threads/synch.h\<close>) and the
  globals of \<^verbatim>\<open>threads/system.cc\<close> that tie them together.

  Three things are left open and fixed by the clients of this theory: the interrupt handlers
  (type \<open>'h\<close>; the code keeps a function pointer and an object, here one constructor per pair), the
  code that runs on top of the thread system (type \<open>'c\<close>, its program points), and the remaining
  globals (type \<open>'d\<close>: devices, process table, file system).

  Control is explicit.  A kernel thread can lose the processor only inside \<open>SWITCH\<close>, so its stack is
  the list of calls that are still to be finished, innermost first; \<open>frame\<close> lists these program
  points.  Lists of the kernel are the sequences that the pointer lists refine.  Times and counters
  are mathematical integers.
\<close>


section \<open>Enumerations and statistics\<close>

datatype IntStatus = IntOff | IntOn
datatype MachineStatus = IdleMode | SystemMode | UserMode
datatype IntType = TimerInt | DiskInt | ConsoleWriteInt | ConsoleReadInt | NetworkSendInt | NetworkRecvInt
datatype ThreadStatus = JUST_CREATED | RUNNING | READY | BLOCKED

record Statistics =
  totalTicks :: int
  idleTicks :: int
  systemTicks :: int
  userTicks :: int
  numDiskReads :: int
  numDiskWrites :: int
  numConsoleCharsRead :: int
  numConsoleCharsWritten :: int
  numPageFaults :: int
  numPacketsSent :: int
  numPacketsRecvd :: int

definition Statistics_new :: Statistics where
  "Statistics_new = \<lparr>totalTicks = 0, idleTicks = 0, systemTicks = 0, userTicks = 0, numDiskReads = 0,
     numDiskWrites = 0, numConsoleCharsRead = 0, numConsoleCharsWritten = 0, numPageFaults = 0,
     numPacketsSent = 0, numPacketsRecvd = 0\<rparr>"

definition UserTick :: int where "UserTick = 1"
definition SystemTick :: int where "SystemTick = 10"
definition ConsoleTime :: int where "ConsoleTime = 100"
definition NetworkTime :: int where "NetworkTime = 100"
definition TimerTicks :: int where "TimerTicks = 100"

lemmas tick_defs = UserTick_def SystemTick_def ConsoleTime_def NetworkTime_def TimerTicks_def


section \<open>Interrupts\<close>

record 'h PendingInterrupt =
  handler :: 'h
  when_due :: int
  itype :: IntType

record 'h Interrupt =
  level :: IntStatus
  pending :: "('h PendingInterrupt \<times> int) list"
  inHandler :: bool
  yieldOnReturn :: bool
  istatus :: MachineStatus

definition Interrupt_new :: "'h Interrupt" where
  "Interrupt_new = \<lparr>level = IntOff, pending = [], inHandler = False, yieldOnReturn = False,
     istatus = SystemMode\<rparr>"


section \<open>Threads and semaphores\<close>

text \<open>
  The program points at which a call of the kernel waits for another to return:
  \<^item> \<open>SetLevel_call\<close>, \<open>OneTick_call\<close>, \<open>setStatus_call\<close>, \<open>Yield_call\<close>, \<open>P_call\<close>, \<open>V_call\<close>: the named
    function is about to be called;
  \<^item> \<open>OneTick_loop\<close>, \<open>Idle_loop\<close>, \<open>Sleep_loop\<close>, \<open>P_loop\<close>: the test of the loop of that function,
    with the local variable the rest of the function uses;
  \<^item> \<open>Run_return\<close>: the code of \<open>Scheduler::Run\<close> behind \<open>SWITCH\<close>;
  \<^item> \<open>InterruptEnable\<close>, \<open>ThreadFinish\<close>: the two functions \<open>ThreadRoot\<close> calls before and after
    the forked procedure;
  \<^item> \<open>Code c\<close>: a program point of the client.
\<close>

datatype 'c frame =
    SetLevel_call IntStatus
  | OneTick_call
  | OneTick_loop MachineStatus
  | setStatus_call MachineStatus
  | Yield_call
  | Run_return
  | Sleep_loop
  | Idle_loop
  | P_call nat
  | P_loop nat IntStatus
  | V_call nat
  | InterruptEnable
  | ThreadFinish
  | Code 'c

text \<open>The two fields of an address space; the table is the array \<open>pageTable\<close> points to, if it is
  not null.\<close>

record AddrSpace =
  space_table :: "TranslationEntry list option"
  numPages :: nat

text \<open>\<open>stack\<close> is the word at the bottom of the allocated stack, where \<open>StackAllocate\<close> puts the
  fencepost; it is \<^const>\<open>None\<close> for the main thread, whose stack pointer is null.  \<open>continuation\<close>
  stands for the saved stack and registers.  The name is a pointer to a string the thread does not
  own: its address.\<close>

record 'c Thread =
  tname :: nat
  tstatus :: ThreadStatus
  stack :: "32 word option"
  continuation :: "'c frame list"
  userRegisters :: "nat \<Rightarrow> 32 word"
  space :: "AddrSpace option"
  pid :: int
  parentID :: int

record Semaphore =
  semName :: "8 word list"
  semValue :: int
  queue :: "(nat \<times> int) list"

text \<open>Threads and semaphores live in stores indexed by their address; \<open>nextThread\<close> and \<open>nextSem\<close>
  are the next addresses \<open>new\<close> returns.  \<open>running\<close> is the stack of the current thread.\<close>

record ('h, 'c, 'd) Kernel =
  stats :: Statistics
  interrupt :: "'h Interrupt"
  threads :: "nat \<rightharpoonup> 'c Thread"
  nextThread :: nat
  currentThread :: nat
  threadToBeDestroyed :: "nat option"
  readyList :: "(nat \<times> int) list"
  sems :: "nat \<rightharpoonup> Semaphore"
  nextSem :: nat
  machine :: "Machine option"
  running :: "'c frame list"
  dev :: 'd

abbreviation klevel :: "('h, 'c, 'd) Kernel \<Rightarrow> IntStatus" where
  "klevel k \<equiv> level (interrupt k)"

abbreviation now :: "('h, 'c, 'd) Kernel \<Rightarrow> int" where
  "now k \<equiv> totalTicks (stats k)"

definition push :: "'c frame list \<Rightarrow> ('h, 'c, 'd) Kernel \<Rightarrow> ('h, 'c, 'd) Kernel" where
  "push fs k = k\<lparr>running := fs @ running k\<rparr>"

definition set_int :: "('h Interrupt \<Rightarrow> 'h Interrupt) \<Rightarrow> ('h, 'c, 'd) Kernel \<Rightarrow> ('h, 'c, 'd) Kernel" where
  "set_int f k = k\<lparr>interrupt := f (interrupt k)\<rparr>"

definition set_dev :: "('d \<Rightarrow> 'd) \<Rightarrow> ('h, 'c, 'd) Kernel \<Rightarrow> ('h, 'c, 'd) Kernel" where
  "set_dev f k = k\<lparr>dev := f (dev k)\<rparr>"

text \<open>Access to a thread or semaphore through its address; a dangling address is undefined.\<close>

definition get_thread :: "('h, 'c, 'd) Kernel \<Rightarrow> nat \<Rightarrow> 'c Thread res" where
  "get_thread k t = (case threads k t of None \<Rightarrow> Inl Undefined | Some th \<Rightarrow> Inr th)"

definition put_thread :: "nat \<Rightarrow> 'c Thread \<Rightarrow> ('h, 'c, 'd) Kernel \<Rightarrow> ('h, 'c, 'd) Kernel" where
  "put_thread t th k = k\<lparr>threads := (threads k)(t \<mapsto> th)\<rparr>"

definition setStatus :: "nat \<Rightarrow> ThreadStatus \<Rightarrow> ('h, 'c, 'd) Kernel \<Rightarrow> ('h, 'c, 'd) Kernel res" where
  "setStatus t st k = bindR (get_thread k t) (\<lambda>th. Inr (put_thread t (th\<lparr>tstatus := st\<rparr>) k))"

definition get_sem :: "('h, 'c, 'd) Kernel \<Rightarrow> nat \<Rightarrow> Semaphore res" where
  "get_sem k s = (case sems k s of None \<Rightarrow> Inl Undefined | Some sem \<Rightarrow> Inr sem)"

definition put_sem :: "nat \<Rightarrow> Semaphore \<Rightarrow> ('h, 'c, 'd) Kernel \<Rightarrow> ('h, 'c, 'd) Kernel" where
  "put_sem s sem k = k\<lparr>sems := (sems k)(s \<mapsto> sem)\<rparr>"

end
