(* ===== verification/Interrupt_Sim.thy ===== *)
theory Interrupt_Sim
  imports Kernel_State
begin

text \<open>
  The interrupt simulation (\<^verbatim>\<open>machine/interrupt.cc\<close>): the list of pending interrupts ordered by
  time, the clock, and the firing of handlers.  The handlers are an argument, because the code calls
  them through a pointer.
\<close>


section \<open>Operations\<close>

text \<open>\<open>Schedule\<close>: the assertion is checked after the list element has been built.\<close>

definition Schedule :: "'h \<Rightarrow> int \<Rightarrow> IntType \<Rightarrow> ('h, 'c, 'd) Kernel \<Rightarrow> ('h, 'c, 'd) Kernel res" where
  "Schedule h fromNow typ k =
     (let due = now k + fromNow; toOccur = \<lparr>handler = h, when_due = due, itype = typ\<rparr> in
      bindR (ASSERT (fromNow > 0)) (\<lambda>_.
        Inr (set_int (\<lambda>i. i\<lparr>pending := seq_SortedInsert (pending i) toOccur due\<rparr>) k)))"

definition ChangeLevel :: "IntStatus \<Rightarrow> ('h, 'c, 'd) Kernel \<Rightarrow> ('h, 'c, 'd) Kernel" where
  "ChangeLevel l k = set_int (\<lambda>i. i\<lparr>level := l\<rparr>) k"

definition setMachineStatus :: "MachineStatus \<Rightarrow> ('h, 'c, 'd) Kernel \<Rightarrow> ('h, 'c, 'd) Kernel" where
  "setMachineStatus st k = set_int (\<lambda>i. i\<lparr>istatus := st\<rparr>) k"

definition YieldOnReturn :: "('h, 'c, 'd) Kernel \<Rightarrow> ('h, 'c, 'd) Kernel res" where
  "YieldOnReturn k =
     bindR (ASSERT (inHandler (interrupt k))) (\<lambda>_. Inr (set_int (\<lambda>i. i\<lparr>yieldOnReturn := True\<rparr>) k))"

text \<open>Firing one handler: a load in progress is completed, the handler runs in system mode with
  \<open>inHandler\<close> set, and the mode is restored.\<close>

definition finish_load :: "('h, 'c, 'd) Kernel \<Rightarrow> ('h, 'c, 'd) Kernel res" where
  "finish_load k =
     (case machine k of None \<Rightarrow> Inr k
      | Some m \<Rightarrow> bindR (DelayedLoad 0 0 m) (\<lambda>m'. Inr (k\<lparr>machine := Some m'\<rparr>)))"

definition invoke :: "('h \<Rightarrow> ('h, 'c, 'd) Kernel \<Rightarrow> ('h, 'c, 'd) Kernel res) \<Rightarrow> 'h \<Rightarrow>
    ('h, 'c, 'd) Kernel \<Rightarrow> ('h, 'c, 'd) Kernel res" where
  "invoke call h k =
     (let old = istatus (interrupt k) in
      bindR (finish_load k) (\<lambda>k1.
      bindR (call h (set_int (\<lambda>i. i\<lparr>inHandler := True, istatus := SystemMode\<rparr>) k1)) (\<lambda>k2.
      Inr (set_int (\<lambda>i. i\<lparr>istatus := old, inHandler := False\<rparr>) k2))))"

definition CheckIfDue :: "('h \<Rightarrow> ('h, 'c, 'd) Kernel \<Rightarrow> ('h, 'c, 'd) Kernel res) \<Rightarrow> bool \<Rightarrow>
    ('h, 'c, 'd) Kernel \<Rightarrow> (bool \<times> ('h, 'c, 'd) Kernel) res" where
  "CheckIfDue call advanceClock k =
     bindR (ASSERT (klevel k = IntOff)) (\<lambda>_.
       case seq_SortedRemove (pending (interrupt k)) of
         (None, _) \<Rightarrow> Inr (False, k)
       | (Some (toOccur, due), rest) \<Rightarrow>
           let put_back = (\<lambda>k. set_int (\<lambda>i. i\<lparr>pending := seq_SortedInsert rest toOccur due\<rparr>) k) in
           if \<not> advanceClock \<and> due > now k then Inr (False, put_back k)
           else
             let k1 = (if due > now k
                       then k\<lparr>stats := (stats k)\<lparr>idleTicks := idleTicks (stats k) + (due - now k),
                              totalTicks := due\<rparr>\<rparr>
                       else k) in
             if istatus (interrupt k) = IdleMode \<and> itype toOccur = TimerInt \<and> rest = []
             then Inr (False, put_back k1)
             else bindR (invoke call (handler toOccur) (set_int (\<lambda>i. i\<lparr>pending := rest\<rparr>) k1)) (\<lambda>k2.
               Inr (True, k2)))"

text \<open>\<open>OneTick\<close> up to its loop, and what follows the loop.  The yield it may ask for is a call that
  the current thread still has to make.\<close>

definition OneTick :: "('h, 'c, 'd) Kernel \<Rightarrow> ('h, 'c, 'd) Kernel" where
  "OneTick k =
     (let old = istatus (interrupt k); st = stats k;
          st' = (if old = SystemMode
                 then st\<lparr>totalTicks := totalTicks st + SystemTick, systemTicks := systemTicks st + SystemTick\<rparr>
                 else st\<lparr>totalTicks := totalTicks st + UserTick, userTicks := userTicks st + UserTick\<rparr>)
      in push [OneTick_loop old] (ChangeLevel IntOff (k\<lparr>stats := st'\<rparr>)))"

definition OneTick_end :: "MachineStatus \<Rightarrow> ('h, 'c, 'd) Kernel \<Rightarrow> ('h, 'c, 'd) Kernel" where
  "OneTick_end old k =
     (let k1 = ChangeLevel IntOn k in
      if yieldOnReturn (interrupt k1)
      then push [Yield_call, setStatus_call old]
             (set_int (\<lambda>i. i\<lparr>yieldOnReturn := False, istatus := SystemMode\<rparr>) k1)
      else k1)"

definition SetLevel :: "IntStatus \<Rightarrow> ('h, 'c, 'd) Kernel \<Rightarrow> ('h, 'c, 'd) Kernel res" where
  "SetLevel l k =
     (let old = klevel k in
      bindR (ASSERT (l = IntOff \<or> \<not> inHandler (interrupt k))) (\<lambda>_.
        let k1 = ChangeLevel l k in
        Inr (if l = IntOn \<and> old = IntOff then OneTick k1 else k1)))"

text \<open>\<open>Halt\<close> prints the statistics and cleans up; it never returns.\<close>

definition Halt :: "'a res" where
  "Halt = Inl Halted"

text \<open>One pass of \<open>Idle\<close> up to its inner loop, and the end of it.\<close>

definition Idle :: "('h \<Rightarrow> ('h, 'c, 'd) Kernel \<Rightarrow> ('h, 'c, 'd) Kernel res) \<Rightarrow>
    ('h, 'c, 'd) Kernel \<Rightarrow> ('h, 'c, 'd) Kernel res" where
  "Idle call k =
     bindR (CheckIfDue call True (setMachineStatus IdleMode k)) (\<lambda>(fired, k1).
       if fired then Inr (push [Idle_loop] k1) else Halt)"

definition Idle_end :: "('h, 'c, 'd) Kernel \<Rightarrow> ('h, 'c, 'd) Kernel" where
  "Idle_end k = set_int (\<lambda>i. i\<lparr>yieldOnReturn := False, istatus := SystemMode\<rparr>) k"

end
