(* ===== verification/Kernel_Threads.thy ===== *)
theory Kernel_Threads
  imports Interrupt_Sim
begin

text \<open>
  Threads, the scheduler and semaphores (\<^verbatim>\<open>threads/thread.cc\<close>, \<^verbatim>\<open>threads/scheduler.cc\<close>,
  \<^verbatim>\<open>threads/synch.cc\<close>), and the step function of the kernel: one step finishes the innermost call of
  the current thread up to the next program point.  Interrupt handlers and client code are
  arguments.
\<close>


section \<open>Threads\<close>

definition STACK_FENCEPOST :: "32 word" where "STACK_FENCEPOST = 0xdeadbeef"

text \<open>\<open>pid\<close>, \<open>parentID\<close> and \<open>userRegisters\<close> are not set by the constructor: they come from the
  thread \<open>junk\<close>.\<close>

definition Thread_new :: "'c Thread \<Rightarrow> nat \<Rightarrow> ('h, 'c, 'd) Kernel \<Rightarrow> nat \<times> ('h, 'c, 'd) Kernel" where
  "Thread_new junk nm k =
     (let t = nextThread k in
      (t, (put_thread t (junk\<lparr>tname := nm, stack := None, continuation := [], tstatus := JUST_CREATED,
             space := None\<rparr>) k)\<lparr>nextThread := Suc t\<rparr>))"

text \<open>The destructor; deleting the address space frees only the array of its page table.\<close>

definition Thread_delete :: "nat \<Rightarrow> ('h, 'c, 'd) Kernel \<Rightarrow> ('h, 'c, 'd) Kernel res" where
  "Thread_delete t k =
     bindR (get_thread k t) (\<lambda>_.
     bindR (ASSERT (t \<noteq> currentThread k)) (\<lambda>_.
     Inr (k\<lparr>threads := (threads k)(t := None)\<rparr>)))"

definition CheckOverflow :: "'c Thread \<Rightarrow> unit res" where
  "CheckOverflow th = (case stack th of None \<Rightarrow> Inr () | Some w \<Rightarrow> ASSERT (w = STACK_FENCEPOST))"

text \<open>\<open>StackAllocate\<close> makes \<open>ThreadRoot\<close> the place where the thread starts: it enables interrupts,
  calls the forked procedure and finishes the thread.\<close>

definition StackAllocate :: "'c \<Rightarrow> 'c Thread \<Rightarrow> 'c Thread" where
  "StackAllocate func th =
     th\<lparr>stack := Some STACK_FENCEPOST, continuation := [InterruptEnable, Code func, ThreadFinish]\<rparr>"


section \<open>Scheduler\<close>

definition ReadyToRun :: "nat \<Rightarrow> ('h, 'c, 'd) Kernel \<Rightarrow> ('h, 'c, 'd) Kernel res" where
  "ReadyToRun t k =
     bindR (setStatus t READY k) (\<lambda>k1. Inr (k1\<lparr>readyList := seq_Append (readyList k1) t\<rparr>))"

definition FindNextToRun :: "('h, 'c, 'd) Kernel \<Rightarrow> nat option \<times> ('h, 'c, 'd) Kernel" where
  "FindNextToRun k = (let (t, rest) = seq_Remove (readyList k) in (t, k\<lparr>readyList := rest\<rparr>))"

definition SaveUserState :: "Machine \<Rightarrow> 'c Thread \<Rightarrow> 'c Thread" where
  "SaveUserState m th =
     th\<lparr>userRegisters := (\<lambda>i. if i < NumTotalRegs then registers m i else userRegisters th i)\<rparr>"

definition RestoreUserState :: "'c Thread \<Rightarrow> Machine \<Rightarrow> Machine" where
  "RestoreUserState th m =
     m\<lparr>registers := (\<lambda>i. if i < NumTotalRegs then userRegisters th i else registers m i)\<rparr>"

definition RestoreState :: "AddrSpace \<Rightarrow> Machine \<Rightarrow> Machine" where
  "RestoreState sp m = m\<lparr>pageTable := space_table sp, pageTableSize := numPages sp\<rparr>"

text \<open>The machine's page table pointer aliases the table of the running address space, so what the
  hardware recorded in it (use and dirty bits) is in that table when the thread is switched out;
  \<open>AddrSpace::SaveState\<close> itself does nothing.\<close>

definition share_table :: "Machine \<Rightarrow> AddrSpace \<Rightarrow> AddrSpace" where
  "share_table m sp = sp\<lparr>space_table := pageTable m\<rparr>"

definition save_user :: "('h, 'c, 'd) Kernel \<Rightarrow> 'c Thread \<Rightarrow> 'c Thread res" where
  "save_user k th =
     (case space th of None \<Rightarrow> Inr th
      | Some sp \<Rightarrow> (case machine k of None \<Rightarrow> Inl NullDeref
          | Some m \<Rightarrow> Inr ((SaveUserState m th)\<lparr>space := Some (share_table m sp)\<rparr>)))"

text \<open>\<open>Scheduler::Run\<close> up to \<open>SWITCH\<close>: the stack of the old thread, which continues with
  \<open>Run_return\<close>, is saved, and that of the next thread is taken.\<close>

definition Scheduler_Run :: "nat \<Rightarrow> ('h, 'c, 'd) Kernel \<Rightarrow> ('h, 'c, 'd) Kernel res" where
  "Scheduler_Run next k =
     (let old = currentThread k in
      bindR (get_thread k old) (\<lambda>th.
      bindR (save_user k th) (\<lambda>th1.
      bindR (CheckOverflow th1) (\<lambda>_.
      let k1 = put_thread old (th1\<lparr>continuation := Run_return # running k\<rparr>) k in
      bindR (setStatus next RUNNING (k1\<lparr>currentThread := next\<rparr>)) (\<lambda>k2.
      bindR (get_thread k2 next) (\<lambda>nth.
      Inr (k2\<lparr>running := continuation nth\<rparr>)))))))"

definition Run_end :: "('h, 'c, 'd) Kernel \<Rightarrow> ('h, 'c, 'd) Kernel res" where
  "Run_end k =
     bindR (case threadToBeDestroyed k of None \<Rightarrow> Inr k
            | Some t \<Rightarrow> bindR (Thread_delete t k) (\<lambda>k1. Inr (k1\<lparr>threadToBeDestroyed := None\<rparr>))) (\<lambda>k1.
     bindR (get_thread k1 (currentThread k1)) (\<lambda>th.
       case space th of None \<Rightarrow> Inr k1
       | Some sp \<Rightarrow> (case machine k1 of None \<Rightarrow> Inl NullDeref
           | Some m \<Rightarrow> Inr (k1\<lparr>machine := Some (RestoreState sp (RestoreUserState th m))\<rparr>))))"


section \<open>Fork, Yield, Sleep, Finish\<close>

definition Fork :: "nat \<Rightarrow> 'c \<Rightarrow> ('h, 'c, 'd) Kernel \<Rightarrow> ('h, 'c, 'd) Kernel res" where
  "Fork t func k =
     bindR (get_thread k t) (\<lambda>th.
     let k1 = put_thread t (StackAllocate func th) k; oldLevel = klevel k1 in
     bindR (SetLevel IntOff k1) (\<lambda>k2.
     bindR (ReadyToRun t k2) (\<lambda>k3.
     SetLevel oldLevel k3)))"

definition Yield :: "('h, 'c, 'd) Kernel \<Rightarrow> ('h, 'c, 'd) Kernel res" where
  "Yield k =
     (let oldLevel = klevel k in
      bindR (SetLevel IntOff k) (\<lambda>k1.
        case FindNextToRun k1 of
          (None, k2) \<Rightarrow> SetLevel oldLevel k2
        | (Some next, k2) \<Rightarrow>
            bindR (ReadyToRun (currentThread k2) k2) (\<lambda>k3.
              Scheduler_Run next (push [SetLevel_call oldLevel] k3))))"

definition Sleep :: "('h, 'c, 'd) Kernel \<Rightarrow> ('h, 'c, 'd) Kernel res" where
  "Sleep k =
     bindR (ASSERT (klevel k = IntOff)) (\<lambda>_.
     bindR (setStatus (currentThread k) BLOCKED k) (\<lambda>k1. Inr (push [Sleep_loop] k1)))"

definition Finish :: "('h, 'c, 'd) Kernel \<Rightarrow> ('h, 'c, 'd) Kernel res" where
  "Finish k =
     bindR (SetLevel IntOff k) (\<lambda>k1. Sleep (k1\<lparr>threadToBeDestroyed := Some (currentThread k1)\<rparr>))"


section \<open>Semaphores\<close>

definition Semaphore_new :: "8 word list \<Rightarrow> int \<Rightarrow> ('h, 'c, 'd) Kernel \<Rightarrow> nat \<times> ('h, 'c, 'd) Kernel" where
  "Semaphore_new nm initialValue k =
     (let s = nextSem k in
      (s, (put_sem s \<lparr>semName = nm, semValue = initialValue, queue = []\<rparr> k)\<lparr>nextSem := Suc s\<rparr>))"

definition Semaphore_delete :: "nat \<Rightarrow> ('h, 'c, 'd) Kernel \<Rightarrow> ('h, 'c, 'd) Kernel res" where
  "Semaphore_delete s k = bindR (get_sem k s) (\<lambda>_. Inr (k\<lparr>sems := (sems k)(s := None)\<rparr>))"

text \<open>\<open>P\<close> from its loop test on: a thread that finds the value zero queues itself and sleeps, and
  tests again when it has been woken.\<close>

definition Semaphore_P_test :: "nat \<Rightarrow> IntStatus \<Rightarrow> ('h, 'c, 'd) Kernel \<Rightarrow> ('h, 'c, 'd) Kernel res" where
  "Semaphore_P_test s oldLevel k =
     bindR (get_sem k s) (\<lambda>sem.
       if semValue sem = 0
       then Sleep (push [P_loop s oldLevel]
              (put_sem s (sem\<lparr>queue := seq_Append (queue sem) (currentThread k)\<rparr>) k))
       else SetLevel oldLevel (put_sem s (sem\<lparr>semValue := semValue sem - 1\<rparr>) k))"

definition Semaphore_P :: "nat \<Rightarrow> ('h, 'c, 'd) Kernel \<Rightarrow> ('h, 'c, 'd) Kernel res" where
  "Semaphore_P s k =
     (let oldLevel = klevel k in
      bindR (SetLevel IntOff k) (\<lambda>k1. Semaphore_P_test s oldLevel k1))"

definition Semaphore_V :: "nat \<Rightarrow> ('h, 'c, 'd) Kernel \<Rightarrow> ('h, 'c, 'd) Kernel res" where
  "Semaphore_V s k =
     (let oldLevel = klevel k in
      bindR (SetLevel IntOff k) (\<lambda>k1.
      bindR (get_sem k1 s) (\<lambda>sem.
      let (t, rest) = seq_Remove (queue sem);
          k2 = put_sem s (sem\<lparr>queue := rest, semValue := semValue sem + 1\<rparr>) k1 in
      bindR (case t of None \<Rightarrow> Inr k2 | Some th \<Rightarrow> ReadyToRun th k2) (\<lambda>k3.
      SetLevel oldLevel k3))))"


section \<open>The step function\<close>

definition frame_step :: "('h \<Rightarrow> ('h, 'c, 'd) Kernel \<Rightarrow> ('h, 'c, 'd) Kernel res) \<Rightarrow>
    ('c \<Rightarrow> ('h, 'c, 'd) Kernel \<Rightarrow> ('h, 'c, 'd) Kernel res) \<Rightarrow>
    'c frame \<Rightarrow> ('h, 'c, 'd) Kernel \<Rightarrow> ('h, 'c, 'd) Kernel res" where
  "frame_step call code f k =
     (case f of
        SetLevel_call l \<Rightarrow> SetLevel l k
      | OneTick_call \<Rightarrow> Inr (OneTick k)
      | OneTick_loop old \<Rightarrow> bindR (CheckIfDue call False k) (\<lambda>(fired, k1).
          Inr (if fired then push [OneTick_loop old] k1 else OneTick_end old k1))
      | setStatus_call st \<Rightarrow> Inr (setMachineStatus st k)
      | Yield_call \<Rightarrow> Yield k
      | Run_return \<Rightarrow> Run_end k
      | Sleep_loop \<Rightarrow> (case FindNextToRun k of
          (None, k1) \<Rightarrow> Idle call (push [Sleep_loop] k1)
        | (Some next, k1) \<Rightarrow> Scheduler_Run next k1)
      | Idle_loop \<Rightarrow> bindR (CheckIfDue call False k) (\<lambda>(fired, k1).
          Inr (if fired then push [Idle_loop] k1 else Idle_end k1))
      | P_call s \<Rightarrow> Semaphore_P s k
      | P_loop s old \<Rightarrow> Semaphore_P_test s old k
      | V_call s \<Rightarrow> Semaphore_V s k
      | InterruptEnable \<Rightarrow> SetLevel IntOn k
      | ThreadFinish \<Rightarrow> Finish k
      | Code c \<Rightarrow> code c k)"

definition kernel_step :: "('h \<Rightarrow> ('h, 'c, 'd) Kernel \<Rightarrow> ('h, 'c, 'd) Kernel res) \<Rightarrow>
    ('c \<Rightarrow> ('h, 'c, 'd) Kernel \<Rightarrow> ('h, 'c, 'd) Kernel res) \<Rightarrow>
    ('h, 'c, 'd) Kernel \<Rightarrow> ('h, 'c, 'd) Kernel res" where
  "kernel_step call code k =
     (case running k of [] \<Rightarrow> Inl Undefined | f # fs \<Rightarrow> frame_step call code f (k\<lparr>running := fs\<rparr>))"

end
