(* ===== verification/Kernel_Invariant.thy ===== *)
theory Kernel_Invariant
  imports Kernel_Threads
begin

text \<open>
  The invariant of the thread system and its preservation: at most one thread runs, the ready list
  and the queues of the semaphores hold each thread at most once and with the status that belongs
  there, a finished thread is never scheduled again, and the stack of every thread that is not
  running is one that \<open>SWITCH\<close> can resume.
\<close>


section \<open>The invariant\<close>

definition status_of :: "('h, 'c, 'd) Kernel \<Rightarrow> nat \<Rightarrow> ThreadStatus option" where
  "status_of k t = map_option tstatus (threads k t)"

abbreviation ready_ids :: "('h, 'c, 'd) Kernel \<Rightarrow> nat list" where
  "ready_ids k \<equiv> map fst (readyList k)"

definition waiting :: "('h, 'c, 'd) Kernel \<Rightarrow> nat \<Rightarrow> nat list" where
  "waiting k s = (case sems k s of None \<Rightarrow> [] | Some sem \<Rightarrow> map fst (queue sem))"

text \<open>\<open>b\<close> says that the current thread is inside \<open>Sleep\<close>: it may already be back on the ready list.\<close>

definition core :: "bool \<Rightarrow> ('h, 'c, 'd) Kernel \<Rightarrow> bool" where
  "core b k \<longleftrightarrow>
     distinct (ready_ids k) \<and> (\<forall>t\<in>set (ready_ids k). status_of k t = Some READY) \<and>
     (\<forall>s. distinct (waiting k s) \<and> (\<forall>t\<in>set (waiting k s). status_of k t = Some BLOCKED)) \<and>
     (\<forall>s s'. s \<noteq> s' \<longrightarrow> set (waiting k s) \<inter> set (waiting k s') = {}) \<and>
     (\<forall>t. status_of k t = Some RUNNING \<longrightarrow> t = currentThread k) \<and>
     status_of k (currentThread k) \<in> (if b then {Some BLOCKED, Some READY} else {Some RUNNING}) \<and>
     (\<forall>t. threadToBeDestroyed k = Some t \<longrightarrow>
        status_of k t = Some BLOCKED \<and> (\<forall>s. t \<notin> set (waiting k s))) \<and>
     (\<forall>t\<ge>nextThread k. threads k t = None) \<and> (\<forall>s\<ge>nextSem k. sems k s = None) \<and>
     (\<forall>t th. threads k t = Some th \<longrightarrow> stack th = None \<or> stack th = Some STACK_FENCEPOST)"

text \<open>Frames that may stand anywhere in a stack; the others only at its top, with interrupts off.\<close>

fun plain :: "'c frame \<Rightarrow> bool" where
  "plain (OneTick_loop _) = False"
| "plain Run_return = False"
| "plain Sleep_loop = False"
| "plain Idle_loop = False"
| "plain (P_loop _ _) = False"
| "plain _ = True"

fun resumed :: "'c frame list \<Rightarrow> bool" where
  "resumed (P_loop s l # fs) = list_all plain fs"
| "resumed fs = list_all plain fs"

definition saved_ok :: "'c frame list \<Rightarrow> bool" where
  "saved_ok fs \<longleftrightarrow> list_all plain fs \<or> (\<exists>gs. fs = Run_return # gs \<and> resumed gs)"

definition conts_ok :: "('h, 'c, 'd) Kernel \<Rightarrow> bool" where
  "conts_ok k \<longleftrightarrow> (\<forall>t th. threads k t = Some th \<longrightarrow> t \<noteq> currentThread k \<longrightarrow> saved_ok (continuation th))"

definition sleeping :: "'c frame list \<Rightarrow> bool" where
  "sleeping fs \<longleftrightarrow> (\<exists>gs. (fs = Sleep_loop # gs \<or> fs = Idle_loop # Sleep_loop # gs) \<and> resumed gs)"

definition stack_ok :: "IntStatus \<Rightarrow> 'c frame list \<Rightarrow> bool" where
  "stack_ok l fs \<longleftrightarrow>
     list_all plain fs \<or>
     (l = IntOff \<and> (sleeping fs \<or> resumed fs \<or>
        (\<exists>gs. fs = Run_return # gs \<and> resumed gs) \<or> (\<exists>st gs. fs = OneTick_loop st # gs \<and> list_all plain gs)))"

definition pending_ok :: "'h Interrupt \<Rightarrow> bool" where
  "pending_ok i \<longleftrightarrow> sorted (map snd (pending i)) \<and> (\<forall>(p, w)\<in>set (pending i). when_due p = w)"

definition kernel_ok :: "('h, 'c, 'd) Kernel \<Rightarrow> bool" where
  "kernel_ok k \<longleftrightarrow> core (sleeping (running k)) k \<and> conts_ok k \<and> stack_ok (klevel k) (running k) \<and>
     pending_ok (interrupt k) \<and> \<not> inHandler (interrupt k)"

definition same_sched :: "('h, 'c, 'd) Kernel \<Rightarrow> ('h, 'c, 'd) Kernel \<Rightarrow> bool" where
  "same_sched k k' \<longleftrightarrow> threads k' = threads k \<and> nextThread k' = nextThread k \<and>
     currentThread k' = currentThread k \<and> threadToBeDestroyed k' = threadToBeDestroyed k \<and>
     readyList k' = readyList k \<and> sems k' = sems k \<and> nextSem k' = nextSem k"

lemma core_cong: "same_sched k k' \<Longrightarrow> core b k' = core b k"
  by (simp add: same_sched_def core_def status_of_def waiting_def)

lemma conts_cong: "same_sched k k' \<Longrightarrow> conts_ok k' = conts_ok k"
  by (simp add: same_sched_def conts_ok_def)

lemma same_sched_refl [simp]: "same_sched k k"
  by (simp add: same_sched_def)

lemma same_sched_trans: "same_sched k k' \<Longrightarrow> same_sched k' k'' \<Longrightarrow> same_sched k k''"
  by (simp add: same_sched_def)

lemma same_sched_updates [simp]:
  "same_sched k (k\<lparr>running := fs\<rparr>)" "same_sched k (push fs k)" "same_sched k (set_int f k)"
  "same_sched k (ChangeLevel l k)" "same_sched k (setMachineStatus st k)" "same_sched k (OneTick k)"
  "same_sched k (OneTick_end st k)" "same_sched k (Idle_end k)" "same_sched k (k\<lparr>stats := s\<rparr>)"
  "same_sched k (k\<lparr>machine := m\<rparr>)" "same_sched k (k\<lparr>dev := d\<rparr>)"
  by (simp_all add: same_sched_def push_def set_int_def ChangeLevel_def setMachineStatus_def OneTick_def
      OneTick_end_def Idle_end_def Let_def)


section \<open>Operations and the invariant\<close>

lemmas store_defs = get_thread_def put_thread_def get_sem_def put_sem_def setStatus_def

lemma coreD:
  assumes "core b k"
  shows "distinct (ready_ids k)" "\<And>t. t \<in> set (ready_ids k) \<Longrightarrow> status_of k t = Some READY"
    "\<And>s. distinct (waiting k s)" "\<And>s t. t \<in> set (waiting k s) \<Longrightarrow> status_of k t = Some BLOCKED"
    "\<And>s s'. s \<noteq> s' \<Longrightarrow> set (waiting k s) \<inter> set (waiting k s') = {}"
    "\<And>t. status_of k t = Some RUNNING \<Longrightarrow> t = currentThread k"
    "status_of k (currentThread k) \<in> (if b then {Some BLOCKED, Some READY} else {Some RUNNING})"
    "\<And>t. threadToBeDestroyed k = Some t \<Longrightarrow> status_of k t = Some BLOCKED"
    "\<And>t s. threadToBeDestroyed k = Some t \<Longrightarrow> t \<notin> set (waiting k s)"
    "\<And>t. t \<ge> nextThread k \<Longrightarrow> threads k t = None" "\<And>s. s \<ge> nextSem k \<Longrightarrow> sems k s = None"
    "\<And>t th. threads k t = Some th \<Longrightarrow> stack th = None \<or> stack th = Some STACK_FENCEPOST"
  using assms unfolding core_def by blast+

lemma coreI:
  assumes "distinct (ready_ids k)" "\<And>t. t \<in> set (ready_ids k) \<Longrightarrow> status_of k t = Some READY"
    "\<And>s. distinct (waiting k s)" "\<And>s t. t \<in> set (waiting k s) \<Longrightarrow> status_of k t = Some BLOCKED"
    "\<And>s s'. s \<noteq> s' \<Longrightarrow> set (waiting k s) \<inter> set (waiting k s') = {}"
    "\<And>t. status_of k t = Some RUNNING \<Longrightarrow> t = currentThread k"
    "status_of k (currentThread k) \<in> (if b then {Some BLOCKED, Some READY} else {Some RUNNING})"
    "\<And>t. threadToBeDestroyed k = Some t \<Longrightarrow> status_of k t = Some BLOCKED"
    "\<And>t s. threadToBeDestroyed k = Some t \<Longrightarrow> t \<notin> set (waiting k s)"
    "\<And>t. t \<ge> nextThread k \<Longrightarrow> threads k t = None" "\<And>s. s \<ge> nextSem k \<Longrightarrow> sems k s = None"
    "\<And>t th. threads k t = Some th \<Longrightarrow> stack th = None \<or> stack th = Some STACK_FENCEPOST"
  shows "core b k"
  using assms unfolding core_def by blast

lemma setStatus_simps:
  assumes "setStatus t st k = Inr k'"
  shows "status_of k' u = (if u = t then Some st else status_of k u)" "waiting k' s = waiting k s"
    "readyList k' = readyList k" "currentThread k' = currentThread k" "nextThread k' = nextThread k"
    "nextSem k' = nextSem k" "threadToBeDestroyed k' = threadToBeDestroyed k" "sems k' = sems k"
    "threads k t \<noteq> None" "threads k' u = None \<longleftrightarrow> threads k u = None"
    "interrupt k' = interrupt k" "running k' = running k" "stats k' = stats k"
    "\<forall>u th'. threads k' u = Some th' \<longrightarrow> (\<exists>th. threads k u = Some th \<and> stack th' = stack th \<and> continuation th' = continuation th)"
  using assms by (auto simp: store_defs status_of_def waiting_def split: option.splits if_splits)

lemma ReadyToRun_fields:
  assumes "ReadyToRun t k = Inr k'"
  shows "status_of k' u = (if u = t then Some READY else status_of k u)" "waiting k' s = waiting k s"
    "readyList k' = readyList k @ [(t, 0)]" "currentThread k' = currentThread k" "nextThread k' = nextThread k"
    "nextSem k' = nextSem k" "threadToBeDestroyed k' = threadToBeDestroyed k" "sems k' = sems k"
    "threads k' u = None \<longleftrightarrow> threads k u = None"
    "interrupt k' = interrupt k" "running k' = running k" "stats k' = stats k"
    "\<forall>u th'. threads k' u = Some th' \<longrightarrow> (\<exists>th. threads k u = Some th \<and> stack th' = stack th \<and> continuation th' = continuation th)"
  using assms by (auto simp: ReadyToRun_def seq_Append_def store_defs status_of_def waiting_def split: option.splits if_splits)

lemma ReadyToRun_core:
  assumes c: "core b k" and t: "t \<notin> set (ready_ids k)" "\<And>s. t \<notin> set (waiting k s)" "threadToBeDestroyed k \<noteq> Some t"
    and r: "ReadyToRun t k = Inr k'"
  shows "core (b \<or> t = currentThread k) k'"
proof -
  note D = coreD [OF c] and F = ReadyToRun_fields [OF r]
  show ?thesis
  proof (rule coreI)
    show "distinct (ready_ids k')" using D(1) t(1) by (simp add: F(3))
    show "\<And>u. u \<in> set (ready_ids k') \<Longrightarrow> status_of k' u = Some READY" using D(2) by (auto simp: F(1,3))
    show "\<And>s. distinct (waiting k' s)" using D(3) by (simp add: F(2))
    show "\<And>s u. u \<in> set (waiting k' s) \<Longrightarrow> status_of k' u = Some BLOCKED" using D(4) t(2) by (auto simp: F(1,2))
    show "\<And>s s'. s \<noteq> s' \<Longrightarrow> set (waiting k' s) \<inter> set (waiting k' s') = {}" using D(5) by (simp add: F(2))
    show "\<And>u. status_of k' u = Some RUNNING \<Longrightarrow> u = currentThread k'" using D(6) by (auto simp: F(1,4) split: if_splits)
    show "status_of k' (currentThread k') \<in> (if b \<or> t = currentThread k then {Some BLOCKED, Some READY} else {Some RUNNING})"
      using D(7) by (auto simp: F(1,4) split: if_splits)
    show "\<And>u. threadToBeDestroyed k' = Some u \<Longrightarrow> status_of k' u = Some BLOCKED" using D(8) t(3) by (auto simp: F(1,7))
    show "\<And>u s. threadToBeDestroyed k' = Some u \<Longrightarrow> u \<notin> set (waiting k' s)" using D(9) by (simp add: F(2,7))
    show "\<And>u. u \<ge> nextThread k' \<Longrightarrow> threads k' u = None" using D(10) by (simp add: F(5,9))
    show "\<And>s. s \<ge> nextSem k' \<Longrightarrow> sems k' s = None" using D(11) by (simp add: F(6,8))
    show "\<And>u th. threads k' u = Some th \<Longrightarrow> stack th = None \<or> stack th = Some STACK_FENCEPOST"
      using D(12) F(13) by metis
  qed
qed

lemma conts_ok_keep:
  assumes "conts_ok k" "currentThread k' = currentThread k"
    "\<forall>u th'. threads k' u = Some th' \<longrightarrow> (\<exists>th. threads k u = Some th \<and> stack th' = stack th \<and> continuation th' = continuation th)"
  shows "conts_ok k'"
  using assms unfolding conts_ok_def by metis

text \<open>The head of a queue is removed and made ready.\<close>

lemma wake_core:
  assumes c: "core b k" and s: "sems k s = Some sem"
    and r: "seq_Remove (queue sem) = (t, rest)"
    and k1: "k1 = put_sem s (sem\<lparr>queue := rest, semValue := v\<rparr>) k"
    and w: "(case t of None \<Rightarrow> Inr k1 | Some th \<Rightarrow> ReadyToRun th k1) = Inr k2"
  shows "core b k2 \<and> (conts_ok k \<longrightarrow> conts_ok k2) \<and> interrupt k2 = interrupt k \<and> running k2 = running k \<and> stats k2 = stats k"
proof -
  note D = coreD [OF c]
  have wt: "waiting k1 u = (if u = s then map fst rest else waiting k u)" for u
    by (simp add: k1 put_sem_def waiting_def)
  have W: "waiting k s = map fst (queue sem)" by (simp add: waiting_def s)
  have sub: "set (map fst rest) \<subseteq> set (waiting k s)" "distinct (map fst rest)"
    using r D(3) [of s] by (cases "queue sem"; force simp: seq_Remove_def W)+
  have s1: "status_of k1 = status_of k" by (simp add: k1 put_sem_def status_of_def fun_eq_iff)
  have same: "readyList k1 = readyList k" "currentThread k1 = currentThread k" "nextThread k1 = nextThread k"
    "threadToBeDestroyed k1 = threadToBeDestroyed k" "threads k1 = threads k" "nextSem k1 = nextSem k"
    by (simp_all add: k1 put_sem_def)
  have c1: "core b k1"
  proof (rule coreI)
    show "\<And>u v. u \<noteq> v \<Longrightarrow> set (waiting k1 u) \<inter> set (waiting k1 v) = {}"
      using D(5) sub(1) by (simp add: wt) blast
    show "\<And>u. nextSem k1 \<le> u \<Longrightarrow> sems k1 u = None" using D(11) s by (auto simp: k1 put_sem_def)
    show "\<And>u t. t \<in> set (waiting k1 u) \<Longrightarrow> status_of k1 t = Some BLOCKED"
      using D(4) sub(1) by (auto simp: wt s1 split: if_splits)
    show "\<And>t u. threadToBeDestroyed k1 = Some t \<Longrightarrow> t \<notin> set (waiting k1 u)"
      using D(9) sub(1) by (auto simp: wt same split: if_splits)
    show "\<And>u. distinct (waiting k1 u)" using D(3) sub(2) by (simp add: wt)
  qed (use D in \<open>simp_all add: s1 same\<close>)
  show ?thesis
  proof (cases t)
    case None
    then show ?thesis using w c1 by (auto simp: k1 put_sem_def conts_ok_def)
  next
    case (Some th)
    then have h: "waiting k s = th # map fst rest" using r by (cases "queue sem") (auto simp: seq_Remove_def W)
    have th: "status_of k th = Some BLOCKED" "th \<notin> set (map fst rest)" using D(3) [of s] D(4) [where s = s and t = th] by (simp_all add: h)
    have a: "th \<notin> set (ready_ids k1)" using th(1) D(2) by (force simp: k1 put_sem_def)
    have b: "th \<notin> set (waiting k1 u)" for u using th(2) D(5) [of s u] h by (auto simp: wt)
    have d: "threadToBeDestroyed k1 \<noteq> Some th" using D(9) [where s = s and t = th] h by (auto simp: k1 put_sem_def)
    have w': "ReadyToRun th k1 = Inr k2" using w Some by simp
    note F = ReadyToRun_fields [OF w']
    have "b" if "th = currentThread k1"
      using that th(1) D(7) by (auto simp: same split: if_splits)
    then have "(b \<or> th = currentThread k1) = b" by blast
    with ReadyToRun_core [OF c1 a b d w'] have "core b k2" by simp
    moreover have "conts_ok k1" if "conts_ok k" using that by (simp add: same conts_ok_def)
    moreover have "interrupt k1 = interrupt k" "running k1 = running k" "stats k1 = stats k"
      by (simp_all add: k1 put_sem_def)
    ultimately show ?thesis using conts_ok_keep [OF _ F(4,13)] F(10-12) by simp
  qed
qed

lemma SetLevel_cases:
  assumes "SetLevel l k = Inr k'"
  shows "same_sched k k'" "inHandler (interrupt k') = inHandler (interrupt k)"
    "l = IntOn \<and> klevel k = IntOff \<and> klevel k' = IntOff \<and> (\<exists>st. running k' = OneTick_loop st # running k) \<or>
     (l = IntOff \<or> klevel k = IntOn) \<and> klevel k' = l \<and> running k' = running k \<and> stats k' = stats k \<and>
       pending (interrupt k') = pending (interrupt k)"
    "machine k' = machine k" "dev k' = dev k" "pending (interrupt k') = pending (interrupt k)"
  using assms by (cases l; cases "klevel k"; auto simp: SetLevel_def Let_def OneTick_def ChangeLevel_def set_int_def push_def
      same_sched_def elim!: bindR_InrE)+

lemma SetLevel_off: "SetLevel IntOff k = Inr (ChangeLevel IntOff k)"
  by (simp add: SetLevel_def)

lemma Semaphore_V_core:
  assumes c: "core b k" and v: "Semaphore_V s k = Inr k'"
  shows "core b k'" "conts_ok k \<Longrightarrow> conts_ok k'" "inHandler (interrupt k') = inHandler (interrupt k)"
    "klevel k = IntOn \<and> klevel k' = IntOff \<and> (\<exists>st. running k' = OneTick_loop st # running k) \<or>
     klevel k = IntOff \<and> klevel k' = klevel k \<and> running k' = running k \<and> stats k' = stats k \<and>
       pending (interrupt k') = pending (interrupt k)"
proof -
  let ?k0 = "ChangeLevel IntOff k"
  have c0: "core b ?k0" "conts_ok k \<Longrightarrow> conts_ok ?k0"
    using c core_cong [of k ?k0] conts_cong [of k ?k0] by simp_all
  obtain sem where s: "sems ?k0 s = Some sem"
    using v by (auto simp: Semaphore_V_def SetLevel_off get_sem_def Let_def elim!: bindR_InrE split: option.splits)
  obtain t rest where r: "seq_Remove (queue sem) = (t, rest)" by (cases "seq_Remove (queue sem)")
  let ?k1 = "put_sem s (sem\<lparr>queue := rest, semValue := semValue sem + 1\<rparr>) ?k0"
  obtain k2 where k2: "(case t of None \<Rightarrow> Inr ?k1 | Some th \<Rightarrow> ReadyToRun th ?k1) = Inr k2"
    and l: "SetLevel (klevel k) k2 = Inr k'"
    using v s r by (auto simp: Semaphore_V_def SetLevel_off get_sem_def Let_def elim!: bindR_InrE)
  note W = wake_core [OF c0(1) s r refl k2]
  have i2: "klevel k2 = IntOff" "inHandler (interrupt k2) = inHandler (interrupt k)" "running k2 = running k"
    "stats k2 = stats k" "pending (interrupt k2) = pending (interrupt k)"
    using W by (simp_all add: ChangeLevel_def set_int_def)
  note L = SetLevel_cases [OF l]
  show "core b k'" using W core_cong [OF L(1)] by simp
  show "conts_ok k'" if "conts_ok k" using W c0(2) [OF that] conts_cong [OF L(1)] by simp
  show "inHandler (interrupt k') = inHandler (interrupt k)" using L(2) i2(2) by simp
  show "klevel k = IntOn \<and> klevel k' = IntOff \<and> (\<exists>st. running k' = OneTick_loop st # running k) \<or>
     klevel k = IntOff \<and> klevel k' = klevel k \<and> running k' = running k \<and> stats k' = stats k \<and>
       pending (interrupt k') = pending (interrupt k)"
    using L(3) i2 by (cases "klevel k") auto
qed

text \<open>A running thread blocks: it queues itself or finishes.\<close>

lemma block_core:
  assumes c: "core False k" and st: "setStatus (currentThread k) BLOCKED k1 = Inr k'"
    and same: "threads k1 = threads k" "readyList k1 = readyList k" "currentThread k1 = currentThread k"
      "nextThread k1 = nextThread k" "nextSem k1 = nextSem k" "\<And>u. sems k u = None \<Longrightarrow> sems k1 u = None"
    and w: "(\<forall>u. waiting k1 u = (if Some u = s then waiting k u @ [currentThread k] else waiting k u)) \<and>
        threadToBeDestroyed k1 = threadToBeDestroyed k \<or>
      (\<forall>u. waiting k1 u = waiting k u) \<and> threadToBeDestroyed k1 = Some (currentThread k)"
  shows "core True k'"
proof -
  note D = coreD [OF c] and F = setStatus_simps [OF st]
  have cur: "status_of k (currentThread k) = Some RUNNING" using D(7) by simp
  have nw: "currentThread k \<notin> set (waiting k u)" for u using cur D(4) [where s = u and t = "currentThread k"] by auto
  have nr: "currentThread k \<notin> set (ready_ids k)" using cur D(2) by force
  have s1: "status_of k1 = status_of k" by (simp add: status_of_def same(1) fun_eq_iff)
  have wu: "waiting k1 u = waiting k u @ [currentThread k] \<and> Some u = s \<and> threadToBeDestroyed k1 = threadToBeDestroyed k \<or>
    waiting k1 u = waiting k u" for u using w by metis
  have wt: "set (waiting k1 u) \<subseteq> insert (currentThread k) (set (waiting k u))" "distinct (waiting k1 u)"
    "currentThread k \<in> set (waiting k1 u) \<Longrightarrow> Some u = s" for u
    using wu [of u] D(3) [of u] nw [of u] by auto
  show ?thesis
  proof (rule coreI)
    show "status_of k' t = Some READY" if "t \<in> set (ready_ids k')" for t
    proof -
      from that have "t \<in> set (ready_ids k)" by (simp only: F(3) same(2))
      with nr D(2) [OF this] show ?thesis by (cases "t = currentThread k") (simp_all only: F(1) s1 if_False)
    qed
    show "\<And>u t. t \<in> set (waiting k' u) \<Longrightarrow> status_of k' t = Some BLOCKED"
      using wt(1) D(4) by (fastforce simp: F(1,2) s1)
    show "set (waiting k' u) \<inter> set (waiting k' v) = {}" if "u \<noteq> v" for u v
      using wt(1) [of u] wt(1) [of v] wt(3) [of u] wt(3) [of v] D(5) [OF that] that nw by (auto simp: F(2))
    show "t = currentThread k'" if "status_of k' t = Some RUNNING" for t
      using that D(6) [of t] by (auto simp: F(1,4) s1 same(3) split: if_splits)
    show "\<And>t. threadToBeDestroyed k' = Some t \<Longrightarrow> status_of k' t = Some BLOCKED"
      using w D(8) by (auto simp: F(1,7) s1)
    show "t \<notin> set (waiting k' u)" if "threadToBeDestroyed k' = Some t" for t u
      using wu [of u] w that D(8) [of t] D(9) [of t] cur nw [of u] by (auto simp: F(2,7))
    show "\<And>t th. threads k' t = Some th \<Longrightarrow> stack th = None \<or> stack th = Some STACK_FENCEPOST"
      using D(12) F(14) same(1) by metis
    show "distinct (ready_ids k')" using D(1) by (simp only: F(3) same(2))
    show "\<And>u. distinct (waiting k' u)" using wt(2) by (simp only: F(2))
    show "status_of k' (currentThread k') \<in> (if True then {Some BLOCKED, Some READY} else {Some RUNNING})"
      by (simp add: F(1,4) same(3))
    show "\<And>t. nextThread k' \<le> t \<Longrightarrow> threads k' t = None" using D(10) by (simp only: F(5,10) same(1,4))
    show "\<And>u. nextSem k' \<le> u \<Longrightarrow> sems k' u = None" using D(11) same(6) by (simp only: F(6,8) same(5))
  qed
qed

lemma Semaphore_P_test_block:
  assumes c: "core False k" and s: "sems k s = Some sem"
    and p: "Sleep (push fs (put_sem s (sem\<lparr>queue := seq_Append (queue sem) (currentThread k)\<rparr>) k)) = Inr k'"
  shows "core True k'" "conts_ok k \<Longrightarrow> conts_ok k'" "interrupt k' = interrupt k"
    "running k' = Sleep_loop # fs @ running k" "klevel k = IntOff" "stats k' = stats k"
proof -
  let ?k1 = "push fs (put_sem s (sem\<lparr>queue := seq_Append (queue sem) (currentThread k)\<rparr>) k)"
  obtain k2 where st: "setStatus (currentThread k) BLOCKED ?k1 = Inr k2" "k' = push [Sleep_loop] k2" "klevel k = IntOff"
    using p by (auto simp: Sleep_def push_def put_sem_def elim!: bindR_InrE)
  have "core True k2"
    by (rule block_core [OF c st(1), where s = "Some s"])
      (use s in \<open>auto simp: push_def put_sem_def waiting_def seq_Append_def\<close>)
  then show "core True k'" using core_cong [of k2 k'] by (simp add: st(2))
  note F = setStatus_simps [OF st(1)]
  show "conts_ok k'" if "conts_ok k"
  proof -
    have "conts_ok k2"
      by (rule conts_ok_keep [OF that]) (use F(4,14) in \<open>simp_all add: push_def put_sem_def\<close>)
    then show ?thesis using conts_cong [of k2 k'] by (simp add: st(2))
  qed
  show "interrupt k' = interrupt k" "running k' = Sleep_loop # fs @ running k" "klevel k = IntOff" "stats k' = stats k"
    using F(11-13) st(2,3) by (simp_all add: push_def put_sem_def)
qed

lemma Finish_core:
  assumes c: "core False k" and p: "Finish k = Inr k'"
  shows "core True k'" "conts_ok k \<Longrightarrow> conts_ok k'" "inHandler (interrupt k') = inHandler (interrupt k)"
    "running k' = Sleep_loop # running k" "klevel k' = IntOff" "stats k' = stats k"
proof -
  let ?k1 = "(ChangeLevel IntOff k)\<lparr>threadToBeDestroyed := Some (currentThread k)\<rparr>"
  obtain k2 where st: "setStatus (currentThread k) BLOCKED ?k1 = Inr k2" "k' = push [Sleep_loop] k2"
    using p by (auto simp: Finish_def SetLevel_off Sleep_def ChangeLevel_def set_int_def elim!: bindR_InrE)
  have "core True k2"
    by (rule block_core [OF c st(1)]) (auto simp: ChangeLevel_def set_int_def waiting_def)
  then show "core True k'" using core_cong [of k2 k'] by (simp add: st(2))
  note F = setStatus_simps [OF st(1)]
  show "conts_ok k'" if "conts_ok k"
  proof -
    have "conts_ok k2"
      by (rule conts_ok_keep [OF that]) (use F(4,14) in \<open>simp_all add: ChangeLevel_def set_int_def\<close>)
    then show ?thesis using conts_cong [of k2 k'] by (simp add: st(2))
  qed
  show "inHandler (interrupt k') = inHandler (interrupt k)" "running k' = Sleep_loop # running k"
    "klevel k' = IntOff" "stats k' = stats k"
    using F(11-13) st(2) by (simp_all add: push_def ChangeLevel_def set_int_def)
qed

text \<open>Dispatching the head of the ready list.\<close>

lemma FindNextToRun_cases:
  "FindNextToRun k = (None, k1) \<longleftrightarrow> readyList k = [] \<and> k1 = k\<lparr>readyList := []\<rparr>"
  "FindNextToRun k = (Some t, k1) \<longleftrightarrow> (\<exists>i rest. readyList k = (t, i) # rest \<and> k1 = k\<lparr>readyList := rest\<rparr>)"
  by (cases "readyList k"; auto simp: FindNextToRun_def seq_Remove_def)+

lemma save_user_fields:
  "save_user k th = Inr th' \<Longrightarrow> tstatus th' = tstatus th \<and> stack th' = stack th"
  by (auto simp: save_user_def SaveUserState_def split: option.splits)

lemma Scheduler_Run_fields:
  assumes "Scheduler_Run t k = Inr k'" "t = currentThread k \<or> (\<exists>th. threads k t = Some th)"
  shows "status_of k' u = (if u = t then Some RUNNING else status_of k u)" "waiting k' s = waiting k s"
    "readyList k' = readyList k" "currentThread k' = t" "nextThread k' = nextThread k"
    "nextSem k' = nextSem k" "threadToBeDestroyed k' = threadToBeDestroyed k" "sems k' = sems k"
    "threads k' u = None \<longleftrightarrow> threads k u = None" "interrupt k' = interrupt k" "stats k' = stats k"
    "threads k' u = Some th' \<Longrightarrow> \<exists>th. threads k u = Some th \<and> stack th' = stack th \<and>
       continuation th' = (if u = currentThread k then Run_return # running k else continuation th)"
    "running k' = (if t = currentThread k then Run_return # running k else continuation (the (threads k t)))"
  using assms by (auto simp: Scheduler_Run_def store_defs status_of_def waiting_def Let_def
      elim!: bindR_InrE dest!: save_user_fields split: option.splits if_splits)

lemma remove_head_core:
  assumes "core b k" "readyList k = (t, i) # rest"
  shows "core b (k\<lparr>readyList := rest\<rparr>)" "status_of k t = Some READY" "t \<notin> fst ` set rest"
proof -
  note D = coreD [OF assms(1)]
  have e: "status_of (k\<lparr>readyList := rest\<rparr>) = status_of k" "waiting (k\<lparr>readyList := rest\<rparr>) = waiting k"
    by (simp_all add: status_of_def waiting_def fun_eq_iff)
  show "core b (k\<lparr>readyList := rest\<rparr>)"
    using assms(1) unfolding core_def e by (simp add: assms(2) del: split_paired_All)
  show "status_of k t = Some READY" "t \<notin> fst ` set rest" using D(1,2) assms(2) by simp_all
qed

lemma Scheduler_Run_core:
  assumes c: "core True k" and t: "status_of k t = Some READY" "t \<notin> set (ready_ids k)"
    and r: "Scheduler_Run t k = Inr k'"
  shows "core False k'"
proof -
  have "t = currentThread k \<or> (\<exists>th. threads k t = Some th)" using t(1) by (auto simp: status_of_def)
  note D = coreD [OF c] and F = Scheduler_Run_fields [OF r this]
  show ?thesis
  proof (rule coreI)
    show "distinct (ready_ids k')" using D(1) by (simp only: F(3))
    show "\<And>u. u \<in> set (ready_ids k') \<Longrightarrow> status_of k' u = Some READY"
      using D(2) t(2) by (metis F(1,3))
    show "\<And>s. distinct (waiting k' s)" using D(3) by (simp only: F(2))
    show "status_of k' u = Some BLOCKED" if "u \<in> set (waiting k' s)" for s u
      using D(4) [where s = s and t = u] that t(1) by (auto simp: F(1,2))
    show "\<And>s s'. s \<noteq> s' \<Longrightarrow> set (waiting k' s) \<inter> set (waiting k' s') = {}" using D(5) by (simp only: F(2))
    show "u = currentThread k'" if "status_of k' u = Some RUNNING" for u
      using that D(6) [of u] D(7) by (auto simp: F(1,4) split: if_splits)
    show "status_of k' (currentThread k') \<in> (if False then {Some BLOCKED, Some READY} else {Some RUNNING})"
      by (simp add: F(1,4))
    show "status_of k' u = Some BLOCKED" if "threadToBeDestroyed k' = Some u" for u
      using D(8) [of u] that t(1) by (auto simp: F(1,7))
    show "\<And>u s. threadToBeDestroyed k' = Some u \<Longrightarrow> u \<notin> set (waiting k' s)" using D(9) by (simp add: F(2,7))
    show "\<And>u. u \<ge> nextThread k' \<Longrightarrow> threads k' u = None" using D(10) by (simp only: F(5,9))
    show "\<And>s. s \<ge> nextSem k' \<Longrightarrow> sems k' s = None" using D(11) by (simp only: F(6,8))
    show "stack th = None \<or> stack th = Some STACK_FENCEPOST" if "threads k' u = Some th" for u th
      using F(12) [OF that] D(12) by metis
  qed
qed

lemma Scheduler_Run_conts:
  assumes "conts_ok k" "resumed (running k)" "status_of k t = Some READY" "Scheduler_Run t k = Inr k'"
  shows "conts_ok k'" "saved_ok (running k')"
proof -
  have "t = currentThread k \<or> (\<exists>th. threads k t = Some th)" using assms(3) by (auto simp: status_of_def)
  note F = Scheduler_Run_fields [OF assms(4) this]
  have r: "saved_ok (Run_return # running k)" using assms(2) by (auto simp: saved_ok_def)
  show "conts_ok k'"
    unfolding conts_ok_def
  proof (intro allI impI)
    fix u th' assume u: "threads k' u = Some th'" "u \<noteq> currentThread k'"
    from F(12) [OF u(1)] obtain th where "threads k u = Some th"
      "continuation th' = (if u = currentThread k then Run_return # running k else continuation th)" by blast
    then show "saved_ok (continuation th')" using r assms(1) by (auto simp: conts_ok_def)
  qed
  show "saved_ok (running k')"
    using r assms(1,3) by (auto simp: F(13) conts_ok_def status_of_def)
qed

end
