(* ===== verification/Kernel_Correct.thy ===== *)
theory Kernel_Correct
  imports Kernel_Invariant
begin

text \<open>
  Every step of the kernel keeps the invariant, for any interrupt handlers and client code that keep
  their side of the contract: a handler acts on threads only by signalling semaphores and
  schedules interrupts only in the future; client code keeps the invariant.  The two contracts are
  the locales \<open>interrupt_handlers\<close> and \<open>kernel_client\<close>.
\<close>


section \<open>Pending interrupts\<close>

definition due_count :: "('h, 'c, 'd) Kernel \<Rightarrow> nat" where
  "due_count k = length (filter (\<lambda>(p, w). w \<le> now k) (pending (interrupt k)))"

lemma set_SortedInsert: "set (seq_SortedInsert xs x w) = insert (x, w) (set xs)"
  by (induction xs x w rule: seq_SortedInsert.induct) auto

lemma sorted_SortedInsert: "sorted (map snd xs) \<Longrightarrow> sorted (map snd (seq_SortedInsert xs x w))"
  by (induction xs x w rule: seq_SortedInsert.induct) (auto simp: set_SortedInsert)

lemma filter_SortedInsert:
  "length (filter P (seq_SortedInsert xs x w)) = (if P (x, w) then Suc (length (filter P xs)) else length (filter P xs))"
  by (induction xs x w rule: seq_SortedInsert.induct) auto

lemma SortedInsert_pending_ok:
  "pending_ok i \<Longrightarrow> when_due p = w \<Longrightarrow> pending_ok (i\<lparr>pending := seq_SortedInsert (pending i) p w\<rparr>)"
  by (auto simp: pending_ok_def sorted_SortedInsert set_SortedInsert)

text \<open>\<open>advances k k'\<close>: threads are only added behind the ready list, and the saved user state of
  the other threads stays as it is.\<close>

definition advances :: "('h, 'c, 'd) Kernel \<Rightarrow> ('h, 'c, 'd) Kernel \<Rightarrow> bool" where
  "advances k k' \<longleftrightarrow> (\<exists>xs. readyList k' = readyList k @ xs) \<and> currentThread k' = currentThread k \<and>
     (\<forall>t th. threads k t = Some th \<longrightarrow> t \<noteq> currentThread k \<longrightarrow>
        (\<exists>th'. threads k' t = Some th' \<and> userRegisters th' = userRegisters th \<and> space th' = space th))"

lemma advances_same: "same_sched k k' \<Longrightarrow> advances k k'"
  by (simp add: same_sched_def advances_def)

lemma advances_refl [simp]: "advances k k"
  by (simp add: advances_def)

lemma advances_trans [trans]:
  assumes "advances k k'" "advances k' k''"
  shows "advances k k''"
proof -
  have "\<exists>xs. readyList k'' = readyList k @ xs" using assms unfolding advances_def by (metis append.assoc)
  moreover have "\<exists>th''. threads k'' t = Some th'' \<and> userRegisters th'' = userRegisters th \<and> space th'' = space th"
    if "threads k t = Some th" "t \<noteq> currentThread k" for t th
    using assms that unfolding advances_def by metis
  ultimately show ?thesis using assms by (simp add: advances_def)
qed

lemma advances_ReadyToRun: "ReadyToRun t k = Inr k' \<Longrightarrow> advances k k'"
  by (auto simp: ReadyToRun_def seq_Append_def store_defs advances_def split: option.splits)

lemma advances_Semaphore_V:
  assumes "Semaphore_V s k = Inr k'"
  shows "advances k k'"
proof -
  obtain sem t rest k2 k3 where "k2 = put_sem s (sem\<lparr>queue := rest, semValue := semValue sem + 1\<rparr>) (ChangeLevel IntOff k)"
    and r: "(case t of None \<Rightarrow> Inr k2 | Some th \<Rightarrow> ReadyToRun th k2) = Inr k3" and l: "SetLevel (klevel k) k3 = Inr k'"
    using assms by (auto simp: Semaphore_V_def SetLevel_off Let_def elim!: bindR_InrE split: prod.splits)
  then have "advances k k2" by (simp add: advances_def put_sem_def ChangeLevel_def set_int_def)
  also have "advances k2 k3" using r advances_ReadyToRun by (auto split: option.splits)
  also have "advances k3 k'" using advances_same SetLevel_cases(1) [OF l] by blast
  finally show ?thesis .
qed

text \<open>\<open>handler_kept k k'\<close>: what an interrupt handler leaves alone.\<close>

definition handler_kept :: "('h, 'c, 'd) Kernel \<Rightarrow> ('h, 'c, 'd) Kernel \<Rightarrow> bool" where
  "handler_kept k k' \<longleftrightarrow> klevel k' = klevel k \<and> inHandler (interrupt k') = inHandler (interrupt k) \<and>
     running k' = running k \<and> now k' = now k \<and> due_count k' = due_count k \<and>
     (pending_ok (interrupt k) \<longrightarrow> pending_ok (interrupt k')) \<and>
     (\<forall>b. core b k \<longrightarrow> core b k') \<and> (conts_ok k \<longrightarrow> conts_ok k') \<and> advances k k'"

lemma handler_kept_refl [simp]: "handler_kept k k"
  by (simp add: handler_kept_def)

lemma handler_kept_trans [trans]: "handler_kept k k' \<Longrightarrow> handler_kept k' k'' \<Longrightarrow> handler_kept k k''"
  using advances_trans [of k k' k''] by (simp add: handler_kept_def)

lemma handler_kept_same:
  assumes "same_sched k k'" "klevel k' = klevel k" "inHandler (interrupt k') = inHandler (interrupt k)"
    "running k' = running k" "now k' = now k" "pending (interrupt k') = pending (interrupt k)"
  shows "handler_kept k k'"
  using assms core_cong [OF assms(1)] conts_cong [OF assms(1)] advances_same [OF assms(1)]
  by (simp add: handler_kept_def due_count_def pending_ok_def)

lemma Schedule_kept:
  assumes "Schedule h fromNow typ k = Inr k'"
  shows "handler_kept k k'"
proof -
  have k': "k' = set_int (\<lambda>i. i\<lparr>pending := seq_SortedInsert (pending i) \<lparr>handler = h, when_due = now k + fromNow,
      itype = typ\<rparr> (now k + fromNow)\<rparr>) k" and "fromNow > 0"
    using assms by (auto simp: Schedule_def Let_def elim!: bindR_InrE)
  have s: "same_sched k k'" by (simp add: k')
  show ?thesis
    using core_cong [OF s] conts_cong [OF s] advances_same [OF s] \<open>fromNow > 0\<close>
    by (auto simp: handler_kept_def k' set_int_def due_count_def filter_SortedInsert intro!: SortedInsert_pending_ok)
qed

lemma Semaphore_V_kept:
  assumes "Semaphore_V s k = Inr k'" "klevel k = IntOff"
  shows "handler_kept k k'"
proof -
  have e: "inHandler (interrupt k') = inHandler (interrupt k) \<and> klevel k' = klevel k \<and> running k' = running k \<and>
      stats k' = stats k \<and> pending (interrupt k') = pending (interrupt k)"
    using assms by (auto simp: Semaphore_V_def SetLevel_off ChangeLevel_def set_int_def store_defs ReadyToRun_def
        Let_def elim!: bindR_InrE split: option.splits prod.splits)
  moreover have "core b k'" "conts_ok k \<Longrightarrow> conts_ok k'" if "core b k" for b
    using Semaphore_V_core [OF that assms(1)] by simp_all
  moreover have "conts_ok k'" if c: "conts_ok k"
  proof -
    have "currentThread k' = currentThread k \<and> (\<forall>u th'. threads k' u = Some th' \<longrightarrow>
        (\<exists>th. threads k u = Some th \<and> stack th' = stack th \<and> continuation th' = continuation th))"
      using assms by (auto simp: Semaphore_V_def SetLevel_off ChangeLevel_def set_int_def store_defs ReadyToRun_def
        Let_def elim!: bindR_InrE split: option.splits prod.splits if_splits)
    then show ?thesis using conts_ok_keep [OF c] by blast
  qed
  moreover have "advances k k'" by (rule advances_Semaphore_V [OF assms(1)])
  ultimately show ?thesis by (simp add: handler_kept_def due_count_def pending_ok_def)
qed


text \<open>The three ways \<open>CheckIfDue\<close> can return: nothing is pending, the first interrupt is put back
  because it is not due (or is the timer of an otherwise idle machine), or it fires.\<close>

lemma CheckIfDue_cases:
  assumes d: "CheckIfDue call adv k = Inr (fired, k')"
  obtains (empty) "klevel k = IntOff" "pending (interrupt k) = []" "fired = False" "k' = k"
    | (later) p w rest k1 where "klevel k = IntOff" "pending (interrupt k) = (p, w) # rest" "fired = False"
        "same_sched k k1" "interrupt k1 = interrupt k" "running k1 = running k" "now k \<le> now k1"
        "\<not> adv \<longrightarrow> now k1 = now k" "k' = set_int (\<lambda>i. i\<lparr>pending := seq_SortedInsert rest p w\<rparr>) k1"
        "w > now k1 \<or> istatus (interrupt k) = IdleMode"
    | (fire) p w rest k1 where "klevel k = IntOff" "pending (interrupt k) = (p, w) # rest" "fired = True"
        "same_sched k k1" "interrupt k1 = interrupt k" "running k1 = running k" "now k \<le> now k1"
        "\<not> adv \<longrightarrow> now k1 = now k \<and> w \<le> now k"
        "invoke call (handler p) (set_int (\<lambda>i. i\<lparr>pending := rest\<rparr>) k1) = Inr k'"
proof (cases "pending (interrupt k)")
  case Nil
  then show thesis using d empty by (auto simp: CheckIfDue_def elim!: bindR_InrE)
next
  case (Cons a rest)
  obtain p w where a: "a = (p, w)" by (cases a)
  have l: "klevel k = IntOff" using d by (auto simp: CheckIfDue_def elim!: bindR_InrE)
  let ?k1 = "if w > now k then k\<lparr>stats := (stats k)\<lparr>idleTicks := idleTicks (stats k) + (w - now k), totalTicks := w\<rparr>\<rparr> else k"
  have s1: "same_sched k ?k1" "interrupt ?k1 = interrupt k" "running ?k1 = running k" "now k \<le> now ?k1" by auto
  show thesis
    using d Cons a l later [OF l _ _ s1] fire [OF l _ _ s1] later [of p w rest k]
    by (auto simp: CheckIfDue_def Let_def elim!: bindR_InrE split: if_splits)
qed


section \<open>The contract of interrupt handlers\<close>

locale interrupt_handlers =
  fixes call :: "'h \<Rightarrow> ('h, 'c, 'd) Kernel \<Rightarrow> ('h, 'c, 'd) Kernel res"
  assumes call_kept: "call h k = Inr k' \<Longrightarrow> klevel k = IntOff \<Longrightarrow> inHandler (interrupt k) \<Longrightarrow> handler_kept k k'"
begin

lemma invoke_kept:
  assumes i: "invoke call h k = Inr k'" and l: "klevel k = IntOff" "\<not> inHandler (interrupt k)"
  shows "handler_kept k k'"
proof -
  obtain k1 k2 where f: "finish_load k = Inr k1"
    and c: "call h (set_int (\<lambda>i. i\<lparr>inHandler := True, istatus := SystemMode\<rparr>) k1) = Inr k2"
    and k': "k' = set_int (\<lambda>i. i\<lparr>istatus := istatus (interrupt k), inHandler := False\<rparr>) k2"
    using i by (auto simp: invoke_def Let_def elim!: bindR_InrE)
  have s: "same_sched k k1 \<and> interrupt k1 = interrupt k \<and> running k1 = running k \<and> stats k1 = stats k"
    using f by (auto simp: finish_load_def elim!: bindR_InrE split: option.splits)
  let ?a = "set_int (\<lambda>i. i\<lparr>inHandler := True, istatus := SystemMode\<rparr>) k1"
  have a: "same_sched k ?a" using s same_sched_trans same_sched_updates(3) by blast
  have kept: "handler_kept ?a k2" using call_kept [OF c] s l by (simp add: set_int_def)
  have e: "klevel ?a = klevel k" "running ?a = running k" "stats ?a = stats k" "pending (interrupt ?a) = pending (interrupt k)"
    using s by (simp_all add: set_int_def)
  have b: "same_sched k2 k'" "klevel k' = klevel k2" "running k' = running k2" "stats k' = stats k2"
    "pending (interrupt k') = pending (interrupt k2)" "\<not> inHandler (interrupt k')"
    by (simp_all add: k') (simp_all add: set_int_def)
  show ?thesis
    using kept core_cong [OF a] conts_cong [OF a] core_cong [OF b(1)] conts_cong [OF b(1)] b(2-6) e l
      advances_trans [OF advances_same [OF a] advances_trans [OF _ advances_same [OF b(1)]]]
    unfolding handler_kept_def due_count_def pending_ok_def by auto
qed

lemma CheckIfDue_kept:
  assumes d: "CheckIfDue call adv k = Inr (fired, k')" and l: "\<not> inHandler (interrupt k)" and p: "pending_ok (interrupt k)"
  shows "klevel k = IntOff" "klevel k' = IntOff" "\<not> inHandler (interrupt k')" "running k' = running k"
    "pending_ok (interrupt k')" "core b k \<Longrightarrow> core b k'" "conts_ok k \<Longrightarrow> conts_ok k'" "now k \<le> now k'"
    "\<not> adv \<Longrightarrow> now k' = now k" "\<not> adv \<Longrightarrow> fired \<Longrightarrow> due_count k = Suc (due_count k')"
    "\<not> fired \<Longrightarrow> istatus (interrupt k) \<noteq> IdleMode \<Longrightarrow> due_count k' = 0" "advances k k'"
proof -
  show l0: "klevel k = IntOff" using d by (auto simp: CheckIfDue_def elim!: bindR_InrE)
  from d have "klevel k' = IntOff \<and> \<not> inHandler (interrupt k') \<and> running k' = running k \<and> pending_ok (interrupt k') \<and>
    (core b k \<longrightarrow> core b k') \<and> (conts_ok k \<longrightarrow> conts_ok k') \<and> now k \<le> now k' \<and> (\<not> adv \<longrightarrow> now k' = now k) \<and>
    (\<not> adv \<and> fired \<longrightarrow> due_count k = Suc (due_count k')) \<and>
    (\<not> fired \<and> istatus (interrupt k) \<noteq> IdleMode \<longrightarrow> due_count k' = 0) \<and> advances k k'"
  proof (cases rule: CheckIfDue_cases)
    case empty
    then show ?thesis using l l0 p by (simp add: due_count_def)
  next
    case (later q w rest k1)
    have s: "same_sched k k'" using later(4) same_sched_trans same_sched_updates(3) unfolding later(9) by blast
    have "pending_ok (interrupt k')"
      using p later(2,5) SortedInsert_pending_ok [of "(interrupt k)\<lparr>pending := rest\<rparr>" q w]
      by (auto simp: later(9) set_int_def pending_ok_def)
    moreover have "due_count k' = 0" if "istatus (interrupt k) \<noteq> IdleMode"
      using that later(2,5,10) p by (auto simp: later(9) set_int_def due_count_def filter_SortedInsert pending_ok_def
          filter_empty_conv)
    ultimately show ?thesis
      using core_cong [OF s] conts_cong [OF s] advances_same [OF s] later l l0 by (simp add: set_int_def)
  next
    case (fire q w rest k1)
    let ?k2 = "set_int (\<lambda>i. i\<lparr>pending := rest\<rparr>) k1"
    have s: "same_sched k ?k2" using fire(4) same_sched_trans same_sched_updates(3) by blast
    have K: "handler_kept ?k2 k'" by (rule invoke_kept [OF fire(9)]) (use l l0 fire(5) in \<open>simp_all add: set_int_def\<close>)
    have "pending_ok (interrupt ?k2)" using p fire(2,5) by (auto simp: set_int_def pending_ok_def)
    moreover have "due_count k = Suc (due_count ?k2)" if "\<not> adv"
      using fire(2,5,8) that by (auto simp: due_count_def set_int_def)
    ultimately show ?thesis
      using K core_cong [OF s] conts_cong [OF s] advances_trans [OF advances_same [OF s]] fire(3,5-8) l l0
      by (auto simp: handler_kept_def set_int_def)
  qed
  then show "klevel k' = IntOff" "\<not> inHandler (interrupt k')" "running k' = running k"
    "pending_ok (interrupt k')" "core b k \<Longrightarrow> core b k'" "conts_ok k \<Longrightarrow> conts_ok k'" "now k \<le> now k'"
    "\<not> adv \<Longrightarrow> now k' = now k" "\<not> adv \<Longrightarrow> fired \<Longrightarrow> due_count k = Suc (due_count k')"
    "\<not> fired \<Longrightarrow> istatus (interrupt k) \<noteq> IdleMode \<Longrightarrow> due_count k' = 0" "advances k k'"
    by blast+
qed

end


section \<open>Stacks\<close>

lemma sleeping_simps [simp]:
  "list_all plain fs \<Longrightarrow> \<not> sleeping fs" "resumed fs \<Longrightarrow> \<not> sleeping fs" "\<not> sleeping (Run_return # fs)"
  "\<not> sleeping (OneTick_loop st # fs)" "sleeping (Sleep_loop # fs) \<longleftrightarrow> resumed fs"
  "sleeping (Idle_loop # Sleep_loop # fs) \<longleftrightarrow> resumed fs"
  by (auto simp: sleeping_def)

lemma resumed_plain [simp]: "list_all plain fs \<Longrightarrow> resumed fs"
  by (cases fs rule: resumed.cases) auto

lemma stack_ok_plain:
  assumes "stack_ok l (f # fs)" "plain f"
  shows "list_all plain fs" "\<not> sleeping (f # fs)"
  using assms by (cases f; auto simp: stack_ok_def sleeping_def)+

lemma stack_ok_tops:
  "stack_ok l (Run_return # fs) \<Longrightarrow> l = IntOff \<and> resumed fs"
  "stack_ok l (Sleep_loop # fs) \<Longrightarrow> l = IntOff \<and> resumed fs"
  "stack_ok l (Idle_loop # fs) \<Longrightarrow> l = IntOff \<and> (\<exists>gs. fs = Sleep_loop # gs \<and> resumed gs)"
  "stack_ok l (OneTick_loop st # fs) \<Longrightarrow> l = IntOff \<and> list_all plain fs"
  "stack_ok l (P_loop s old # fs) \<Longrightarrow> l = IntOff \<and> list_all plain fs"
  by (auto simp: stack_ok_def sleeping_def)

lemma stack_okI:
  "list_all plain fs \<Longrightarrow> stack_ok l fs" "resumed fs \<Longrightarrow> stack_ok IntOff fs" "sleeping fs \<Longrightarrow> stack_ok IntOff fs"
  "list_all plain fs \<Longrightarrow> stack_ok IntOff (OneTick_loop st # fs)"
  by (auto simp: stack_ok_def)

lemma saved_stack: "saved_ok fs \<Longrightarrow> stack_ok IntOff fs \<and> \<not> sleeping fs"
  by (auto simp: saved_ok_def stack_ok_def)

text \<open>The state between two calls, before the level of interrupts is set again.\<close>

definition calm :: "('h, 'c, 'd) Kernel \<Rightarrow> bool" where
  "calm k \<longleftrightarrow> core False k \<and> conts_ok k \<and> list_all plain (running k) \<and> pending_ok (interrupt k) \<and>
     \<not> inHandler (interrupt k)"

lemma calm_kernel_ok: "calm k \<Longrightarrow> kernel_ok k"
  by (simp add: calm_def kernel_ok_def stack_okI)

lemma kernel_ok_calm:
  assumes "kernel_ok k" "running k = f # fs" "plain f"
  shows "calm (k\<lparr>running := fs\<rparr>)"
proof -
  have "stack_ok (klevel k) (f # fs)" using assms(1,2) by (simp add: kernel_ok_def)
  from stack_ok_plain [OF this assms(3)] show ?thesis
    using assms(1,2) core_cong [of k "k\<lparr>running := fs\<rparr>"] conts_cong [of k "k\<lparr>running := fs\<rparr>"]
    by (simp add: kernel_ok_def calm_def)
qed

lemma calm_same:
  assumes "calm k" "same_sched k k'" "list_all plain (running k')" "pending_ok (interrupt k')" "\<not> inHandler (interrupt k')"
  shows "calm k'"
  using assms core_cong [OF assms(2)] conts_cong [OF assms(2)] by (simp add: calm_def)

lemma OneTick_ok: "calm k \<Longrightarrow> kernel_ok (OneTick k)"
  using core_cong [of k "OneTick k"] conts_cong [of k "OneTick k"]
  by (simp add: calm_def kernel_ok_def)
    (auto simp: OneTick_def push_def ChangeLevel_def set_int_def Let_def stack_okI pending_ok_def)

lemma SetLevel_ok:
  assumes "calm k" "SetLevel l k = Inr k'"
  shows "kernel_ok k'"
proof -
  note L = SetLevel_cases [OF assms(2)]
  have p: "pending_ok (interrupt k')" using assms(1) L(6) by (simp add: calm_def pending_ok_def)
  have "(\<exists>st. running k' = OneTick_loop st # running k \<and> klevel k' = IntOff) \<or> running k' = running k"
    using L(3) by blast
  then have "stack_ok (klevel k') (running k') \<and> \<not> sleeping (running k')"
    using assms(1) by (auto simp: calm_def stack_okI)
  then show ?thesis
    using assms(1) L(2) p core_cong [OF L(1)] conts_cong [OF L(1)] by (simp add: calm_def kernel_ok_def)
qed

lemma OneTick_end_ok:
  assumes "calm k"
  shows "kernel_ok (OneTick_end st k)"
proof -
  have "list_all plain (running (OneTick_end st k))" "pending_ok (interrupt (OneTick_end st k))"
    "\<not> inHandler (interrupt (OneTick_end st k))"
    using assms by (auto simp: calm_def OneTick_end_def push_def ChangeLevel_def set_int_def Let_def pending_ok_def)
  from calm_same [OF assms _ this] show ?thesis by (simp add: calm_kernel_ok)
qed


section \<open>Every step keeps the invariant\<close>

lemma current_not_ready:
  assumes "core False k"
  shows "currentThread k \<notin> set (ready_ids k)" "currentThread k \<notin> set (waiting k s)" "threadToBeDestroyed k \<noteq> Some (currentThread k)"
proof -
  note D = coreD [OF assms]
  have "status_of k (currentThread k) = Some RUNNING" using D(7) by simp
  then show "currentThread k \<notin> set (ready_ids k)" "currentThread k \<notin> set (waiting k s)"
    "threadToBeDestroyed k \<noteq> Some (currentThread k)"
    using D(2) [of "currentThread k"] D(4) [where s = s and t = "currentThread k"] D(8) [of "currentThread k"] by auto
qed

lemma dispatch_ok:
  assumes c: "core True k" "conts_ok k" "resumed (running k)" and l: "klevel k = IntOff" "pending_ok (interrupt k)"
      "\<not> inHandler (interrupt k)"
    and n: "readyList k = (t, i) # rest" and r: "Scheduler_Run t (k\<lparr>readyList := rest\<rparr>) = Inr k'"
  shows "kernel_ok k'"
proof -
  let ?k1 = "k\<lparr>readyList := rest\<rparr>"
  note R = remove_head_core [OF c(1) n]
  have t: "status_of ?k1 t = Some READY" "t \<notin> set (ready_ids ?k1)"
    using R(2,3) by (simp_all add: status_of_def)
  have "conts_ok ?k1" "resumed (running ?k1)" using c(2,3) by (simp_all add: conts_ok_def)
  note C = Scheduler_Run_conts [OF this t(1) r]
  have "t = currentThread ?k1 \<or> (\<exists>th. threads ?k1 t = Some th)" using t(1) by (auto simp: status_of_def)
  note F = Scheduler_Run_fields(10) [OF r this]
  show ?thesis
    using Scheduler_Run_core [OF R(1) t r] C saved_stack [OF C(2)] l F by (simp add: kernel_ok_def)
qed

lemma Yield_ok:
  assumes k: "calm k" and y: "Yield k = Inr k'"
  shows "kernel_ok k'"
proof -
  let ?k0 = "ChangeLevel IntOff k"
  have k0: "calm ?k0"
    by (rule calm_same [OF k]) (use k in \<open>simp_all add: calm_def\<close>, simp_all add: ChangeLevel_def set_int_def pending_ok_def)
  show ?thesis
  proof (cases "readyList ?k0")
    case Nil
    then have "SetLevel (klevel k) (?k0\<lparr>readyList := []\<rparr>) = Inr k'" "?k0\<lparr>readyList := []\<rparr> = ?k0"
      using y by (simp_all add: Yield_def SetLevel_off FindNextToRun_def seq_Remove_def Let_def)
    with SetLevel_ok [OF k0] show ?thesis by simp
  next
    case (Cons a rest)
    obtain t i where a: "a = (t, i)" by (cases a)
    have cf: "core False ?k0" using k0 by (simp add: calm_def)
    have ch: "readyList ?k0 = (t, i) # rest" using Cons a by simp
    let ?k1 = "?k0\<lparr>readyList := rest\<rparr>"
    obtain k3 where r: "ReadyToRun (currentThread ?k1) ?k1 = Inr k3"
      and run: "Scheduler_Run t (push [SetLevel_call (klevel k)] k3) = Inr k'"
      using y ch by (auto simp: Yield_def SetLevel_off FindNextToRun_def seq_Remove_def Let_def elim!: bindR_InrE)
    note R = remove_head_core [OF cf ch]
    note N = current_not_ready [OF R(1)] and F = ReadyToRun_fields [OF r]
    have "core True k3" using ReadyToRun_core [OF R(1) N r] by simp
    moreover have ne: "t \<noteq> currentThread ?k0" using R(2) coreD(7) [OF cf] by auto
    moreover have "conts_ok k3" by (rule conts_ok_keep [OF _ F(4,13)]) (use k0 in \<open>simp add: calm_def conts_ok_def\<close>)
    moreover have "interrupt k3 = interrupt ?k0" "running k3 = running ?k0" using F(10,11) by simp_all
    moreover let ?k4 = "push [SetLevel_call (klevel k)] k3"
    have s4: "same_sched k3 ?k4" by simp
    ultimately have K: "core True ?k4" "conts_ok ?k4" "resumed (running ?k4)" "klevel ?k4 = IntOff"
      "pending_ok (interrupt ?k4)" "\<not> inHandler (interrupt ?k4)"
      using k0 core_cong [OF s4] conts_cong [OF s4] by (simp_all add: calm_def push_def) (simp_all add: ChangeLevel_def set_int_def)
    have t: "status_of ?k4 t = Some READY" "t \<notin> set (ready_ids ?k4)"
      using F(1,3) R(2,3) ne by (simp_all add: push_def status_of_def)
    note C = Scheduler_Run_conts [OF K(2,3) t(1) run]
    have "t = currentThread ?k4 \<or> (\<exists>th. threads ?k4 t = Some th)" using t(1) by (auto simp: status_of_def)
    note F4 = Scheduler_Run_fields(10) [OF run this]
    show ?thesis
      using Scheduler_Run_core [OF K(1) t run] C saved_stack [OF C(2)] K(4-6) F4 by (simp add: kernel_ok_def)
  qed
qed

lemma Thread_delete_core:
  assumes c: "core False k" and t: "threadToBeDestroyed k = Some t" and d: "Thread_delete t k = Inr k1"
  shows "core False (k1\<lparr>threadToBeDestroyed := None\<rparr>)" "conts_ok k \<Longrightarrow> conts_ok (k1\<lparr>threadToBeDestroyed := None\<rparr>)"
proof -
  note D = coreD [OF c]
  have k1: "k1 = k\<lparr>threads := (threads k)(t := None)\<rparr>" and ne: "t \<noteq> currentThread k"
    using d by (auto simp: Thread_delete_def elim!: bindR_InrE)
  let ?k = "k1\<lparr>threadToBeDestroyed := None\<rparr>"
  have st: "status_of ?k u = (if u = t then None else status_of k u)" for u by (simp add: k1 status_of_def)
  have w: "waiting ?k = waiting k" by (simp add: k1 waiting_def fun_eq_iff)
  have cur: "currentThread k1 = currentThread k" by (simp add: k1)
  have nr: "t \<notin> set (ready_ids k)" using D(2) [of t] D(8) [OF t] by auto
  show "core False ?k"
  proof (rule coreI)
    show "status_of ?k u = Some READY" if "u \<in> set (ready_ids ?k)" for u
    proof -
      from that have "u \<in> set (ready_ids k)" by (simp add: k1)
      with nr D(2) [OF this] show ?thesis by (cases "u = t") (simp_all add: st)
    qed
    show "status_of ?k u = Some BLOCKED" if "u \<in> set (waiting ?k s)" for u s
      using D(4) [where s = s and t = u] D(9) [OF t] that by (auto simp: st w)
    show "u = currentThread ?k" if "status_of ?k u = Some RUNNING" for u
      using that D(6) [of u] by (simp add: st cur split: if_splits)
    show "status_of ?k (currentThread ?k) \<in> (if False then {Some BLOCKED, Some READY} else {Some RUNNING})"
      using D(7) ne by (simp add: st cur)
    show "stack th = None \<or> stack th = Some STACK_FENCEPOST" if "threads ?k u = Some th" for u th
      using that D(12) [of u th] by (simp add: k1 split: if_splits)
  qed (use D(1,3,5,10,11) in \<open>simp_all add: w\<close>, simp_all add: k1)
  show "conts_ok ?k" if "conts_ok k" using that by (simp add: conts_ok_def k1)
qed

lemma Run_end_ok:
  assumes c: "core False k" "conts_ok k" "resumed (running k)" and l: "klevel k = IntOff" "pending_ok (interrupt k)"
      "\<not> inHandler (interrupt k)"
    and r: "Run_end k = Inr k'"
  shows "kernel_ok k'"
proof -
  obtain k1 where k1: "(case threadToBeDestroyed k of None \<Rightarrow> Inr k
      | Some t \<Rightarrow> bindR (Thread_delete t k) (\<lambda>k1. Inr (k1\<lparr>threadToBeDestroyed := None\<rparr>))) = Inr k1"
    and k': "same_sched k1 k' \<and> interrupt k' = interrupt k1 \<and> running k' = running k1"
    using r unfolding Run_end_def by (force elim!: bindR_InrE split: option.splits)
  have i: "interrupt k1 = interrupt k" "running k1 = running k"
    using k1 by (auto simp: Thread_delete_def elim!: bindR_InrE split: option.splits)
  have "core False k1" "conts_ok k1"
    using k1 c Thread_delete_core [OF c(1)] by (auto elim!: bindR_InrE split: option.splits)
  then show ?thesis
    using core_cong [of k1 k'] conts_cong [of k1 k'] k' c(3) l i by (simp add: kernel_ok_def stack_okI)
qed

lemma put_sem_value:
  assumes "core b k" "sems k s = Some sem" "queue sem' = queue sem"
  shows "core b (put_sem s sem' k)"
proof -
  let ?k1 = "put_sem s sem' k"
  note D = coreD [OF assms(1)]
  have w: "waiting ?k1 = waiting k" "status_of ?k1 = status_of k"
    using assms(2,3) by (auto simp: waiting_def status_of_def put_sem_def fun_eq_iff)
  have e: "readyList ?k1 = readyList k" "currentThread ?k1 = currentThread k" "nextThread ?k1 = nextThread k"
    "threadToBeDestroyed ?k1 = threadToBeDestroyed k" "threads ?k1 = threads k" "nextSem ?k1 = nextSem k"
    by (simp_all add: put_sem_def)
  have n: "\<And>u. u \<ge> nextSem k \<Longrightarrow> sems ?k1 u = None" using D(11) assms(2) by (auto simp: put_sem_def)
  show ?thesis unfolding core_def w e using assms(1) n by (simp only: core_def) blast
qed

lemma Semaphore_P_test_ok:
  assumes k: "calm k" "klevel k = IntOff" and p: "Semaphore_P_test s old k = Inr k'"
  shows "kernel_ok k'"
proof -
  obtain sem where s: "sems k s = Some sem"
    using p by (auto simp: Semaphore_P_test_def get_sem_def elim!: bindR_InrE split: option.splits)
  show ?thesis
  proof (cases "semValue sem = 0")
    case True
    then have b: "Sleep (push [P_loop s old] (put_sem s (sem\<lparr>queue := seq_Append (queue sem) (currentThread k)\<rparr>) k)) = Inr k'"
      using p s by (simp add: Semaphore_P_test_def get_sem_def)
    have c: "core False k" using k(1) by (simp add: calm_def)
    note B = Semaphore_P_test_block [OF c s b]
    show ?thesis using B(1,2) k by (simp add: kernel_ok_def B(3,4) calm_def stack_okI)
  next
    case False
    let ?k1 = "put_sem s (sem\<lparr>semValue := semValue sem - 1\<rparr>) k"
    have "core False ?k1" using put_sem_value [of False k s sem] k(1) s by (simp add: calm_def)
    then have "calm ?k1" using k(1) by (simp add: calm_def put_sem_def conts_ok_def)
    moreover have "SetLevel old ?k1 = Inr k'" using p s False by (simp add: Semaphore_P_test_def get_sem_def)
    ultimately show ?thesis by (rule SetLevel_ok)
  qed
qed

lemma calm_level: "calm k \<Longrightarrow> calm (ChangeLevel l k)"
  by (rule calm_same [of k]) (simp_all add: calm_def, simp_all add: ChangeLevel_def set_int_def pending_ok_def)

lemma calm_status: "calm k \<Longrightarrow> calm (setMachineStatus st k)"
  by (rule calm_same [of k]) (simp_all add: calm_def, simp_all add: setMachineStatus_def set_int_def pending_ok_def)

lemma Semaphore_P_ok: "calm k \<Longrightarrow> Semaphore_P s k = Inr k' \<Longrightarrow> kernel_ok k'"
  using Semaphore_P_test_ok [OF calm_level [of k IntOff]]
  by (auto simp: Semaphore_P_def SetLevel_off ChangeLevel_def set_int_def)

lemma Semaphore_V_ok:
  assumes "calm k" "Semaphore_V s k = Inr k'"
  shows "kernel_ok k'"
proof -
  have c: "core False k" using assms(1) by (simp add: calm_def)
  note V = Semaphore_V_core [OF c assms(2)]
  have "(\<exists>st. running k' = OneTick_loop st # running k \<and> klevel k' = IntOff) \<or> running k' = running k"
    using V(4) by blast
  then have "stack_ok (klevel k') (running k') \<and> \<not> sleeping (running k')"
    using assms(1) by (auto simp: calm_def stack_okI)
  moreover have "pending (interrupt k') = pending (interrupt k)"
    using assms(2) by (auto simp: Semaphore_V_def SetLevel_off store_defs ReadyToRun_def Let_def elim!: bindR_InrE
        dest!: SetLevel_cases(6) split: option.splits prod.splits) (simp_all add: ChangeLevel_def set_int_def)
  ultimately show ?thesis
    using V(1-3) assms(1) by (simp add: kernel_ok_def calm_def pending_ok_def)
qed

lemma Finish_ok:
  assumes "calm k" "Finish k = Inr k'"
  shows "kernel_ok k'"
proof -
  have c: "core False k" using assms(1) by (simp add: calm_def)
  note F = Finish_core [OF c assms(2)]
  have "pending (interrupt k') = pending (interrupt k)"
    using assms(2) by (auto simp: Finish_def SetLevel_off Sleep_def store_defs push_def ChangeLevel_def set_int_def
        elim!: bindR_InrE split: option.splits)
  then show ?thesis using F assms(1) by (simp add: kernel_ok_def calm_def pending_ok_def stack_okI)
qed


context interrupt_handlers
begin

lemma kernel_step_ok_tick:
  assumes "kernel_ok k" "running k = OneTick_loop st # fs" "CheckIfDue call False (k\<lparr>running := fs\<rparr>) = Inr (fired, k1)"
  shows "kernel_ok (if fired then push [OneTick_loop st] k1 else OneTick_end st k1)"
proof -
  have st: "klevel k = IntOff" "list_all plain fs"
    using stack_ok_tops(4) [of "klevel k" st fs] assms(1,2) by (simp_all add: kernel_ok_def)
  let ?k = "k\<lparr>running := fs\<rparr>"
  have "\<not> inHandler (interrupt ?k)" "pending_ok (interrupt ?k)" using assms(1) by (simp_all add: kernel_ok_def)
  note C = CheckIfDue_kept [OF assms(3) this]
  have "core False ?k" "conts_ok ?k"
    using assms(1,2) core_cong [of k ?k] conts_cong [of k ?k] by (simp_all add: kernel_ok_def)
  then have c: "core False k1" "conts_ok k1" using C(6,7) by blast+
  then have "calm k1" using C(3-5) st(2) by (simp add: calm_def)
  moreover have "kernel_ok (push [OneTick_loop st] k1)"
    using c C(2-5) st core_cong [of k1 "push [OneTick_loop st] k1"] conts_cong [of k1 "push [OneTick_loop st] k1"]
    by (simp add: kernel_ok_def) (simp add: push_def stack_okI)
  ultimately show ?thesis by (simp add: OneTick_end_ok)
qed

end


section \<open>The contract of client code\<close>

locale kernel_client = interrupt_handlers call
  for call :: "'h \<Rightarrow> ('h, 'c, 'd) Kernel \<Rightarrow> ('h, 'c, 'd) Kernel res" +
  fixes code :: "'c \<Rightarrow> ('h, 'c, 'd) Kernel \<Rightarrow> ('h, 'c, 'd) Kernel res"
  assumes code_ok: "calm k \<Longrightarrow> code c k = Inr k' \<Longrightarrow> kernel_ok k'"
    and code_advances: "calm k \<Longrightarrow> code c k = Inr k' \<Longrightarrow> advances k k'"
begin

lemma sleep_loop_ok:
  assumes k: "kernel_ok k" "running k = Sleep_loop # fs" and s: "frame_step call code Sleep_loop (k\<lparr>running := fs\<rparr>) = Inr k'"
  shows "kernel_ok k'"
proof -
  let ?k = "k\<lparr>running := fs\<rparr>"
  have st: "klevel k = IntOff" "resumed fs"
    using stack_ok_tops(2) [of "klevel k" fs] k by (simp_all add: kernel_ok_def)
  have c: "core True ?k" "conts_ok ?k" "pending_ok (interrupt ?k)" "\<not> inHandler (interrupt ?k)"
    using k st core_cong [of k ?k] conts_cong [of k ?k] by (simp_all add: kernel_ok_def)
  show ?thesis
  proof (cases "readyList k")
    case Nil
    let ?i = "setMachineStatus IdleMode (push [Sleep_loop] (?k\<lparr>readyList := []\<rparr>))"
    have e: "?k\<lparr>readyList := []\<rparr> = ?k" using Nil by simp
    obtain k1 where d: "CheckIfDue call True ?i = Inr (True, k1)" and k': "k' = push [Idle_loop] k1"
      using s Nil by (auto simp: frame_step_def FindNextToRun_def seq_Remove_def Idle_def Halt_def
          elim!: bindR_InrE split: if_splits)
    have ss: "same_sched ?k ?i" unfolding e using same_sched_trans [OF same_sched_updates(2) same_sched_updates(5)] by blast
    have i: "\<not> inHandler (interrupt ?i)" "pending_ok (interrupt ?i)"
      using c(3,4) by (simp_all add: setMachineStatus_def set_int_def push_def pending_ok_def)
    note C = CheckIfDue_kept [OF d i]
    have "core True k1" "conts_ok k1" using C(6,7) c(1,2) core_cong [OF ss] conts_cong [OF ss] by blast+
    moreover have "running k1 = Sleep_loop # fs" using C(4) by (simp add: setMachineStatus_def set_int_def push_def)
    ultimately show ?thesis
      using C(2,3,5) st core_cong [of k1 k'] conts_cong [of k1 k']
      by (simp add: kernel_ok_def k') (simp add: push_def stack_okI)
  next
    case (Cons a rest)
    obtain t i where a: "a = (t, i)" by (cases a)
    have "Scheduler_Run t (?k\<lparr>readyList := rest\<rparr>) = Inr k'"
      using s Cons a by (simp add: frame_step_def FindNextToRun_def seq_Remove_def)
    with dispatch_ok [OF c(1,2) _ _ c(3,4), of t i rest] show ?thesis using st Cons a by simp
  qed
qed

lemma idle_loop_ok:
  assumes k: "kernel_ok k" "running k = Idle_loop # fs" and d: "CheckIfDue call False (k\<lparr>running := fs\<rparr>) = Inr (fired, k1)"
  shows "kernel_ok (if fired then push [Idle_loop] k1 else Idle_end k1)"
proof -
  let ?k = "k\<lparr>running := fs\<rparr>"
  obtain gs where st: "klevel k = IntOff" "fs = Sleep_loop # gs" "resumed gs"
    using stack_ok_tops(3) [of "klevel k" fs] k by (auto simp: kernel_ok_def)
  have c: "core True ?k" "conts_ok ?k" "pending_ok (interrupt ?k)" "\<not> inHandler (interrupt ?k)"
    using k st core_cong [of k ?k] conts_cong [of k ?k] by (simp_all add: kernel_ok_def)
  note C = CheckIfDue_kept [OF d c(4,3)]
  have c1: "core True k1" "conts_ok k1" "running k1 = Sleep_loop # gs" using C(4,6,7) c(1,2) st(2) by simp_all
  have "kernel_ok (push [Idle_loop] k1)"
    using c1 C(2,3,5) st core_cong [of k1 "push [Idle_loop] k1"] conts_cong [of k1 "push [Idle_loop] k1"]
    by (simp add: kernel_ok_def) (simp add: push_def stack_okI)
  moreover have "kernel_ok (Idle_end k1)"
    using c1 C(2,3,5) st core_cong [of k1 "Idle_end k1"] conts_cong [of k1 "Idle_end k1"]
    by (simp add: kernel_ok_def) (simp add: Idle_end_def set_int_def stack_okI pending_ok_def)
  ultimately show ?thesis by simp
qed

lemma kernel_step_ok:
  assumes k: "kernel_ok k" and s: "kernel_step call code k = Inr k'"
  shows "kernel_ok k'"
proof -
  obtain f fs where r: "running k = f # fs" and step: "frame_step call code f (k\<lparr>running := fs\<rparr>) = Inr k'"
    using s by (auto simp: kernel_step_def split: list.splits)
  let ?k = "k\<lparr>running := fs\<rparr>"
  have calm: "calm ?k" if "plain f" using kernel_ok_calm [OF k r that] .
  have stk: "stack_ok (klevel k) (f # fs)" using k r by (simp add: kernel_ok_def)
  show ?thesis
  proof (cases f)
    case (OneTick_loop st)
    then show ?thesis using kernel_step_ok_tick [OF k, of st fs] r step by (auto simp: frame_step_def elim!: bindR_InrE)
  next
    case (setStatus_call st)
    then have "calm k'" using step calm_status [OF calm] by (auto simp: frame_step_def)
    then show ?thesis by (rule calm_kernel_ok)
  next
    case Run_return
    have "core False ?k" "conts_ok ?k" using k r Run_return core_cong [of k ?k] conts_cong [of k ?k] by (simp_all add: kernel_ok_def)
    with Run_return k stk stack_ok_tops(1) [of "klevel k" fs] show ?thesis
      using Run_end_ok [of ?k k'] step by (simp add: frame_step_def kernel_ok_def)
  next
    case Sleep_loop
    then show ?thesis using sleep_loop_ok [OF k] r step by simp
  next
    case Idle_loop
    then show ?thesis using idle_loop_ok [OF k, of fs] r step by (auto simp: frame_step_def elim!: bindR_InrE)
  next
    case (P_loop sm old)
    have "calm ?k"
      using k r P_loop stk stack_ok_tops(5) [of "klevel k" sm old fs] core_cong [of k ?k] conts_cong [of k ?k]
      by (simp add: kernel_ok_def calm_def)
    moreover have "klevel ?k = IntOff" using stk P_loop stack_ok_tops(5) [of "klevel k" sm old fs] by simp
    ultimately show ?thesis using Semaphore_P_test_ok [of ?k sm old k'] step P_loop by (simp add: frame_step_def)
  qed (use calm step in \<open>auto simp: frame_step_def intro: SetLevel_ok OneTick_ok Yield_ok Semaphore_P_ok Semaphore_V_ok
      Finish_ok code_ok\<close>)
qed

end

end
