(* ===== verification/Kernel_Run.thy ===== *)
theory Kernel_Run
  imports Kernel_Correct
begin

text \<open>
  Runs of the kernel: the invariant in every reachable state, the order in which ready threads are
  dispatched, the transparency of context switches for user programs, and the end of the loop
  that fires interrupts.
\<close>


section \<open>Runs\<close>

text \<open>\<open>kernel_run call code k ks k'\<close>: the kernel runs from \<open>k\<close> to \<open>k'\<close>; \<open>ks\<close> are the states it leaves.\<close>

inductive kernel_run :: "('h \<Rightarrow> ('h, 'c, 'd) Kernel \<Rightarrow> ('h, 'c, 'd) Kernel res) \<Rightarrow>
    ('c \<Rightarrow> ('h, 'c, 'd) Kernel \<Rightarrow> ('h, 'c, 'd) Kernel res) \<Rightarrow>
    ('h, 'c, 'd) Kernel \<Rightarrow> ('h, 'c, 'd) Kernel list \<Rightarrow> ('h, 'c, 'd) Kernel \<Rightarrow> bool" for call code where
  run_refl: "kernel_run call code k [] k"
| run_step: "kernel_step call code k = Inr k1 \<Longrightarrow> kernel_run call code k1 ks k' \<Longrightarrow>
    kernel_run call code k (k # ks) k'"

inductive_cases kernel_run_NilE: "kernel_run call code k [] k'"
inductive_cases kernel_run_ConsE: "kernel_run call code k (k0 # ks) k'"

definition user_same :: "('h, 'c, 'd) Kernel \<Rightarrow> ('h, 'c, 'd) Kernel \<Rightarrow> nat \<Rightarrow> bool" where
  "user_same k k' t \<longleftrightarrow> (\<forall>th. threads k t = Some th \<longrightarrow>
     (\<exists>th'. threads k' t = Some th' \<and> userRegisters th' = userRegisters th \<and> space th' = space th))"

lemma user_same_trans: "user_same k k' t \<Longrightarrow> user_same k' k'' t \<Longrightarrow> user_same k k'' t"
  unfolding user_same_def by metis

lemma advances_user: "advances k k' \<Longrightarrow> t \<noteq> currentThread k \<Longrightarrow> user_same k k' t"
  by (simp add: advances_def user_same_def)

text \<open>A step stays in the current thread, or dispatches the first ready one.\<close>

definition stays :: "('h, 'c, 'd) Kernel \<Rightarrow> ('h, 'c, 'd) Kernel \<Rightarrow> bool" where
  "stays k k' \<longleftrightarrow> currentThread k' = currentThread k \<and> (\<exists>xs. readyList k' = readyList k @ xs) \<and>
     (\<forall>t. t \<noteq> currentThread k \<longrightarrow> threadToBeDestroyed k \<noteq> Some t \<longrightarrow> user_same k k' t)"

definition dispatches :: "('h, 'c, 'd) Kernel \<Rightarrow> ('h, 'c, 'd) Kernel \<Rightarrow> bool" where
  "dispatches k k' \<longleftrightarrow> (\<exists>i rest xs. readyList k = (currentThread k', i) # rest \<and> readyList k' = rest @ xs) \<and>
     machine k' = machine k \<and> (\<forall>t. t \<noteq> currentThread k \<longrightarrow> user_same k k' t) \<and>
     (\<exists>th th1 th'. threads k (currentThread k) = Some th \<and> save_user k th = Inr th1 \<and>
        threads k' (currentThread k) = Some th' \<and> userRegisters th' = userRegisters th1 \<and> space th' = space th1)"

lemma stays_advances: "advances k k' \<Longrightarrow> stays k k'"
  by (auto simp: stays_def advances_def user_same_def)

lemma same_sched_running: "same_sched (k\<lparr>running := fs\<rparr>) k' \<Longrightarrow> same_sched k k'"
  by (simp add: same_sched_def)

lemma advances_running: "advances (k\<lparr>running := fs\<rparr>) k' \<Longrightarrow> advances k k'"
  by (simp add: advances_def)

lemma advances_Sleep: "Sleep k = Inr k' \<Longrightarrow> advances k k'"
  by (auto simp: Sleep_def store_defs push_def advances_def elim!: bindR_InrE split: option.splits)

lemma advances_put_sem: "advances k (put_sem s sem k)"
  by (simp add: advances_def put_sem_def)

lemma advances_P_test: "Semaphore_P_test s old k = Inr k' \<Longrightarrow> advances k k'"
  using advances_trans [OF advances_trans [OF advances_put_sem advances_same [OF same_sched_updates(2)]] advances_Sleep]
    advances_trans [OF advances_put_sem advances_same [OF SetLevel_cases(1)]]
  unfolding Semaphore_P_test_def by (auto elim!: bindR_InrE split: if_splits)

lemma advances_Finish: "Finish k = Inr k' \<Longrightarrow> advances k k'"
  using advances_Sleep [of "(ChangeLevel IntOff k)\<lparr>threadToBeDestroyed := Some (currentThread k)\<rparr>" k']
  by (auto simp: Finish_def SetLevel_off ChangeLevel_def set_int_def advances_def)

lemma save_user_cong:
  assumes "save_user k1 th = Inr th1" "machine k1 = machine k" "userRegisters th = userRegisters th0" "space th = space th0"
  shows "\<exists>th2. save_user k th0 = Inr th2 \<and> userRegisters th1 = userRegisters th2 \<and> space th1 = space th2"
  using assms by (auto simp: save_user_def SaveUserState_def split: option.splits)

lemma dispatches_Run:
  assumes r: "Scheduler_Run t k1 = Inr k'" and "readyList k = (t, i) # rest" "readyList k1 = rest @ xs"
    and m: "machine k1 = machine k" "currentThread k1 = currentThread k" "\<And>u. user_same k k1 u"
    and th: "threads k t \<noteq> None" "threads k (currentThread k) = Some th0"
  shows "dispatches k k'"
proof -
  obtain th where th1: "threads k1 (currentThread k) = Some th" "userRegisters th = userRegisters th0" "space th = space th0"
    using m(3) [of "currentThread k"] th(2) by (auto simp: user_same_def)
  obtain ths where sv: "save_user k1 th = Inr ths"
    using r th1(1) m(2) by (auto simp: Scheduler_Run_def store_defs Let_def elim!: bindR_InrE)
  from save_user_cong [OF sv m(1) th1(2,3)] obtain th2 where
    s2: "save_user k th0 = Inr th2" "userRegisters ths = userRegisters th2" "space ths = space th2" by blast
  have k': "currentThread k' = t" "readyList k' = readyList k1" "machine k' = machine k1"
    "\<exists>th'. threads k' (currentThread k) = Some th' \<and> userRegisters th' = userRegisters ths \<and> space th' = space ths"
    using r th1(1) sv m(2) by (auto simp: Scheduler_Run_def store_defs Let_def elim!: bindR_InrE split: option.splits if_splits)
  moreover have "user_same k k' u" if "u \<noteq> currentThread k" for u
  proof -
    have "user_same k1 k' u"
      using r that m(2) by (auto simp: user_same_def Scheduler_Run_def store_defs Let_def elim!: bindR_InrE split: option.splits if_splits)
    with user_same_trans [OF m(3)] show ?thesis by blast
  qed
  ultimately show ?thesis using assms(2,3) m(1) th(2) s2 unfolding dispatches_def by metis
qed

lemma Yield_switch:
  assumes k: "calm k" and n: "readyList k \<noteq> []" and y: "Yield k = Inr k'"
  shows "dispatches k k'"
proof -
  obtain a rest where Cons: "readyList k = a # rest" using n by (cases "readyList k") auto
  obtain t i where a: "a = (t, i)" by (cases a)
  let ?k1 = "(ChangeLevel IntOff k)\<lparr>readyList := rest\<rparr>"
  obtain k3 where r: "ReadyToRun (currentThread k) ?k1 = Inr k3"
    and run: "Scheduler_Run t (push [SetLevel_call (klevel k)] k3) = Inr k'"
    using y Cons a by (auto simp: Yield_def SetLevel_off FindNextToRun_def seq_Remove_def Let_def ChangeLevel_def set_int_def
        elim!: bindR_InrE)
  let ?k4 = "push [SetLevel_call (klevel k)] k3"
  have core: "core False k" using k by (simp add: calm_def)
  have "status_of k t = Some READY" using coreD(2) [OF core, of t] Cons a by simp
  moreover obtain th0 where "threads k (currentThread k) = Some th0" using coreD(7) [OF core] by (auto simp: status_of_def)
  moreover have "readyList ?k4 = rest @ [(currentThread k, 0)]" "machine ?k4 = machine k" "currentThread ?k4 = currentThread k"
    using r by (auto simp: ReadyToRun_def seq_Append_def store_defs push_def ChangeLevel_def set_int_def split: option.splits)
  moreover have "user_same k ?k4 u" for u
    using r by (auto simp: user_same_def ReadyToRun_def store_defs push_def ChangeLevel_def set_int_def split: option.splits if_splits)
  ultimately show ?thesis
    using dispatches_Run [OF run] Cons a by (auto simp: status_of_def)
qed

lemma Run_end_stays: "Run_end k = Inr k' \<Longrightarrow> stays k k'"
  by (auto simp: Run_end_def Thread_delete_def stays_def user_same_def elim!: bindR_InrE split: option.splits)

text \<open>The states in which the next step gives the processor to the first ready thread.\<close>

definition switches_now :: "('h, 'c, 'd) Kernel \<Rightarrow> bool" where
  "switches_now k \<longleftrightarrow> readyList k \<noteq> [] \<and>
     (case running k of Yield_call # _ \<Rightarrow> True | Sleep_loop # _ \<Rightarrow> True | _ \<Rightarrow> False)"

lemma Yield_no_switch: "readyList k = [] \<Longrightarrow> Yield k = Inr k' \<Longrightarrow> advances k k'"
  using same_sched_trans [OF same_sched_updates(4) SetLevel_cases(1)] advances_same
  by (auto simp: Yield_def SetLevel_off FindNextToRun_def seq_Remove_def Let_def ChangeLevel_def set_int_def
      elim!: bindR_InrE) (auto dest!: SetLevel_cases(1) simp: advances_def same_sched_def)

context kernel_client
begin

lemma plain_step_advances:
  assumes "kernel_ok k" "running k = f # fs" "frame_step call code f (k\<lparr>running := fs\<rparr>) = Inr k'"
    "f \<noteq> Yield_call" "f \<noteq> Sleep_loop" "f \<noteq> Run_return"
  shows "advances k k'"
proof -
  let ?k = "k\<lparr>running := fs\<rparr>"
  have h: "\<not> inHandler (interrupt ?k)" "pending_ok (interrupt ?k)" using assms(1) by (simp_all add: kernel_ok_def)
  have due: "advances ?k k1" if "CheckIfDue call False ?k = Inr (b, k1)" for b k1
    using CheckIfDue_kept(12) [OF that h] .
  have "advances ?k k'"
  proof (cases f)
    case (OneTick_loop st)
    then show ?thesis using assms(3) due advances_trans advances_same [OF same_sched_updates(2)]
        advances_same [OF same_sched_updates(7)]
      by (auto simp: frame_step_def elim!: bindR_InrE split: if_splits) blast+
  next
    case Idle_loop
    then show ?thesis using assms(3) due advances_trans advances_same [OF same_sched_updates(2)]
        advances_same [OF same_sched_updates(8)]
      by (auto simp: frame_step_def elim!: bindR_InrE split: if_splits) blast+
  next
    case (Code c)
    then show ?thesis
      using assms(3) code_advances [OF kernel_ok_calm [OF assms(1,2)]] by (simp add: frame_step_def)
  next
    case (P_call s)
    then show ?thesis
      using assms(3) advances_trans [OF advances_same [OF same_sched_updates(4)] advances_P_test]
      by (auto simp: frame_step_def Semaphore_P_def SetLevel_off Let_def)
  qed (use assms(3-6) in \<open>auto simp: frame_step_def intro: advances_same SetLevel_cases(1) advances_Finish
      advances_P_test advances_Semaphore_V\<close>)
  then show ?thesis by (rule advances_running)
qed

lemma Sleep_loop_switch:
  assumes k: "kernel_ok k" "running k = Sleep_loop # fs" "readyList k \<noteq> []"
    and s: "frame_step call code Sleep_loop (k\<lparr>running := fs\<rparr>) = Inr k'"
  shows "dispatches k k'"
proof -
  obtain t i rest where r: "readyList k = (t, i) # rest" using k(3) by (cases "readyList k") auto
  have st: "resumed fs" using stack_ok_tops(2) [of "klevel k" fs] k by (simp add: kernel_ok_def)
  have c: "core True k" using k st by (simp add: kernel_ok_def)
  have "Scheduler_Run t (k\<lparr>running := fs, readyList := rest\<rparr>) = Inr k'"
    using s r by (simp add: frame_step_def FindNextToRun_def seq_Remove_def)
  moreover have "threads k t \<noteq> None" using coreD(2) [OF c, of t] r by (auto simp: status_of_def)
  moreover obtain th0 where "threads k (currentThread k) = Some th0" using coreD(7) [OF c] by (auto simp: status_of_def)
  ultimately show ?thesis
    using dispatches_Run [of t "k\<lparr>running := fs, readyList := rest\<rparr>" k' k i rest "[]"] r by (simp add: user_same_def)
qed

lemma Sleep_loop_idle:
  assumes k: "kernel_ok k" "running k = Sleep_loop # fs" "readyList k = []"
    and s: "frame_step call code Sleep_loop (k\<lparr>running := fs\<rparr>) = Inr k'"
  shows "advances k k'"
proof -
  let ?k = "push [Sleep_loop] (k\<lparr>running := fs, readyList := []\<rparr>)"
  let ?i = "setMachineStatus IdleMode ?k"
  obtain k1 where d: "CheckIfDue call True ?i = Inr (True, k1)" and k': "k' = push [Idle_loop] k1"
    using s k(3) by (auto simp: frame_step_def FindNextToRun_def seq_Remove_def Idle_def Halt_def
        elim!: bindR_InrE split: if_splits)
  have "\<not> inHandler (interrupt ?i)" "pending_ok (interrupt ?i)"
    using k(1) by (simp_all add: setMachineStatus_def set_int_def push_def pending_ok_def kernel_ok_def)
  note C = CheckIfDue_kept(12) [OF d this]
  have "advances k ?i" using k(3) by (simp add: advances_def setMachineStatus_def set_int_def push_def)
  also note C
  also have "advances k1 k'" by (simp add: k' advances_same)
  finally show ?thesis .
qed

lemma kernel_step_cases:
  assumes k: "kernel_ok k" and s: "kernel_step call code k = Inr k'"
  shows "if switches_now k then dispatches k k' else stays k k'"
proof -
  obtain f fs where r: "running k = f # fs" and step: "frame_step call code f (k\<lparr>running := fs\<rparr>) = Inr k'"
    using s by (auto simp: kernel_step_def split: list.splits)
  consider "f = Yield_call" | "f = Sleep_loop" | "f = Run_return" | "f \<noteq> Yield_call" "f \<noteq> Sleep_loop" "f \<noteq> Run_return" by blast
  then show ?thesis
  proof cases
    case 1
    have c: "calm (k\<lparr>running := fs\<rparr>)" using kernel_ok_calm [OF k r] 1 by simp
    have y: "Yield (k\<lparr>running := fs\<rparr>) = Inr k'" using step 1 by (simp add: frame_step_def)
    have eq: "dispatches (k\<lparr>running := fs\<rparr>) k' = dispatches k k'"
      by (simp add: dispatches_def user_same_def save_user_def cong: option.case_cong)
    show ?thesis
      using 1 r Yield_switch [OF c _ y] Yield_no_switch [OF _ y] advances_running [of fs k k'] eq
      by (auto simp: switches_now_def intro: stays_advances)
  next
    case 2
    then show ?thesis
      using r Sleep_loop_switch [OF k, of fs k'] Sleep_loop_idle [OF k, of fs k'] step
      by (auto simp: switches_now_def intro: stays_advances)
  next
    case 3
    then have "stays (k\<lparr>running := fs\<rparr>) k'" using step Run_end_stays by (simp add: frame_step_def)
    then show ?thesis using 3 r by (simp add: switches_now_def stays_def user_same_def)
  next
    case 4
    then show ?thesis
      using plain_step_advances [OF k r step] r by (auto simp: switches_now_def intro: stays_advances split: frame.splits)
  qed
qed

lemma kernel_run_ok: "kernel_run call code k ks k' \<Longrightarrow> kernel_ok k \<Longrightarrow> kernel_ok k' \<and> (\<forall>q\<in>set ks. kernel_ok q)"
  by (induction rule: kernel_run.induct) (auto dest: kernel_step_ok)

text \<open>Ready threads are dispatched in the order of the list: the thread at position \<open>n\<close> runs after
  exactly \<open>n\<close> others have been dispatched.\<close>

lemma ready_position:
  assumes "kernel_run call code k ks k'" "kernel_ok k" "n < length (readyList k)" "ready_ids k ! n = t"
    "length (filter switches_now ks) \<le> n"
  shows "n - length (filter switches_now ks) < length (readyList k') \<and>
    ready_ids k' ! (n - length (filter switches_now ks)) = t"
  using assms
proof (induction arbitrary: n rule: kernel_run.induct)
  case (run_step k k1 ks k')
  note S = kernel_step_cases [OF run_step.prems(1) run_step.hyps(1)] and ok1 = kernel_step_ok [OF run_step.prems(1) run_step.hyps(1)]
  show ?case
  proof (cases "switches_now k")
    case False
    with S obtain xs where "readyList k1 = readyList k @ xs" by (auto simp: stays_def)
    with run_step.IH [OF ok1, of n] run_step.prems False show ?thesis by (simp add: nth_append)
  next
    case True
    with S obtain t' i rest xs where x: "readyList k = (t', i) # rest" "readyList k1 = rest @ xs" by (auto simp: dispatches_def)
    from True run_step.prems(4) obtain m where "n = Suc m" by (cases n) auto
    with run_step.IH [OF ok1, of m] run_step.prems True x show ?thesis by (simp add: nth_append)
  qed
qed simp

lemma ready_fifo:
  assumes "kernel_run call code k ks k'" "kernel_ok k" "n < length (readyList k)" "ready_ids k ! n = t"
    "length (filter switches_now ks) = n" "switches_now k'" "kernel_step call code k' = Inr k''"
  shows "currentThread k'' = t"
proof -
  have "readyList k' \<noteq> [] \<and> ready_ids k' ! 0 = t" using ready_position [OF assms(1-4)] assms(5) by auto
  moreover have "dispatches k' k''"
    using kernel_step_cases [OF _ assms(7)] kernel_run_ok [OF assms(1,2)] assms(6) by simp
  ultimately show ?thesis by (auto simp: dispatches_def)
qed

text \<open>A user program does not notice that it lost the processor.\<close>

lemma run_user_same:
  assumes "kernel_run call code k ks k'" "kernel_ok k"
    "\<forall>q\<in>set ks. currentThread q \<noteq> t \<and> threadToBeDestroyed q \<noteq> Some t"
  shows "user_same k k' t"
  using assms
proof (induction rule: kernel_run.induct)
  case (run_refl k)
  then show ?case by (simp add: user_same_def)
next
  case (run_step k k1 ks k')
  have "user_same k k1 t"
    using kernel_step_cases [OF run_step.prems(1) run_step.hyps(1)] run_step.prems(2)
    by (auto simp: stays_def dispatches_def split: if_splits)
  moreover have "user_same k1 k' t"
    using run_step.IH kernel_step_ok [OF run_step.prems(1) run_step.hyps(1)] run_step.prems(2) by simp
  ultimately show ?case by (rule user_same_trans)
qed

lemma switch_transparent:
  assumes k0: "kernel_ok k0" "switches_now k0" "kernel_step call code k0 = Inr k1"
    and th: "threads k0 (currentThread k0) = Some th" "space th = Some sp" "machine k0 = Some m"
      "pageTable m = Some pt" "pageTableSize m = numPages sp"
    and run: "kernel_run call code k1 ks k2"
      "\<forall>q\<in>set ks. currentThread q \<noteq> currentThread k0 \<and> threadToBeDestroyed q \<noteq> Some (currentThread k0)"
    and ret: "currentThread k2 = currentThread k0" "running k2 = Run_return # fs" "kernel_step call code k2 = Inr k3"
      "threadToBeDestroyed k2 \<noteq> Some (currentThread k0)"
  shows "\<exists>m'. machine k3 = Some m' \<and> (\<forall>i<NumTotalRegs. registers m' i = registers m i) \<and>
    pageTable m' = Some pt \<and> pageTableSize m' = pageTableSize m"
proof -
  let ?t = "currentThread k0"
  obtain th1 where t1: "threads k1 ?t = Some th1" "\<forall>i<NumTotalRegs. userRegisters th1 i = registers m i"
    "space th1 = Some (share_table m sp)"
    using kernel_step_cases [OF k0(1,3)] k0(2) th by (auto simp: dispatches_def save_user_def SaveUserState_def)
  obtain th2 where t2: "threads k2 ?t = Some th2" "userRegisters th2 = userRegisters th1" "space th2 = space th1"
    using run_user_same [OF run(1) kernel_step_ok [OF k0(1,3)] run(2)] t1(1) by (auto simp: user_same_def)
  have "Run_end (k2\<lparr>running := fs\<rparr>) = Inr k3" using ret(2,3) by (simp add: kernel_step_def frame_step_def)
  then obtain m2 where "machine k3 = Some (RestoreState (share_table m sp) (RestoreUserState th2 m2))"
    using t2 t1(3) ret(1,4) by (auto simp: Run_end_def Thread_delete_def get_thread_def elim!: bindR_InrE split: option.splits)
  then show ?thesis
    using t1(2) t2(2) th(4,5) by (simp add: RestoreState_def RestoreUserState_def share_table_def)
qed

end

end
