(* ===== verification/Kernel_Progress.thy ===== *)
theory Kernel_Progress
  imports Kernel_Run
begin

text \<open>
  The kernel does not fail: none of the assertions of the thread system can fail, a step of
  the kernel either succeeds or halts the idle machine, and the loop that fires the due interrupts
  ends.  What keeps the handlers from failing is a parameter of the contract (\<open>live\<close>).
\<close>

definition load_in_range :: "('h, 'c, 'd) Kernel \<Rightarrow> bool" where
  "load_in_range k \<longleftrightarrow> (case machine k of None \<Rightarrow> True
     | Some m \<Rightarrow> 0 \<le> sint (registers m LoadReg) \<and> sint (registers m LoadReg) < int NumTotalRegs)"

lemma finish_load_total: "load_in_range k \<Longrightarrow> \<exists>k'. finish_load k = Inr k' \<and> load_in_range k' \<and> (\<exists>m. k' = k\<lparr>machine := m\<rparr>)"
proof (cases "machine k")
  case None
  assume "load_in_range k"
  moreover have "k = k\<lparr>machine := machine k\<rparr>" by simp
  then have "\<exists>m. k = k\<lparr>machine := m\<rparr>" by (rule exI)
  ultimately show ?thesis using None by (simp add: finish_load_def)
next
  case (Some m)
  assume "load_in_range k"
  then show ?thesis using Some by (auto simp: finish_load_def load_in_range_def DelayedLoad_def set_reg_def reg_defs Let_def)
qed

lemma CheckIfDue_istatus:
  "CheckIfDue call adv k = Inr (fired, k') \<Longrightarrow> istatus (interrupt k') = istatus (interrupt k)"
  by (elim CheckIfDue_cases) (auto simp: invoke_def set_int_def Let_def elim!: bindR_InrE)

lemma CheckIfDue_not_fired:
  assumes "CheckIfDue call False k = Inr (False, k')" "pending_ok (interrupt k)" "istatus (interrupt k) \<noteq> IdleMode"
  shows "due_count k = 0"
  using assms(1)
proof (cases rule: CheckIfDue_cases)
  case (later p w rest k1)
  then show ?thesis using assms(2,3) by (auto simp: due_count_def pending_ok_def filter_empty_conv)
qed (simp_all add: due_count_def)

text \<open>A handler is live when nothing it relies on can make it fail; every pending interrupt has to
  have a live handler.\<close>

definition alive :: "('h \<Rightarrow> (nat \<rightharpoonup> Semaphore) \<Rightarrow> 'd \<Rightarrow> bool) \<Rightarrow> ('h, 'c, 'd) Kernel \<Rightarrow> bool" where
  "alive live k \<longleftrightarrow> (\<forall>(p, w)\<in>set (pending (interrupt k)). live (handler p) (sems k) (dev k))"

locale live_handlers = interrupt_handlers call
  for call :: "'h \<Rightarrow> ('h, 'c, 'd) Kernel \<Rightarrow> ('h, 'c, 'd) Kernel res" +
  fixes live :: "'h \<Rightarrow> (nat \<rightharpoonup> Semaphore) \<Rightarrow> 'd \<Rightarrow> bool"
  assumes call_total: "live h (sems k) (dev k) \<Longrightarrow> alive live k \<Longrightarrow> core b k \<Longrightarrow> klevel k = IntOff \<Longrightarrow>
      inHandler (interrupt k) \<Longrightarrow> \<exists>k'. call h k = Inr k' \<and> alive live k' \<and> machine k' = machine k"
begin

lemma invoke_total:
  assumes "live h (sems k) (dev k)" "alive live k" "core b k" "klevel k = IntOff" "load_in_range k"
  shows "\<exists>k'. invoke call h k = Inr k' \<and> alive live k' \<and> load_in_range k'"
proof -
  obtain k1 m where f: "finish_load k = Inr k1" "load_in_range k1" "k1 = k\<lparr>machine := m\<rparr>" using finish_load_total [OF assms(5)] by blast
  let ?a = "set_int (\<lambda>i. i\<lparr>inHandler := True, istatus := SystemMode\<rparr>) k1"
  have "same_sched k ?a" unfolding f(3) using same_sched_trans [OF same_sched_updates(10) same_sched_updates(3)] by blast
  then have "core b ?a" using core_cong assms(3) by blast
  moreover have "live h (sems ?a) (dev ?a)" "alive live ?a" "klevel ?a = IntOff" "inHandler (interrupt ?a)"
    using assms(1,2,4) by (simp_all add: f(3) set_int_def alive_def)
  ultimately obtain k2 where "call h ?a = Inr k2" "alive live k2" "machine k2 = machine ?a"
    using call_total by blast
  then show ?thesis using f(1,2) by (simp add: invoke_def Let_def load_in_range_def set_int_def alive_def)
qed

lemma CheckIfDue_total:
  assumes "alive live k" "core b k" "klevel k = IntOff" "load_in_range k"
  shows "\<exists>fired k'. CheckIfDue call adv k = Inr (fired, k') \<and> alive live k' \<and> load_in_range k'"
proof (cases "pending (interrupt k)")
  case Nil
  then show ?thesis using assms by (auto simp: CheckIfDue_def)
next
  case (Cons a rest)
  obtain p w where a: "a = (p, w)" by (cases a)
  let ?k1 = "if w > now k then k\<lparr>stats := (stats k)\<lparr>idleTicks := idleTicks (stats k) + (w - now k), totalTicks := w\<rparr>\<rparr> else k"
  let ?k2 = "set_int (\<lambda>i. i\<lparr>pending := rest\<rparr>) ?k1"
  have "same_sched k ?k2" by (simp add: same_sched_def set_int_def)
  then have c: "core b ?k2" using core_cong assms(2) by blast
  have "sems ?k2 = sems k" "dev ?k2 = dev k" "klevel ?k2 = klevel k" "machine ?k2 = machine k" by (simp_all add: set_int_def)
  then have l: "live (handler p) (sems ?k2) (dev ?k2)" "alive live ?k2" "klevel ?k2 = IntOff" "load_in_range ?k2"
    using assms Cons a by (simp_all add: load_in_range_def alive_def set_int_def)
  from invoke_total [OF l(1,2) c l(3,4)] obtain k' where
    i: "invoke call (handler p) ?k2 = Inr k'" "alive live k'" "load_in_range k'" by blast
  let ?put = "\<lambda>k. set_int (\<lambda>i. i\<lparr>pending := seq_SortedInsert rest p w\<rparr>) k"
  have "alive live (?put ?k1) \<and> load_in_range (?put ?k1)" "alive live (?put k) \<and> load_in_range (?put k)"
    using assms(1,4) Cons a by (simp_all add: set_int_def load_in_range_def alive_def set_SortedInsert)
  with i Cons a assms(3) show ?thesis unfolding CheckIfDue_def Let_def by (auto split: if_splits)
qed

text \<open>The loop of \<open>OneTick\<close> fires every interrupt that is due, one per step, and ends.\<close>

lemma tick_loop_ends:
  assumes "alive live k" "kernel_ok k" "load_in_range k" "running k = OneTick_loop st # fs"
    "istatus (interrupt k) \<noteq> IdleMode"
  shows "\<exists>ks k'. kernel_run call code k ks k' \<and> length ks = Suc (due_count k) \<and> due_count k' = 0 \<and> now k' = now k \<and>
    klevel k' = IntOn \<and> (running k' = fs \<or> running k' = Yield_call # setStatus_call st # fs)"
  using assms
proof (induction "due_count k" arbitrary: k rule: less_induct)
  case less
  let ?k = "k\<lparr>running := fs\<rparr>"
  have ok: "klevel ?k = IntOff" "list_all plain fs" "core False ?k" "\<not> inHandler (interrupt ?k)" "pending_ok (interrupt ?k)"
    using less.prems(2,4) stack_ok_tops(4) [of "klevel k" st fs] core_cong [of k ?k] by (auto simp: kernel_ok_def)
  obtain fired k1 where d: "CheckIfDue call False ?k = Inr (fired, k1)" "alive live k1" "load_in_range k1"
    using CheckIfDue_total [of ?k False False] ok less.prems(1,3) by (auto simp: load_in_range_def alive_def)
  note C = CheckIfDue_kept [OF d(1) ok(4,5)]
  have dc: "due_count ?k = due_count k" "now ?k = now k" "istatus (interrupt ?k) = istatus (interrupt k)" by (simp_all add: due_count_def)
  have ist: "istatus (interrupt k1) = istatus (interrupt k)" using CheckIfDue_istatus [OF d(1)] by simp
  show ?case
  proof (cases fired)
    case True
    let ?k2 = "push [OneTick_loop st] k1"
    have step: "kernel_step call code k = Inr ?k2" using less.prems(4) d(1) True by (simp add: kernel_step_def frame_step_def)
    have ok2: "kernel_ok ?k2" using kernel_step_ok_tick [OF less.prems(2,4) d(1)] True by simp
    have e: "due_count ?k2 = due_count k1" "now ?k2 = now k1" "running ?k2 = OneTick_loop st # fs"
      using C(4) by (simp_all add: push_def due_count_def)
    have "due_count ?k2 < due_count k" using C(10) True dc(1) e(1) by simp
    from less.hyps [OF this _ ok2] d(2,3) e less.prems(5) ist obtain ks k' where
      "kernel_run call code ?k2 ks k'" "length ks = Suc (due_count ?k2)" "due_count k' = 0" "now k' = now ?k2"
      "klevel k' = IntOn" "running k' = fs \<or> running k' = Yield_call # setStatus_call st # fs"
      by (auto simp: push_def load_in_range_def alive_def)
    with kernel_run.run_step [where call = call and code = code, OF step] C(9,10) True dc e show ?thesis
      by (intro exI [of _ "k # ks"] exI [of _ k']) simp
  next
    case False
    have step: "kernel_step call code k = Inr (OneTick_end st k1)"
      using less.prems(4) d(1) False by (simp add: kernel_step_def frame_step_def)
    have "due_count (OneTick_end st k1) = due_count k1" "now (OneTick_end st k1) = now k1" "klevel (OneTick_end st k1) = IntOn"
      "running (OneTick_end st k1) = fs \<or> running (OneTick_end st k1) = Yield_call # setStatus_call st # fs"
      using C(4) by (auto simp: OneTick_end_def push_def set_int_def ChangeLevel_def due_count_def Let_def)
    moreover have "due_count k1 = 0" using C(11) False less.prems(5) by simp
    moreover have "due_count k = 0" using CheckIfDue_not_fired [of call ?k k1] d(1) False ok(5) less.prems(5) dc by simp
    ultimately show ?thesis
      using kernel_run.run_step [where call = call and code = code, OF step kernel_run.run_refl] C(9) dc by fastforce
  qed
qed

end


section \<open>No assertion fails\<close>

text \<open>A frame is safe when the semaphores it names are alive; client code answers for itself.\<close>

fun frame_safe :: "('h, 'c, 'd) Kernel \<Rightarrow> 'c frame \<Rightarrow> bool" where
  "frame_safe k (P_call s) \<longleftrightarrow> sems k s \<noteq> None"
| "frame_safe k (P_loop s _) \<longleftrightarrow> sems k s \<noteq> None"
| "frame_safe k (V_call s) \<longleftrightarrow> sems k s \<noteq> None"
| "frame_safe k (Code _) \<longleftrightarrow> False"
| "frame_safe k _ \<longleftrightarrow> True"

lemma SetLevel_total: "\<not> inHandler (interrupt k) \<Longrightarrow> \<exists>k'. SetLevel l k = Inr k'"
  by (simp add: SetLevel_def Let_def)

lemma setStatus_total: "threads k t \<noteq> None \<Longrightarrow> \<exists>k'. setStatus t st k = Inr k'"
  by (auto simp: setStatus_def get_thread_def)

lemma ReadyToRun_total: "threads k t \<noteq> None \<Longrightarrow> \<exists>k'. ReadyToRun t k = Inr k'"
  by (auto simp: ReadyToRun_def setStatus_def get_thread_def)

lemma core_exists:
  assumes "core b k"
  shows "threads k (currentThread k) \<noteq> None" "t \<in> set (ready_ids k) \<Longrightarrow> threads k t \<noteq> None"
    "t \<in> set (waiting k s) \<Longrightarrow> threads k t \<noteq> None"
  using coreD(2) [OF assms, of t] coreD(4) [OF assms, where s = s and t = t] coreD(7) [OF assms]
  by (auto simp: status_of_def split: if_splits)

lemma Scheduler_Run_total:
  assumes "threads k (currentThread k) = Some th" "stack th = None \<or> stack th = Some STACK_FENCEPOST"
    "threads k t \<noteq> None" "machine k \<noteq> None"
  shows "\<exists>k'. Scheduler_Run t k = Inr k'"
proof -
  obtain th1 where s: "save_user k th = Inr th1" using assms(4) by (cases "space th") (auto simp: save_user_def)
  then have "CheckOverflow th1 = Inr ()" using save_user_fields [OF s] assms(2) by (auto simp: CheckOverflow_def)
  with s assms(1,3) show ?thesis by (auto simp: Scheduler_Run_def store_defs Let_def)
qed

lemma Yield_total:
  assumes k: "calm k" "machine k \<noteq> None"
  shows "\<exists>k'. Yield k = Inr k'"
proof -
  let ?k0 = "ChangeLevel IntOff k"
  have h: "\<not> inHandler (interrupt ?k0)" using k(1) by (simp add: calm_def ChangeLevel_def set_int_def)
  have c: "core False ?k0" using calm_level [OF k(1), of IntOff] by (simp add: calm_def)
  show ?thesis
  proof (cases "readyList ?k0")
    case Nil
    then show ?thesis
      using SetLevel_total [of "?k0\<lparr>readyList := []\<rparr>"] h by (auto simp: Yield_def SetLevel_off FindNextToRun_def seq_Remove_def Let_def)
  next
    case (Cons a rest)
    obtain t i where a: "a = (t, i)" by (cases a)
    let ?k1 = "?k0\<lparr>readyList := rest\<rparr>"
    have ex: "threads ?k1 (currentThread ?k1) \<noteq> None" "threads ?k1 t \<noteq> None"
      using core_exists(1) [OF c] core_exists(2) [OF c, of t] Cons a by simp_all
    obtain k3 where r: "ReadyToRun (currentThread ?k1) ?k1 = Inr k3" using ReadyToRun_total [OF ex(1)] by blast
    note F = ReadyToRun_fields [OF r]
    obtain th where th: "threads k3 (currentThread k3) = Some th" using ex(1) F(9) [of "currentThread k3"] F(4) by auto
    then have "stack th = None \<or> stack th = Some STACK_FENCEPOST"
      using F(13) coreD(12) [OF c] by fastforce
    moreover have "threads k3 t \<noteq> None" using F(9) [of t] ex(2) by simp
    moreover have "machine k3 \<noteq> None" using r k(2)
      by (auto simp: ReadyToRun_def store_defs ChangeLevel_def set_int_def split: option.splits)
    ultimately obtain k' where "Scheduler_Run t (push [SetLevel_call (klevel k)] k3) = Inr k'"
      using Scheduler_Run_total [of "push [SetLevel_call (klevel k)] k3" th t] th by (auto simp: push_def)
    then show ?thesis
      using Cons a r by (auto simp: Yield_def SetLevel_off FindNextToRun_def seq_Remove_def Let_def)
  qed
qed

lemma Sleep_total: "klevel k = IntOff \<Longrightarrow> threads k (currentThread k) \<noteq> None \<Longrightarrow> \<exists>k'. Sleep k = Inr k'"
  by (auto simp: Sleep_def setStatus_def get_thread_def)

lemma P_test_total:
  assumes "calm k" "klevel k = IntOff" "sems k s \<noteq> None"
  shows "\<exists>k'. Semaphore_P_test s old k = Inr k'"
proof -
  obtain sem where s: "sems k s = Some sem" using assms(3) by blast
  have c: "core False k" "\<not> inHandler (interrupt k)" using assms(1) by (simp_all add: calm_def)
  have "\<exists>k'. Sleep (push [P_loop s old] (put_sem s q k)) = Inr k'" for q
    by (rule Sleep_total) (use assms(2) core_exists(1) [OF c(1)] in \<open>simp_all add: push_def put_sem_def\<close>)
  moreover have "\<exists>k'. SetLevel old (put_sem s q k) = Inr k'" for q
    by (rule SetLevel_total) (use c(2) in \<open>simp add: put_sem_def\<close>)
  ultimately show ?thesis using s by (simp add: Semaphore_P_test_def get_sem_def)
qed

lemma V_total:
  assumes c: "core b k" and i: "klevel k = IntOff \<or> \<not> inHandler (interrupt k)" and s: "sems k s = Some sem"
  shows "\<exists>k'. Semaphore_V s k = Inr k'"
proof -
  obtain t rest where r: "seq_Remove (queue sem) = (t, rest)" by (cases "seq_Remove (queue sem)")
  let ?k2 = "put_sem s (sem\<lparr>queue := rest, semValue := semValue sem + 1\<rparr>) (ChangeLevel IntOff k)"
  have "threads k th \<noteq> None" if "t = Some th" for th
  proof -
    have "th \<in> set (waiting k s)"
      using r that s by (cases "queue sem") (auto simp: seq_Remove_def waiting_def)
    then show ?thesis by (rule core_exists(3) [OF c])
  qed
  then obtain k3 where k3: "(case t of None \<Rightarrow> Inr ?k2 | Some th \<Rightarrow> ReadyToRun th ?k2) = Inr k3"
    using ReadyToRun_total [of ?k2] by (cases t) (auto simp: put_sem_def ChangeLevel_def set_int_def)
  have i3: "interrupt k3 = (interrupt k)\<lparr>level := IntOff\<rparr>"
    using k3 ReadyToRun_fields(10) by (cases t) (fastforce simp: put_sem_def ChangeLevel_def set_int_def)+
  have "\<exists>k'. SetLevel (klevel k) k3 = Inr k'"
    using i by (cases "klevel k") (auto simp: SetLevel_def Let_def i3)
  moreover have "get_sem (ChangeLevel IntOff k) s = Inr sem" using s by (simp add: get_sem_def ChangeLevel_def set_int_def)
  ultimately show ?thesis
    using r k3 by (auto simp: Semaphore_V_def SetLevel_off Let_def)
qed

lemma Run_end_total:
  assumes c: "core False k" and "machine k \<noteq> None"
  shows "\<exists>k'. Run_end k = Inr k'"
proof -
  obtain th where th: "threads k (currentThread k) = Some th" using core_exists(1) [OF c] by blast
  obtain m where m: "machine k = Some m" using assms(2) by blast
  show ?thesis
  proof (cases "threadToBeDestroyed k")
    case None
    then show ?thesis using th m by (cases "space th") (simp_all add: Run_end_def get_thread_def)
  next
    case (Some t)
    then have "threads k t \<noteq> None" "t \<noteq> currentThread k"
      using coreD(8) [OF c Some] current_not_ready(3) [OF c] by (auto simp: status_of_def)
    then show ?thesis
      using Some th m by (cases "space th") (auto simp: Run_end_def Thread_delete_def get_thread_def)
  qed
qed

lemma Finish_total:
  assumes c: "calm k"
  shows "\<exists>k'. Finish k = Inr k'"
proof -
  have "threads k (currentThread k) \<noteq> None" using core_exists(1) c by (auto simp: calm_def)
  then show ?thesis
    using Sleep_total [of "(ChangeLevel IntOff k)\<lparr>threadToBeDestroyed := Some (currentThread k)\<rparr>"]
    by (simp add: Finish_def SetLevel_off ChangeLevel_def set_int_def)
qed

lemma sleep_loop_total:
  assumes c: "core True k" and l: "klevel k = IntOff" and r: "running k = Sleep_loop # fs" and m: "machine k \<noteq> None"
    and chk: "\<And>q. same_sched k q \<Longrightarrow> klevel q = klevel k \<Longrightarrow> machine q = machine k \<Longrightarrow> dev q = dev k \<Longrightarrow>
      pending (interrupt q) = pending (interrupt k) \<Longrightarrow> \<exists>fired k'. CheckIfDue call True q = Inr (fired, k')"
  shows "(\<exists>k'. frame_step call code Sleep_loop (k\<lparr>running := fs\<rparr>) = Inr k') \<or>
    frame_step call code Sleep_loop (k\<lparr>running := fs\<rparr>) = Inl Halted"
proof (cases "readyList k")
  case Nil
  let ?q = "setMachineStatus IdleMode (push [Sleep_loop] (k\<lparr>running := fs, readyList := []\<rparr>))"
  have "same_sched k ?q" "klevel ?q = klevel k" "machine ?q = machine k" "dev ?q = dev k"
    "pending (interrupt ?q) = pending (interrupt k)"
    using Nil by (simp_all add: same_sched_def setMachineStatus_def set_int_def push_def)
  from chk [OF this] show ?thesis
    using Nil by (auto simp: frame_step_def FindNextToRun_def seq_Remove_def Idle_def Halt_def split: if_splits)
next
  case (Cons a rest)
  obtain t i where a: "a = (t, i)" by (cases a)
  let ?q = "k\<lparr>running := fs, readyList := rest\<rparr>"
  obtain th where th: "threads ?q (currentThread ?q) = Some th" using core_exists(1) [OF c] by auto
  have "stack th = None \<or> stack th = Some STACK_FENCEPOST" using coreD(12) [OF c] th by simp
  moreover have "threads ?q t \<noteq> None" using core_exists(2) [OF c, of t] Cons a by simp
  ultimately obtain k' where "Scheduler_Run t ?q = Inr k'" using Scheduler_Run_total [OF th] m by auto
  then show ?thesis using Cons a by (simp add: frame_step_def FindNextToRun_def seq_Remove_def)
qed

context live_handlers
begin

text \<open>A step of the kernel fails in one way only: the idle loop finds nothing to wait for.\<close>

lemma frame_total:
  assumes l: "alive live k" and k: "kernel_ok k" "load_in_range k" "machine k \<noteq> None"
    and r: "running k = f # fs" and s: "frame_safe k f"
  shows "(\<exists>k'. kernel_step call code k = Inr k') \<or> (f = Sleep_loop \<and> kernel_step call code k = Inl Halted)"
proof -
  let ?k = "k\<lparr>running := fs\<rparr>"
  have h: "\<not> inHandler (interrupt ?k)" using k(1) by (simp add: kernel_ok_def)
  have cm: "calm ?k" if "plain f" using kernel_ok_calm [OF k(1) r that] .
  have st: "stack_ok (klevel k) (f # fs)" and c: "core (sleeping (running k)) k" using k(1) r by (simp_all add: kernel_ok_def)
  have cc: "core b ?k = core b k" for b by (rule core_cong) simp
  have chk: "\<exists>fired k'. CheckIfDue call adv q = Inr (fired, k')"
    if "klevel k = IntOff" "same_sched k q" "klevel q = klevel k" "machine q = machine k" "dev q = dev k"
      "pending (interrupt q) = pending (interrupt k)" for q adv
    using CheckIfDue_total [of q "sleeping (running k)" adv] that l k(2) c core_cong [OF that(2)]
    by (auto simp: load_in_range_def same_sched_def alive_def)
  have P: "\<exists>k'. Semaphore_P_test s0 old q = Inr k'" if "calm q" "klevel q = IntOff" "sems k s0 \<noteq> None" "sems q = sems k" for s0 old q
    using P_test_total that by metis
  have "(\<exists>k'. frame_step call code f ?k = Inr k') \<or> (f = Sleep_loop \<and> frame_step call code f ?k = Inl Halted)"
  proof (cases f)
    case (SetLevel_call x)
    then show ?thesis using SetLevel_total [OF h] by (simp add: frame_step_def)
  next
    case (OneTick_loop old)
    have "klevel k = IntOff" using stack_ok_tops(4) [of "klevel k" old fs] st OneTick_loop by simp
    from chk [of ?k False, OF this] show ?thesis using OneTick_loop by (auto simp: frame_step_def)
  next
    case Yield_call
    then show ?thesis using Yield_total [OF cm] k(3) by (simp add: frame_step_def)
  next
    case Run_return
    then have "\<not> sleeping (running k)" using r by (auto simp: sleeping_def)
    then show ?thesis using Run_return Run_end_total [of ?k] c cc k(3) by (simp add: frame_step_def)
  next
    case Idle_loop
    have "klevel k = IntOff" using stack_ok_tops(3) [of "klevel k" fs] st Idle_loop by auto
    from chk [of ?k False, OF this] show ?thesis using Idle_loop by (auto simp: frame_step_def)
  next
    case (P_call s0)
    then show ?thesis using P [of "ChangeLevel IntOff ?k" s0 "klevel k"] calm_level [OF cm] s
      by (simp add: frame_step_def Semaphore_P_def SetLevel_off Let_def ChangeLevel_def set_int_def)
  next
    case (V_call s0)
    then show ?thesis using V_total [of False ?k s0] cm h s by (auto simp: frame_step_def calm_def)
  next
    case InterruptEnable
    then show ?thesis using SetLevel_total [OF h] by (simp add: frame_step_def)
  next
    case ThreadFinish
    then show ?thesis using Finish_total [OF cm] by (simp add: frame_step_def)
  next
    case Sleep_loop
    have lv: "klevel k = IntOff" and rs: "resumed fs" using stack_ok_tops(2) [of "klevel k" fs] st Sleep_loop by auto
    then have c1: "core True k" using c r Sleep_loop by simp
    show ?thesis using sleep_loop_total [OF c1 lv r [unfolded Sleep_loop] k(3)] chk [OF lv] Sleep_loop by simp
  next
    case (P_loop s0 old)
    note T = stack_ok_tops(5) [of "klevel k" s0 old fs]
    have "calm ?k" using k(1) r st P_loop T cc conts_cong [of k ?k] by (simp add: kernel_ok_def calm_def)
    then show ?thesis using P [of ?k s0 old] st P_loop T s by (simp add: frame_step_def)
  qed (use s in \<open>simp_all add: frame_step_def\<close>)
  then show ?thesis using r by (simp add: kernel_step_def)
qed

end

end
