(* ===== verification/Kernel_Client.thy ===== *)
theory Kernel_Client
  imports Kernel_Progress
begin

text \<open>
  What code on top of the thread system may do between two of its program points, for any handlers,
  any program points and any globals: touch the machine and the globals (\<open>quiet\<close>), schedule
  interrupts, create and delete semaphores and threads, fork, and push calls that are still to be made
  (\<open>gentle\<close>).  The user-program build and the network build both rest on these lemmas.
\<close>


section \<open>Globals\<close>

lemma set_dev_kept: "handler_kept k (set_dev f k)"
  by (rule handler_kept_same) (simp_all add: set_dev_def same_sched_def)

lemma stats_kept: "totalTicks s = now k \<Longrightarrow> handler_kept k (k\<lparr>stats := s\<rparr>)"
  by (rule handler_kept_same) (simp_all add: same_sched_def)

lemma set_dev_fusion: "set_dev f (set_dev g k) = set_dev (\<lambda>d. f (g d)) k"
  by (simp add: set_dev_def)

lemma set_dev_same [simp]:
  "stats (set_dev f k) = stats k" "interrupt (set_dev f k) = interrupt k" "running (set_dev f k) = running k"
  "sems (set_dev f k) = sems k" "machine (set_dev f k) = machine k" "threads (set_dev f k) = threads k"
  "currentThread (set_dev f k) = currentThread k" "nextThread (set_dev f k) = nextThread k"
  "nextSem (set_dev f k) = nextSem k" "readyList (set_dev f k) = readyList k"
  "threadToBeDestroyed (set_dev f k) = threadToBeDestroyed k" "dev (set_dev f k) = f (dev k)"
  by (simp_all add: set_dev_def)


section \<open>Quiet operations\<close>

text \<open>Operations that touch only the machine and the globals.\<close>

definition quiet :: "('h, 'c, 'd) Kernel \<Rightarrow> ('h, 'c, 'd) Kernel \<Rightarrow> bool" where
  "quiet k k' \<longleftrightarrow> (\<exists>m d. k' = k\<lparr>machine := m, dev := d\<rparr>)"

lemma quiet_fields:
  assumes "quiet k k'"
  shows "same_sched k k'" "interrupt k' = interrupt k" "running k' = running k" "stats k' = stats k"
  using assms by (auto simp: quiet_def same_sched_def)

lemma quiet_refl [simp]: "quiet k k"
proof -
  have "k = k\<lparr>machine := machine k, dev := dev k\<rparr>" by simp
  then show ?thesis unfolding quiet_def by blast
qed

lemma quiet_trans [trans]: "quiet k k' \<Longrightarrow> quiet k' k'' \<Longrightarrow> quiet k k''"
  unfolding quiet_def by (elim exE) (simp, blast)

lemma quiet_dev: "quiet k (k\<lparr>dev := d\<rparr>)"
proof -
  have "k\<lparr>dev := d\<rparr> = k\<lparr>machine := machine k, dev := d\<rparr>" by simp
  then show ?thesis unfolding quiet_def by blast
qed

lemma quiet_machine: "quiet k (k\<lparr>machine := m\<rparr>)"
proof -
  have "k\<lparr>machine := m\<rparr> = k\<lparr>machine := m, dev := dev k\<rparr>" by simp
  then show ?thesis unfolding quiet_def by blast
qed

lemma quiet_set_dev [simp]: "quiet k k' \<Longrightarrow> quiet k (set_dev f k')"
  unfolding set_dev_def by (rule quiet_trans [OF _ quiet_dev])


section \<open>Gentle steps\<close>

text \<open>A step that leaves the kernel in a state where the client may go on.\<close>

definition gentle :: "('h, 'c, 'd) Kernel \<Rightarrow> ('h, 'c, 'd) Kernel \<Rightarrow> bool" where
  "gentle k k' \<longleftrightarrow> (calm k \<longrightarrow> calm k' \<and> advances k k')"

lemma gentle_refl [simp]: "gentle k k"
  by (simp add: gentle_def)

lemma gentle_trans [trans]: "gentle k k' \<Longrightarrow> gentle k' k'' \<Longrightarrow> gentle k k''"
  using advances_trans unfolding gentle_def by blast

lemma gentleI:
  assumes "same_sched k k'" "interrupt k' = interrupt k" "running k' = fs @ running k" "list_all plain fs"
  shows "gentle k k'"
  using calm_same [OF _ assms(1)] assms advances_same [OF assms(1)] by (auto simp: gentle_def calm_def)

lemma quiet_gentle: "quiet k k' \<Longrightarrow> gentle k k'"
  using gentleI [of k k' "[]"] quiet_fields by fastforce

lemma push_gentle: "list_all plain fs \<Longrightarrow> gentle k (push fs k)"
  by (rule gentleI [where fs = fs]) (simp_all add: push_def)

lemma quiet_push: "quiet k k' \<Longrightarrow> list_all plain fs \<Longrightarrow> gentle k (push fs k')"
  by (rule gentle_trans [OF quiet_gentle push_gentle])

lemma status_gentle: "gentle k (setMachineStatus st k)"
  using calm_status advances_same [OF same_sched_updates(5)] by (auto simp: gentle_def)

lemma Schedule_gentle: "Schedule h d ty k = Inr k' \<Longrightarrow> gentle k k'"
  using Schedule_kept [of h d ty k k'] by (auto simp: gentle_def calm_def handler_kept_def)

lemma gentle_quiet: "gentle k k1 \<Longrightarrow> quiet k1 k2 \<Longrightarrow> gentle k k2"
  using gentle_trans quiet_gentle by blast

lemma quiet_then: "quiet k k1 \<Longrightarrow> gentle k1 k2 \<Longrightarrow> gentle k k2"
  using gentle_trans quiet_gentle by blast

lemma gentle_push: "gentle k k1 \<Longrightarrow> list_all plain fs \<Longrightarrow> gentle k (push fs k1)"
  using gentle_trans push_gentle by blast

text \<open>Semaphores and threads come and go.\<close>

lemma core_frame:
  assumes "core b k" "\<And>t. status_of k' t = status_of k t" "\<And>s. waiting k' s = waiting k s \<or> waiting k' s = []"
    "readyList k' = readyList k" "currentThread k' = currentThread k" "threadToBeDestroyed k' = threadToBeDestroyed k"
    "\<And>t. t \<ge> nextThread k' \<Longrightarrow> threads k' t = None" "\<And>s. s \<ge> nextSem k' \<Longrightarrow> sems k' s = None"
    "\<And>t th. threads k' t = Some th \<Longrightarrow> stack th = None \<or> stack th = Some STACK_FENCEPOST"
  shows "core b k'"
proof (rule coreI)
  note D = coreD [OF assms(1)]
  show "distinct (ready_ids k')" using D(1) assms(4) by simp
  show "\<And>t. t \<in> set (ready_ids k') \<Longrightarrow> status_of k' t = Some READY" using D(2) assms(2,4) by simp
  show "\<And>s. distinct (waiting k' s)" using D(3) assms(3) by (metis distinct.simps(1))
  show "\<And>s t. t \<in> set (waiting k' s) \<Longrightarrow> status_of k' t = Some BLOCKED" using D(4) assms(2,3) by (metis empty_iff list.set(1))
  show "\<And>s s'. s \<noteq> s' \<Longrightarrow> set (waiting k' s) \<inter> set (waiting k' s') = {}" using D(5) assms(3) by (metis inf_bot_left inf_bot_right list.set(1))
  show "\<And>t. status_of k' t = Some RUNNING \<Longrightarrow> t = currentThread k'" using D(6) assms(2,5) by metis
  show "status_of k' (currentThread k') \<in> (if b then {Some BLOCKED, Some READY} else {Some RUNNING})" using D(7) assms(2,5) by simp
  show "\<And>t. threadToBeDestroyed k' = Some t \<Longrightarrow> status_of k' t = Some BLOCKED" using D(8) assms(2,6) by simp
  show "\<And>t s. threadToBeDestroyed k' = Some t \<Longrightarrow> t \<notin> set (waiting k' s)" using D(9) assms(3,6) by (metis empty_iff list.set(1))
qed (use assms(7-9) in blast)+

lemma Semaphore_new_gentle:
  assumes "Semaphore_new nm v k = (s, k')"
  shows "gentle k k'"
proof (cases "calm k")
  case True
  then have c: "core False k" by (simp add: calm_def)
  note D = coreD [OF c]
  have k': "k' = (put_sem (nextSem k) \<lparr>semName = nm, semValue = v, queue = []\<rparr> k)\<lparr>nextSem := Suc (nextSem k)\<rparr>"
    using assms by (auto simp: Semaphore_new_def Let_def)
  have w: "waiting k' s = waiting k s" for s
    using D(11) [of "nextSem k"] by (auto simp: k' waiting_def put_sem_def split: option.splits)
  have st: "status_of k' t = status_of k t" for t by (simp add: k' status_of_def put_sem_def)
  have f: "readyList k' = readyList k" "currentThread k' = currentThread k" "threadToBeDestroyed k' = threadToBeDestroyed k"
    "threads k' = threads k" "nextThread k' = nextThread k" by (simp_all add: k' put_sem_def)
  have "core False k'"
  proof (rule core_frame [OF c st])
    show "\<And>s. s \<ge> nextSem k' \<Longrightarrow> sems k' s = None" using D(11) by (auto simp: k' put_sem_def)
  qed (use D(10,12) in \<open>simp_all add: w f\<close>)
  then have "calm k'" using True by (simp add: calm_def k' put_sem_def conts_ok_def)
  moreover have "advances k k'" by (simp add: k' advances_def put_sem_def)
  ultimately show ?thesis by (simp add: gentle_def)
qed (simp add: gentle_def)

lemma Semaphore_delete_gentle:
  assumes "Semaphore_delete s k = Inr k'"
  shows "gentle k k'"
proof (cases "calm k")
  case True
  then have c: "core False k" by (simp add: calm_def)
  note D = coreD [OF c]
  have k': "k' = k\<lparr>sems := (sems k)(s := None)\<rparr>" using assms by (auto simp: Semaphore_delete_def elim!: bindR_InrE)
  have w: "waiting k' u = (if u = s then [] else waiting k u)" for u by (simp add: k' waiting_def)
  have st: "status_of k' t = status_of k t" for t by (simp add: k' status_of_def)
  have f: "readyList k' = readyList k" "currentThread k' = currentThread k" "threadToBeDestroyed k' = threadToBeDestroyed k"
    "threads k' = threads k" "nextThread k' = nextThread k" by (simp_all add: k')
  have "core False k'"
  proof (rule core_frame [OF c st])
    show "\<And>u. u \<ge> nextSem k' \<Longrightarrow> sems k' u = None" using D(11) by (simp add: k')
  qed (use D(10,12) in \<open>simp_all add: w f\<close>)
  then have "calm k'" using True by (simp add: calm_def k' conts_ok_def)
  moreover have "advances k k'" by (simp add: k' advances_def)
  ultimately show ?thesis by (simp add: gentle_def)
qed (simp add: gentle_def)

lemma Thread_new_gentle:
  assumes "Thread_new junk nm k = (t, k')"
  shows "gentle k k'"
proof (cases "calm k")
  case True
  then have c: "core False k" by (simp add: calm_def)
  note D = coreD [OF c]
  let ?th = "junk\<lparr>tname := nm, stack := None, continuation := [], tstatus := JUST_CREATED, space := None\<rparr>"
  have k': "k' = (put_thread (nextThread k) ?th k)\<lparr>nextThread := Suc (nextThread k)\<rparr>"
    using assms by (auto simp: Thread_new_def Let_def)
  have n: "threads k (nextThread k) = None" using D(10) by simp
  then have sn: "status_of k (nextThread k) = None" by (simp add: status_of_def)
  have st: "status_of k' u = (if u = nextThread k then Some JUST_CREATED else status_of k u)" for u
    by (simp add: k' status_of_def put_thread_def)
  have w: "waiting k' s = waiting k s" for s by (simp add: k' waiting_def put_thread_def)
  have f: "readyList k' = readyList k" "currentThread k' = currentThread k" "threadToBeDestroyed k' = threadToBeDestroyed k"
    "sems k' = sems k" "nextSem k' = nextSem k" by (simp_all add: k' put_thread_def)
  have keep: "status_of k' u = Some x" if "status_of k u = Some x" for u x using that sn by (auto simp: st)
  have "core False k'"
  proof (rule coreI)
    show "\<And>u. u \<in> set (ready_ids k') \<Longrightarrow> status_of k' u = Some READY" using D(2) keep by (simp add: f)
    show "\<And>s u. u \<in> set (waiting k' s) \<Longrightarrow> status_of k' u = Some BLOCKED" using D(4) keep by (simp add: w)
    show "\<And>u. status_of k' u = Some RUNNING \<Longrightarrow> u = currentThread k'" using D(6) by (simp add: st f split: if_splits)
    show "status_of k' (currentThread k') \<in> (if False then {Some BLOCKED, Some READY} else {Some RUNNING})"
      using D(7) keep by (simp add: f)
    show "\<And>u. threadToBeDestroyed k' = Some u \<Longrightarrow> status_of k' u = Some BLOCKED" using D(8) keep by (simp add: f)
    show "\<And>u. u \<ge> nextThread k' \<Longrightarrow> threads k' u = None" using D(10) by (simp add: k' put_thread_def)
    show "\<And>u th. threads k' u = Some th \<Longrightarrow> stack th = None \<or> stack th = Some STACK_FENCEPOST"
      using D(12) by (auto simp: k' put_thread_def split: if_splits)
  qed (use D(1,3,5,9,11) in \<open>simp_all add: w f\<close>)
  moreover have "conts_ok k'" using True by (auto simp: calm_def conts_ok_def k' put_thread_def saved_ok_def)
  ultimately have "calm k'" using True by (simp add: calm_def k' put_thread_def)
  moreover have "advances k k'" using n by (auto simp: k' advances_def put_thread_def)
  ultimately show ?thesis by (simp add: gentle_def)
qed (simp add: gentle_def)

text \<open>Members the scheduler does not look at.\<close>

lemma put_thread_gentle:
  assumes "threads k t = Some th0" "tstatus th = tstatus th0" "stack th = stack th0" "continuation th = continuation th0"
    "t = currentThread k \<or> (userRegisters th = userRegisters th0 \<and> space th = space th0)"
  shows "gentle k (put_thread t th k)"
proof (cases "calm k")
  case True
  then have c: "core False k" by (simp add: calm_def)
  note D = coreD [OF c]
  let ?k = "put_thread t th k"
  have st: "status_of ?k u = status_of k u" for u using assms(1,2) by (simp add: status_of_def put_thread_def)
  have w: "waiting ?k s = waiting k s" for s by (simp add: waiting_def put_thread_def)
  have f: "readyList ?k = readyList k" "currentThread ?k = currentThread k" "threadToBeDestroyed ?k = threadToBeDestroyed k"
    "sems ?k = sems k" "nextSem ?k = nextSem k" "nextThread ?k = nextThread k" by (simp_all add: put_thread_def)
  have "core False ?k"
  proof (rule core_frame [OF c st])
    show "\<And>u. u \<ge> nextThread ?k \<Longrightarrow> threads ?k u = None" using D(10) assms(1) by (fastforce simp: put_thread_def)
    show "\<And>u th. threads ?k u = Some th \<Longrightarrow> stack th = None \<or> stack th = Some STACK_FENCEPOST"
      using D(12) assms(1,3) by (auto simp: put_thread_def split: if_splits)
  qed (use D(11) in \<open>simp_all add: w f\<close>)
  moreover have "conts_ok ?k" using True assms(1,4) by (auto simp: calm_def conts_ok_def put_thread_def)
  ultimately have "calm ?k" using True by (simp add: calm_def put_thread_def)
  moreover have "advances k ?k" using assms(1,5) by (auto simp: advances_def put_thread_def)
  ultimately show ?thesis by (simp add: gentle_def)
qed (simp add: gentle_def)


section \<open>Fork\<close>

lemma Fork_ok:
  assumes k: "calm k" and t: "status_of k t = Some JUST_CREATED" and f: "Fork t func k = Inr k'"
  shows "kernel_ok k'" "advances k k'"
proof -
  have c: "core False k" using k by (simp add: calm_def)
  note D = coreD [OF c]
  obtain th where th: "threads k t = Some th" "tstatus th = JUST_CREATED" using t by (auto simp: status_of_def)
  have cur: "t \<noteq> currentThread k" using D(7) t by auto
  let ?k1 = "put_thread t (StackAllocate func th) k"
  obtain k3 where r: "ReadyToRun t (ChangeLevel IntOff ?k1) = Inr k3" and l: "SetLevel (klevel k) k3 = Inr k'"
    using f th by (auto simp: Fork_def get_thread_def Let_def SetLevel_off put_thread_def elim!: bindR_InrE)
  let ?k2 = "ChangeLevel IntOff ?k1"
  have st: "status_of ?k2 u = status_of k u" for u
    using th by (simp add: status_of_def put_thread_def StackAllocate_def ChangeLevel_def set_int_def)
  have w: "waiting ?k2 s = waiting k s" for s by (simp add: waiting_def put_thread_def ChangeLevel_def set_int_def)
  have e: "readyList ?k2 = readyList k" "currentThread ?k2 = currentThread k" "threadToBeDestroyed ?k2 = threadToBeDestroyed k"
    "sems ?k2 = sems k" "nextSem ?k2 = nextSem k" "nextThread ?k2 = nextThread k" "running ?k2 = running k"
    "inHandler (interrupt ?k2) = inHandler (interrupt k)" "pending (interrupt ?k2) = pending (interrupt k)"
    by (simp_all add: put_thread_def ChangeLevel_def set_int_def)
  have c2: "core False ?k2"
  proof (rule core_frame [OF c st])
    show "\<And>u. u \<ge> nextThread ?k2 \<Longrightarrow> threads ?k2 u = None"
      using D(10) th(1) by (fastforce simp: put_thread_def ChangeLevel_def set_int_def)
    show "\<And>u th. threads ?k2 u = Some th \<Longrightarrow> stack th = None \<or> stack th = Some STACK_FENCEPOST"
      using D(12) by (auto simp: put_thread_def ChangeLevel_def set_int_def StackAllocate_def split: if_splits)
  qed (use D(11) in \<open>simp_all add: w e\<close>)
  have t2: "t \<notin> set (ready_ids ?k2)" "\<And>s. t \<notin> set (waiting ?k2 s)" "threadToBeDestroyed ?k2 \<noteq> Some t"
    using D(2,4,8) t by (auto simp: e w) fastforce+
  note F = ReadyToRun_fields [OF r]
  have c3: "core False k3" using ReadyToRun_core [OF c2 t2 r] cur e by simp
  have co: "conts_ok ?k2" using k cur
    by (auto simp: calm_def conts_ok_def put_thread_def ChangeLevel_def set_int_def StackAllocate_def saved_ok_def split: if_splits)
  have "conts_ok k3" unfolding conts_ok_def
  proof (intro allI impI)
    fix u th' assume "threads k3 u = Some th'" "u \<noteq> currentThread k3"
    then show "saved_ok (continuation th')" using F(13) F(4) co e unfolding conts_ok_def by metis
  qed
  then have "calm k3" using c3 k F(10,11) e by (simp add: calm_def pending_ok_def)
  then show "kernel_ok k'" using SetLevel_ok l by blast
  have "advances k ?k2" using th(1) by (auto simp: advances_def put_thread_def ChangeLevel_def set_int_def StackAllocate_def)
  also have "advances ?k2 k3" by (rule advances_ReadyToRun [OF r])
  also have "advances k3 k'" using advances_same SetLevel_cases(1) [OF l] by blast
  finally show "advances k k'" .
qed

end
