(* ===== verification/Host_System.thy ===== *)
theory Host_System
  imports Nachos_Prelude
begin

text \<open>
  The host below Nachos.  \<^verbatim>\<open>machine/sysdep.cc\<close> wraps the system calls of the host; the calls
  themselves are not part of the program, so they are the fields of a record \<open>Host\<close> that every
  definition takes as an argument, over an abstract state \<open>'w\<close> of the outside world.  On top of the
  wrappers stand the open files and the file system that the user-program build uses
  (\<^verbatim>\<open>filesys/openfile.h\<close> and \<^verbatim>\<open>filesys/filesys.h\<close> under \<open>FILESYS_STUB\<close>).

  The file descriptor state is part of \<open>'w\<close>.  Names are C strings without their terminator.
\<close>

type_synonym bytes = "8 word list"


section \<open>System calls\<close>

datatype open_mode = O_RDWR | O_RDWR_CREAT_TRUNC | O_RDONLY | O_WRONLY_CREAT_TRUNC
datatype seek_mode = SEEK_SET | SEEK_CUR | SEEK_END

text \<open>\<open>sys_read\<close> returns its result and the bytes it put into the buffer; \<open>sys_write\<close> gets the buffer
  and the count; the second argument of \<open>sys_select\<close> is the time to wait; \<open>sys_fgets\<close> returns the
  line it read.\<close>

record 'w Host =
  sys_open :: "bytes \<Rightarrow> open_mode \<Rightarrow> 'w \<Rightarrow> int \<times> 'w"
  sys_read :: "int \<Rightarrow> int \<Rightarrow> 'w \<Rightarrow> (int \<times> bytes) \<times> 'w"
  sys_write :: "int \<Rightarrow> bytes \<Rightarrow> int \<Rightarrow> 'w \<Rightarrow> int \<times> 'w"
  sys_lseek :: "int \<Rightarrow> int \<Rightarrow> seek_mode \<Rightarrow> 'w \<Rightarrow> int \<times> 'w"
  sys_close :: "int \<Rightarrow> 'w \<Rightarrow> int \<times> 'w"
  sys_unlink :: "bytes \<Rightarrow> 'w \<Rightarrow> int \<times> 'w"
  sys_select :: "int \<Rightarrow> int \<Rightarrow> 'w \<Rightarrow> int \<times> 'w"
  sys_rand :: "'w \<Rightarrow> int \<times> 'w"
  sys_fgets :: "'w \<Rightarrow> bytes \<times> 'w"

definition PollFile :: "'w Host \<Rightarrow> bool \<Rightarrow> int \<Rightarrow> 'w \<Rightarrow> (bool \<times> 'w) res" where
  "PollFile H idle fd w =
     (let (retVal, w1) = sys_select H fd (if idle then 20000 else 0) w in
      bindR (ASSERT (retVal = 0 \<or> retVal = 1)) (\<lambda>_. Inr (retVal \<noteq> 0, w1)))"

definition OpenForWrite :: "'w Host \<Rightarrow> bytes \<Rightarrow> 'w \<Rightarrow> (int \<times> 'w) res" where
  "OpenForWrite H nm w =
     (let (fd, w1) = sys_open H nm O_RDWR_CREAT_TRUNC w in
      bindR (ASSERT (fd \<ge> 0)) (\<lambda>_. Inr (fd, w1)))"

definition OpenForReadWrite :: "'w Host \<Rightarrow> bytes \<Rightarrow> bool \<Rightarrow> 'w \<Rightarrow> (int \<times> 'w) res" where
  "OpenForReadWrite H nm crashOnError w =
     (let (fd, w1) = sys_open H nm O_RDWR w in
      bindR (ASSERT (\<not> crashOnError \<or> fd \<ge> 0)) (\<lambda>_. Inr (fd, w1)))"

definition Read_exactly :: "'w Host \<Rightarrow> int \<Rightarrow> int \<Rightarrow> 'w \<Rightarrow> (bytes \<times> 'w) res" where
  "Read_exactly H fd nBytes w =
     (let ((retVal, d), w1) = sys_read H fd nBytes w in
      bindR (ASSERT (retVal = nBytes)) (\<lambda>_. Inr (d, w1)))"

definition ReadPartial :: "'w Host \<Rightarrow> int \<Rightarrow> int \<Rightarrow> 'w \<Rightarrow> (int \<times> bytes) \<times> 'w" where
  "ReadPartial H fd nBytes w = sys_read H fd nBytes w"

definition WriteFile :: "'w Host \<Rightarrow> int \<Rightarrow> bytes \<Rightarrow> int \<Rightarrow> 'w \<Rightarrow> 'w res" where
  "WriteFile H fd buffer nBytes w =
     (let (retVal, w1) = sys_write H fd buffer nBytes w in
      bindR (ASSERT (retVal = nBytes)) (\<lambda>_. Inr w1))"

definition Lseek :: "'w Host \<Rightarrow> int \<Rightarrow> int \<Rightarrow> seek_mode \<Rightarrow> 'w \<Rightarrow> 'w res" where
  "Lseek H fd offset whence w =
     (let (retVal, w1) = sys_lseek H fd offset whence w in
      bindR (ASSERT (retVal \<ge> 0)) (\<lambda>_. Inr w1))"

definition Tell :: "'w Host \<Rightarrow> int \<Rightarrow> 'w \<Rightarrow> int \<times> 'w" where
  "Tell H fd w = sys_lseek H fd 0 SEEK_CUR w"

text \<open>\<open>Close\<close> is declared to return an \<open>int\<close> and has no return statement; no caller uses a value.\<close>

definition Close_fd :: "'w Host \<Rightarrow> int \<Rightarrow> 'w \<Rightarrow> 'w res" where
  "Close_fd H fd w =
     (let (retVal, w1) = sys_close H fd w in bindR (ASSERT (retVal \<ge> 0)) (\<lambda>_. Inr w1))"

definition Unlink :: "'w Host \<Rightarrow> bytes \<Rightarrow> 'w \<Rightarrow> bool \<times> 'w" where
  "Unlink H nm w = (let (retVal, w1) = sys_unlink H nm w in (retVal \<noteq> 0, w1))"

definition Random :: "'w Host \<Rightarrow> 'w \<Rightarrow> int \<times> 'w" where
  "Random H w = sys_rand H w"


section \<open>Strings and numbers of the C library\<close>

definition cstr :: "string \<Rightarrow> bytes" where
  "cstr s = map of_char s"

definition isspace :: "8 word \<Rightarrow> bool" where
  "isspace c \<longleftrightarrow> c = 32 \<or> (9 \<le> c \<and> c \<le> 13)"

definition isdigit :: "8 word \<Rightarrow> bool" where
  "isdigit c \<longleftrightarrow> 48 \<le> c \<and> c \<le> 57"

fun digits_value :: "int \<Rightarrow> bytes \<Rightarrow> int" where
  "digits_value acc [] = acc"
| "digits_value acc (c # cs) = digits_value (acc * 10 + (uint c - 48)) cs"

text \<open>The conversion \<^verbatim>\<open>%d\<close> of \<open>sscanf\<close>: white space, a sign, digits.  None when there are no digits.\<close>

definition scan_int :: "bytes \<Rightarrow> int option" where
  "scan_int s =
     (let t = dropWhile isspace s;
          (neg, u) = (case t of [] \<Rightarrow> (False, t)
             | c # cs \<Rightarrow> if c = 45 then (True, cs) else if c = 43 then (False, cs) else (False, t));
          ds = takeWhile isdigit u
      in if ds = [] then None else Some (if neg then - digits_value 0 ds else digits_value 0 ds))"

text \<open>\<open>atoi\<close> on a character array: it needs a terminator inside the array, and a number outside the
  range of \<open>int\<close> is undefined.\<close>

definition atoi :: "bytes \<Rightarrow> int res" where
  "atoi buffer =
     (if 0 \<notin> set buffer then Inl OutOfBounds
      else case scan_int (takeWhile (\<lambda>c. c \<noteq> 0) buffer) of
        None \<Rightarrow> Inr 0
      | Some n \<Rightarrow> if - (2 ^ 31) \<le> n \<and> n < 2 ^ 31 then Inr n else Inl Undefined)"

text \<open>The string in a character array, up to its terminator.\<close>

definition cstring :: "bytes \<Rightarrow> bytes res" where
  "cstring buffer = (if 0 \<in> set buffer then Inr (takeWhile (\<lambda>c. c \<noteq> 0) buffer) else Inl OutOfBounds)"


section \<open>Open files on the host\<close>

record UnixFile =
  ufile :: int
  uoffset :: int
  utype :: int

definition UnixFile_new :: "int \<Rightarrow> int \<Rightarrow> UnixFile" where
  "UnixFile_new f t = \<lparr>ufile = f, uoffset = 0, utype = t\<rparr>"

definition UnixFile_ReadAt :: "'w Host \<Rightarrow> UnixFile \<Rightarrow> int \<Rightarrow> int \<Rightarrow> 'w \<Rightarrow> ((int \<times> bytes) \<times> 'w) res" where
  "UnixFile_ReadAt H f numBytes position w =
     bindR (Lseek H (ufile f) position SEEK_SET w) (\<lambda>w1. Inr (ReadPartial H (ufile f) numBytes w1))"

definition UnixFile_WriteAt :: "'w Host \<Rightarrow> UnixFile \<Rightarrow> bytes \<Rightarrow> int \<Rightarrow> int \<Rightarrow> 'w \<Rightarrow> (int \<times> 'w) res" where
  "UnixFile_WriteAt H f buffer numBytes position w =
     bindR (Lseek H (ufile f) position SEEK_SET w) (\<lambda>w1.
     bindR (WriteFile H (ufile f) buffer numBytes w1) (\<lambda>w2. Inr (numBytes, w2)))"

definition UnixFile_Read :: "'w Host \<Rightarrow> UnixFile \<Rightarrow> int \<Rightarrow> 'w \<Rightarrow> ((int \<times> bytes) \<times> UnixFile \<times> 'w) res" where
  "UnixFile_Read H f numBytes w =
     bindR (UnixFile_ReadAt H f numBytes (uoffset f) w) (\<lambda>((numRead, d), w1).
     Inr ((numRead, d), f\<lparr>uoffset := uoffset f + numRead\<rparr>, w1))"

definition UnixFile_Write :: "'w Host \<Rightarrow> UnixFile \<Rightarrow> bytes \<Rightarrow> int \<Rightarrow> 'w \<Rightarrow> (int \<times> UnixFile \<times> 'w) res" where
  "UnixFile_Write H f buffer numBytes w =
     bindR (UnixFile_WriteAt H f buffer numBytes (uoffset f) w) (\<lambda>(numWritten, w1).
     Inr (numWritten, f\<lparr>uoffset := uoffset f + numWritten\<rparr>, w1))"

definition UnixFile_Length :: "'w Host \<Rightarrow> UnixFile \<Rightarrow> 'w \<Rightarrow> (int \<times> 'w) res" where
  "UnixFile_Length H f w =
     bindR (Lseek H (ufile f) 0 SEEK_END w) (\<lambda>w1.
     let (len, w2) = Tell H (ufile f) w1 in
     bindR (Lseek H (ufile f) (uoffset f) SEEK_SET w2) (\<lambda>w3. Inr (len, w3)))"

definition UnixFile_GetCurrentPos :: "'w Host \<Rightarrow> UnixFile \<Rightarrow> 'w \<Rightarrow> int \<times> UnixFile \<times> 'w" where
  "UnixFile_GetCurrentPos H f w =
     (let (pos, w1) = Tell H (ufile f) w in (pos, f\<lparr>uoffset := pos\<rparr>, w1))"

definition UnixFile_delete :: "'w Host \<Rightarrow> UnixFile \<Rightarrow> 'w \<Rightarrow> 'w res" where
  "UnixFile_delete H f w = Close_fd H (ufile f) w"


section \<open>The file system on the host\<close>

definition UnixFS_Create :: "'w Host \<Rightarrow> bytes \<Rightarrow> 'w \<Rightarrow> (bool \<times> 'w) res" where
  "UnixFS_Create H nm w =
     bindR (OpenForWrite H nm w) (\<lambda>(fd, w1).
       if fd = -1 then Inr (False, w1)
       else bindR (Close_fd H fd w1) (\<lambda>w2. Inr (True, w2)))"

definition UnixFS_Open_type :: "'w Host \<Rightarrow> bytes \<Rightarrow> int \<Rightarrow> 'w \<Rightarrow> (UnixFile option \<times> 'w) res" where
  "UnixFS_Open_type H nm t w =
     bindR (OpenForReadWrite H nm False w) (\<lambda>(fd, w1).
       Inr (if fd = -1 then None else Some (UnixFile_new fd t), w1))"

definition UnixFS_Open :: "'w Host \<Rightarrow> bytes \<Rightarrow> 'w \<Rightarrow> (UnixFile option \<times> 'w) res" where
  "UnixFS_Open H nm w = 
     bindR (OpenForReadWrite H nm False w) (\<lambda>(fd, w1).
       Inr (if fd = -1 then None else Some (UnixFile_new fd 0), w1))"

definition UnixFS_FindFreeSlot :: "UnixFile option list \<Rightarrow> int res" where
  "UnixFS_FindFreeSlot openf =
     (if length openf < 15 then Inl OutOfBounds
      else case filter (\<lambda>i. openf ! i = None) [2..<15] of [] \<Rightarrow> Inr (-1) | i # _ \<Rightarrow> Inr (int i))"

definition UnixFS_Remove :: "'w Host \<Rightarrow> bytes \<Rightarrow> 'w \<Rightarrow> bool \<times> 'w" where
  "UnixFS_Remove H nm w = (let (r, w1) = Unlink H nm w in (r = False, w1))"

definition UnixFS_new :: "'w Host \<Rightarrow> 'w \<Rightarrow> (UnixFile option list \<times> 'w) res" where
  "UnixFS_new H w =
     bindR (UnixFS_Create H (cstr ''stdin'') w) (\<lambda>(_, w1).
     bindR (UnixFS_Create H (cstr ''stdout'') w1) (\<lambda>(_, w2).
     bindR (UnixFS_Open_type H (cstr ''stdin'') 2 w2) (\<lambda>(f0, w3).
     bindR (UnixFS_Open_type H (cstr ''stdout'') 3 w3) (\<lambda>(f1, w4).
     Inr ((replicate 15 None)[0 := f0, 1 := f1], w4)))))"

fun UnixFS_delete :: "'w Host \<Rightarrow> UnixFile option list \<Rightarrow> 'w \<Rightarrow> 'w res" where
  "UnixFS_delete H [] w = Inr w"
| "UnixFS_delete H (None # fs) w = UnixFS_delete H fs w"
| "UnixFS_delete H (Some f # fs) w = bindR (UnixFile_delete H f w) (UnixFS_delete H fs)"

end
