(* ===== verification/User_State.thy ===== *)
theory User_State
  imports Kernel_Client Machine_CPU Bit_Map Host_System
begin

text \<open>
  The globals of the user-program build (\<^verbatim>\<open>threads/system.cc\<close> under \<open>USER_PROGRAM\<close>), the interrupt
  handlers of its devices, and the program points of the code that runs on top of the thread system:
  the machine's main loop, the system calls, the process table, the loader and the synchronous
  console.  Together they instantiate the three type parameters of the kernel.
\<close>


section \<open>Handlers and program points\<close>

datatype uhandler = TimerHandler | ConsoleReadPoll | ConsoleWriteDone

text \<open>The handlers a console is created with.\<close>

datatype console_handler = SynchReadFunct | SynchWriteFunct

text \<open>The segments and the header of an executable (\<^verbatim>\<open>bin/noff.h\<close>).\<close>

record Segment =
  virtualAddr :: "32 word"
  inFileAddr :: "32 word"
  seg_size :: "32 word"

record NoffHeader =
  noffMagic :: "32 word"
  code_seg :: Segment
  initData :: Segment
  uninitData :: Segment

text \<open>Which system call waits for a line from the console, with the variables it still needs.\<close>

datatype reader =
    For_Read "32 word"
  | For_ReadInt
  | For_ReadChar
  | For_ReadString "32 word"

text \<open>
  The program points, in the order of the code:
  \<^item> \<open>Initialize_devices\<close>: \<open>Initialize\<close> behind \<open>interrupt->Enable\<close>;
  \<^item> \<open>Run\<close>, \<open>Run_loop\<close>, \<open>Run_debug\<close>: \<open>Machine::Run\<close>, the head of its loop, and the test for the
    debugger; \<open>Run_returned\<close> is the assertion behind the call of \<open>Run\<close>;
  \<^item> \<open>ExceptionHandler_call\<close>: the call in \<open>RaiseException\<close>; \<open>AdvancePC\<close>: a call of
    \<open>AdvanceProgramCounter\<close>; \<open>WriteRegister2\<close>: the result of a system call is stored;
  \<^item> \<open>StartProcess\<close> (with the name), \<open>StartProcess_2\<close>, and the three parts of the
    constructor of an address space: after \<open>addrLock->P\<close>, after \<open>addrLock->V\<close>, and behind the
    constructor;
  \<^item> \<open>ExecUpdate\<close>, \<open>PCB_Exec\<close>, \<open>PCB_V_multex\<close>, \<open>Exec_return\<close>: \<open>SC_Exec\<close> after the semaphores it waits for;
  \<^item> \<open>NumWait_add\<close>: \<open>IncNumWait\<close> and \<open>DecNumWait\<close> after \<open>multex->P\<close>;
  \<^item> \<open>JoinWait\<close>, \<open>JoinExit\<close>: \<open>JoinUpdate\<close> around the wait for the child;
  \<^item> \<open>JoinRelease\<close>, \<open>ExitWait\<close>, \<open>PTable_Remove\<close>, \<open>PTable_Remove_body\<close>, \<open>Exit_finish\<close>: \<open>ExitUpdate\<close> and
    the end of \<open>SC_Exit\<close>;
  \<^item> \<open>SynchWrite\<close>: the loop of \<open>SynchConsole::Write\<close>, with the buffer, the count and the loop
    variable; \<open>Write_line\<close>: the loop of \<open>SC_Write\<close> on the console;
  \<^item> \<open>SynchRead\<close>, \<open>SynchRead_char\<close>, \<open>SynchRead_return\<close>: the loop of \<open>SynchConsole::Read\<close>, the point
    after \<open>synchReadAvail->P\<close>, and the return to the reader; the last character read is
    \<^const>\<open>None\<close> while the variable has not been set.
\<close>

datatype ucode =
    Initialize_devices bool
  | Run
  | Run_loop
  | Run_debug
  | Run_returned
  | ExceptionHandler_call ExceptionType
  | AdvancePC
  | WriteRegister2 "32 word"
  | StartProcess bytes
  | StartProcess_2 int
  | AddrSpace_alloc UnixFile NoffHeader
  | AddrSpace_load UnixFile NoffHeader AddrSpace
  | Space_ready AddrSpace
  | ExecUpdate nat
  | PCB_Exec nat nat int
  | PCB_V_multex nat
  | Exec_return nat int
  | NumWait_add nat int
  | JoinWait int
  | JoinExit int
  | JoinRelease int
  | ExitWait int
  | PTable_Remove int
  | PTable_Remove_body int
  | Exit_finish "32 word"
  | SynchWrite bytes int nat
  | Write_line bytes nat
  | SynchRead reader bytes int nat "8 word option"
  | SynchRead_char reader bytes int nat
  | SynchRead_return reader bytes nat "8 word option"


section \<open>Globals\<close>

record Timer =
  randomize :: bool

record Console =
  readFileNo :: int
  writeFileNo :: int
  writeHandler :: console_handler
  readHandler :: console_handler
  putBusy :: bool
  incoming :: "8 word"

text \<open>The console and the four semaphores of \<^verbatim>\<open>synchcons.cc\<close>.\<close>

record SynchConsole =
  cons :: Console
  synchReadAvail :: nat
  synchWriteAvail :: nat
  RLineBlock :: nat
  WLineBlock :: nat

record PCB =
  joinsem :: nat
  exitsem :: nat
  multex :: nat
  pthread :: "nat option"
  numwait :: int
  ppid :: int
  filename :: bytes
  exitcode :: int
  pparentID :: int

text \<open>The table points to process control blocks, which live in a store of their own: the methods
  of a block keep their \<open>this\<close> pointer while they wait.\<close>

record PTable =
  psize :: int
  pcb :: "nat option list"
  pbm :: BitMap
  bmsem :: nat

record Sem =
  sname :: bytes
  ssem :: nat

text \<open>The constructor of the semaphore table does not initialise its pointers: a slot is null, a
  wild pointer, or points to an object.\<close>

datatype sem_slot = Sem_null | Sem_wild | Sem_object Sem

record STable =
  sbm :: BitMap
  semTab :: "sem_slot list"

text \<open>\<open>strings\<close> holds the C strings that thread names point to; \<open>runUntilTime\<close> is the variable of the
  debugger.\<close>

record 'w Globals =
  world :: 'w
  timer :: "Timer option"
  gSynchConsole :: SynchConsole
  gPhysPageBitMap :: BitMap
  addrLock :: nat
  pTab :: PTable
  pcbs :: "nat \<rightharpoonup> PCB"
  nextPcb :: nat
  gSemTab :: STable
  openf :: "UnixFile option list"
  strings :: "nat \<rightharpoonup> bytes"
  nextString :: nat
  runUntilTime :: int

type_synonym 'w kern = "(uhandler, ucode, 'w Globals) Kernel"

text \<open>What freshly allocated memory holds, where the code reads it before writing it: the members of
  a thread, of an address space and of a process control block, the header on the stack of the
  loader, the words of a bitmap and the slots of the semaphore table.\<close>

record Fresh =
  fresh_thread :: "ucode Thread"
  fresh_table :: "TranslationEntry list option"
  fresh_parent :: int
  fresh_header :: bytes
  fresh_words :: "nat \<Rightarrow> 32 word"
  fresh_slots :: "sem_slot list"

definition set_world :: "'w \<Rightarrow> 'w kern \<Rightarrow> 'w kern" where
  "set_world w k = set_dev (\<lambda>d. d\<lparr>world := w\<rparr>) k"

definition set_console :: "(Console \<Rightarrow> Console) \<Rightarrow> 'w kern \<Rightarrow> 'w kern" where
  "set_console f k =
     set_dev (\<lambda>d. d\<lparr>gSynchConsole := (gSynchConsole d)\<lparr>cons := f (cons (gSynchConsole d))\<rparr>\<rparr>) k"

text \<open>The machine; its pointer is null before \<open>Initialize\<close> creates it.\<close>

definition get_machine :: "'w kern \<Rightarrow> Machine res" where
  "get_machine k = (case machine k of None \<Rightarrow> Inl NullDeref | Some m \<Rightarrow> Inr m)"

definition put_machine :: "Machine \<Rightarrow> 'w kern \<Rightarrow> 'w kern" where
  "put_machine m k = k\<lparr>machine := Some m\<rparr>"

lemmas user_defs = set_dev_def set_world_def set_console_def get_machine_def put_machine_def

end
