(* ===== verification/Console_Device.thy ===== *)
theory Console_Device
  imports User_State
begin

text \<open>
  The timer (\<^verbatim>\<open>machine/timer.cc\<close>), the console (\<^verbatim>\<open>machine/console.cc\<close>), the synchronous console
  (\<^verbatim>\<open>threads/synchcons.cc\<close>) and the interrupt handlers of the three devices.
\<close>


section \<open>Timer\<close>

text \<open>The handler the timer is created with is \<open>TimerInterruptHandler\<close> of \<^verbatim>\<open>system.cc\<close>.\<close>

definition TimeOfNextInterrupt :: "'w Host \<Rightarrow> Timer \<Rightarrow> 'w \<Rightarrow> int \<times> 'w" where
  "TimeOfNextInterrupt H t w =
     (if randomize t then let (r, w1) = Random H w in (1 + r smod (TimerTicks * 2), w1)
      else (TimerTicks, w))"

definition TimerInterruptHandler :: "'w kern \<Rightarrow> 'w kern res" where
  "TimerInterruptHandler k = (if istatus (interrupt k) \<noteq> IdleMode then YieldOnReturn k else Inr k)"

definition Timer_start :: "'w Host \<Rightarrow> Timer \<Rightarrow> 'w kern \<Rightarrow> 'w kern res" where
  "Timer_start H t k =
     (let (delay, w) = TimeOfNextInterrupt H t (world (dev k)) in
      Schedule TimerHandler delay TimerInt (set_world w k))"

definition Timer_new :: "'w Host \<Rightarrow> bool \<Rightarrow> 'w kern \<Rightarrow> 'w kern res" where
  "Timer_new H doRandom k =
     (let t = \<lparr>randomize = doRandom\<rparr> in
      bindR (Timer_start H t k) (\<lambda>k1. Inr (set_dev (\<lambda>d. d\<lparr>timer := Some t\<rparr>) k1)))"

definition TimerExpired :: "'w Host \<Rightarrow> 'w kern \<Rightarrow> 'w kern res" where
  "TimerExpired H k =
     (case timer (dev k) of None \<Rightarrow> Inl NullDeref
      | Some t \<Rightarrow> bindR (Timer_start H t k) TimerInterruptHandler)"


section \<open>Console\<close>

text \<open>The value of \<open>EOF\<close> in a \<open>char\<close>, and the two characters that end a line.\<close>

definition EOF_char :: "8 word" where "EOF_char = -1"
definition NEWLINE :: "8 word" where "NEWLINE = 10"
definition CTRL_A :: "8 word" where "CTRL_A = 1"

abbreviation the_console :: "'w kern \<Rightarrow> Console" where
  "the_console k \<equiv> cons (gSynchConsole (dev k))"

definition console_call :: "console_handler \<Rightarrow> 'w kern \<Rightarrow> 'w kern res" where
  "console_call h k =
     (case h of SynchReadFunct \<Rightarrow> Semaphore_V (synchReadAvail (gSynchConsole (dev k))) k
      | SynchWriteFunct \<Rightarrow> Semaphore_V (synchWriteAvail (gSynchConsole (dev k))) k)"

text \<open>The constructor, with the names of the two files (a null pointer is \<^const>\<open>None\<close>).\<close>

definition Console_new :: "'w Host \<Rightarrow> bytes option \<Rightarrow> bytes option \<Rightarrow> console_handler \<Rightarrow> console_handler \<Rightarrow>
    'w kern \<Rightarrow> 'w kern res" where
  "Console_new H readFile writeFile readAvail writeDone k =
     bindR (case readFile of None \<Rightarrow> Inr (0, world (dev k))
            | Some nm \<Rightarrow> OpenForReadWrite H nm True (world (dev k))) (\<lambda>(rfd, w1).
     bindR (case writeFile of None \<Rightarrow> Inr (1, w1) | Some nm \<Rightarrow> OpenForWrite H nm w1) (\<lambda>(wfd, w2).
     Schedule ConsoleReadPoll ConsoleTime ConsoleReadInt
       (set_console (\<lambda>_. \<lparr>readFileNo = rfd, writeFileNo = wfd, writeHandler = writeDone,
          readHandler = readAvail, putBusy = False, incoming = EOF_char\<rparr>) (set_world w2 k))))"

definition CheckCharAvail :: "'w Host \<Rightarrow> 'w kern \<Rightarrow> 'w kern res" where
  "CheckCharAvail H k =
     bindR (Schedule ConsoleReadPoll ConsoleTime ConsoleReadInt k) (\<lambda>k1.
     let c = the_console k1 in
     if incoming c \<noteq> EOF_char then Inr k1
     else
       bindR (PollFile H (istatus (interrupt k1) = IdleMode) (readFileNo c) (world (dev k1))) (\<lambda>(avail, w1).
       if \<not> avail then Inr (set_world w1 k1)
       else
         bindR (Read_exactly H (readFileNo c) 1 w1) (\<lambda>(d, w2).
         case d of [] \<Rightarrow> Inl Undefined
         | ch # _ \<Rightarrow>
           let k2 = set_console (\<lambda>c. c\<lparr>incoming := ch\<rparr>) (set_world w2 k1);
               k3 = k2\<lparr>stats := (stats k2)\<lparr>numConsoleCharsRead := numConsoleCharsRead (stats k2) + 1\<rparr>\<rparr>
           in console_call (readHandler c) k3)))"

definition WriteDone :: "'w kern \<Rightarrow> 'w kern res" where
  "WriteDone k =
     (let k1 = set_console (\<lambda>c. c\<lparr>putBusy := False\<rparr>) k;
          k2 = k1\<lparr>stats := (stats k1)\<lparr>numConsoleCharsWritten := numConsoleCharsWritten (stats k1) + 1\<rparr>\<rparr>
      in console_call (writeHandler (the_console k)) k2)"

definition GetChar :: "'w kern \<Rightarrow> 8 word \<times> 'w kern" where
  "GetChar k = (incoming (the_console k), set_console (\<lambda>c. c\<lparr>incoming := EOF_char\<rparr>) k)"

definition PutChar :: "'w Host \<Rightarrow> 8 word \<Rightarrow> 'w kern \<Rightarrow> 'w kern res" where
  "PutChar H ch k =
     bindR (ASSERT (putBusy (the_console k) = False)) (\<lambda>_.
     bindR (WriteFile H (writeFileNo (the_console k)) [ch] 1 (world (dev k))) (\<lambda>w1.
     Schedule ConsoleWriteDone ConsoleTime ConsoleWriteInt
       (set_console (\<lambda>c. c\<lparr>putBusy := True\<rparr>) (set_world w1 k))))"

text \<open>The interrupt handlers of this build.\<close>

definition user_call :: "'w Host \<Rightarrow> uhandler \<Rightarrow> 'w kern \<Rightarrow> 'w kern res" where
  "user_call H h k =
     (case h of TimerHandler \<Rightarrow> TimerExpired H k
      | ConsoleReadPoll \<Rightarrow> CheckCharAvail H k
      | ConsoleWriteDone \<Rightarrow> WriteDone k)"


section \<open>Synchronous console\<close>

definition SynchConsole_new :: "'w Host \<Rightarrow> bytes option \<Rightarrow> bytes option \<Rightarrow> 'w kern \<Rightarrow> 'w kern res" where
  "SynchConsole_new H inp outp k =
     bindR (Console_new H inp outp SynchReadFunct SynchWriteFunct k) (\<lambda>k1.
     let (r, k2) = Semaphore_new (cstr ''Synch Read Avail'') 0 k1;
         (w, k3) = Semaphore_new (cstr ''Synch Write Avail'') 0 k2;
         (rl, k4) = Semaphore_new (cstr ''Read Synch Line Block'') 1 k3;
         (wl, k5) = Semaphore_new (cstr ''Write Synch Line Block'') 1 k4 in
     Inr (set_dev (\<lambda>d. d\<lparr>gSynchConsole := (gSynchConsole d)\<lparr>synchReadAvail := r, synchWriteAvail := w,
            RLineBlock := rl, WLineBlock := wl\<rparr>\<rparr>) k5))"

definition SynchConsole_Write :: "bytes \<Rightarrow> int \<Rightarrow> 'w kern \<Rightarrow> 'w kern" where
  "SynchConsole_Write buffer numBytes k =
     push [P_call (WLineBlock (gSynchConsole (dev k))), Code (SynchWrite buffer numBytes 0)] k"

definition SynchWrite_loop :: "'w Host \<Rightarrow> bytes \<Rightarrow> int \<Rightarrow> nat \<Rightarrow> 'w kern \<Rightarrow> 'w kern res" where
  "SynchWrite_loop H buffer numBytes i k =
     (if int i < numBytes
      then bindR (read_array buffer (int i)) (\<lambda>ch.
           bindR (PutChar H ch k) (\<lambda>k1.
           Inr (push [P_call (synchWriteAvail (gSynchConsole (dev k1))),
                      Code (SynchWrite buffer numBytes (Suc i))] k1)))
      else Inr (push [V_call (WLineBlock (gSynchConsole (dev k)))] k))"

text \<open>\<open>Read\<close> first clears the buffer.\<close>

definition SynchConsole_Read :: "reader \<Rightarrow> bytes \<Rightarrow> int \<Rightarrow> 'w kern \<Rightarrow> 'w kern res" where
  "SynchConsole_Read rdr into numBytes k =
     (if int (length into) < numBytes then Inl OutOfBounds
      else Inr (push [P_call (RLineBlock (gSynchConsole (dev k))),
             Code (SynchRead rdr (splice_at 0 (replicate (nat numBytes) 0) into) numBytes 0 None)] k))"

definition SynchRead_loop :: "reader \<Rightarrow> bytes \<Rightarrow> int \<Rightarrow> nat \<Rightarrow> 8 word option \<Rightarrow> 'w kern \<Rightarrow> 'w kern" where
  "SynchRead_loop rdr into numBytes i ch k =
     (if int i < numBytes
      then push [P_call (synchReadAvail (gSynchConsole (dev k))), Code (SynchRead_char rdr into numBytes i)] k
      else push [V_call (RLineBlock (gSynchConsole (dev k))), Code (SynchRead_return rdr into i ch)] k)"

definition SynchRead_got :: "reader \<Rightarrow> bytes \<Rightarrow> int \<Rightarrow> nat \<Rightarrow> 'w kern \<Rightarrow> 'w kern res" where
  "SynchRead_got rdr into numBytes i k =
     (let (ch, k1) = GetChar k; c = gSynchConsole (dev k1) in
      if ch = EOF_char
      then Inr (push [P_call (synchReadAvail c), Code (SynchRead_char rdr into numBytes i)] k1)
      else if ch = NEWLINE \<or> ch = CTRL_A
      then Inr (push [V_call (RLineBlock c), Code (SynchRead_return rdr into i (Some ch))] k1)
      else bindR (write_array into (int i) ch) (\<lambda>into'.
           Inr (push [Code (SynchRead rdr into' numBytes (Suc i) (Some ch))] k1)))"

text \<open>The value \<open>Read\<close> returns.\<close>

definition SynchRead_result :: "nat \<Rightarrow> 8 word option \<Rightarrow> int res" where
  "SynchRead_result i ch =
     (case ch of None \<Rightarrow> Inl Undefined | Some c \<Rightarrow> Inr (if c = CTRL_A then -1 else int i))"


section \<open>The handlers keep the contract of the interrupt simulation\<close>

lemma console_call_kept: "console_call h k = Inr k' \<Longrightarrow> klevel k = IntOff \<Longrightarrow> handler_kept k k'"
  by (cases h) (auto simp: console_call_def intro: Semaphore_V_kept)

lemma YieldOnReturn_kept: "YieldOnReturn k = Inr k' \<Longrightarrow> handler_kept k k'"
  by (rule handler_kept_same) (auto simp: YieldOnReturn_def set_int_def same_sched_def elim!: bindR_InrE)

lemma TimerExpired_kept: "TimerExpired H k = Inr k' \<Longrightarrow> handler_kept k k'"
proof -
  assume "TimerExpired H k = Inr k'"
  then obtain t delay w k1 where s: "Schedule TimerHandler delay TimerInt (set_world w k) = Inr k1"
    and h: "TimerInterruptHandler k1 = Inr k'"
    by (auto simp: TimerExpired_def Timer_start_def elim!: bindR_InrE split: option.splits prod.splits)
  have "handler_kept k (set_world w k)" by (simp add: set_world_def set_dev_kept)
  also note Schedule_kept [OF s]
  also have "handler_kept k1 k'" using h YieldOnReturn_kept by (auto simp: TimerInterruptHandler_def split: if_splits)
  finally show ?thesis .
qed

lemma device_kept:
  assumes "console_call h (set_dev g k\<lparr>stats := s\<rparr>) = Inr k'" "klevel k = IntOff" "totalTicks s = now k"
  shows "handler_kept k k'"
proof -
  have "handler_kept k (set_dev g k\<lparr>stats := s\<rparr>)"
    by (rule handler_kept_same) (simp_all add: assms(3) set_dev_def same_sched_def)
  also have "handler_kept (set_dev g k\<lparr>stats := s\<rparr>) k'"
    using console_call_kept [OF assms(1)] assms(2) by (simp add: set_dev_def)
  finally show ?thesis .
qed

lemma CheckCharAvail_kept:
  assumes "CheckCharAvail H k = Inr k'" "klevel k = IntOff"
  shows "handler_kept k k'"
proof -
  obtain k1 where s: "Schedule ConsoleReadPoll ConsoleTime ConsoleReadInt k = Inr k1"
    using assms(1) by (auto simp: CheckCharAvail_def elim!: bindR_InrE)
  note K = Schedule_kept [OF s]
  have l: "klevel k1 = IntOff" using K assms(2) by (simp add: handler_kept_def)
  have "handler_kept k1 k'"
    using assms(1) s
    by (auto simp: CheckCharAvail_def Let_def set_console_def set_world_def set_dev_fusion elim!: bindR_InrE
        split: if_splits list.splits intro!: set_dev_kept)
      (rule device_kept [OF _ l], assumption, simp)
  with K show ?thesis by (rule handler_kept_trans)
qed

lemma WriteDone_kept: "WriteDone k = Inr k' \<Longrightarrow> klevel k = IntOff \<Longrightarrow> handler_kept k k'"
  by (auto simp: WriteDone_def Let_def set_console_def intro: device_kept)

interpretation user_interrupts: interrupt_handlers "user_call H" for H :: "'w Host"
  by unfold_locales
    (auto simp: user_call_def intro: TimerExpired_kept CheckCharAvail_kept WriteDone_kept split: uhandler.splits)


section \<open>The handlers do not fail\<close>

text \<open>What the handlers need from the host: \<open>select\<close> on one descriptor returns 0 or 1, a descriptor that
  it reports as readable yields a character (it is not at the end of its input), and \<open>rand\<close> is not negative.\<close>

definition polite :: "'w Host \<Rightarrow> bool" where
  "polite H \<longleftrightarrow> (\<forall>fd t w. fst (sys_select H fd t w) \<in> {0, 1}) \<and>
     (\<forall>fd t w w1. sys_select H fd t w = (1, w1) \<longrightarrow> (\<exists>c w2. sys_read H fd 1 w1 = ((1, [c]), w2))) \<and>
     (\<forall>w. 0 \<le> fst (sys_rand H w))"

definition console_sem :: "'w Globals \<Rightarrow> console_handler \<Rightarrow> nat" where
  "console_sem d h =
     (case h of SynchReadFunct \<Rightarrow> synchReadAvail (gSynchConsole d) | SynchWriteFunct \<Rightarrow> synchWriteAvail (gSynchConsole d))"

definition user_live :: "'w Host \<Rightarrow> uhandler \<Rightarrow> (nat \<rightharpoonup> Semaphore) \<Rightarrow> 'w Globals \<Rightarrow> bool" where
  "user_live H h ss d \<longleftrightarrow> polite H \<and>
     (case h of TimerHandler \<Rightarrow> timer d \<noteq> None
      | ConsoleReadPoll \<Rightarrow> ss (console_sem d (readHandler (cons (gSynchConsole d)))) \<noteq> None
      | ConsoleWriteDone \<Rightarrow> ss (console_sem d (writeHandler (cons (gSynchConsole d)))) \<noteq> None)"

definition same_devices :: "'w kern \<Rightarrow> 'w kern \<Rightarrow> bool" where
  "same_devices k k' \<longleftrightarrow> dom (sems k') = dom (sems k) \<and> timer (dev k') = timer (dev k) \<and>
     (\<forall>h. console_sem (dev k') h = console_sem (dev k) h) \<and>
     readHandler (the_console k') = readHandler (the_console k) \<and>
     writeHandler (the_console k') = writeHandler (the_console k) \<and> machine k' = machine k"

lemma same_devices_refl [simp]: "same_devices k k"
  by (simp add: same_devices_def)

lemma same_devices_trans [trans]: "same_devices k k' \<Longrightarrow> same_devices k' k'' \<Longrightarrow> same_devices k k''"
  by (simp add: same_devices_def)

lemma same_devices_live:
  assumes "same_devices k k'"
  shows "user_live H h (sems k') (dev k') = user_live H h (sems k) (dev k)"
  using assms by (auto simp: same_devices_def user_live_def domIff set_eq_iff split: uhandler.splits)

lemma Schedule_alive:
  assumes "d > 0" "alive (user_live H) k" "user_live H h (sems k) (dev k)"
  shows "\<exists>k'. Schedule h d ty k = Inr k' \<and> alive (user_live H) k' \<and> same_devices k k' \<and>
    interrupt k' = (interrupt k)\<lparr>pending := pending (interrupt k')\<rparr> \<and> same_sched k k'"
  using assms
  by (auto simp: Schedule_def Let_def alive_def set_int_def set_SortedInsert same_devices_def same_sched_def)

lemma console_call_total:
  assumes "core b k" "klevel k = IntOff" "sems k (console_sem (dev k) h) \<noteq> None" "alive (user_live H) k"
  shows "\<exists>k'. console_call h k = Inr k' \<and> alive (user_live H) k' \<and> same_devices k k'"
proof -
  obtain k' where v: "Semaphore_V (console_sem (dev k) h) k = Inr k'"
    using V_total [OF assms(1)] assms(2,3) by blast
  have e: "interrupt k' = interrupt k" "dev k' = dev k" "machine k' = machine k" "dom (sems k') = dom (sems k)"
    using v assms(2,3) by (auto simp: Semaphore_V_def SetLevel_off ChangeLevel_def set_int_def store_defs ReadyToRun_def
        Let_def elim!: bindR_InrE split: option.splits prod.splits if_splits)
  then have s: "same_devices k k'" by (simp add: same_devices_def)
  moreover have "alive (user_live H) k'"
    using assms(4) same_devices_live [OF s] e(1) by (simp add: alive_def)
  moreover have "console_call h k = Inr k'" using v by (cases h) (simp_all add: console_call_def console_sem_def)
  ultimately show ?thesis by blast
qed

lemma set_dev_alive:
  assumes "alive (user_live H) k" "same_devices k (set_dev f k)"
  shows "alive (user_live H) (set_dev f k)"
  using assms(1) same_devices_live [OF assms(2)] by (simp add: alive_def)

lemma TimerExpired_total:
  assumes l: "user_live H TimerHandler (sems k) (dev k)" "alive (user_live H) k" and i: "inHandler (interrupt k)"
  shows "\<exists>k'. TimerExpired H k = Inr k' \<and> alive (user_live H) k' \<and> machine k' = machine k"
proof -
  obtain t where t: "timer (dev k) = Some t" and p: "polite H" using l(1) by (auto simp: user_live_def)
  obtain delay w where n: "TimeOfNextInterrupt H t (world (dev k)) = (delay, w)" by fastforce
  have d: "delay > 0"
    using n p by (auto simp: TimeOfNextInterrupt_def Random_def polite_def tick_defs split: if_splits prod.splits)
      (metis fst_conv smod_nonneg pos_mod_sign zero_less_numeral add_pos_nonneg zero_less_one)
  let ?k = "set_world w k"
  have s: "same_devices k ?k" by (simp add: set_world_def same_devices_def console_sem_def cong: console_handler.case_cong)
  have "alive (user_live H) ?k" using set_dev_alive [OF l(2)] s by (simp add: set_world_def)
  from Schedule_alive [OF d this, of TimerHandler TimerInt] obtain k1 where
    k1: "Schedule TimerHandler delay TimerInt ?k = Inr k1" "alive (user_live H) k1" "same_devices ?k k1"
      "interrupt k1 = (interrupt ?k)\<lparr>pending := pending (interrupt k1)\<rparr>"
    using l(1) same_devices_live [OF s] by auto
  have "inHandler (interrupt k1)" using i by (subst k1(4)) (simp add: set_world_def)
  then show ?thesis
    using t n k1 s by (auto simp: TimerExpired_def Timer_start_def TimerInterruptHandler_def YieldOnReturn_def set_int_def
        alive_def same_devices_def)
qed

lemma CheckCharAvail_total:
  assumes l: "user_live H ConsoleReadPoll (sems k) (dev k)" "alive (user_live H) k" and c: "core b k" "klevel k = IntOff"
  shows "\<exists>k'. CheckCharAvail H k = Inr k' \<and> alive (user_live H) k' \<and> machine k' = machine k"
proof -
  have p: "polite H" using l(1) by (simp add: user_live_def)
  from Schedule_alive [of ConsoleTime H k ConsoleReadPoll ConsoleReadInt] l obtain k1 where
    k1: "Schedule ConsoleReadPoll ConsoleTime ConsoleReadInt k = Inr k1" "alive (user_live H) k1" "same_devices k k1"
      "interrupt k1 = (interrupt k)\<lparr>pending := pending (interrupt k1)\<rparr>" "same_sched k k1"
    by (auto simp: tick_defs)
  let ?c = "the_console k1" and ?idle = "istatus (interrupt k1) = IdleMode"
  have sem: "sems k1 (console_sem (dev k1) (readHandler ?c)) \<noteq> None"
    using l(1) same_devices_live [OF k1(3), of H ConsoleReadPoll] by (simp add: user_live_def)
  have c1: "core b k1" "klevel k1 = IntOff" using c core_cong [OF k1(5)] by (simp, subst k1(4), simp)
  have dev: "same_devices k1 (set_dev g k1)" if "\<And>d. timer (g d) = timer d" "\<And>d. synchReadAvail (gSynchConsole (g d)) = synchReadAvail (gSynchConsole d)"
    "\<And>d. synchWriteAvail (gSynchConsole (g d)) = synchWriteAvail (gSynchConsole d)"
    "\<And>d. readHandler (cons (gSynchConsole (g d))) = readHandler (cons (gSynchConsole d))"
    "\<And>d. writeHandler (cons (gSynchConsole (g d))) = writeHandler (cons (gSynchConsole d))" for g
    using that by (simp add: same_devices_def console_sem_def cong: console_handler.case_cong)
  obtain r w1 where sel: "sys_select H (readFileNo ?c) (if ?idle then 20000 else 0) (world (dev k1)) = (r, w1)" by fastforce
  then have r: "r = 0 \<or> r = 1" using p unfolding polite_def by (metis fst_conv insertE singletonD)
  have P: "PollFile H ?idle (readFileNo ?c) (world (dev k1)) = Inr (r \<noteq> 0, w1)" using r by (simp add: PollFile_def sel)
  consider (kept) "incoming ?c \<noteq> EOF_char" | (none) "incoming ?c = EOF_char" "r = 0" | (char) "incoming ?c = EOF_char" "r = 1"
    using r by blast
  then show ?thesis
  proof cases
    case kept
    then show ?thesis using k1 by (auto simp: CheckCharAvail_def same_devices_def)
  next
    case none
    have "alive (user_live H) (set_world w1 k1)" unfolding set_world_def by (rule set_dev_alive [OF k1(2) dev]) simp_all
    then show ?thesis using none k1 P by (auto simp: CheckCharAvail_def same_devices_def set_world_def)
  next
    case char
    obtain ch w2 where rd: "sys_read H (readFileNo ?c) 1 w1 = ((1, [ch]), w2)" using p sel char(2) unfolding polite_def by metis
    define g where "g d = d\<lparr>world := w2, gSynchConsole := (gSynchConsole d)\<lparr>cons := (cons (gSynchConsole d))\<lparr>incoming := ch\<rparr>\<rparr>\<rparr>" for d :: "'a Globals"
    let ?k3 = "(set_dev g k1)\<lparr>stats := (stats k1)\<lparr>numConsoleCharsRead := numConsoleCharsRead (stats k1) + 1\<rparr>\<rparr>"
    have e: "set_console (\<lambda>c. c\<lparr>incoming := ch\<rparr>) (set_world w2 k1) = set_dev g k1"
      by (simp add: set_console_def set_world_def set_dev_def g_def)
    have s: "same_devices k1 (set_dev g k1)" by (rule dev) (simp_all add: g_def)
    have a: "alive (user_live H) ?k3" using set_dev_alive [OF k1(2) s] by (simp add: alive_def)
    have sm: "sems ?k3 (console_sem (dev ?k3) (readHandler ?c)) \<noteq> None" using sem s by (simp add: same_devices_def)
    have "core b ?k3" using c1(1) core_cong [of k1 ?k3] by (simp add: same_sched_def)
    from console_call_total [OF this _ sm a] c1(2) obtain k' where
      "console_call (readHandler ?c) ?k3 = Inr k'" "alive (user_live H) k'" "same_devices ?k3 k'" by auto
    then show ?thesis
      using char k1(1,3) P rd e by (auto simp: CheckCharAvail_def Let_def Read_exactly_def same_devices_def)
  qed
qed

lemma WriteDone_total:
  assumes l: "user_live H ConsoleWriteDone (sems k) (dev k)" "alive (user_live H) k" and c: "core b k" "klevel k = IntOff"
  shows "\<exists>k'. WriteDone k = Inr k' \<and> alive (user_live H) k' \<and> machine k' = machine k"
proof -
  let ?k1 = "set_console (\<lambda>c. c\<lparr>putBusy := False\<rparr>) k"
  let ?k2 = "?k1\<lparr>stats := (stats ?k1)\<lparr>numConsoleCharsWritten := numConsoleCharsWritten (stats ?k1) + 1\<rparr>\<rparr>"
  have s: "same_devices k ?k1" by (simp add: set_console_def same_devices_def console_sem_def cong: console_handler.case_cong)
  have a: "alive (user_live H) ?k2" using set_dev_alive [OF l(2)] s by (simp add: alive_def set_console_def)
  have "sems ?k2 (console_sem (dev ?k2) (writeHandler (the_console k))) \<noteq> None"
    using l(1) s by (auto simp: user_live_def same_devices_def set_console_def)
  moreover have "core b ?k2" using c(1) core_cong [of k ?k2] by (simp add: same_sched_def set_console_def)
  moreover have "klevel ?k2 = IntOff" using c(2) by (simp add: set_console_def)
  ultimately obtain k' where "console_call (writeHandler (the_console k)) ?k2 = Inr k'" "alive (user_live H) k'" "same_devices ?k2 k'"
    using console_call_total a by blast
  then show ?thesis using s by (auto simp: WriteDone_def Let_def same_devices_def)
qed

interpretation user_devices: live_handlers "user_call H" "user_live H" for H :: "'w Host"
proof
  fix h and k :: "'w kern" and b
  assume "user_live H h (sems k) (dev k)" "alive (user_live H) k" "core b k" "klevel k = IntOff" "inHandler (interrupt k)"
  then show "\<exists>k'. user_call H h k = Inr k' \<and> alive (user_live H) k' \<and> machine k' = machine k"
    by (cases h) (simp_all add: user_call_def TimerExpired_total CheckCharAvail_total WriteDone_total)
qed

end
