(* ===== verification/User_Memory.thy ===== *)
theory User_Memory
  imports Console_Device
begin

text \<open>
  The routines of \<^verbatim>\<open>userprog/exception.cc\<close> that move strings between the kernel and the memory of the
  running program, and \<open>AdvanceProgramCounter\<close>.

  A read or write that fails raises an exception inside the kernel, and the exception handler
  halts the machine for every exception that translation can raise.
\<close>

definition AdvanceProgramCounter :: "Machine \<Rightarrow> Machine" where
  "AdvanceProgramCounter m =
     (let m1 = set_reg PrevPCReg (registers m PCReg) m;
          m2 = set_reg PCReg (registers m1 NextPCReg) m1
      in set_reg NextPCReg (registers m2 NextPCReg + 4) m2)"

definition kernel_read :: "Machine \<Rightarrow> 32 word \<Rightarrow> (32 word \<times> Machine) res" where
  "kernel_read m addr =
     bindR (ReadMem m addr 1) (\<lambda>(r, m1). case r of Inl exc \<Rightarrow> Halt | Inr v \<Rightarrow> Inr (v, m1))"

definition kernel_write :: "Machine \<Rightarrow> 32 word \<Rightarrow> 32 word \<Rightarrow> Machine res" where
  "kernel_write m addr v =
     bindR (WriteMem m addr 1 v) (\<lambda>(r, m1). case r of Inl exc \<Rightarrow> Halt | Inr _ \<Rightarrow> Inr m1)"

text \<open>The loop at index \<open>i\<close>, with \<open>n\<close> iterations left.\<close>

fun UserToSystem_loop :: "32 word \<Rightarrow> nat \<Rightarrow> nat \<Rightarrow> bytes \<Rightarrow> Machine \<Rightarrow> (bytes \<times> Machine) res" where
  "UserToSystem_loop virtAddr i 0 buf m = Inr (buf, m)"
| "UserToSystem_loop virtAddr i (Suc n) buf m =
     bindR (kernel_read m (virtAddr + of_nat i)) (\<lambda>(oneChar, m1).
     bindR (write_array buf (int i) (ucast oneChar)) (\<lambda>buf'.
       if oneChar = 0 then Inr (buf', m1) else UserToSystem_loop virtAddr (Suc i) n buf' m1))"

text \<open>An allocation of negative size has no meaning.\<close>

definition UserToSystem :: "32 word \<Rightarrow> int \<Rightarrow> Machine \<Rightarrow> (bytes \<times> Machine) res" where
  "UserToSystem virtAddr limit m =
     (if limit + 1 < 0 \<or> limit + 1 \<ge> 2 ^ 31 then Inl Undefined
      else UserToSystem_loop virtAddr 0 (nat limit) (replicate (nat (limit + 1)) 0) m)"

fun SystemToUser_loop :: "32 word \<Rightarrow> nat \<Rightarrow> nat \<Rightarrow> bytes \<Rightarrow> Machine \<Rightarrow> (int \<times> Machine) res" where
  "SystemToUser_loop virtAddr i 0 buf m = Inr (int i, m)"
| "SystemToUser_loop virtAddr i (Suc n) buf m =
     bindR (read_array buf (int i)) (\<lambda>oneChar.
     bindR (kernel_write m (virtAddr + of_nat i) (scast oneChar)) (\<lambda>m1.
       if oneChar \<noteq> 0 then SystemToUser_loop virtAddr (Suc i) n buf m1 else Inr (int (Suc i), m1)))"

definition SystemToUser :: "32 word \<Rightarrow> int \<Rightarrow> bytes \<Rightarrow> Machine \<Rightarrow> (int \<times> Machine) res" where
  "SystemToUser virtAddr len buffer m =
     (if len < 0 then Inr (-1, m) else if len = 0 then Inr (len, m)
      else SystemToUser_loop virtAddr 0 (nat len) buffer m)"

end
