(* ===== verification/Address_Space.thy ===== *)
theory Address_Space
  imports User_Memory
begin

text \<open>
  Address spaces (\<^verbatim>\<open>userprog/addrspace.cc\<close>): the constructor that allocates page frames and loads an
  executable in the format of \<^verbatim>\<open>bin/noff.h\<close>, and the setting of the registers.  The constructor waits
  for \<open>addrLock\<close> twice, so it is three pieces: up to \<open>P\<close>, up to \<open>V\<close>, and the rest.
\<close>

definition UserStackSize :: "32 word" where "UserStackSize = 1024"
definition NOFFMAGIC :: "32 word" where "NOFFMAGIC = 0xbadfad"

section \<open>The header\<close>

definition word_at :: "bytes \<Rightarrow> nat \<Rightarrow> 32 word" where
  "word_at bs i = mem32 (\<lambda>j. bs ! j) i"

definition segment_at :: "bytes \<Rightarrow> nat \<Rightarrow> Segment" where
  "segment_at bs i = \<lparr>virtualAddr = word_at bs i, inFileAddr = word_at bs (i + 4), seg_size = word_at bs (i + 8)\<rparr>"

text \<open>The forty bytes of the structure; what the file does not provide keeps the contents of the
  stack.\<close>

definition header_of :: "bytes \<Rightarrow> NoffHeader" where
  "header_of bs = \<lparr>noffMagic = word_at bs 0, code_seg = segment_at bs 4, initData = segment_at bs 16,
     uninitData = segment_at bs 28\<rparr>"

text \<open>\<open>WordToHost\<close> is the identity on a little-endian host.\<close>

definition WordToHost :: "32 word \<Rightarrow> 32 word" where
  "WordToHost w = w"

definition swap_segment :: "Segment \<Rightarrow> Segment" where
  "swap_segment s = \<lparr>virtualAddr = WordToHost (virtualAddr s), inFileAddr = WordToHost (inFileAddr s),
     seg_size = WordToHost (seg_size s)\<rparr>"

definition SwapHeader :: "NoffHeader \<Rightarrow> NoffHeader" where
  "SwapHeader h = \<lparr>noffMagic = WordToHost (noffMagic h), code_seg = swap_segment (code_seg h),
     initData = swap_segment (initData h), uninitData = swap_segment (uninitData h)\<rparr>"

definition AddrSpace_header :: "'w Host \<Rightarrow> Fresh \<Rightarrow> UnixFile \<Rightarrow> 'w \<Rightarrow> (NoffHeader \<times> 'w) res" where
  "AddrSpace_header H J executable w =
     bindR (UnixFile_ReadAt H executable 40 0 w) (\<lambda>((n, d), w1).
     let h = header_of (d @ drop (length d) (fresh_header J));
         h' = (if noffMagic h \<noteq> NOFFMAGIC \<and> WordToHost (noffMagic h) = NOFFMAGIC then SwapHeader h else h) in
     bindR (ASSERT (noffMagic h' = NOFFMAGIC)) (\<lambda>_. Inr (h', w1)))"


section \<open>Page frames\<close>

text \<open>The size of the program in pages; the sum is an \<open>unsigned int\<close>.\<close>

definition space_pages :: "NoffHeader \<Rightarrow> nat" where
  "space_pages h =
     (let sz = seg_size (code_seg h) + seg_size (initData h) + seg_size (uninitData h) + UserStackSize
      in nat (divRoundUp (uint sz) (int PageSize)))"

definition bzero :: "nat \<Rightarrow> nat \<Rightarrow> Machine \<Rightarrow> Machine" where
  "bzero a n m = m\<lparr>mainMemory := (\<lambda>i. if a \<le> i \<and> i < a + n then 0 else mainMemory m i)\<rparr>"

text \<open>The loop over the pages, from page \<open>i\<close> with \<open>n\<close> pages left: \<open>Find\<close> a frame, fill in the entry,
  clear the frame.\<close>

fun alloc_pages :: "nat \<Rightarrow> nat \<Rightarrow> BitMap \<Rightarrow> Machine \<Rightarrow> (TranslationEntry list \<times> BitMap \<times> Machine) res" where
  "alloc_pages i 0 bm m = Inr ([], bm, m)"
| "alloc_pages i (Suc n) bm m =
     bindR (BitMap_Find bm) (\<lambda>(f, bm1).
     if f < 0 \<or> f \<ge> int NumPhysPages then Inl OutOfBounds
     else
       let e = \<lparr>virtualPage = of_nat i, physicalPage = of_int f, valid = True, readOnly = False,
                use = False, dirty = False\<rparr> in
       bindR (alloc_pages (Suc i) n bm1 (bzero (nat f * PageSize) PageSize m)) (\<lambda>(es, bm2, m2).
       Inr (e # es, bm2, m2)))"


section \<open>Loading\<close>

text \<open>\<open>ReadAt\<close> into physical memory at \<open>&mainMemory[base] + a\<close>.\<close>

definition store_bytes :: "nat \<Rightarrow> bytes \<Rightarrow> Machine \<Rightarrow> Machine" where
  "store_bytes a d m = m\<lparr>mainMemory := (\<lambda>i. if a \<le> i \<and> i < a + length d then d ! (i - a) else mainMemory m i)\<rparr>"

definition read_frame :: "'w Host \<Rightarrow> UnixFile \<Rightarrow> 32 word \<Rightarrow> int \<Rightarrow> int \<Rightarrow> int \<Rightarrow> Machine \<Rightarrow> 'w \<Rightarrow> (Machine \<times> 'w) res" where
  "read_frame H executable base a numBytes position m w =
     bindR (UnixFile_ReadAt H executable numBytes position w) (\<lambda>((n, d), w1).
     let addr = sint base + a in
     if d = [] then Inr (m, w1)
     else if 0 \<le> addr \<and> addr + int (length d) \<le> int MemorySize then Inr (store_bytes (nat addr) d m, w1)
     else Inl OutOfBounds)"

text \<open>The physical address of page \<open>i\<close> of the table.\<close>

definition frame_addr :: "TranslationEntry list \<Rightarrow> int \<Rightarrow> int res" where
  "frame_addr pt i = bindR (read_array pt i) (\<lambda>e. Inr (sint (physicalPage e) * int PageSize))"

text \<open>The sizes the constructor computes, in the order of the code.  \<open>unsigned\<close> quantities are
  words; \<open>lastDataPageSize\<close> is only used when it has been set.\<close>

definition numCodePage :: "NoffHeader \<Rightarrow> 32 word" where
  "numCodePage h = of_int (divRoundUp (sint (seg_size (code_seg h))) (int PageSize))"

definition lastCodePageSize :: "NoffHeader \<Rightarrow> int" where
  "lastCodePageSize h = sint (seg_size (code_seg h) - (numCodePage h - 1) * of_nat PageSize)"

definition tempDataSize :: "NoffHeader \<Rightarrow> int" where
  "tempDataSize h = sint (seg_size (initData h)) - (int PageSize - lastCodePageSize h)"

definition numDataPage :: "NoffHeader \<Rightarrow> 32 word" where
  "numDataPage h = (if tempDataSize h < 0 then 0 else of_int (divRoundUp (tempDataSize h) (int PageSize)))"

definition lastDataPageSize :: "NoffHeader \<Rightarrow> int" where
  "lastDataPageSize h = sint (of_int (tempDataSize h) - (numDataPage h - 1) * of_nat PageSize :: 32 word)"

definition firstDataPageSize :: "NoffHeader \<Rightarrow> int" where
  "firstDataPageSize h = (if tempDataSize h < 0 then sint (seg_size (initData h)) else int PageSize - lastCodePageSize h)"

text \<open>The first loop: page \<open>i\<close> of the code, \<open>n\<close> pages left.\<close>

fun load_code :: "'w Host \<Rightarrow> UnixFile \<Rightarrow> NoffHeader \<Rightarrow> TranslationEntry list \<Rightarrow> nat \<Rightarrow> nat \<Rightarrow> Machine \<Rightarrow> 'w \<Rightarrow> (Machine \<times> 'w) res" where
  "load_code H exe h pt i 0 m w = Inr (m, w)"
| "load_code H exe h pt i (Suc n) m w =
     bindR (if sint (seg_size (code_seg h)) > 0
            then bindR (frame_addr pt (int i)) (\<lambda>a.
                 read_frame H exe (virtualAddr (code_seg h)) a
                   (if of_nat i < numCodePage h - 1 then int PageSize else lastCodePageSize h)
                   (sint (inFileAddr (code_seg h) + of_nat i * of_nat PageSize)) m w)
            else Inr (m, w))
       (\<lambda>(m1, w1). load_code H exe h pt (Suc i) n m1 w1)"

text \<open>The rest of the last code page takes the beginning of the data.\<close>

definition load_first_data :: "'w Host \<Rightarrow> UnixFile \<Rightarrow> NoffHeader \<Rightarrow> TranslationEntry list \<Rightarrow> Machine \<Rightarrow> 'w \<Rightarrow> (Machine \<times> 'w) res" where
  "load_first_data H exe h pt m w =
     (if lastCodePageSize h < int PageSize \<and> firstDataPageSize h > 0
      then bindR (frame_addr pt (int (unat (numCodePage h)) - 1)) (\<lambda>a.
           read_frame H exe (virtualAddr (code_seg h)) (a + lastCodePageSize h)
             (firstDataPageSize h) (sint (inFileAddr (initData h))) m w)
      else Inr (m, w))"

text \<open>The second loop: page \<open>j\<close> of the remaining data goes to page \<open>i\<close> of the table.\<close>

fun load_data :: "'w Host \<Rightarrow> UnixFile \<Rightarrow> NoffHeader \<Rightarrow> TranslationEntry list \<Rightarrow> nat \<Rightarrow> nat \<Rightarrow> nat \<Rightarrow> Machine \<Rightarrow> 'w \<Rightarrow> (Machine \<times> 'w) res" where
  "load_data H exe h pt i j 0 m w = Inr (m, w)"
| "load_data H exe h pt i j (Suc n) m w =
     bindR (if sint (seg_size (initData h)) > 0
            then bindR (frame_addr pt (int i)) (\<lambda>a.
                 read_frame H exe (virtualAddr (code_seg h)) a
                   (if of_nat j < numDataPage h - 1 then int PageSize else lastDataPageSize h)
                   (sint (inFileAddr (initData h) + of_nat j * of_nat PageSize + of_int (firstDataPageSize h))) m w)
            else Inr (m, w))
       (\<lambda>(m1, w1). load_data H exe h pt (Suc i) (Suc j) n m1 w1)"

definition load_program :: "'w Host \<Rightarrow> UnixFile \<Rightarrow> NoffHeader \<Rightarrow> TranslationEntry list \<Rightarrow> Machine \<Rightarrow> 'w \<Rightarrow> (Machine \<times> 'w) res" where
  "load_program H exe h pt m w =
     bindR (load_code H exe h pt 0 (unat (numCodePage h)) m w) (\<lambda>(m1, w1).
     bindR (load_first_data H exe h pt m1 w1) (\<lambda>(m2, w2).
     load_data H exe h pt (unat (numCodePage h)) 0 (unat (numDataPage h)) m2 w2))"


section \<open>The constructor\<close>

text \<open>Up to \<open>addrLock->P\<close>.  When the file cannot be opened the members of the object are left
  uninitialised, and the caller reads one of them next.\<close>

definition AddrSpace_open :: "'w Host \<Rightarrow> Fresh \<Rightarrow> bytes \<Rightarrow> 'w kern \<Rightarrow> 'w kern res" where
  "AddrSpace_open H J nm k =
     bindR (UnixFS_Open H nm (world (dev k))) (\<lambda>(f, w1). case f of
       None \<Rightarrow> Inl Undefined
     | Some executable \<Rightarrow>
         bindR (AddrSpace_header H J executable w1) (\<lambda>(h, w2).
         Inr (push [P_call (addrLock (dev k)), Code (AddrSpace_alloc executable h)] (set_world w2 k))))"

text \<open>Inside the critical section.\<close>

definition AddrSpace_allocate :: "'w Host \<Rightarrow> Fresh \<Rightarrow> UnixFile \<Rightarrow> NoffHeader \<Rightarrow> 'w kern \<Rightarrow> 'w kern res" where
  "AddrSpace_allocate H J executable h k =
     (let n = space_pages h; unlock = V_call (addrLock (dev k)) in
      bindR (BitMap_NumClear (gPhysPageBitMap (dev k))) (\<lambda>free.
      if int n > free
      then bindR (UnixFile_delete H executable (world (dev k))) (\<lambda>w1.
           Inr (push [unlock, Code (Space_ready \<lparr>space_table = fresh_table J, numPages = 0\<rparr>)] (set_world w1 k)))
      else bindR (get_machine k) (\<lambda>m.
           bindR (alloc_pages 0 n (gPhysPageBitMap (dev k)) m) (\<lambda>(pt, bm, m1).
           Inr (push [unlock, Code (AddrSpace_load executable h \<lparr>space_table = Some pt, numPages = n\<rparr>)]
             (put_machine m1 (set_dev (\<lambda>d. d\<lparr>gPhysPageBitMap := bm\<rparr>) k)))))))"

definition AddrSpace_fill :: "'w Host \<Rightarrow> UnixFile \<Rightarrow> NoffHeader \<Rightarrow> AddrSpace \<Rightarrow> 'w kern \<Rightarrow> 'w kern res" where
  "AddrSpace_fill H executable h sp k =
     (case space_table sp of None \<Rightarrow> Inl NullDeref
      | Some pt \<Rightarrow>
          bindR (get_machine k) (\<lambda>m.
          bindR (load_program H executable h pt m (world (dev k))) (\<lambda>(m1, w1).
          Inr (push [Code (Space_ready sp)] (put_machine m1 (set_world w1 k))))))"


section \<open>Registers\<close>

fun zero_registers :: "nat \<Rightarrow> Machine \<Rightarrow> Machine res" where
  "zero_registers 0 m = Inr m"
| "zero_registers (Suc i) m = bindR (zero_registers i m) (\<lambda>m1. WriteRegister m1 (int i) 0)"

definition InitRegisters :: "AddrSpace \<Rightarrow> Machine \<Rightarrow> Machine res" where
  "InitRegisters sp m =
     bindR (zero_registers NumTotalRegs m) (\<lambda>m1.
     bindR (WriteRegister m1 (int PCReg) 0) (\<lambda>m2.
     bindR (WriteRegister m2 (int NextPCReg) 4) (\<lambda>m3.
     WriteRegister m3 (int StackReg) (of_nat (numPages sp) * of_nat PageSize - 16))))"

text \<open>What \<open>StartProcess\<close> and \<open>StartProcess_2\<close> do with the new address space.\<close>

definition space_start :: "AddrSpace \<Rightarrow> 'w kern \<Rightarrow> 'w kern res" where
  "space_start sp k =
     bindR (get_thread k (currentThread k)) (\<lambda>th.
     let k1 = put_thread (currentThread k) (th\<lparr>space := Some sp\<rparr>) k in
     bindR (get_machine k1) (\<lambda>m.
     bindR (InitRegisters sp m) (\<lambda>m1.
     Inr (push [Code Run, Code Run_returned] (put_machine (RestoreState sp m1) k1)))))"

end
