(* ===== verification/Process_Table.thy ===== *)
theory Process_Table
  imports Address_Space
begin

text \<open>
  Process control blocks (\<^verbatim>\<open>userprog/pcb.cc\<close>), the process table (\<^verbatim>\<open>userprog/ptable.cc\<close>) and the table
  of named semaphores (\<^verbatim>\<open>userprog/stable.cc\<close>, \<^verbatim>\<open>userprog/sem.h\<close>).  Every method that waits for a
  semaphore is cut where it waits; the piece behind the wait reads the table again, as the code does.
\<close>


section \<open>Process control blocks\<close>

definition get_pcb :: "'w kern \<Rightarrow> nat \<Rightarrow> PCB res" where
  "get_pcb k p = (case pcbs (dev k) p of None \<Rightarrow> Inl Undefined | Some b \<Rightarrow> Inr b)"

definition put_pcb :: "nat \<Rightarrow> PCB \<Rightarrow> 'w kern \<Rightarrow> 'w kern" where
  "put_pcb p b k = set_dev (\<lambda>d. d\<lparr>pcbs := (pcbs d)(p \<mapsto> b)\<rparr>) k"

text \<open>\<open>filename\<close> and \<open>parentID\<close> are not set by the constructor.\<close>

definition PCB_new :: "Fresh \<Rightarrow> int \<Rightarrow> 'w kern \<Rightarrow> nat \<times> 'w kern" where
  "PCB_new J i k =
     (let (j, k1) = Semaphore_new (cstr ''joinsem'') 0 k;
          (e, k2) = Semaphore_new (cstr ''exitsem'') 0 k1;
          (x, k3) = Semaphore_new (cstr ''multex'') 1 k2;
          p = nextPcb (dev k3) in
      (p, set_dev (\<lambda>d. d\<lparr>pcbs := (pcbs d)(p \<mapsto> \<lparr>joinsem = j, exitsem = e, multex = x, pthread = None,
             numwait = 0, ppid = i, filename = [], exitcode = 0, pparentID = fresh_parent J\<rparr>),
             nextPcb := Suc p\<rparr>) k3))"

definition PCB_delete :: "nat \<Rightarrow> 'w kern \<Rightarrow> 'w kern res" where
  "PCB_delete p k =
     bindR (get_pcb k p) (\<lambda>b.
     bindR (Semaphore_delete (joinsem b) k) (\<lambda>k1.
     bindR (Semaphore_delete (exitsem b) k1) (\<lambda>k2.
     bindR (Semaphore_delete (multex b) k2) (\<lambda>k3.
     Inr (set_dev (\<lambda>d. d\<lparr>pcbs := (pcbs d)(p := None)\<rparr>) k3)))))"

definition SetFileName :: "nat \<Rightarrow> bytes \<Rightarrow> 'w kern \<Rightarrow> 'w kern res" where
  "SetFileName p fn k = bindR (get_pcb k p) (\<lambda>b. Inr (put_pcb p (b\<lparr>filename := fn\<rparr>) k))"

text \<open>\<open>PCB::Exec\<close> behind \<open>multex->P\<close>; the release of \<open>multex\<close> is the next frame, which the
  caller has pushed.\<close>

definition PCB_Exec_fork :: "Fresh \<Rightarrow> nat \<Rightarrow> nat \<Rightarrow> int \<Rightarrow> 'w kern \<Rightarrow> 'w kern res" where
  "PCB_Exec_fork J p nm i k =
     (let (t, k1) = Thread_new (fresh_thread J) nm k in
      bindR (get_pcb k1 p) (\<lambda>b.
      let k2 = put_pcb p (b\<lparr>pthread := Some t\<rparr>) k1 in
      bindR (get_thread k2 (currentThread k2)) (\<lambda>cur.
      bindR (get_thread k2 t) (\<lambda>th.
      Fork t (StartProcess_2 i) (put_thread t (th\<lparr>pid := i, parentID := pid cur\<rparr>) k2)))))"

definition PCB_unlock :: "nat \<Rightarrow> 'w kern \<Rightarrow> 'w kern res" where
  "PCB_unlock p k = bindR (get_pcb k p) (\<lambda>b. Inr (push [V_call (multex b)] k))"

text \<open>\<open>IncNumWait\<close> and \<open>DecNumWait\<close> (\<open>d\<close> is 1 or -1).\<close>

definition NumWait :: "nat \<Rightarrow> int \<Rightarrow> 'w kern \<Rightarrow> 'w kern res" where
  "NumWait p d k = bindR (get_pcb k p) (\<lambda>b. Inr (push [P_call (multex b), Code (NumWait_add p d)] k))"

definition NumWait_body :: "nat \<Rightarrow> int \<Rightarrow> 'w kern \<Rightarrow> 'w kern res" where
  "NumWait_body p d k =
     bindR (get_pcb k p) (\<lambda>b. Inr (push [V_call (multex b)] (put_pcb p (b\<lparr>numwait := numwait b + d\<rparr>) k)))"


section \<open>Process table\<close>

definition MAX_PROCESS :: nat where "MAX_PROCESS = 10"

text \<open>The block a slot of the table points to.\<close>

definition slot_pcb :: "'w kern \<Rightarrow> int \<Rightarrow> (nat \<times> PCB) res" where
  "slot_pcb k i =
     bindR (read_array (pcb (pTab (dev k))) i) (\<lambda>s. case s of
       None \<Rightarrow> Inl NullDeref | Some p \<Rightarrow> bindR (get_pcb k p) (\<lambda>b. Inr (p, b)))"

definition set_slot :: "int \<Rightarrow> nat option \<Rightarrow> 'w kern \<Rightarrow> 'w kern res" where
  "set_slot i s k =
     bindR (write_array (pcb (pTab (dev k))) i s) (\<lambda>xs.
     Inr (set_dev (\<lambda>d. d\<lparr>pTab := (pTab d)\<lparr>pcb := xs\<rparr>\<rparr>) k))"

text \<open>The string the name pointer of the current thread refers to; the string may have been freed.\<close>

definition getName :: "'w kern \<Rightarrow> bytes res" where
  "getName k =
     bindR (get_thread k (currentThread k)) (\<lambda>th.
     case strings (dev k) (tname th) of None \<Rightarrow> Inl Undefined | Some s \<Rightarrow> Inr s)"

definition PTable_new :: "Fresh \<Rightarrow> int \<Rightarrow> 'w kern \<Rightarrow> 'w kern res" where
  "PTable_new J sz k =
     (if sz > int MAX_PROCESS then Inl OutOfBounds
      else
        bindR (BitMap_new (fresh_words J) sz) (\<lambda>bm0.
        let (s, k1) = Semaphore_new (cstr ''bmsem'') 1 k in
        bindR (BitMap_Mark bm0 0) (\<lambda>bm1.
        let k2 = set_dev (\<lambda>d. d\<lparr>pTab := \<lparr>psize = sz, pcb = replicate MAX_PROCESS None, pbm = bm1, bmsem = s\<rparr>\<rparr>) k1;
            (p, k3) = PCB_new J 0 k2 in
        bindR (set_slot 0 (Some p) k3) (\<lambda>k4.
        bindR (getName k4) (\<lambda>nm. SetFileName p nm k4)))))"

definition PTable_IsExist :: "'w kern \<Rightarrow> int \<Rightarrow> bool res" where
  "PTable_IsExist k i = BitMap_Test (pbm (pTab (dev k))) i"

definition PTable_GetFreeSlot :: "'w kern \<Rightarrow> (int \<times> 'w kern) res" where
  "PTable_GetFreeSlot k =
     bindR (BitMap_Find (pbm (pTab (dev k)))) (\<lambda>(i, bm).
     Inr (i, set_dev (\<lambda>d. d\<lparr>pTab := (pTab d)\<lparr>pbm := bm\<rparr>\<rparr>) k))"

definition PTable_GetFileName :: "'w kern \<Rightarrow> int \<Rightarrow> bytes res" where
  "PTable_GetFileName k i = bindR (slot_pcb k i) (\<lambda>(p, b). Inr (filename b))"

definition PTable_Print :: "'w kern \<Rightarrow> int list res" where
  "PTable_Print k = BitMap_Print (pbm (pTab (dev k)))"

text \<open>\<open>ExecUpdate\<close> behind \<open>bmsem->P\<close>, for the name at address \<open>nm\<close>.\<close>

definition ExecUpdate_body :: "'w Host \<Rightarrow> Fresh \<Rightarrow> nat \<Rightarrow> 'w kern \<Rightarrow> 'w kern res" where
  "ExecUpdate_body H J nm k =
     (let unlock = V_call (bmsem (pTab (dev k)));
          fail = (\<lambda>k. Inr (push [unlock, Code (Exec_return nm (-1))] k)) in
      bindR (case strings (dev k) nm of None \<Rightarrow> Inl Undefined | Some s \<Rightarrow> Inr s) (\<lambda>fn.
      bindR (UnixFS_Open H fn (world (dev k))) (\<lambda>(executable, w1).
      let k1 = set_world w1 k in
      if executable = None then fail k1
      else
        bindR (getName k1) (\<lambda>own.
        if own = fn then fail k1
        else
          bindR (PTable_GetFreeSlot k1) (\<lambda>(i, k2).
          if i < 0 then fail k2
          else
            let (p, k3) = PCB_new J i k2 in
            bindR (set_slot i (Some p) k3) (\<lambda>k4.
            bindR (SetFileName p fn k4) (\<lambda>k5.
            bindR (get_thread k5 (currentThread k5)) (\<lambda>cur.
            bindR (get_pcb k5 p) (\<lambda>b.
            Inr (push [P_call (multex b), Code (PCB_Exec p nm i), Code (PCB_V_multex p), unlock,
                       Code (Exec_return nm i)]
                   (put_pcb p (b\<lparr>pparentID := pid cur\<rparr>) k5)))))))))))"

text \<open>\<open>JoinUpdate\<close>; the value it returns goes to register 2.\<close>

definition JoinUpdate :: "int \<Rightarrow> 'w kern \<Rightarrow> 'w kern res" where
  "JoinUpdate i k =
     (let fail = Inr (push [Code (WriteRegister2 (-1))] k) in
      bindR (PTable_IsExist k i) (\<lambda>ex.
      if \<not> ex then fail
      else
        bindR (get_thread k (currentThread k)) (\<lambda>cur.
        bindR (slot_pcb k i) (\<lambda>(p, b).
        if pid cur \<noteq> pparentID b then fail
        else
          bindR (slot_pcb k (pparentID b)) (\<lambda>(q, c).
          NumWait q 1 (push [Code (JoinWait i)] k))))))"

definition JoinUpdate_wait :: "int \<Rightarrow> 'w kern \<Rightarrow> 'w kern res" where
  "JoinUpdate_wait i k =
     bindR (slot_pcb k i) (\<lambda>(p, b). Inr (push [P_call (joinsem b), Code (JoinExit i)] k))"

definition JoinUpdate_exit :: "int \<Rightarrow> 'w kern \<Rightarrow> 'w kern res" where
  "JoinUpdate_exit i k =
     bindR (slot_pcb k i) (\<lambda>(p, b).
     Inr (push [V_call (exitsem b), Code (WriteRegister2 (of_int (exitcode b)))] k))"

text \<open>\<open>ExitUpdate\<close>; \<open>SC_Exit\<close> ignores the value it returns.\<close>

definition ExitUpdate :: "int \<Rightarrow> 'w kern \<Rightarrow> 'w kern res" where
  "ExitUpdate code k =
     bindR (get_thread k (currentThread k)) (\<lambda>cur.
     let i = pid cur in
     if i = 0 then Halt
     else
       bindR (PTable_IsExist k i) (\<lambda>ex.
       if \<not> ex then Inr k
       else
         bindR (slot_pcb k i) (\<lambda>(p, b).
         let k1 = put_pcb p (b\<lparr>exitcode := code\<rparr>) k in
         bindR (slot_pcb k1 (pparentID b)) (\<lambda>(q, c).
         NumWait q (-1) (push [Code (JoinRelease i)] k1)))))"

definition ExitUpdate_release :: "int \<Rightarrow> 'w kern \<Rightarrow> 'w kern res" where
  "ExitUpdate_release i k =
     bindR (slot_pcb k i) (\<lambda>(p, b). Inr (push [V_call (joinsem b), Code (ExitWait i)] k))"

definition ExitUpdate_wait :: "int \<Rightarrow> 'w kern \<Rightarrow> 'w kern res" where
  "ExitUpdate_wait i k =
     bindR (slot_pcb k i) (\<lambda>(p, b). Inr (push [P_call (exitsem b), Code (PTable_Remove i)] k))"

definition PTable_Remove_lock :: "int \<Rightarrow> 'w kern \<Rightarrow> 'w kern" where
  "PTable_Remove_lock i k = push [P_call (bmsem (pTab (dev k))), Code (PTable_Remove_body i)] k"

definition PTable_Remove_slot :: "int \<Rightarrow> 'w kern \<Rightarrow> 'w kern res" where
  "PTable_Remove_slot i k =
     bindR (BitMap_Clear (pbm (pTab (dev k))) i) (\<lambda>bm.
     let k1 = set_dev (\<lambda>d. d\<lparr>pTab := (pTab d)\<lparr>pbm := bm\<rparr>\<rparr>) k in
     bindR (read_array (pcb (pTab (dev k1))) i) (\<lambda>s.
     bindR (case s of None \<Rightarrow> Inr k1
            | Some p \<Rightarrow> bindR (PCB_delete p k1) (set_slot i None)) (\<lambda>k2.
     Inr (push [V_call (bmsem (pTab (dev k2)))] k2))))"


section \<open>Named semaphores\<close>

definition MAX_SEMAPHORE :: nat where "MAX_SEMAPHORE = 10"

text \<open>The object of \<^verbatim>\<open>sem.h\<close>; the array for the name has fifty characters.\<close>

definition Sem_new :: "bytes \<Rightarrow> int \<Rightarrow> 'w kern \<Rightarrow> (Sem \<times> 'w kern) res" where
  "Sem_new nm initVal k =
     (if length nm \<ge> 50 then Inl OutOfBounds
      else let (s, k1) = Semaphore_new nm initVal k in Inr (\<lparr>sname = nm, ssem = s\<rparr>, k1))"

definition STable_new :: "Fresh \<Rightarrow> STable res" where
  "STable_new J =
     bindR (BitMap_new (fresh_words J) (int MAX_SEMAPHORE)) (\<lambda>bm. Inr \<lparr>sbm = bm, semTab = fresh_slots J\<rparr>)"

fun STable_find :: "sem_slot list \<Rightarrow> int \<Rightarrow> bytes \<Rightarrow> int res" where
  "STable_find [] i nm = Inr (-1)"
| "STable_find (Sem_null # ss) i nm = STable_find ss (i + 1) nm"
| "STable_find (Sem_wild # ss) i nm = Inl Undefined"
| "STable_find (Sem_object s # ss) i nm = (if sname s = nm then Inr i else STable_find ss (i + 1) nm)"

definition STable_IsExist :: "'w kern \<Rightarrow> bytes \<Rightarrow> int res" where
  "STable_IsExist k nm = STable_find (semTab (gSemTab (dev k))) 0 nm"

text \<open>\<open>!IsExist(name)\<close> holds for index 0 only.\<close>

definition STable_Create :: "bytes \<Rightarrow> int \<Rightarrow> 'w kern \<Rightarrow> (int \<times> 'w kern) res" where
  "STable_Create nm initVal k =
     bindR (STable_IsExist k nm) (\<lambda>e.
     if e = 0 then Inr (-1, k)
     else
       bindR (BitMap_Find (sbm (gSemTab (dev k)))) (\<lambda>(i, bm).
       let k1 = set_dev (\<lambda>d. d\<lparr>gSemTab := (gSemTab d)\<lparr>sbm := bm\<rparr>\<rparr>) k in
       if i = -1 then Inr (-1, k1)
       else
         bindR (Sem_new nm initVal k1) (\<lambda>(s, k2).
         bindR (write_array (semTab (gSemTab (dev k2))) i (Sem_object s)) (\<lambda>ss.
         Inr (i, set_dev (\<lambda>d. d\<lparr>gSemTab := (gSemTab d)\<lparr>semTab := ss\<rparr>\<rparr>) k2)))))"

definition STable_get :: "'w kern \<Rightarrow> int \<Rightarrow> Sem res" where
  "STable_get k i =
     bindR (read_array (semTab (gSemTab (dev k))) i) (\<lambda>s. case s of
       Sem_null \<Rightarrow> Inl NullDeref | Sem_wild \<Rightarrow> Inl Undefined | Sem_object x \<Rightarrow> Inr x)"

text \<open>\<open>Wait\<close> and \<open>Signal\<close>: the call they make, if any, and the value they return.\<close>

definition STable_Wait :: "bytes \<Rightarrow> 'w kern \<Rightarrow> (ucode frame list \<times> int) res" where
  "STable_Wait nm k =
     bindR (STable_IsExist k nm) (\<lambda>i.
     if i \<noteq> -1 then bindR (STable_get k i) (\<lambda>s. Inr ([P_call (ssem s)], 0)) else Inr ([], -1))"

definition STable_Signal :: "bytes \<Rightarrow> 'w kern \<Rightarrow> (ucode frame list \<times> int) res" where
  "STable_Signal nm k =
     bindR (STable_IsExist k nm) (\<lambda>i.
     if i \<noteq> -1 then bindR (STable_get k i) (\<lambda>s. Inr ([V_call (ssem s)], 0)) else Inr ([], -1))"

definition STable_GetValue :: "bytes \<Rightarrow> 'w kern \<Rightarrow> int res" where
  "STable_GetValue nm k =
     bindR (STable_IsExist k nm) (\<lambda>i.
     if i \<noteq> -1 then bindR (STable_get k i) (\<lambda>s. bindR (get_sem k (ssem s)) (\<lambda>sm. Inr (semValue sm)))
     else Inr 32767)"

end
