(* ===== verification/Syscalls.thy ===== *)
theory Syscalls
  imports Process_Table
begin

text \<open>
  The exception handler of the kernel (\<^verbatim>\<open>userprog/exception.cc\<close>) with all its system calls, the main
  loop of the machine (\<^verbatim>\<open>machine/mipssim.cc\<close>) with the debugger, the start of a process, and the
  function \<open>user_code\<close> that runs a program point.

  Messages printed for the operator are not modelled.  Buffers that are handed to the console
  are lists; the code never changes them afterwards.
\<close>


section \<open>Registers and strings of the running program\<close>

definition reg :: "int \<Rightarrow> 'w kern \<Rightarrow> 32 word res" where
  "reg r k = bindR (get_machine k) (\<lambda>m. ReadRegister m r)"

definition set_result :: "32 word \<Rightarrow> 'w kern \<Rightarrow> 'w kern res" where
  "set_result v k = bindR (get_machine k) (\<lambda>m. bindR (WriteRegister m 2 v) (\<lambda>m1. Inr (put_machine m1 k)))"

definition user_buffer :: "32 word \<Rightarrow> int \<Rightarrow> 'w kern \<Rightarrow> (bytes \<times> 'w kern) res" where
  "user_buffer virtAddr limit k =
     bindR (get_machine k) (\<lambda>m. bindR (UserToSystem virtAddr limit m) (\<lambda>(b, m1). Inr (b, put_machine m1 k)))"

definition user_string :: "32 word \<Rightarrow> int \<Rightarrow> 'w kern \<Rightarrow> (bytes \<times> 'w kern) res" where
  "user_string virtAddr limit k =
     bindR (user_buffer virtAddr limit k) (\<lambda>(b, k1). bindR (cstring b) (\<lambda>s. Inr (s, k1)))"

definition to_user :: "32 word \<Rightarrow> int \<Rightarrow> bytes \<Rightarrow> 'w kern \<Rightarrow> 'w kern res" where
  "to_user virtAddr len buffer k =
     bindR (get_machine k) (\<lambda>m. bindR (SystemToUser virtAddr len buffer m) (\<lambda>(n, m1). Inr (put_machine m1 k)))"

definition advance_pc :: "'w kern \<Rightarrow> 'w kern res" where
  "advance_pc k = bindR (get_machine k) (\<lambda>m. Inr (put_machine (AdvanceProgramCounter m) k))"

definition MaxNameLength :: int where "MaxNameLength = 32"


section \<open>Processes\<close>

text \<open>\<open>SC_Exec\<close>: the name is kept in memory of its own until \<open>Exec_return\<close> frees it.\<close>

definition SC_Exec :: "'w kern \<Rightarrow> 'w kern res" where
  "SC_Exec k =
     bindR (reg 4 k) (\<lambda>virtAddr.
     bindR (user_string virtAddr (32 + 1) k) (\<lambda>(nm, k1).
     let a = nextString (dev k1);
         k2 = set_dev (\<lambda>d. d\<lparr>strings := (strings d)(a \<mapsto> nm), nextString := Suc a\<rparr>) k1 in
     Inr (push [P_call (bmsem (pTab (dev k2))), Code (ExecUpdate a)] k2)))"

definition SC_Exec_return :: "nat \<Rightarrow> int \<Rightarrow> 'w kern \<Rightarrow> 'w kern res" where
  "SC_Exec_return a i k =
     bindR (set_result (of_int i) k) (\<lambda>k1. Inr (set_dev (\<lambda>d. d\<lparr>strings := (strings d)(a := None)\<rparr>) k1))"

definition SC_Join :: "'w kern \<Rightarrow> 'w kern res" where
  "SC_Join k = bindR (reg 4 k) (\<lambda>v. JoinUpdate (sint v) k)"

definition SC_Exit :: "'w kern \<Rightarrow> 'w kern res" where
  "SC_Exit k =
     bindR (reg 4 k) (\<lambda>exitstatus.
     if exitstatus \<noteq> 0 then Inr k
     else ExitUpdate (sint exitstatus) (push [Code (Exit_finish exitstatus)] k))"

definition SC_Exit_finish :: "32 word \<Rightarrow> 'w kern \<Rightarrow> 'w kern res" where
  "SC_Exit_finish exitstatus k = bindR (set_result exitstatus k) (\<lambda>k1. Inr (push [ThreadFinish] k1))"


section \<open>Semaphores\<close>

definition SC_CreateSemaphore :: "'w kern \<Rightarrow> 'w kern res" where
  "SC_CreateSemaphore k =
     bindR (reg 4 k) (\<lambda>virtAddr.
     bindR (reg 5 k) (\<lambda>initVal.
     bindR (user_string virtAddr (MaxNameLength + 1) k) (\<lambda>(nm, k1).
     bindR (STable_Create nm (sint initVal) k1) (\<lambda>(i, k2).
     bindR (set_result (of_int i) k2) advance_pc))))"

text \<open>\<open>SC_Signal\<close> and \<open>SC_Wait\<close> differ in the operation of the table.\<close>

definition SC_on_semaphore :: "(bytes \<Rightarrow> 'w kern \<Rightarrow> (ucode frame list \<times> int) res) \<Rightarrow> 'w kern \<Rightarrow> 'w kern res" where
  "SC_on_semaphore operation k =
     bindR (reg 4 k) (\<lambda>virtAddr.
     bindR (user_string virtAddr (MaxNameLength + 1) k) (\<lambda>(nm, k1).
     bindR (STable_GetValue nm k1) (\<lambda>_.
     bindR (STable_IsExist k1 nm) (\<lambda>e.
     if e = 0 then bindR (set_result (-1) k1) advance_pc
     else
       bindR (operation nm k1) (\<lambda>(calls, v).
       Inr (push (calls @ [Code (WriteRegister2 (of_int v)), Code AdvancePC]) k1))))))"

definition SC_Signal :: "'w kern \<Rightarrow> 'w kern res" where
  "SC_Signal = SC_on_semaphore STable_Signal"

definition SC_Wait :: "'w kern \<Rightarrow> 'w kern res" where
  "SC_Wait = SC_on_semaphore STable_Wait"


section \<open>Files\<close>

definition SC_Create :: "'w Host \<Rightarrow> 'w kern \<Rightarrow> 'w kern res" where
  "SC_Create H k =
     bindR (reg 4 k) (\<lambda>virtAddr.
     bindR (user_string virtAddr (MaxNameLength + 1) k) (\<lambda>(nm, k1).
     bindR (UnixFS_Create H nm (world (dev k1))) (\<lambda>(ok, w1).
     set_result (if ok then 0 else -1) (set_world w1 k1))))"

definition set_openf :: "int \<Rightarrow> UnixFile option \<Rightarrow> 'w kern \<Rightarrow> 'w kern res" where
  "set_openf i f k =
     bindR (write_array (openf (dev k)) i f) (\<lambda>fs. Inr (set_dev (\<lambda>d. d\<lparr>openf := fs\<rparr>) k))"

definition SC_Open :: "'w Host \<Rightarrow> 'w kern \<Rightarrow> 'w kern res" where
  "SC_Open H k =
     bindR (reg 4 k) (\<lambda>virtAddr.
     bindR (reg 5 k) (\<lambda>t.
     bindR (user_string virtAddr MaxNameLength k) (\<lambda>(nm, k1).
     bindR (UnixFS_FindFreeSlot (openf (dev k1))) (\<lambda>freeSlot.
     if freeSlot \<noteq> -1
     then if t = 0 \<or> t = 1
          then bindR (UnixFS_Open_type H nm (sint t) (world (dev k1))) (\<lambda>(f, w1).
               bindR (set_openf freeSlot f (set_world w1 k1)) (\<lambda>k2.
               if f \<noteq> None then set_result (of_int freeSlot) k2 else Inr k2))
          else if t = 2 then set_result 0 k1 else set_result 1 k1
     else set_result (-1) k1))))"

definition SC_Close :: "'w Host \<Rightarrow> 'w kern \<Rightarrow> 'w kern res" where
  "SC_Close H k =
     bindR (reg 4 k) (\<lambda>v.
     let fid = sint v in
     if 0 \<le> fid \<and> fid \<le> 14
     then bindR (read_array (openf (dev k)) fid) (\<lambda>f. case f of
            Some file \<Rightarrow>
              bindR (UnixFile_delete H file (world (dev k))) (\<lambda>w1.
              bindR (set_openf fid None (set_world w1 k)) (set_result 0))
          | None \<Rightarrow> set_result (-1) k)
     else set_result (-1) k)"

text \<open>The buffer after a read that put \<open>d\<close> at its beginning.\<close>

definition fill_buffer :: "bytes \<Rightarrow> bytes \<Rightarrow> bytes res" where
  "fill_buffer d buf = (if length d \<le> length buf then Inr (splice_at 0 d buf) else Inl OutOfBounds)"

text \<open>\<open>GetCurrentPos\<close> of the open file with the given number, and the file it leaves.\<close>

definition file_pos :: "'w Host \<Rightarrow> int \<Rightarrow> UnixFile \<Rightarrow> 'w kern \<Rightarrow> (int \<times> UnixFile \<times> 'w kern) res" where
  "file_pos H i f k =
     (let (pos, f1, w1) = UnixFile_GetCurrentPos H f (world (dev k)) in
      bindR (set_openf i (Some f1) (set_world w1 k)) (\<lambda>k1. Inr (pos, f1, k1)))"

definition SC_Read :: "'w Host \<Rightarrow> 'w kern \<Rightarrow> 'w kern res" where
  "SC_Read H k =
     bindR (reg 4 k) (\<lambda>virtAddr.
     bindR (reg 5 k) (\<lambda>cnt.
     bindR (reg 6 k) (\<lambda>v.
     let charcount = sint cnt; i = sint v in
     if i < 0 \<or> i > 14 then set_result (-1) k
     else
       bindR (read_array (openf (dev k)) i) (\<lambda>slot. case slot of
         None \<Rightarrow> set_result (-1) k
       | Some f \<Rightarrow>
         if utype f = 3 then set_result (-1) k
         else
           bindR (file_pos H i f k) (\<lambda>(OldPos, f1, k1).
           bindR (user_buffer virtAddr charcount k1) (\<lambda>(buf, k2).
           if utype f1 = 2 then SynchConsole_Read (For_Read virtAddr) buf charcount k2
           else
             bindR (UnixFile_Read H f1 charcount (world (dev k2))) (\<lambda>((n, d), f2, w2).
             bindR (fill_buffer d buf) (\<lambda>buf1.
             bindR (set_openf i (Some f2) (set_world w2 k2)) (\<lambda>k3.
             if n > 0
             then bindR (file_pos H i f2 k3) (\<lambda>(NewPos, f3, k4).
                  bindR (to_user virtAddr (NewPos - OldPos) buf1 k4) (\<lambda>k5.
                  set_result (of_int (NewPos - OldPos)) k5))
             else set_result (-2) k3))))))))) "

text \<open>\<open>SC_ReadInt\<close> up to the console.\<close>

definition SC_ReadInt :: "'w kern \<Rightarrow> 'w kern res" where
  "SC_ReadInt k = SynchConsole_Read For_ReadInt (replicate 100 0) 100 k"

text \<open>A write that is not finished by one of the two cases falls through to \<open>SC_ReadInt\<close>.\<close>

definition SC_Write :: "'w Host \<Rightarrow> 'w kern \<Rightarrow> 'w kern res" where
  "SC_Write H k =
     bindR (reg 4 k) (\<lambda>virtAddr.
     bindR (reg 5 k) (\<lambda>cnt.
     bindR (reg 6 k) (\<lambda>v.
     let charcount = sint cnt; i = sint v in
     if i < 0 \<or> i > 14 then set_result (-1) k
     else
       bindR (read_array (openf (dev k)) i) (\<lambda>slot. case slot of
         None \<Rightarrow> set_result (-1) k
       | Some f \<Rightarrow>
         if utype f = 1 \<or> utype f = 2 then set_result (-1) k
         else
           bindR (file_pos H i f k) (\<lambda>(OldPos, f1, k1).
           bindR (user_buffer virtAddr charcount k1) (\<lambda>(buf, k2).
           if utype f1 = 0
           then bindR (UnixFile_Write H f1 buf charcount (world (dev k2))) (\<lambda>(n, f2, w2).
                bindR (set_openf i (Some f2) (set_world w2 k2)) (\<lambda>k3.
                if n > 0
                then bindR (file_pos H i f2 k3) (\<lambda>(NewPos, f3, k4). set_result (of_int (NewPos - OldPos)) k4)
                else SC_ReadInt k3))
           else if utype f1 = 3 then Inr (push [Code (Write_line buf 0)] k2)
           else SC_ReadInt k2))))))"

text \<open>The loop of \<open>SC_Write\<close> on the console.\<close>

definition SC_Write_line :: "bytes \<Rightarrow> nat \<Rightarrow> 'w kern \<Rightarrow> 'w kern res" where
  "SC_Write_line buf i k =
     bindR (read_array buf (int i)) (\<lambda>c.
     if c \<noteq> 0 \<and> c \<noteq> NEWLINE
     then Inr (SynchConsole_Write (drop i buf) 1 (push [Code (Write_line buf (Suc i))] k))
     else Inr (SynchConsole_Write (drop i (buf[i := NEWLINE])) 1 (push [Code (WriteRegister2 (of_nat i - 1))] k)))"


section \<open>Numbers, characters and strings\<close>

fun numberOfDigits :: "int \<Rightarrow> nat" where
  "numberOfDigits temp = (if temp > 0 then Suc (numberOfDigits (temp sdiv 10)) else 0)"

declare numberOfDigits.simps [simp del]

text \<open>The loop that fills the buffer, from index \<open>i - 1\<close> down.\<close>

fun fill_digits :: "nat \<Rightarrow> int \<Rightarrow> bytes \<Rightarrow> bytes res" where
  "fill_digits 0 number buffer = Inr buffer"
| "fill_digits (Suc i) number buffer =
     bindR (write_array buffer (int i) (of_int (number smod 10 + 48))) (fill_digits i (number sdiv 10))"

definition SC_PrintInt :: "'w kern \<Rightarrow> 'w kern res" where
  "SC_PrintInt k =
     bindR (reg 4 k) (\<lambda>v.
     let n = numberOfDigits (sint v) in
     bindR (fill_digits n (sint v) (replicate 100 0)) (\<lambda>buffer.
     Inr (SynchConsole_Write buffer (int n) k)))"

definition SC_ReadChar :: "'w kern \<Rightarrow> 'w kern res" where
  "SC_ReadChar k = SynchConsole_Read For_ReadChar (replicate 255 0) 255 k"

definition SC_PrintChar :: "'w kern \<Rightarrow> 'w kern res" where
  "SC_PrintChar k = bindR (reg 4 k) (\<lambda>v. Inr (SynchConsole_Write [ucast v] 1 k))"

definition SC_ReadString :: "'w kern \<Rightarrow> 'w kern res" where
  "SC_ReadString k =
     bindR (reg 4 k) (\<lambda>virtAddr.
     bindR (reg 5 k) (\<lambda>v.
     if sint v < 0 then Inl Undefined
     else SynchConsole_Read (For_ReadString virtAddr) (replicate (nat (sint v)) 0) (sint v) k))"

definition SC_PrintString :: "'w kern \<Rightarrow> 'w kern res" where
  "SC_PrintString k =
     bindR (reg 4 k) (\<lambda>virtAddr.
     bindR (user_buffer virtAddr (255 + 1) k) (\<lambda>(buffer, k1).
     Inr (SynchConsole_Write buffer 255 k1)))"

text \<open>What the four readers do with the line.\<close>

definition Read_finish :: "reader \<Rightarrow> bytes \<Rightarrow> int \<Rightarrow> 'w kern \<Rightarrow> 'w kern res" where
  "Read_finish r buffer sz k =
     (case r of
        For_Read virtAddr \<Rightarrow> bindR (to_user virtAddr sz buffer k) (set_result (of_int sz))
      | For_ReadInt \<Rightarrow>
          if list_all isdigit (take (nat sz) buffer)
          then bindR (atoi buffer) (\<lambda>number. set_result (of_int number) k)
          else Inr k
      | For_ReadChar \<Rightarrow> bindR (read_array buffer 0) (\<lambda>c. set_result (scast c) k)
      | For_ReadString virtAddr \<Rightarrow> to_user virtAddr sz buffer k)"


section \<open>The exception handler\<close>

text \<open>The switch on the number in register 2; every case ends with \<open>AdvanceProgramCounter\<close>, which
  is pushed first.\<close>

definition syscall :: "'w Host \<Rightarrow> 32 word \<Rightarrow> 'w kern \<Rightarrow> 'w kern res" where
  "syscall H t k =
     (if t = 0 then Halt
      else if t = 1 then SC_Exit k
      else if t = 2 then SC_Exec k
      else if t = 3 then SC_Join k
      else if t = 4 then SC_Create H k
      else if t = 5 then SC_Open H k
      else if t = 6 then SC_Read H k
      else if t = 7 then SC_Write H k
      else if t = 8 then SC_Close H k
      else if t = 11 then SC_ReadInt k
      else if t = 12 then SC_PrintInt k
      else if t = 13 then SC_ReadChar k
      else if t = 14 then SC_PrintChar k
      else if t = 15 then SC_ReadString k
      else if t = 16 then SC_PrintString k
      else if t = 17 then SC_CreateSemaphore k
      else if t = 18 then SC_Signal k
      else if t = 19 then SC_Wait k
      else Halt)"

definition ExceptionHandler :: "'w Host \<Rightarrow> ExceptionType \<Rightarrow> 'w kern \<Rightarrow> 'w kern res" where
  "ExceptionHandler H which k =
     bindR (reg 2 k) (\<lambda>t. case which of
       NoException \<Rightarrow> Inr k
     | SyscallException \<Rightarrow> syscall H t (push [Code AdvancePC] k)
     | _ \<Rightarrow> Halt)"


section \<open>The machine's main loop\<close>

definition Machine_Run :: "'w kern \<Rightarrow> 'w kern" where
  "Machine_Run k = push [Code Run_loop] (setMachineStatus UserMode k)"

text \<open>One iteration: the instruction, with the call of the exception handler if it trapped, then
  \<open>OneTick\<close>, then the test for the debugger.\<close>

definition Machine_Run_loop :: "'w kern \<Rightarrow> 'w kern res" where
  "Machine_Run_loop k =
     bindR (get_machine k) (\<lambda>m.
     bindR (OneInstruction m) (\<lambda>(r, m1).
     let k1 = push [OneTick_call, Code Run_debug] (put_machine m1 k) in
     case r of Completed \<Rightarrow> Inr k1
     | Trapped e \<Rightarrow>
         Inr (push [Code (ExceptionHandler_call e), setStatus_call UserMode] (setMachineStatus SystemMode k1))))"

definition Debugger :: "'w Host \<Rightarrow> 'w kern \<Rightarrow> 'w kern res" where
  "Debugger H k =
     (let (buf, w1) = sys_fgets H (world (dev k)); k1 = set_world w1 k in
      case scan_int buf of
        Some num \<Rightarrow> Inr (set_dev (\<lambda>d. d\<lparr>runUntilTime := num\<rparr>) k1)
      | None \<Rightarrow>
          let k2 = set_dev (\<lambda>d. d\<lparr>runUntilTime := 0\<rparr>) k1 in
          bindR (get_machine k2) (\<lambda>m.
          Inr (if buf \<noteq> [] \<and> hd buf = 99 then put_machine (m\<lparr>singleStep := False\<rparr>) k2 else k2)))"

definition Machine_Run_debug :: "'w Host \<Rightarrow> 'w kern \<Rightarrow> 'w kern res" where
  "Machine_Run_debug H k =
     (let k1 = push [Code Run_loop] k in
      bindR (get_machine k) (\<lambda>m.
      if singleStep m \<and> runUntilTime (dev k) \<le> now k then Debugger H k1 else Inr k1))"


section \<open>Initialization\<close>

text \<open>\<open>Initialize\<close> behind \<open>interrupt->Enable\<close>: the machine and the devices.\<close>

definition Initialize_rest :: "'w Host \<Rightarrow> Fresh \<Rightarrow> bool \<Rightarrow> 'w kern \<Rightarrow> 'w kern res" where
  "Initialize_rest H J debugUserProg k =
     bindR (SynchConsole_new H None None (put_machine (Machine_new debugUserProg) k)) (\<lambda>k1.
     bindR (BitMap_new (fresh_words J) (int NumPhysPages)) (\<lambda>bm.
     let (lock, k2) = Semaphore_new (cstr ''addrLock'') 1 k1 in
     bindR (STable_new J) (\<lambda>st.
     bindR (PTable_new J 10 (set_dev (\<lambda>d. d\<lparr>gPhysPageBitMap := bm, addrLock := lock, gSemTab := st\<rparr>) k2)) (\<lambda>k3.
     bindR (UnixFS_new H (world (dev k3))) (\<lambda>(fs, w1).
     Inr (set_dev (\<lambda>d. d\<lparr>openf := fs\<rparr>) (set_world w1 k3)))))))"

text \<open>\<open>Initialize\<close> for given flags, up to \<open>Enable\<close>, with the code of \<open>main\<close> that follows it: run the
  program \<open>prog\<close> (option \<^verbatim>\<open>-x\<close>), then finish the main thread.  \<open>g\<close> are the globals before they have been
  set; \<open>new Thread("main")\<close> points to a literal string.\<close>

definition Initialize :: "'w Host \<Rightarrow> Fresh \<Rightarrow> 'w Globals \<Rightarrow> bool \<Rightarrow> bool \<Rightarrow> bytes \<Rightarrow> 'w kern res" where
  "Initialize H J g randomYield debugUserProg prog =
     (let k0 = \<lparr>stats = Statistics_new, interrupt = Interrupt_new, threads = Map.empty, nextThread = 0,
                currentThread = 0, threadToBeDestroyed = None, readyList = [], sems = Map.empty, nextSem = 0,
                machine = None,
                running = [Code (Initialize_devices debugUserProg), Code (StartProcess prog), ThreadFinish],
                dev = g\<lparr>timer := None\<rparr>\<rparr> in
      bindR (if randomYield then Timer_new H randomYield k0 else Inr k0) (\<lambda>k1.
      let a = nextString (dev k1);
          k2 = set_dev (\<lambda>d. d\<lparr>strings := (strings d)(a \<mapsto> cstr ''main''), nextString := Suc a\<rparr>) k1;
          (t, k3) = Thread_new (fresh_thread J) a k2 in
      bindR (setStatus t RUNNING (k3\<lparr>currentThread := t\<rparr>)) (\<lambda>k4.
      bindR (get_thread k4 t) (\<lambda>th.
      SetLevel IntOn (put_thread t (th\<lparr>pid := 0\<rparr>) k4)))))"


section \<open>Program points\<close>

definition user_code :: "'w Host \<Rightarrow> Fresh \<Rightarrow> ucode \<Rightarrow> 'w kern \<Rightarrow> 'w kern res" where
  "user_code H J c k =
     (case c of
        Initialize_devices dbg \<Rightarrow> Initialize_rest H J dbg k
      | Run \<Rightarrow> Inr (Machine_Run k)
      | Run_loop \<Rightarrow> Machine_Run_loop k
      | Run_debug \<Rightarrow> Machine_Run_debug H k
      | Run_returned \<Rightarrow> Inl AssertFailed
      | ExceptionHandler_call e \<Rightarrow> ExceptionHandler H e k
      | AdvancePC \<Rightarrow> advance_pc k
      | WriteRegister2 v \<Rightarrow> set_result v k
      | StartProcess nm \<Rightarrow> AddrSpace_open H J nm k
      | StartProcess_2 i \<Rightarrow> bindR (PTable_GetFileName k i) (\<lambda>nm. AddrSpace_open H J nm k)
      | AddrSpace_alloc f h \<Rightarrow> AddrSpace_allocate H J f h k
      | AddrSpace_load f h sp \<Rightarrow> AddrSpace_fill H f h sp k
      | Space_ready sp \<Rightarrow> space_start sp k
      | ExecUpdate nm \<Rightarrow> ExecUpdate_body H J nm k
      | PCB_Exec p nm i \<Rightarrow> PCB_Exec_fork J p nm i k
      | PCB_V_multex p \<Rightarrow> PCB_unlock p k
      | Exec_return nm i \<Rightarrow> SC_Exec_return nm i k
      | NumWait_add p d \<Rightarrow> NumWait_body p d k
      | JoinWait i \<Rightarrow> JoinUpdate_wait i k
      | JoinExit i \<Rightarrow> JoinUpdate_exit i k
      | JoinRelease i \<Rightarrow> ExitUpdate_release i k
      | ExitWait i \<Rightarrow> ExitUpdate_wait i k
      | PTable_Remove i \<Rightarrow> Inr (PTable_Remove_lock i k)
      | PTable_Remove_body i \<Rightarrow> PTable_Remove_slot i k
      | Exit_finish v \<Rightarrow> SC_Exit_finish v k
      | SynchWrite buf n i \<Rightarrow> SynchWrite_loop H buf n i k
      | Write_line buf i \<Rightarrow> SC_Write_line buf i k
      | SynchRead r buf n i ch \<Rightarrow> Inr (SynchRead_loop r buf n i ch k)
      | SynchRead_char r buf n i \<Rightarrow> SynchRead_got r buf n i k
      | SynchRead_return r buf i ch \<Rightarrow>
          bindR (SynchRead_result i ch) (\<lambda>sz. Read_finish r buf sz k))"

end
