(* ===== verification/User_Client.thy ===== *)
theory User_Client
  imports Syscalls
begin

text \<open>
  The code of the user-program build keeps its side of the contract with the thread system, so that
  every theorem about runs of the kernel holds of this system: it is an interpretation of
  \<open>kernel_client\<close>.
\<close>


section \<open>Quiet operations of this build\<close>

lemma quiet_put_machine [simp]: "quiet k k' \<Longrightarrow> quiet k (put_machine m k')"
  unfolding put_machine_def by (rule quiet_trans [OF _ quiet_machine])

lemma quiet_set_world [simp]: "quiet k k' \<Longrightarrow> quiet k (set_world w k')"
  by (simp add: set_world_def)

lemma quiet_start [simp]:
  "quiet (set_dev f k) k' \<longleftrightarrow> quiet k k'" "quiet (put_machine m k) k' \<longleftrightarrow> quiet k k'" "quiet (set_world w k) k' \<longleftrightarrow> quiet k k'"
  by (auto simp: quiet_def user_defs)

lemma quiet_ops:
  "set_result v k = Inr k' \<Longrightarrow> quiet k k'"
  "advance_pc k = Inr k' \<Longrightarrow> quiet k k'"
  "user_buffer va n k = Inr (b, k') \<Longrightarrow> quiet k k'"
  "user_string va n k = Inr (b, k') \<Longrightarrow> quiet k k'"
  "to_user va n b k = Inr k' \<Longrightarrow> quiet k k'"
  "set_openf i f k = Inr k' \<Longrightarrow> quiet k k'"
  "file_pos H i u k = Inr (pos, f', k') \<Longrightarrow> quiet k k'"
  "SetFileName p s k = Inr k' \<Longrightarrow> quiet k k'"
  "set_slot i x k = Inr k' \<Longrightarrow> quiet k k'"
  "PTable_GetFreeSlot k = Inr (i, k') \<Longrightarrow> quiet k k'"
  by (auto simp: set_result_def advance_pc_def user_buffer_def user_string_def to_user_def set_openf_def file_pos_def
      SetFileName_def put_pcb_def set_slot_def PTable_GetFreeSlot_def elim!: bindR_InrE split: prod.splits)


lemma PutChar_gentle:
  assumes "PutChar H ch k = Inr k'"
  shows "gentle k k'"
proof -
  obtain w where s: "Schedule ConsoleWriteDone ConsoleTime ConsoleWriteInt
      (set_console (\<lambda>c. c\<lparr>putBusy := True\<rparr>) (set_world w k)) = Inr k'"
    using assms by (auto simp: PutChar_def elim!: bindR_InrE)
  have "quiet k (set_console (\<lambda>c. c\<lparr>putBusy := True\<rparr>) (set_world w k))" by (simp add: set_console_def)
  then show ?thesis using Schedule_gentle [OF s] quiet_gentle gentle_trans by blast
qed

section \<open>The program points\<close>

lemmas quiet_steps = quiet_push quiet_gentle quiet_trans

lemma PCB_new_gentle:
  assumes "PCB_new J i k = (p, k')"
  shows "gentle k k'"
proof -
  obtain j k1 e k2 x k3 f where n: "Semaphore_new (cstr ''joinsem'') 0 k = (j, k1)"
    "Semaphore_new (cstr ''exitsem'') 0 k1 = (e, k2)" "Semaphore_new (cstr ''multex'') 1 k2 = (x, k3)" and k': "k' = set_dev f k3"
    using assms by (auto simp: PCB_new_def Let_def split: prod.splits)
  have "gentle k k1" "gentle k1 k2" "gentle k2 k3" using n Semaphore_new_gentle by blast+
  moreover have "gentle k3 k'" by (simp add: k' quiet_gentle)
  ultimately show ?thesis by (meson gentle_trans)
qed

lemma PCB_delete_gentle:
  assumes "PCB_delete p k = Inr k'"
  shows "gentle k k'"
proof -
  obtain b :: PCB and k1 k2 k3 where n: "Semaphore_delete (joinsem b) k = Inr k1" "Semaphore_delete (exitsem b) k1 = Inr k2"
    "Semaphore_delete (multex b) k2 = Inr k3" and k': "k' = set_dev (\<lambda>d. d\<lparr>pcbs := (pcbs d)(p := None)\<rparr>) k3"
    using assms by (auto simp: PCB_delete_def elim!: bindR_InrE)
  have "gentle k k1" "gentle k1 k2" "gentle k2 k3" using n Semaphore_delete_gentle by blast+
  moreover have "gentle k3 k'" by (simp add: k' quiet_gentle)
  ultimately show ?thesis by (meson gentle_trans)
qed

lemma SynchConsole_gentle:
  "gentle k (SynchConsole_Write b n k)"
  "SynchWrite_loop H b n i k = Inr k' \<Longrightarrow> gentle k k'"
  "SynchConsole_Read r b n k = Inr k' \<Longrightarrow> gentle k k'"
  "gentle k (SynchRead_loop r b n i ch k)"
  "SynchRead_got r b n i k = Inr k' \<Longrightarrow> gentle k k'"
  by (auto simp: SynchConsole_Write_def SynchWrite_loop_def SynchConsole_Read_def SynchRead_loop_def SynchRead_got_def
      GetChar_def set_console_def Let_def elim!: bindR_InrE split: if_splits dest!: PutChar_gentle
      intro: gentle_push quiet_push)

lemma Write_gentle: "gentle k k1 \<Longrightarrow> gentle k (SynchConsole_Write b n k1)"
  using gentle_trans SynchConsole_gentle(1) by blast

lemma SC_Write_line_gentle: "SC_Write_line b i k = Inr k' \<Longrightarrow> gentle k k'"
  by (auto simp: SC_Write_line_def elim!: bindR_InrE split: if_splits intro!: Write_gentle push_gentle)

lemma SC_Create_gentle: "SC_Create H k = Inr k' \<Longrightarrow> gentle k k'"
  by (auto simp: SC_Create_def elim!: bindR_InrE dest!: quiet_ops) (blast intro: quiet_gentle quiet_trans)

lemma SC_console_gentle:
  "SC_Exec k = Inr k' \<Longrightarrow> gentle k k'"
  "SC_ReadInt k = Inr k' \<Longrightarrow> gentle k k'"
  "SC_PrintInt k = Inr k' \<Longrightarrow> gentle k k'"
  "SC_ReadChar k = Inr k' \<Longrightarrow> gentle k k'"
  "SC_PrintChar k = Inr k' \<Longrightarrow> gentle k k'"
  "SC_ReadString k = Inr k' \<Longrightarrow> gentle k k'"
  "SC_PrintString k = Inr k' \<Longrightarrow> gentle k k'"
  by (auto simp: SC_Exec_def SC_ReadInt_def SC_PrintInt_def SC_ReadChar_def SC_PrintChar_def
      SC_ReadString_def SC_PrintString_def Let_def elim!: bindR_InrE dest!: quiet_ops SynchConsole_gentle(3) split: if_splits
      intro!: Write_gentle intro: quiet_steps)

lemma SC_Open_gentle: "SC_Open H k = Inr k' \<Longrightarrow> gentle k k'"
  by (auto simp: SC_Open_def elim!: bindR_InrE dest!: quiet_ops split: if_splits) (blast intro: quiet_gentle quiet_trans)+

lemma SC_Close_gentle: "SC_Close H k = Inr k' \<Longrightarrow> gentle k k'"
  by (auto simp: SC_Close_def Let_def elim!: bindR_InrE dest!: quiet_ops split: if_splits option.splits)
    (blast intro: quiet_gentle quiet_trans)+

lemma SC_Read_gentle: "SC_Read H k = Inr k' \<Longrightarrow> gentle k k'"
  by (auto simp: SC_Read_def Let_def elim!: bindR_InrE dest!: quiet_ops SynchConsole_gentle(3) split: if_splits option.splits)
    (blast intro: quiet_gentle quiet_trans quiet_then)+

lemma SC_Write_gentle: "SC_Write H k = Inr k' \<Longrightarrow> gentle k k'"
  by (auto simp: SC_Write_def Let_def elim!: bindR_InrE dest!: quiet_ops SC_console_gentle(2) split: if_splits option.splits
      intro!: quiet_push) (blast intro: quiet_gentle quiet_trans quiet_then)+

lemma Sem_new_gentle: "Sem_new nm v k = Inr (sm, k') \<Longrightarrow> gentle k k'"
  by (auto simp: Sem_new_def Semaphore_new_gentle split: if_splits prod.splits)

lemma STable_Create_gentle:
  assumes "STable_Create nm v k = Inr (i, k')"
  shows "gentle k k'"
proof -
  have step: "gentle k (set_dev g q)" if "Sem_new nm v (set_dev f k) = Inr (sm, q)" for f g q sm
    using quiet_then [of k "set_dev f k" q] gentle_quiet [of k q] Sem_new_gentle [OF that] by simp
  have new: "gentle k (set_dev f k)" for f by (simp add: quiet_gentle)
  show ?thesis
    using assms by (auto simp: STable_Create_def Let_def elim!: bindR_InrE split: if_splits intro!: new)
      (erule step)
qed

lemma SC_CreateSemaphore_gentle: "SC_CreateSemaphore k = Inr k' \<Longrightarrow> gentle k k'"
  by (auto simp: SC_CreateSemaphore_def elim!: bindR_InrE dest!: quiet_ops STable_Create_gentle)
    (meson quiet_then gentle_trans quiet_gentle)

lemma SC_on_semaphore_gentle:
  assumes "SC_on_semaphore operation k = Inr k'"
    "\<And>nm q calls v. operation nm q = Inr (calls, v) \<Longrightarrow> list_all plain calls"
  shows "gentle k k'"
  using assms by (auto simp: SC_on_semaphore_def elim!: bindR_InrE dest!: quiet_ops split: if_splits
      intro!: quiet_push) (blast intro: quiet_gentle quiet_trans)+

lemma SC_Signal_gentle: "SC_Signal k = Inr k' \<Longrightarrow> gentle k k'"
  unfolding SC_Signal_def
  by (erule SC_on_semaphore_gentle) (auto simp: STable_Signal_def elim!: bindR_InrE split: if_splits)

lemma SC_Wait_gentle: "SC_Wait k = Inr k' \<Longrightarrow> gentle k k'"
  unfolding SC_Wait_def
  by (erule SC_on_semaphore_gentle) (auto simp: STable_Wait_def elim!: bindR_InrE split: if_splits)

lemma process_gentle:
  "PCB_unlock p k = Inr k' \<Longrightarrow> gentle k k'"
  "NumWait p d k = Inr k' \<Longrightarrow> gentle k k'"
  "NumWait_body p d k = Inr k' \<Longrightarrow> gentle k k'"
  "JoinUpdate_wait i k = Inr k' \<Longrightarrow> gentle k k'"
  "JoinUpdate_exit i k = Inr k' \<Longrightarrow> gentle k k'"
  "ExitUpdate_release i k = Inr k' \<Longrightarrow> gentle k k'"
  "ExitUpdate_wait i k = Inr k' \<Longrightarrow> gentle k k'"
  "gentle k (PTable_Remove_lock i k)"
  "SC_Exit_finish v k = Inr k' \<Longrightarrow> gentle k k'"
  "SC_Exec_return a i k = Inr k' \<Longrightarrow> gentle k k'"
  by (auto simp: PCB_unlock_def NumWait_def NumWait_body_def JoinUpdate_wait_def JoinUpdate_exit_def ExitUpdate_release_def
      ExitUpdate_wait_def PTable_Remove_lock_def SC_Exit_finish_def SC_Exec_return_def put_pcb_def elim!: bindR_InrE
      dest!: quiet_ops intro: quiet_push quiet_gentle)

lemma from_push: "gentle (push fs k1) k' \<Longrightarrow> quiet k k1 \<Longrightarrow> list_all plain fs \<Longrightarrow> gentle k k'"
  using gentle_trans quiet_push by blast

lemma JoinUpdate_gentle: "JoinUpdate i k = Inr k' \<Longrightarrow> gentle k k'"
  by (auto simp: JoinUpdate_def Let_def elim!: bindR_InrE dest!: process_gentle(2) split: if_splits intro!: push_gentle)
    (erule from_push; simp)

lemma ExitUpdate_gentle: "ExitUpdate c k = Inr k' \<Longrightarrow> gentle k k'"
  by (auto simp: ExitUpdate_def Halt_def Let_def put_pcb_def elim!: bindR_InrE dest!: process_gentle(2) split: if_splits)
    (erule from_push; simp)

lemma SC_Exit_gentle: "SC_Exit k = Inr k' \<Longrightarrow> gentle k k'"
  by (auto simp: SC_Exit_def elim!: bindR_InrE dest!: ExitUpdate_gentle split: if_splits) (erule from_push; simp)

lemma PTable_Remove_gentle:
  assumes "PTable_Remove_slot i k = Inr k'"
  shows "gentle k k'"
proof -
  have step: "gentle k q'" if "PCB_delete p (set_dev f k) = Inr q" "set_slot i None q = Inr q'" for f p q q'
    using quiet_then [of k "set_dev f k" q] gentle_quiet [of k q] PCB_delete_gentle [OF that(1)] quiet_ops(9) [OF that(2)] by simp
  show ?thesis
    using assms by (auto simp: PTable_Remove_slot_def Let_def elim!: bindR_InrE split: option.splits intro!: gentle_push)
      (rule quiet_gentle, simp, erule (1) step)
qed

lemma ExecUpdate_gentle:
  assumes "ExecUpdate_body H J nm k = Inr k'"
  shows "gentle k k'"
proof -
  have new: "gentle k q'" if "quiet k q" "PCB_new J i q = (p, q1)" "quiet q1 q'" for q i p q1 q'
    using gentle_quiet [OF gentle_trans [OF quiet_gentle [OF that(1)] PCB_new_gentle [OF that(2)]] that(3)] .
  show ?thesis
    using assms unfolding ExecUpdate_body_def Let_def
    by (auto elim!: bindR_InrE dest!: quiet_ops split: if_splits option.splits prod.splits intro!: gentle_push)
      (auto simp: put_pcb_def intro: quiet_gentle quiet_trans,
       rule new, assumption, assumption, rule quiet_set_dev, erule (1) quiet_trans)
qed

lemma gentle_status: "gentle k k1 \<Longrightarrow> gentle k (setMachineStatus st k1)"
  using gentle_trans status_gentle by blast

lemma put_machine_gentle: "gentle k (put_machine m k)"
  by (simp add: quiet_gentle)

lemma Machine_Run_gentle: "gentle k (Machine_Run k)"
  unfolding Machine_Run_def by (intro gentle_push gentle_status) simp_all

lemma Machine_Run_loop_gentle: "Machine_Run_loop k = Inr k' \<Longrightarrow> gentle k k'"
  by (auto simp: Machine_Run_loop_def Let_def elim!: bindR_InrE split: outcome.splits
      intro!: gentle_push gentle_status put_machine_gentle)

lemma Debugger_quiet: "Debugger H k = Inr k' \<Longrightarrow> quiet k k'"
  by (auto simp: Debugger_def Let_def elim!: bindR_InrE split: prod.splits option.splits if_splits)

lemma Machine_Run_debug_gentle: "Machine_Run_debug H k = Inr k' \<Longrightarrow> gentle k k'"
  by (auto simp: Machine_Run_debug_def Let_def elim!: bindR_InrE dest!: Debugger_quiet quiet_gentle split: if_splits
      intro!: gentle_push) (erule from_push; simp)

lemma space_gentle:
  "AddrSpace_open H J nm k = Inr k' \<Longrightarrow> gentle k k'"
  "AddrSpace_allocate H J f h k = Inr k' \<Longrightarrow> gentle k k'"
  "AddrSpace_fill H f h sp k = Inr k' \<Longrightarrow> gentle k k'"
  by (auto simp: AddrSpace_open_def AddrSpace_allocate_def AddrSpace_fill_def Let_def elim!: bindR_InrE
      split: option.splits if_splits intro!: quiet_push)

lemma space_start_gentle:
  assumes "space_start sp k = Inr k'"
  shows "gentle k k'"
proof -
  obtain th m where t: "threads k (currentThread k) = Some th"
    and k': "k' = push [Code Run, Code Run_returned] (put_machine m (put_thread (currentThread k) (th\<lparr>space := Some sp\<rparr>) k))"
    using assms by (auto simp: space_start_def get_thread_def Let_def elim!: bindR_InrE split: option.splits)
  have "gentle k (put_thread (currentThread k) (th\<lparr>space := Some sp\<rparr>) k)"
    using put_thread_gentle [OF t] by simp
  then show ?thesis unfolding k' by (intro gentle_push gentle_quiet [OF _ quiet_put_machine [OF quiet_refl]]) simp_all
qed

lemma Read_finish_gentle: "Read_finish r b n k = Inr k' \<Longrightarrow> gentle k k'"
  by (auto simp: Read_finish_def elim!: bindR_InrE dest!: quiet_ops split: reader.splits if_splits)
    (blast intro: quiet_gentle quiet_trans)+

lemma syscall_gentle: "syscall H t k = Inr k' \<Longrightarrow> gentle k k'"
  by (auto simp: syscall_def Halt_def SC_Join_def elim!: bindR_InrE split: if_splits
      intro: SC_Exit_gentle SC_console_gentle JoinUpdate_gentle SC_Create_gentle SC_Open_gentle SC_Read_gentle
        SC_Write_gentle SC_Close_gentle SC_CreateSemaphore_gentle SC_Signal_gentle SC_Wait_gentle)

lemma ExceptionHandler_gentle: "ExceptionHandler H e k = Inr k' \<Longrightarrow> gentle k k'"
  by (auto simp: ExceptionHandler_def Halt_def elim!: bindR_InrE dest!: syscall_gentle split: ExceptionType.splits)
    (erule from_push; simp)

lemma Console_new_gentle:
  assumes "Console_new H i r h1 h2 k = Inr k'"
  shows "gentle k k'"
proof -
  obtain c w where "Schedule ConsoleReadPoll ConsoleTime ConsoleReadInt (set_console (\<lambda>_. c) (set_world w k)) = Inr k'"
    using assms by (auto simp: Console_new_def elim!: bindR_InrE)
  from quiet_then [OF _ Schedule_gentle [OF this], of k] show ?thesis by (simp add: set_console_def)
qed

lemma SynchConsole_new_gentle:
  assumes "SynchConsole_new H i r k = Inr k'"
  shows "gentle k k'"
proof -
  obtain k1 a k2 b k3 c k4 d k5 g where n: "Console_new H i r SynchReadFunct SynchWriteFunct k = Inr k1"
    "Semaphore_new (cstr ''Synch Read Avail'') 0 k1 = (a, k2)" "Semaphore_new (cstr ''Synch Write Avail'') 0 k2 = (b, k3)"
    "Semaphore_new (cstr ''Read Synch Line Block'') 1 k3 = (c, k4)"
    "Semaphore_new (cstr ''Write Synch Line Block'') 1 k4 = (d, k5)" "k' = set_dev g k5"
    using assms by (auto simp: SynchConsole_new_def Let_def elim!: bindR_InrE split: prod.splits)
  have "gentle k k1" by (rule Console_new_gentle [OF n(1)])
  also have "gentle k1 k2" by (rule Semaphore_new_gentle [OF n(2)])
  also have "gentle k2 k3" by (rule Semaphore_new_gentle [OF n(3)])
  also have "gentle k3 k4" by (rule Semaphore_new_gentle [OF n(4)])
  also have "gentle k4 k5" by (rule Semaphore_new_gentle [OF n(5)])
  also have "gentle k5 k'" by (simp add: n(6) quiet_gentle)
  finally show ?thesis .
qed

lemma PTable_new_gentle:
  assumes "PTable_new J n k = Inr k'"
  shows "gentle k k'"
proof -
  obtain bs k1 g p k3 k4 nm where n: "Semaphore_new (cstr ''bmsem'') 1 k = (bs, k1)" "PCB_new J 0 (set_dev g k1) = (p, k3)"
    "set_slot 0 (Some p) k3 = Inr k4" "SetFileName p nm k4 = Inr k'"
    using assms by (auto simp: PTable_new_def Let_def elim!: bindR_InrE split: prod.splits if_splits)
  have "gentle k k1" by (rule Semaphore_new_gentle [OF n(1)])
  also have "gentle k1 (set_dev g k1)" by (simp add: quiet_gentle)
  also have "gentle (set_dev g k1) k3" by (rule PCB_new_gentle [OF n(2)])
  also have "gentle k3 k'" using quiet_trans [OF quiet_ops(9) [OF n(3)] quiet_ops(8) [OF n(4)]] by (rule quiet_gentle)
  finally show ?thesis .
qed

lemma Initialize_rest_gentle:
  assumes "Initialize_rest H J dbg k = Inr k'"
  shows "gentle k k'"
proof -
  obtain k1 a k2 g k3 f w where n: "SynchConsole_new H None None (put_machine (Machine_new dbg) k) = Inr k1"
    "Semaphore_new (cstr ''addrLock'') 1 k1 = (a, k2)" "PTable_new J 10 (set_dev g k2) = Inr k3" "k' = set_dev f (set_world w k3)"
    using assms by (auto simp: Initialize_rest_def Let_def elim!: bindR_InrE split: prod.splits)
  have "gentle k (put_machine (Machine_new dbg) k)" by (simp add: quiet_gentle)
  also have "gentle (put_machine (Machine_new dbg) k) k1" by (rule SynchConsole_new_gentle [OF n(1)])
  also have "gentle k1 k2" by (rule Semaphore_new_gentle [OF n(2)])
  also have "gentle k2 (set_dev g k2)" by (simp add: quiet_gentle)
  also have "gentle (set_dev g k2) k3" by (rule PTable_new_gentle [OF n(3)])
  also have "gentle k3 k'" by (simp add: n(4) quiet_gentle)
  finally show ?thesis .
qed

lemma PCB_Exec_ok:
  assumes k: "calm k" and f: "PCB_Exec_fork J p nm i k = Inr k'"
  shows "kernel_ok k'" "advances k k'"
proof -
  obtain t k1 where n: "Thread_new (fresh_thread J) nm k = (t, k1)" by (cases "Thread_new (fresh_thread J) nm k")
  have t: "threads k1 t = Some ((fresh_thread J)\<lparr>tname := nm, stack := None, continuation := [], tstatus := JUST_CREATED, space := None\<rparr>)"
    using n by (auto simp: Thread_new_def Let_def put_thread_def)
  obtain b k2 th and cur :: "ucode Thread" where k2: "k2 = put_pcb p b k1" and th: "threads k2 t = Some th"
    and fk: "Fork t (StartProcess_2 i) (put_thread t (th\<lparr>pid := i, parentID := pid cur\<rparr>) k2) = Inr k'"
    using f n by (auto simp: PCB_Exec_fork_def Let_def get_thread_def elim!: bindR_InrE split: option.splits)
  let ?k3 = "put_thread t (th\<lparr>pid := i, parentID := pid cur\<rparr>) k2"
  have "tstatus th = JUST_CREATED" using t th k2 by (auto simp: put_pcb_def)
  then have st: "status_of ?k3 t = Some JUST_CREATED" by (simp add: status_of_def put_thread_def)
  have "gentle k k1" by (rule Thread_new_gentle [OF n])
  also have "gentle k1 k2" by (simp add: k2 put_pcb_def quiet_gentle)
  also have "gentle k2 ?k3" by (rule put_thread_gentle [OF th]) simp_all
  finally have g: "calm ?k3" "advances k ?k3" using k by (simp_all add: gentle_def)
  show "kernel_ok k'" "advances k k'"
    using Fork_ok [OF g(1) st fk] advances_trans [OF g(2)] by blast+
qed

lemma user_code_cases:
  assumes "user_code H J c k = Inr k'"
  shows "(\<exists>p nm i. c = PCB_Exec p nm i \<and> PCB_Exec_fork J p nm i k = Inr k') \<or> gentle k k'"
  using assms
  by (cases c) (auto simp: user_code_def elim!: bindR_InrE
      intro: Machine_Run_gentle Machine_Run_loop_gentle Machine_Run_debug_gentle ExceptionHandler_gentle space_gentle
        space_start_gentle ExecUpdate_gentle process_gentle PTable_Remove_gentle SynchConsole_gentle SC_Write_line_gentle
        Read_finish_gentle Initialize_rest_gentle quiet_gentle [OF quiet_ops(1)] quiet_gentle [OF quiet_ops(2)])

interpretation user_kernel: kernel_client "user_call H" "user_code H J" for H :: "'w Host" and J
proof
  fix c k k'
  assume "calm k" "user_code H J c k = Inr k'"
  then show "kernel_ok k'" "advances k k'"
    using user_code_cases [of H J c k k'] PCB_Exec_ok [of k J] calm_kernel_ok by (auto simp: gentle_def)
qed

end
