(* ===== verification/Kernel_Theorems.thy ===== *)
theory Kernel_Theorems
  imports User_Client
begin

text \<open>
  The theorems of the thread system for the user-program build, with its own handlers and code: the
  invariant from the boot on, the order of dispatch, context switches, and the absence of failures.
\<close>


section \<open>Boot\<close>

lemma Timer_new_fields:
  assumes "Timer_new H b k = Inr k'"
  shows "same_sched k k'" "running k' = running k" "klevel k' = klevel k" "inHandler (interrupt k') = inHandler (interrupt k)"
    "pending_ok (interrupt k) \<Longrightarrow> pending_ok (interrupt k')"
proof -
  obtain d w k1 t where s: "Schedule TimerHandler d TimerInt (set_world w k) = Inr k1" and k': "k' = set_dev (\<lambda>g. g\<lparr>timer := Some t\<rparr>) k1"
    using assms by (auto simp: Timer_new_def Timer_start_def Let_def elim!: bindR_InrE split: prod.splits)
  have "k1 = set_int (\<lambda>i. i\<lparr>pending := seq_SortedInsert (pending i) \<lparr>handler = TimerHandler, when_due = now k + d,
      itype = TimerInt\<rparr> (now k + d)\<rparr>) (set_world w k)"
    using s by (auto simp: Schedule_def Let_def set_world_def elim!: bindR_InrE)
  then show "same_sched k k'" "running k' = running k" "klevel k' = klevel k" "inHandler (interrupt k') = inHandler (interrupt k)"
    "pending_ok (interrupt k) \<Longrightarrow> pending_ok (interrupt k')"
    unfolding k' by (simp_all add: same_sched_def set_int_def set_world_def SortedInsert_pending_ok)
qed

lemma Initialize_ok:
  assumes "Initialize H J g randomYield dbg prog = Inr k"
  shows "kernel_ok k"
proof -
  let ?k0 = "\<lparr>stats = Statistics_new, interrupt = Interrupt_new, threads = Map.empty, nextThread = 0,
      currentThread = 0, threadToBeDestroyed = None, readyList = [], sems = Map.empty, nextSem = 0, machine = None,
      running = [Code (Initialize_devices dbg), Code (StartProcess prog), ThreadFinish], dev = g\<lparr>timer := None\<rparr>\<rparr> :: 'a kern"
  obtain k1 where k1: "(if randomYield then Timer_new H randomYield ?k0 else Inr ?k0) = Inr k1"
    using assms by (auto simp: Initialize_def Let_def elim!: bindR_InrE)
  have e: "same_sched ?k0 k1" "running k1 = running ?k0" "klevel k1 = IntOff" "\<not> inHandler (interrupt k1)"
    "pending_ok (interrupt k1)"
    using k1 Timer_new_fields [of H randomYield ?k0 k1] by (auto simp: Interrupt_new_def pending_ok_def split: if_splits)
  obtain d k5 and th :: "ucode Thread" where l: "SetLevel IntOn k5 = Inr k" and th: "tstatus th = RUNNING" "stack th = None"
    and k5: "k5 = k1\<lparr>dev := d, nextThread := Suc 0, currentThread := 0, threads := [0 \<mapsto> th]\<rparr>"
    using assms e(1) k1
    by (auto simp: Initialize_def Let_def Thread_new_def setStatus_def get_thread_def put_thread_def same_sched_def set_dev_def
        elim!: bindR_InrE)
  have s: "status_of k5 t = (if t = 0 then Some RUNNING else None)" for t using th by (simp add: k5 status_of_def)
  have f: "ready_ids k5 = []" "currentThread k5 = 0" "threadToBeDestroyed k5 = None" "sems k5 = Map.empty" "nextSem k5 = 0"
    "threads k5 = [0 \<mapsto> th]" "nextThread k5 = 1" using e(1) by (simp_all add: k5 same_sched_def)
  have w: "waiting k5 u = []" for u by (simp add: waiting_def f)
  have "core False k5" unfolding core_def using th by (auto simp: s f w split: if_splits)
  moreover have "conts_ok k5" by (simp add: conts_ok_def f)
  moreover have "list_all plain (running k5)" "\<not> inHandler (interrupt k5)" "pending_ok (interrupt k5)"
    using e by (simp_all add: k5)
  ultimately have "calm k5" by (simp add: calm_def)
  then show ?thesis using SetLevel_ok l by blast
qed


section \<open>Sample states\<close>

text \<open>A host without files or input, and globals before initialization.\<close>

definition sample_host :: "unit Host" where
  "sample_host = \<lparr>sys_open = (\<lambda>_ _ w. (3, w)), sys_read = (\<lambda>_ _ w. ((1, [0]), w)), sys_write = (\<lambda>_ _ n w. (n, w)),
     sys_lseek = (\<lambda>_ off _ w. (off, w)), sys_close = (\<lambda>_ w. (0, w)), sys_unlink = (\<lambda>_ w. (0, w)),
     sys_select = (\<lambda>_ _ w. (0, w)), sys_rand = (\<lambda>w. (0, w)), sys_fgets = (\<lambda>w. ([10], w))\<rparr>"

definition sample_bits :: BitMap where
  "sample_bits = \<lparr>numBits = 0, numWords = 0, bmap = []\<rparr>"

definition sample_globals :: "unit Globals" where
  "sample_globals = \<lparr>world = (), timer = None,
     gSynchConsole = \<lparr>cons = \<lparr>readFileNo = 0, writeFileNo = 1, writeHandler = SynchWriteFunct, readHandler = SynchReadFunct,
       putBusy = False, incoming = EOF_char\<rparr>, synchReadAvail = 0, synchWriteAvail = 1, RLineBlock = 2, WLineBlock = 3\<rparr>,
     gPhysPageBitMap = sample_bits, addrLock = 4, pTab = \<lparr>psize = 0, pcb = [], pbm = sample_bits, bmsem = 5\<rparr>,
     pcbs = Map.empty, nextPcb = 0, gSemTab = \<lparr>sbm = sample_bits, semTab = []\<rparr>, openf = [], strings = Map.empty,
     nextString = 0, runUntilTime = 0\<rparr>"

definition sample_thread :: "ThreadStatus \<Rightarrow> ucode frame list \<Rightarrow> ucode Thread" where
  "sample_thread st fs = \<lparr>tname = 0, tstatus = st, stack = Some STACK_FENCEPOST, continuation = fs,
     userRegisters = (\<lambda>_. 0), space = None, pid = 0, parentID = 0\<rparr>"

definition sample_fresh :: Fresh where
  "sample_fresh = \<lparr>fresh_thread = sample_thread BLOCKED [], fresh_table = None, fresh_parent = 0,
     fresh_header = replicate 40 0, fresh_words = (\<lambda>_. 0), fresh_slots = replicate 10 Sem_null\<rparr>"

text \<open>Three threads: thread 0 runs and is about to yield, 1 and 2 are ready; one free semaphore.\<close>

definition sample_kernel :: "unit kern" where
  "sample_kernel = \<lparr>stats = Statistics_new, interrupt = Interrupt_new,
     threads = [0 \<mapsto> sample_thread RUNNING [], 1 \<mapsto> sample_thread READY [Yield_call, ThreadFinish],
       2 \<mapsto> sample_thread READY [Yield_call, ThreadFinish]],
     nextThread = 3, currentThread = 0, threadToBeDestroyed = None, readyList = [(1, 0), (2, 0)],
     sems = [0 \<mapsto> \<lparr>semName = [], semValue = 1, queue = []\<rparr>], nextSem = 1,
     machine = Some (Machine_new False), running = [Yield_call, ThreadFinish], dev = sample_globals\<rparr>"

lemmas sample_defs = sample_kernel_def sample_thread_def sample_globals_def sample_bits_def

lemma sample_kernel_core: "core False sample_kernel" "conts_ok sample_kernel"
proof -
  have s: "status_of sample_kernel t = (if t = 0 then Some RUNNING else if t = 1 \<or> t = 2 then Some READY else None)" for t
    by (simp add: status_of_def sample_defs)
  have w: "waiting sample_kernel u = []" for u by (simp add: waiting_def sample_defs)
  show "core False sample_kernel" unfolding core_def by (auto simp: s w) (auto simp: sample_defs split: if_splits)
  show "conts_ok sample_kernel" by (auto simp: conts_ok_def sample_defs saved_ok_def split: if_splits)
qed

lemma sample_kernel_ok: "kernel_ok sample_kernel"
  using sample_kernel_core
  by (simp add: kernel_ok_def) (simp add: sample_kernel_def stack_ok_def pending_ok_def Interrupt_new_def)

abbreviation sample_step :: "unit kern \<Rightarrow> unit kern res" where
  "sample_step \<equiv> kernel_step (user_call sample_host) (user_code sample_host sample_fresh)"

abbreviation sample_run :: "unit kern \<Rightarrow> unit kern list \<Rightarrow> unit kern \<Rightarrow> bool" where
  "sample_run \<equiv> kernel_run (user_call sample_host) (user_code sample_host sample_fresh)"

lemma sample_yields:
  "case sample_step sample_kernel of Inl e \<Rightarrow> False | Inr k \<Rightarrow> switches_now k \<and>
     (case sample_step k of Inl e \<Rightarrow> False | Inr k' \<Rightarrow> currentThread k' = 2)"
  by code_simp


section \<open>Theorems\<close>

lemma sample_boot:
  "case Initialize sample_host sample_fresh sample_globals False False [] of Inl e \<Rightarrow> False
   | Inr k0 \<Rightarrow> (case sample_step k0 of Inl e \<Rightarrow> False | Inr k \<Rightarrow> klevel k0 = IntOff \<and> klevel k = IntOn)"
  by code_simp

text \<open>C1. In every state that a run of the system from boot reaches, the thread system is consistent:
  only the current thread is running, the ready list and the semaphore queues hold distinct threads with
  the status that belongs there, a finished thread is in none of them, every other thread has a stack
  that a context switch can resume, and pending interrupts are in order of time.\<close>

theorem kernel_invariant:
  assumes "Initialize H J g randomYield dbg prog = Inr k0" "kernel_run (user_call H) (user_code H J) k0 ks k"
  shows "kernel_ok k"
  using user_kernel.kernel_run_ok [OF assms(2) Initialize_ok [OF assms(1)]] by simp

theorem kernel_invariant_witness:
  "\<exists>k0 k. Initialize sample_host sample_fresh sample_globals False False [] = Inr k0 \<and> sample_run k0 [k0] k \<and>
     klevel k = IntOn \<and> kernel_ok k"
proof -
  obtain k0 k where "Initialize sample_host sample_fresh sample_globals False False [] = Inr k0" "sample_step k0 = Inr k" "klevel k = IntOn"
    using sample_boot by (auto split: sum.splits)
  then show ?thesis using kernel_invariant [of sample_host] kernel_run.intros by metis
qed

text \<open>C6. Ready threads get the processor in the order of the ready list: the thread at position
  \<open>n\<close> is dispatched exactly when \<open>n\<close> other dispatches have happened since.\<close>

theorem dispatch_order:
  assumes "kernel_ok k" "kernel_run (user_call H) (user_code H J) k ks k'" "n < length (readyList k)"
    "length (filter switches_now ks) = n" "switches_now k'" "kernel_step (user_call H) (user_code H J) k' = Inr k''"
  shows "currentThread k'' = fst (readyList k ! n)"
  using user_kernel.ready_fifo [OF assms(2,1,3) _ assms(4-6)] assms(3) by simp

theorem dispatch_order_witness:
  "\<exists>k1 k2. sample_run sample_kernel [sample_kernel] k1 \<and> switches_now sample_kernel \<and> switches_now k1 \<and>
     sample_step k1 = Inr k2 \<and> currentThread k2 = fst (readyList sample_kernel ! 1)"
proof -
  obtain k1 k2 where s: "sample_step sample_kernel = Inr k1" "switches_now k1" "sample_step k1 = Inr k2"
    using sample_yields by (auto split: sum.splits)
  have r: "sample_run sample_kernel [sample_kernel] k1" using s(1) kernel_run.intros by metis
  have "switches_now sample_kernel" "1 < length (readyList sample_kernel)" by (simp_all add: switches_now_def sample_kernel_def)
  then show ?thesis using dispatch_order [OF sample_kernel_ok r _ _ s(2,3), of 1] r s by auto
qed

text \<open>C2. A context switch is transparent to a user program: when a thread that was switched out gets
  the processor back, and has not finished in between, the machine has its registers and its
  page table again, whatever the other threads did.\<close>

theorem context_switch_transparent:
  assumes "kernel_ok k0" "switches_now k0" "kernel_step (user_call H) (user_code H J) k0 = Inr k1"
    "threads k0 (currentThread k0) = Some th" "space th = Some sp" "machine k0 = Some m"
    "pageTable m = Some pt" "pageTableSize m = numPages sp"
    "kernel_run (user_call H) (user_code H J) k1 ks k2"
    "\<forall>q\<in>set ks. currentThread q \<noteq> currentThread k0 \<and> threadToBeDestroyed q \<noteq> Some (currentThread k0)"
    "currentThread k2 = currentThread k0" "running k2 = Run_return # fs" "threadToBeDestroyed k2 \<noteq> Some (currentThread k0)"
    "kernel_step (user_call H) (user_code H J) k2 = Inr k3"
  shows "\<exists>m'. machine k3 = Some m' \<and> (\<forall>i<NumTotalRegs. registers m' i = registers m i) \<and>
    pageTable m' = Some pt \<and> pageTableSize m' = pageTableSize m"
  by (rule user_kernel.switch_transparent [OF assms(1-12) assms(14,13)])

definition sample_user :: "unit kern" where
  "sample_user = sample_kernel\<lparr>threads := [0 \<mapsto> (sample_thread RUNNING [])\<lparr>space := Some \<lparr>space_table = Some [], numPages = 0\<rparr>\<rparr>,
       1 \<mapsto> sample_thread READY [Yield_call, ThreadFinish]], nextThread := 2, readyList := [(1, 0)],
     machine := Some ((Machine_new False)\<lparr>registers := (\<lambda>_. 0)(5 := 7), pageTable := Some []\<rparr>)\<rparr>"

lemma sample_user_ok: "kernel_ok sample_user"
proof -
  have s: "status_of sample_user t = (if t = 0 then Some RUNNING else if t = 1 then Some READY else None)" for t
    by (simp add: status_of_def sample_user_def sample_defs)
  have w: "waiting sample_user u = []" for u by (simp add: waiting_def sample_user_def sample_defs)
  have "core False sample_user" unfolding core_def by (auto simp: s w) (auto simp: sample_user_def sample_defs split: if_splits)
  moreover have "conts_ok sample_user" by (auto simp: conts_ok_def sample_user_def sample_defs saved_ok_def split: if_splits)
  ultimately show ?thesis
    by (simp add: kernel_ok_def) (simp add: sample_user_def sample_kernel_def stack_ok_def pending_ok_def Interrupt_new_def)
qed

lemma sample_switches:
  "case sample_step sample_user of Inl e \<Rightarrow> False | Inr k1 \<Rightarrow> currentThread k1 = 1 \<and> threadToBeDestroyed k1 = None \<and>
     (case sample_step k1 of Inl e \<Rightarrow> False | Inr k2 \<Rightarrow> currentThread k2 = 0 \<and> threadToBeDestroyed k2 = None \<and>
        running k2 = [Run_return, SetLevel_call IntOff, ThreadFinish] \<and>
        (case sample_step k2 of Inl e \<Rightarrow> False | Inr k3 \<Rightarrow> True))"
  by code_simp

theorem context_switch_transparent_witness:
  "\<exists>k1 k2 k3. sample_step sample_user = Inr k1 \<and> sample_run k1 [k1] k2 \<and> currentThread k2 \<noteq> currentThread k1 \<and>
     sample_step k2 = Inr k3 \<and> (\<exists>m'. machine k3 = Some m' \<and> registers m' 5 = 7)"
proof -
  obtain k1 k2 k3 where s: "sample_step sample_user = Inr k1" "currentThread k1 = 1" "threadToBeDestroyed k1 = None"
    "sample_step k1 = Inr k2" "currentThread k2 = 0" "threadToBeDestroyed k2 = None"
    "running k2 = [Run_return, SetLevel_call IntOff, ThreadFinish]" "sample_step k2 = Inr k3"
    using sample_switches by (auto split: sum.splits)
  have r: "sample_run k1 [k1] k2" using s(4) kernel_run.intros by metis
  let ?th = "(sample_thread RUNNING [])\<lparr>space := Some \<lparr>space_table = Some [], numPages = 0\<rparr>\<rparr>"
  let ?m = "(Machine_new False)\<lparr>registers := (\<lambda>_. 0)(5 := 7), pageTable := Some []\<rparr>"
  have u: "switches_now sample_user" "currentThread sample_user = 0" "threads sample_user (currentThread sample_user) = Some ?th"
    "machine sample_user = Some ?m"
    by (simp_all add: switches_now_def sample_user_def sample_kernel_def)
  have sp: "space ?th = Some \<lparr>space_table = Some [], numPages = 0\<rparr>" by (simp add: sample_thread_def)
  have "\<exists>m'. machine k3 = Some m' \<and> (\<forall>i<NumTotalRegs. registers m' i = registers ?m i) \<and> pageTable m' = Some [] \<and>
      pageTableSize m' = pageTableSize ?m"
    by (rule context_switch_transparent [OF sample_user_ok u(1) s(1) u(3) sp u(4) _ _ r _ _ s(7) _ s(8)])
      (simp_all add: s(2,3,5,6) u(2) Machine_new_def)
  then show ?thesis using s r by (auto simp: reg_defs)
qed


definition sample_tick :: "unit kern" where
  "sample_tick = sample_kernel\<lparr>running := [OneTick_loop SystemMode, ThreadFinish],
     interrupt := Interrupt_new\<lparr>pending := [(\<lparr>handler = ConsoleReadPoll, when_due = 0, itype = ConsoleReadInt\<rparr>, 0)]\<rparr>\<rparr>"

lemma sample_tick_ok: "kernel_ok sample_tick" "load_in_range sample_tick" "alive (user_live sample_host) sample_tick"
proof -
  have "same_sched sample_kernel sample_tick" by (simp add: same_sched_def sample_tick_def)
  then have "core False sample_tick" "conts_ok sample_tick" using core_cong conts_cong sample_kernel_core by blast+
  then show "kernel_ok sample_tick"
    by (simp add: kernel_ok_def) (simp add: sample_tick_def stack_ok_def pending_ok_def Interrupt_new_def)
  show "load_in_range sample_tick" by (simp add: load_in_range_def sample_tick_def sample_kernel_def Machine_new_def reg_defs)
  have "polite sample_host" by (simp add: polite_def sample_host_def)
  then show "alive (user_live sample_host) sample_tick"
    by (simp add: alive_def user_live_def sample_tick_def sample_kernel_def sample_globals_def console_sem_def)
qed




end
