(* ===== verification/Memory_View.thy ===== *)
theory Memory_View
  imports User_Client
begin

text \<open>
  The memory of a program as the program sees it.  A page table is abstracted to the frame and
  the access rights of each page; the bits that the hardware sets are left out.  Reads and writes of single
  bytes are described on this view, and with them the routines that move strings between kernel and
  user memory.
\<close>


section \<open>Frames of a table\<close>

type_synonym page_view = "32 word \<times> bool \<times> bool"

definition entry_view :: "TranslationEntry \<Rightarrow> page_view" where
  "entry_view e = (physicalPage e, valid e, readOnly e)"

definition frame_of :: "page_view \<Rightarrow> nat" where
  "frame_of p = unat (fst p)"

text \<open>The table in use, and the physical address of a virtual one.\<close>

definition user_space :: "Machine \<Rightarrow> page_view list \<Rightarrow> bool" where
  "user_space m fm \<longleftrightarrow> tlb m = None \<and> pageTableSize m = length fm \<and>
     map_option (map entry_view) (pageTable m) = Some fm"

definition phys :: "page_view list \<Rightarrow> nat \<Rightarrow> nat" where
  "phys fm v = frame_of (fm ! (v div PageSize)) * PageSize + v mod PageSize"

definition mapped :: "page_view list \<Rightarrow> nat \<Rightarrow> bool" where
  "mapped fm v \<longleftrightarrow> v div PageSize < length fm \<and>
     (case fm ! (v div PageSize) of (f, ok, ro) \<Rightarrow> ok \<and> \<not> ro \<and> unat f < NumPhysPages)"

lemma PageSize_pos [simp]: "0 < PageSize"
  by (simp add: size_defs)

lemma phys_inj:
  assumes d: "distinct (map frame_of fm)" and m: "mapped fm v" "mapped fm v'" and e: "phys fm v = phys fm v'"
  shows "v = v'"
proof -
  have "frame_of (fm ! (v div PageSize)) = phys fm v div PageSize" "v mod PageSize = phys fm v mod PageSize"
    "frame_of (fm ! (v' div PageSize)) = phys fm v' div PageSize" "v' mod PageSize = phys fm v' mod PageSize"
    by (simp_all add: phys_def)
  then have f: "frame_of (fm ! (v div PageSize)) = frame_of (fm ! (v' div PageSize))" and o: "v mod PageSize = v' mod PageSize"
    using e by simp_all
  have "v div PageSize = v' div PageSize"
    using f d m by (simp add: mapped_def distinct_conv_nth) (metis nth_map)
  with o show ?thesis by (metis div_mult_mod_eq)
qed

lemma phys_bound: "mapped fm v \<Longrightarrow> phys fm v < MemorySize"
proof -
  assume "mapped fm v"
  then have "frame_of (fm ! (v div PageSize)) < NumPhysPages" by (auto simp: mapped_def frame_of_def split: prod.splits)
  then have "Suc (frame_of (fm ! (v div PageSize))) * PageSize \<le> NumPhysPages * PageSize" by (intro mult_le_mono1) simp
  moreover have "v mod PageSize < PageSize" by simp
  ultimately show ?thesis unfolding phys_def MemorySize_def mult_Suc by linarith
qed

lemma user_space_memory [simp]: "user_space (m\<lparr>mainMemory := x\<rparr>) fm = user_space m fm"
  by (simp add: user_space_def)

lemma user_space_put_entry:
  assumes "user_space m fm" "pageTable m = Some pt" "i < length pt" "entry_view e = entry_view (pt ! i)"
  shows "user_space (put_entry m i e) fm"
proof -
  have "map entry_view (pt[i := e]) = (map entry_view pt)[i := entry_view e]" by (simp add: map_update)
  also have "\<dots> = map entry_view pt" using assms(3,4) by (metis list_update_id nth_map)
  finally show ?thesis using assms(1,2) by (simp add: user_space_def put_entry_def)
qed


section \<open>Single bytes\<close>

lemma Translate_mapped:
  assumes u: "user_space m fm" and v: "mapped fm (unat va)"
  shows "\<exists>m'. Translate m va 1 wr = Inr (Inr (phys fm (unat va)), m') \<and> user_space m' fm \<and>
    mainMemory m' = mainMemory m \<and> registers m' = registers m \<and> singleStep m' = singleStep m"
proof -
  obtain pt where pt: "pageTable m = Some pt" "map entry_view pt = fm" using u by (auto simp: user_space_def)
  let ?i = "unat va div PageSize"
  let ?e = "pt ! ?i"
  have t: "tlb m = None" "pageTableSize m = length pt" using u pt by (auto simp: user_space_def)
  have i: "?i < length pt" using v pt by (auto simp: mapped_def)
  then have e: "fm ! ?i = entry_view ?e" using pt(2) by (metis nth_map)
  have ok: "valid ?e" "\<not> readOnly ?e" "unat (physicalPage ?e) < NumPhysPages"
    using v e by (auto simp: mapped_def entry_view_def)
  have p: "phys fm (unat va) = unat (physicalPage ?e) * PageSize + unat va mod PageSize"
    by (simp add: phys_def e frame_of_def entry_view_def)
  have f: "find_entry m (va div of_nat PageSize) = Inr (Inr (?i, ?e))"
    using t i ok pt(1) by (simp add: find_entry_def page_number)
  let ?e' = "?e\<lparr>use := True, dirty := (wr \<or> dirty ?e)\<rparr>"
  have "Translate m va 1 wr = Inr (Inr (phys fm (unat va)), put_entry m ?i ?e')"
    using f ok t pt(1) phys_bound [OF v] by (simp add: Translate_def misaligned_def Let_def p page_offset)
  moreover have "user_space (put_entry m ?i ?e') fm"
    using user_space_put_entry [OF u pt(1) i] by (simp add: entry_view_def)
  moreover have "singleStep (put_entry m ?i ?e') = singleStep m" by (simp add: put_entry_def split: option.splits)
  ultimately show ?thesis by simp
qed

lemma kernel_read_mapped:
  assumes "user_space m fm" "mapped fm (unat va)"
  shows "\<exists>m'. kernel_read m va = Inr (scast (mainMemory m (phys fm (unat va))), m') \<and> user_space m' fm \<and>
    mainMemory m' = mainMemory m \<and> registers m' = registers m"
  using Translate_mapped [OF assms, of False] by (auto simp: kernel_read_def ReadMem_def)

lemma kernel_write_mapped:
  assumes "user_space m fm" "mapped fm (unat va)"
  shows "\<exists>m'. kernel_write m va v = Inr m' \<and> user_space m' fm \<and>
    mainMemory m' = (mainMemory m)(phys fm (unat va) := ucast v) \<and> registers m' = registers m"
  using Translate_mapped [OF assms, of True] by (auto simp: kernel_write_def WriteMem_def ucast_and_ff)

text \<open>The bytes a program sees.\<close>

definition vbyte :: "Machine \<Rightarrow> page_view list \<Rightarrow> nat \<Rightarrow> 8 word" where
  "vbyte m fm v = mainMemory m (phys fm v)"

lemma scast_byte_0 [simp]: "(scast (b :: 8 word) :: 32 word) = 0 \<longleftrightarrow> b = 0"
proof
  assume "(scast b :: 32 word) = 0"
  moreover have "sint (scast b :: 32 word) = sint b" by (rule sint_up_scast) (simp add: is_up)
  ultimately show "b = 0" by (intro signed_word_eqI [where 'a = int]) simp
qed simp

lemma ucast_scast_byte [simp]: "(ucast (scast (b :: 8 word) :: 32 word) :: 8 word) = b"
proof (rule bit_word_eqI)
  fix n assume "n < LENGTH(8)"
  then show "bit (ucast (scast b :: 32 word) :: 8 word) n = bit b n" by (auto simp: bit_simps)
qed

lemma unat_offset: "unat (va :: 32 word) + i < 2 ^ 32 \<Longrightarrow> unat (va + of_nat i) = unat va + i"
  by (simp add: unat_word_ariths unat_of_nat)


section \<open>Strings\<close>

text \<open>The zero-terminated string \<open>s\<close> stands at virtual address \<open>v\<close>.\<close>

definition string_at :: "Machine \<Rightarrow> page_view list \<Rightarrow> nat \<Rightarrow> bytes \<Rightarrow> bool" where
  "string_at m fm v s \<longleftrightarrow> 0 \<notin> set s \<and> (\<forall>j<Suc (length s). vbyte m fm (v + j) = (s @ [0]) ! j)"

definition mapped_range :: "page_view list \<Rightarrow> nat \<Rightarrow> nat \<Rightarrow> bool" where
  "mapped_range fm v n \<longleftrightarrow> v + n \<le> 2 ^ 32 \<and> (\<forall>j<n. mapped fm (v + j))"

lemma splice_Cons: "i < length xs \<Longrightarrow> splice_at i (y # ys) xs = splice_at (Suc i) ys (xs[i := y])"
  by (simp add: splice_at_def take_update_swap take_Suc_conv_app_nth drop_update_cancel list_update_append)

lemma drop_ConsD: "drop i xs = y # ys \<Longrightarrow> i < length xs \<and> xs ! i = y \<and> drop (Suc i) xs = ys"
  by (metis Cons_nth_drop_Suc drop_all list.distinct(1) list.inject not_le)

lemma string_at_Cons:
  "string_at m fm v (c # s) \<longleftrightarrow> c \<noteq> 0 \<and> vbyte m fm v = c \<and> string_at m fm (Suc v) s"
  unfolding string_at_def length_Cons All_less_Suc2 by auto

lemma mapped_range_Suc: "mapped_range fm v (Suc n) \<longleftrightarrow> v < 2 ^ 32 \<and> mapped fm v \<and> mapped_range fm (Suc v) n"
  by (auto simp: mapped_range_def All_less_Suc2)

lemma UserToSystem_loop_string:
  assumes "user_space m fm" "string_at m fm (unat va + i) s" "mapped_range fm (unat va + i) (Suc (length s))"
    "length s < n" "i + length s < length buf"
  shows "\<exists>m'. UserToSystem_loop va i n buf m = Inr (splice_at i (s @ [0]) buf, m') \<and> user_space m' fm \<and>
    mainMemory m' = mainMemory m \<and> registers m' = registers m"
  using assms
proof (induction s arbitrary: i n buf m)
  case Nil
  then obtain n' where n: "n = Suc n'" by (cases n) auto
  have mp: "mapped fm (unat (va + of_nat i))" "unat (va + of_nat i) = unat va + i"
    using Nil.prems(3) by (simp_all add: mapped_range_Suc unat_offset)
  have z: "mainMemory m (phys fm (unat va + i)) = 0" using Nil.prems(2) by (simp add: string_at_def vbyte_def)
  from kernel_read_mapped [OF Nil.prems(1) mp(1)] show ?case
    using Nil.prems(5) mp(2) z by (auto simp: n write_array_def splice_at_def upd_conv_take_nth_drop)
next
  case (Cons c s)
  then obtain n' where n: "n = Suc n'" by (cases n) auto
  have mp: "mapped fm (unat (va + of_nat i))" "unat (va + of_nat i) = unat va + i"
    using Cons.prems(3) by (simp_all add: mapped_range_Suc unat_offset)
  have c: "c \<noteq> 0" "mainMemory m (phys fm (unat va + i)) = c" "string_at m fm (unat va + Suc i) s"
    using Cons.prems(2) by (simp_all add: string_at_Cons vbyte_def)
  from kernel_read_mapped [OF Cons.prems(1) mp(1)] obtain m1 where
    m1: "kernel_read m (va + of_nat i) = Inr (scast c, m1)" "user_space m1 fm" "mainMemory m1 = mainMemory m" "registers m1 = registers m"
    using mp(2) c(2) by auto
  have "string_at m1 fm (unat va + Suc i) s" using c(3) m1(3) by (simp add: string_at_def vbyte_def)
  from Cons.IH [OF m1(2) this, of n' "buf[i := c]"] Cons.prems n obtain m' where
    "UserToSystem_loop va (Suc i) n' (buf[i := c]) m1 = Inr (splice_at (Suc i) (s @ [0]) (buf[i := c]), m')"
    "user_space m' fm" "mainMemory m' = mainMemory m1" "registers m' = registers m1"
    by (auto simp: mapped_range_Suc)
  then show ?case using m1 c(1) Cons.prems(5) by (auto simp: n write_array_def splice_Cons)
qed

lemma SystemToUser_loop_string:
  assumes "user_space m fm" "distinct (map frame_of fm)" "mapped_range fm (unat va + i) (Suc (length s))" "0 \<notin> set s"
    "drop i buf = s @ 0 # rest" "i \<le> length buf"
  shows "\<exists>m'. SystemToUser_loop va i (Suc (length s)) buf m = Inr (int (i + Suc (length s)), m') \<and> user_space m' fm \<and>
    registers m' = registers m \<and> string_at m' fm (unat va + i) s \<and>
    (\<forall>v. mapped fm v \<longrightarrow> v < unat va + i \<or> unat va + i + length s < v \<longrightarrow> vbyte m' fm v = vbyte m fm v)"
  using assms
proof (induction s arbitrary: i m)
  case Nil
  have mp: "mapped fm (unat (va + of_nat i))" "unat (va + of_nat i) = unat va + i"
    using Nil.prems(3) by (simp_all add: mapped_range_Suc unat_offset)
  have b: "i < length buf" "buf ! i = 0" using drop_ConsD [of i buf 0 rest] Nil.prems(5) by simp_all
  from kernel_write_mapped [OF Nil.prems(1) mp(1), of 0] obtain m1 where
    m1: "kernel_write m (va + of_nat i) 0 = Inr m1" "user_space m1 fm" "mainMemory m1 = (mainMemory m)(phys fm (unat va + i) := 0)"
      "registers m1 = registers m" using mp(2) by auto
  have "vbyte m1 fm v = vbyte m fm v" if "mapped fm v" "v \<noteq> unat va + i" for v
    using phys_inj [OF Nil.prems(2) that(1), of "unat va + i"] that(2) mp m1(3) by (auto simp: vbyte_def)
  then show ?case using m1 b by (auto simp: read_array_def string_at_def vbyte_def)
next
  case (Cons c s)
  have mp: "mapped fm (unat (va + of_nat i))" "unat (va + of_nat i) = unat va + i"
    using Cons.prems(3) by (simp_all add: mapped_range_Suc unat_offset)
  have b: "i < length buf" "buf ! i = c" "drop (Suc i) buf = s @ 0 # rest"
    using drop_ConsD [of i buf c "s @ 0 # rest"] Cons.prems(5) by simp_all
  have c: "c \<noteq> 0" using Cons.prems(4) by auto
  from kernel_write_mapped [OF Cons.prems(1) mp(1), of "scast c"] obtain m1 where
    m1: "kernel_write m (va + of_nat i) (scast c) = Inr m1" "user_space m1 fm"
      "mainMemory m1 = (mainMemory m)(phys fm (unat va + i) := c)" "registers m1 = registers m" using mp(2) by auto
  have o: "vbyte m1 fm v = vbyte m fm v" if "mapped fm v" "v \<noteq> unat va + i" for v
    using phys_inj [OF Cons.prems(2) that(1), of "unat va + i"] that(2) mp m1(3) by (auto simp: vbyte_def)
  from Cons.IH [OF m1(2) Cons.prems(2), of "Suc i"] Cons.prems b obtain m' where
    m': "SystemToUser_loop va (Suc i) (Suc (length s)) buf m1 = Inr (int (Suc i + Suc (length s)), m')" "user_space m' fm"
      "registers m' = registers m1" "string_at m' fm (unat va + Suc i) s"
      "\<forall>v. mapped fm v \<longrightarrow> v < unat va + Suc i \<or> unat va + Suc i + length s < v \<longrightarrow> vbyte m' fm v = vbyte m1 fm v"
    by (auto simp: mapped_range_Suc)
  have "vbyte m' fm (unat va + i) = c" using m'(5) mp m1(3) by (simp add: vbyte_def)
  moreover have "vbyte m' fm v = vbyte m fm v" if "mapped fm v" "v < unat va + i \<or> unat va + i + length (c # s) < v" for v
    using m'(5) o that by auto
  ultimately show ?case using m' m1 b c by (auto simp: read_array_def string_at_Cons)
qed

lemma SystemToUser_string:
  assumes "user_space m fm" "distinct (map frame_of fm)" "mapped_range fm (unat va) (Suc (length s))" "0 \<notin> set s"
  shows "\<exists>m'. SystemToUser va (int (length s) + 1) (s @ 0 # rest) m = Inr (int (length s) + 1, m') \<and> user_space m' fm \<and>
    registers m' = registers m \<and> string_at m' fm (unat va) s \<and>
    (\<forall>v. mapped fm v \<longrightarrow> v < unat va \<or> unat va + length s < v \<longrightarrow> vbyte m' fm v = vbyte m fm v)"
  using SystemToUser_loop_string [OF assms(1,2), of va 0 s "s @ 0 # rest" rest] assms(3,4)
  by (simp add: SystemToUser_def nat_add_distrib add.commute)

lemma UserToSystem_string:
  assumes "user_space m fm" "string_at m fm (unat va) s" "mapped_range fm (unat va) (Suc (length s))"
    "int (length s) < limit" "limit + 1 < 2 ^ 31"
  shows "\<exists>m'. UserToSystem va limit m = Inr (s @ replicate (nat limit + 1 - length s) 0, m') \<and> user_space m' fm \<and>
    mainMemory m' = mainMemory m \<and> registers m' = registers m"
proof -
  have n: "nat (limit + 1) = Suc (nat limit)" "length s < nat limit" using assms(4) by simp_all
  have "splice_at 0 (s @ [0]) (replicate (Suc (nat limit)) 0) = s @ replicate (Suc (nat limit) - length s) 0"
    using n(2) by (simp add: splice_at_def Suc_diff_Suc Suc_diff_le)
  then show ?thesis
    using UserToSystem_loop_string [OF assms(1), of va 0 s "nat limit" "replicate (Suc (nat limit)) 0"] assms n
    by (simp add: UserToSystem_def)
qed


section \<open>Properties\<close>

text \<open>C20. A string the kernel copies out to a program, at any address and across page boundaries, is
  the string it reads back from that address; no other byte of the program changes, and neither do its
  registers.\<close>

theorem string_roundtrip:
  assumes "user_space m fm" "distinct (map frame_of fm)" "mapped_range fm (unat va) (Suc (length s))" "0 \<notin> set s"
    "int (length s) < limit" "limit + 1 < 2 ^ 31"
  shows "\<exists>m' m''. SystemToUser va (int (length s) + 1) (s @ [0]) m = Inr (int (length s) + 1, m') \<and>
    UserToSystem va limit m' = Inr (s @ replicate (nat limit + 1 - length s) 0, m'') \<and> registers m'' = registers m \<and>
    (\<forall>v. mapped fm v \<longrightarrow> v < unat va \<or> unat va + length s < v \<longrightarrow> vbyte m'' fm v = vbyte m fm v)"
proof -
  obtain m' where m': "SystemToUser va (int (length s) + 1) (s @ [0]) m = Inr (int (length s) + 1, m')" "user_space m' fm"
    "registers m' = registers m" "string_at m' fm (unat va) s"
    "\<forall>v. mapped fm v \<longrightarrow> v < unat va \<or> unat va + length s < v \<longrightarrow> vbyte m' fm v = vbyte m fm v"
    using SystemToUser_string [OF assms(1-4)] by blast
  from UserToSystem_string [OF m'(2,4) assms(3,5,6)] obtain m'' where
    "UserToSystem va limit m' = Inr (s @ replicate (nat limit + 1 - length s) 0, m'')" "mainMemory m'' = mainMemory m'"
    "registers m'' = registers m'" by blast
  then show ?thesis using m' by (intro exI [of _ m'] exI [of _ m'']) (simp add: vbyte_def)
qed

lemma sample_space: "user_space (sample_machine [sample_entry 0 5, sample_entry 1 3]) [(5, True, False), (3, True, False)]"
  by (simp add: user_space_def sample_machine_def sample_entry_def entry_view_def)

theorem string_roundtrip_witness:
  "\<exists>m' m''. SystemToUser 510 4 ([78, 79, 80] @ [0]) (sample_machine [sample_entry 0 5, sample_entry 1 3]) = Inr (4, m') \<and>
     UserToSystem 510 33 m' = Inr ([78, 79, 80] @ replicate 31 0, m'')"
proof -
  let ?fm = "[(5, True, False), (3, True, False)] :: page_view list"
  have d: "distinct (map frame_of ?fm)" by (simp add: frame_of_def)
  have "mapped ?fm (510 + j)" if "j < 4" for j
  proof -
    have "j = 0 \<or> j = 1 \<or> j = 2 \<or> j = 3" using that by arith
    then show ?thesis by (auto simp: mapped_def size_defs)
  qed
  then have r: "mapped_range ?fm (unat (510 :: 32 word)) (Suc (length [78, 79, 80 :: 8 word]))" by (simp add: mapped_range_def)
  show ?thesis using string_roundtrip [OF sample_space d r, of 33] by auto
qed



end
