(* ===== verification/Example_Stack.thy ===== *)
theory Example_Stack
  imports Nachos_Prelude
begin

text \<open>
  The stacks of \<^verbatim>\<open>c++example\<close>: the list of integers (\<^verbatim>\<open>list.cc\<close>) with its cells on a heap,
  the abstract class \<open>Stack\<close> as a table of virtual functions, its two implementations \<open>ArrayStack\<close>
  and \<open>ListStack\<close> (\<^verbatim>\<open>inheritstack.cc\<close>), and the template \<open>Stack<T>\<close> (\<^verbatim>\<open>templatestack.cc\<close>).  The
  locale \<open>stack_class\<close> is the contract the class comment states; both implementations are
  interpretations of it, and the shared \<open>SelfTest\<close> is proved once inside it.
\<close>


section \<open>The list of integers\<close>

record IntElement =
  inext :: "nat option"
  iitem :: int

record IntList =
  ifirst :: "nat option"
  ilast :: "nat option"
  icells :: "nat \<rightharpoonup> IntElement"
  ibrk :: nat

definition IntElement_new :: "int \<Rightarrow> IntElement" where
  "IntElement_new v = \<lparr>inext = None, iitem = v\<rparr>"

definition IntList_new :: IntList where
  "IntList_new = \<lparr>ifirst = None, ilast = None, icells = Map.empty, ibrk = 0\<rparr>"

definition IntList_Empty :: "IntList \<Rightarrow> bool" where
  "IntList_Empty l \<longleftrightarrow> ifirst l = None"

text \<open>\<open>new ListElement\<close> returns an address never used before.\<close>

definition IntList_Prepend :: "int \<Rightarrow> IntList \<Rightarrow> IntList" where
  "IntList_Prepend v l =
     (let element = ibrk l; e = IntElement_new v; l1 = l\<lparr>ibrk := Suc element\<rparr> in
      if IntList_Empty l1 then l1\<lparr>icells := (icells l1)(element \<mapsto> e), ifirst := Some element, ilast := Some element\<rparr>
      else l1\<lparr>icells := (icells l1)(element \<mapsto> e\<lparr>inext := ifirst l1\<rparr>), ifirst := Some element\<rparr>)"

definition IntList_Remove :: "IntList \<Rightarrow> (int \<times> IntList) res" where
  "IntList_Remove l =
     bindR (ASSERT (\<not> IntList_Empty l)) (\<lambda>_.
       case ifirst l of None \<Rightarrow> Inl NullDeref
       | Some element \<Rightarrow> (case icells l element of None \<Rightarrow> Inl NullDeref
          | Some e \<Rightarrow>
             let l1 = (if ifirst l = ilast l then l\<lparr>ifirst := None, ilast := None\<rparr> else l\<lparr>ifirst := inext e\<rparr>)
             in Inr (iitem e, l1\<lparr>icells := (icells l1)(element := None)\<rparr>)))"

partial_function (option) IntList_delete :: "IntList \<Rightarrow> IntList res option" where
  "IntList_delete l =
     (if IntList_Empty l then Some (Inr l)
      else case IntList_Remove l of Inl e \<Rightarrow> Some (Inl e) | Inr (_, l1) \<Rightarrow> IntList_delete l1)"


section \<open>The two implementations\<close>

text \<open>\<open>new int[size]\<close> leaves the array with whatever the memory held, \<open>junk\<close>.\<close>

record 'a ArrayStack =
  asize :: int
  atop :: int
  astack :: "'a list"

definition ArrayStack_new :: "(nat \<Rightarrow> 'a) \<Rightarrow> int \<Rightarrow> 'a ArrayStack res" where
  "ArrayStack_new junk sz =
     bindR (ASSERT (sz \<ge> 1)) (\<lambda>_. Inr \<lparr>asize = sz, atop = 0, astack = map junk [0..<nat sz]\<rparr>)"

definition ArrayStack_Full :: "'a ArrayStack \<Rightarrow> bool" where
  "ArrayStack_Full s \<longleftrightarrow> atop s = asize s"

definition ArrayStack_Empty :: "'a ArrayStack \<Rightarrow> bool" where
  "ArrayStack_Empty s \<longleftrightarrow> atop s = 0"

definition ArrayStack_Push :: "'a \<Rightarrow> 'a ArrayStack \<Rightarrow> 'a ArrayStack res" where
  "ArrayStack_Push v s =
     bindR (ASSERT (\<not> ArrayStack_Full s)) (\<lambda>_.
     bindR (write_array (astack s) (atop s) v) (\<lambda>a. Inr (s\<lparr>atop := atop s + 1, astack := a\<rparr>)))"

definition ArrayStack_Pop :: "'a ArrayStack \<Rightarrow> ('a \<times> 'a ArrayStack) res" where
  "ArrayStack_Pop s =
     bindR (ASSERT (\<not> ArrayStack_Empty s)) (\<lambda>_.
     let s1 = s\<lparr>atop := atop s - 1\<rparr> in
     bindR (read_array (astack s1) (atop s1)) (\<lambda>v. Inr (v, s1)))"

definition ListStack_new :: IntList where
  "ListStack_new = IntList_new"

definition ListStack_Push :: "int \<Rightarrow> IntList \<Rightarrow> IntList res" where
  "ListStack_Push v s = Inr (IntList_Prepend v s)"

definition ListStack_Empty :: "IntList \<Rightarrow> bool" where
  "ListStack_Empty s \<longleftrightarrow> IntList_Empty s"

definition ListStack_Pop :: "IntList \<Rightarrow> (int \<times> IntList) res" where
  "ListStack_Pop s = bindR (ASSERT (\<not> ListStack_Empty s)) (\<lambda>_. IntList_Remove s)"

definition ListStack_Full :: "IntList \<Rightarrow> bool" where
  "ListStack_Full s \<longleftrightarrow> False"


section \<open>The abstract class and its self test\<close>

text \<open>The virtual functions of class \<open>Stack\<close>, and the table each derived class fills in.\<close>

record 's Stack =
  Push :: "int \<Rightarrow> 's \<Rightarrow> 's res"
  Pop :: "'s \<Rightarrow> (int \<times> 's) res"
  Full :: "'s \<Rightarrow> bool"
  Empty :: "'s \<Rightarrow> bool"

definition ArrayStack_class :: "int ArrayStack Stack" where
  "ArrayStack_class = \<lparr>Push = ArrayStack_Push, Pop = ArrayStack_Pop, Full = ArrayStack_Full, Empty = ArrayStack_Empty\<rparr>"

definition ListStack_class :: "IntList Stack" where
  "ListStack_class = \<lparr>Push = ListStack_Push, Pop = ListStack_Pop, Full = ListStack_Full, Empty = ListStack_Empty\<rparr>"

datatype 'a message = pushing 'a | popping 'a

text \<open>\<open>count++\<close> on the largest \<open>int\<close> is undefined.\<close>

definition int_succ :: "int \<Rightarrow> int res" where
  "int_succ n = (if n < 2 ^ 31 - 1 then Inr (n + 1) else Inl Undefined)"

fun SelfTest_push :: "'s Stack \<Rightarrow> nat \<Rightarrow> int \<Rightarrow> 's \<Rightarrow> (int message list \<times> 's) res" where
  "SelfTest_push C 0 count s = Inr ([], s)"
| "SelfTest_push C (Suc n) count s =
     bindR (ASSERT (\<not> Full C s)) (\<lambda>_.
     bindR (int_succ count) (\<lambda>count'.
     bindR (Push C count s) (\<lambda>s1.
     bindR (SelfTest_push C n count' s1) (\<lambda>(out, s2). Inr (pushing count # out, s2)))))"

partial_function (option) SelfTest_pop :: "'s Stack \<Rightarrow> 's \<Rightarrow> (int message list \<times> 's) res option" where
  "SelfTest_pop C s =
     (if Empty C s then Some (Inr ([], s))
      else case Pop C s of Inl e \<Rightarrow> Some (Inl e)
       | Inr (v, s1) \<Rightarrow> Option.bind (SelfTest_pop C s1) (\<lambda>r.
           Some (bindR r (\<lambda>(out, s2). Inr (popping v # out, s2)))))"

definition Stack_SelfTest :: "'s Stack \<Rightarrow> int \<Rightarrow> 's \<Rightarrow> (int message list \<times> 's) res option" where
  "Stack_SelfTest C numToPush s =
     (case SelfTest_push C (nat numToPush) 17 s of Inl e \<Rightarrow> Some (Inl e)
      | Inr (out1, s1) \<Rightarrow> map_option (\<lambda>r. bindR r (\<lambda>(out2, s2). Inr (out1 @ out2, s2))) (SelfTest_pop C s1))"

text \<open>\<open>main\<close>: the two self tests, and the destructor of the list.\<close>

definition inheritstack_main :: "(nat \<Rightarrow> int) \<Rightarrow> (int message list \<times> int message list) res option" where
  "inheritstack_main junk =
     (case ArrayStack_new junk 10 of Inl e \<Rightarrow> Some (Inl e)
      | Inr s1 \<Rightarrow> Option.bind (Stack_SelfTest ArrayStack_class 10 s1) (\<lambda>r1.
         case r1 of Inl e \<Rightarrow> Some (Inl e)
         | Inr (out1, _) \<Rightarrow> Option.bind (Stack_SelfTest ListStack_class 10 ListStack_new) (\<lambda>r2.
            case r2 of Inl e \<Rightarrow> Some (Inl e)
            | Inr (out2, s2) \<Rightarrow> Option.bind (IntList_delete s2) (\<lambda>r3.
               Some (bindR r3 (\<lambda>_. Inr (out1, out2)))))))"


section \<open>The template\<close>

record 'a TStack =
  tsize :: int
  ttop :: int
  tstack :: "'a list"

definition TStack_new :: "(nat \<Rightarrow> 'a) \<Rightarrow> int \<Rightarrow> 'a TStack res" where
  "TStack_new junk sz =
     bindR (ASSERT (sz \<ge> 1)) (\<lambda>_. Inr \<lparr>tsize = sz, ttop = 0, tstack = map junk [0..<nat sz]\<rparr>)"

definition TStack_Full :: "'a TStack \<Rightarrow> bool" where
  "TStack_Full s \<longleftrightarrow> ttop s = tsize s"

definition TStack_Empty :: "'a TStack \<Rightarrow> bool" where
  "TStack_Empty s \<longleftrightarrow> ttop s = 0"

definition TStack_Push :: "'a \<Rightarrow> 'a TStack \<Rightarrow> 'a TStack res" where
  "TStack_Push v s =
     bindR (ASSERT (\<not> TStack_Full s)) (\<lambda>_.
     bindR (write_array (tstack s) (ttop s) v) (\<lambda>a. Inr (s\<lparr>ttop := ttop s + 1, tstack := a\<rparr>)))"

definition TStack_Pop :: "'a TStack \<Rightarrow> ('a \<times> 'a TStack) res" where
  "TStack_Pop s =
     bindR (ASSERT (\<not> TStack_Empty s)) (\<lambda>_.
     let s1 = s\<lparr>ttop := ttop s - 1\<rparr> in
     bindR (read_array (tstack s1) (ttop s1)) (\<lambda>v. Inr (v, s1)))"

text \<open>\<open>SelfTest\<close> at a type whose \<open>++\<close> is \<open>inc\<close>.\<close>

partial_function (option) TStack_fill :: "('a \<Rightarrow> 'a res) \<Rightarrow> 'a \<Rightarrow> 'a TStack \<Rightarrow> ('a message list \<times> 'a TStack) res option" where
  "TStack_fill inc count s =
     (if TStack_Full s then Some (Inr ([], s))
      else case bindR (inc count) (\<lambda>c. bindR (TStack_Push count s) (\<lambda>s1. Inr (c, s1))) of Inl e \<Rightarrow> Some (Inl e)
       | Inr (c, s1) \<Rightarrow> Option.bind (TStack_fill inc c s1) (\<lambda>r.
           Some (bindR r (\<lambda>(out, s2). Inr (pushing count # out, s2)))))"

partial_function (option) TStack_drain :: "'a TStack \<Rightarrow> ('a message list \<times> 'a TStack) res option" where
  "TStack_drain s =
     (if TStack_Empty s then Some (Inr ([], s))
      else case TStack_Pop s of Inl e \<Rightarrow> Some (Inl e)
       | Inr (v, s1) \<Rightarrow> Option.bind (TStack_drain s1) (\<lambda>r.
           Some (bindR r (\<lambda>(out, s2). Inr (popping v # out, s2)))))"

definition TStack_SelfTest :: "('a \<Rightarrow> 'a res) \<Rightarrow> 'a \<Rightarrow> 'a TStack \<Rightarrow> ('a message list \<times> 'a TStack) res option" where
  "TStack_SelfTest inc start s =
     Option.bind (TStack_fill inc start s) (\<lambda>r. case r of Inl e \<Rightarrow> Some (Inl e)
       | Inr (out1, s1) \<Rightarrow> map_option (\<lambda>r. bindR r (\<lambda>(out2, s2). Inr (out1 @ out2, s2))) (TStack_drain s1))"


section \<open>The contract of a stack\<close>

text \<open>Calls and answers, as a client of the class sees them, and the sequence they act on; \<open>room\<close> is the
  capacity, if there is one.\<close>

datatype stack_call = CallPush int | CallPop | CallEmpty

datatype stack_answer = Done | Popped int | IsEmpty bool

fun stack_run :: "'s Stack \<Rightarrow> stack_call list \<Rightarrow> 's \<Rightarrow> (stack_answer list \<times> 's) res" where
  "stack_run C [] s = Inr ([], s)"
| "stack_run C (CallPush v # cs) s =
     bindR (Push C v s) (\<lambda>s1. bindR (stack_run C cs s1) (\<lambda>(as, s2). Inr (Done # as, s2)))"
| "stack_run C (CallPop # cs) s =
     bindR (Pop C s) (\<lambda>(v, s1). bindR (stack_run C cs s1) (\<lambda>(as, s2). Inr (Popped v # as, s2)))"
| "stack_run C (CallEmpty # cs) s = bindR (stack_run C cs s) (\<lambda>(as, s2). Inr (IsEmpty (Empty C s) # as, s2))"

definition stack_no_room :: "nat option \<Rightarrow> int list \<Rightarrow> bool" where
  "stack_no_room room xs \<longleftrightarrow> room = Some (length xs)"

fun seq_run :: "nat option \<Rightarrow> stack_call list \<Rightarrow> int list \<Rightarrow> (stack_answer list \<times> int list) res" where
  "seq_run room [] xs = Inr ([], xs)"
| "seq_run room (CallPush v # cs) xs =
     (if stack_no_room room xs then Inl AssertFailed
      else bindR (seq_run room cs (v # xs)) (\<lambda>(as, ys). Inr (Done # as, ys)))"
| "seq_run room (CallPop # cs) xs =
     (case xs of [] \<Rightarrow> Inl AssertFailed
      | x # xs' \<Rightarrow> bindR (seq_run room cs xs') (\<lambda>(as, ys). Inr (Popped x # as, ys)))"
| "seq_run room (CallEmpty # cs) xs = bindR (seq_run room cs xs) (\<lambda>(as, ys). Inr (IsEmpty (xs = []) # as, ys))"

locale stack_class =
  fixes C :: "'s Stack" and ok :: "'s \<Rightarrow> bool" and contents :: "'s \<Rightarrow> int list" and room :: "'s \<Rightarrow> nat option"
  assumes Full_iff: "ok s \<Longrightarrow> Full C s \<longleftrightarrow> stack_no_room (room s) (contents s)"
    and Empty_iff: "ok s \<Longrightarrow> Empty C s \<longleftrightarrow> contents s = []"
    and Push_full: "ok s \<Longrightarrow> stack_no_room (room s) (contents s) \<Longrightarrow> Push C v s = Inl AssertFailed"
    and Push_room: "ok s \<Longrightarrow> \<not> stack_no_room (room s) (contents s) \<Longrightarrow>
      \<exists>s'. Push C v s = Inr s' \<and> ok s' \<and> contents s' = v # contents s \<and> room s' = room s"
    and Pop_empty: "ok s \<Longrightarrow> contents s = [] \<Longrightarrow> Pop C s = Inl AssertFailed"
    and Pop_item: "ok s \<Longrightarrow> contents s = x # xs \<Longrightarrow>
      \<exists>s'. Pop C s = Inr (x, s') \<and> ok s' \<and> contents s' = xs \<and> room s' = room s"
begin

text \<open>Any sequence of calls answers as the sequence does, failures included.\<close>

lemma run_refines:
  "ok s \<Longrightarrow> map_sum (\<lambda>e. e) (\<lambda>(as, s'). (as, contents s')) (stack_run C cs s) = seq_run (room s) cs (contents s)"
proof (induction cs arbitrary: s)
  case (Cons c cs)
  note IH = Cons.IH
  have shift: "map_sum (\<lambda>e. e) (\<lambda>(as, s'). (as, contents s')) (bindR r (\<lambda>(as, s2). Inr (a # as, s2))) =
      bindR (map_sum (\<lambda>e. e) (\<lambda>(as, s'). (as, contents s')) r) (\<lambda>(as, ys). Inr (a # as, ys))" for r a
    by (cases r) auto
  show ?case
  proof (cases c)
    case (CallPush v)
    show ?thesis
      using Push_full [OF Cons.prems, of v] Push_room [OF Cons.prems, of v] IH CallPush
      by (cases "stack_no_room (room s) (contents s)") (auto simp: shift)
  next
    case CallPop
    show ?thesis
      using Pop_empty [OF Cons.prems] Pop_item [OF Cons.prems] IH CallPop
      by (cases "contents s") (fastforce simp: shift)+
  next
    case CallEmpty
    show ?thesis using IH Cons.prems CallEmpty by (simp add: shift Empty_iff)
  qed
qed simp

lemma push_all:
  assumes "ok s" "\<forall>k. room s = Some k \<longrightarrow> length (contents s) + n \<le> k" "count + int n < 2 ^ 31"
  shows "\<exists>s'. SelfTest_push C n count s = Inr (map (\<lambda>i. pushing (count + int i)) [0..<n], s') \<and> ok s' \<and>
    contents s' = rev (map (\<lambda>i. count + int i) [0..<n]) @ contents s"
  using assms
proof (induction n arbitrary: s count)
  case (Suc n)
  have r: "\<not> stack_no_room (room s) (contents s)" using Suc.prems(2) by (auto simp: stack_no_room_def)
  from Push_room [OF Suc.prems(1) r, of count] obtain s1 where
    s1: "Push C count s = Inr s1" "ok s1" "contents s1 = count # contents s" "room s1 = room s" by blast
  from Suc.IH [of s1 "count + 1"] obtain s2 where
    "SelfTest_push C n (count + 1) s1 = Inr (map (\<lambda>i. pushing (count + 1 + int i)) [0..<n], s2)" "ok s2"
    "contents s2 = rev (map (\<lambda>i. count + 1 + int i) [0..<n]) @ contents s1"
    using s1 Suc.prems by auto
  moreover have "[0..<Suc n] = 0 # map Suc [0..<n]" by (simp add: upt_conv_Cons map_Suc_upt del: upt_Suc)
  ultimately show ?case
    using s1 r Suc.prems by (simp add: Full_iff int_succ_def comp_def add.assoc del: upt_Suc)
qed simp

lemma pop_all:
  "ok s \<Longrightarrow> \<exists>s'. SelfTest_pop C s = Some (Inr (map popping (contents s), s')) \<and> ok s' \<and> contents s' = []"
proof (induction "contents s" arbitrary: s)
  case Nil
  then show ?case by (simp add: SelfTest_pop.simps [of C s] Empty_iff)
next
  case (Cons x xs)
  from Pop_item [OF Cons.prems Cons.hyps(2) [symmetric]] obtain s1 where
    s1: "Pop C s = Inr (x, s1)" "ok s1" "contents s1 = xs" by blast
  from Cons.hyps(1) [of s1] s1 obtain s2 where
    "SelfTest_pop C s1 = Some (Inr (map popping xs, s2))" "ok s2" "contents s2 = []" by auto
  then show ?case
    using s1 Cons.prems Cons.hyps(2) [symmetric] by (simp add: SelfTest_pop.simps [of C s] Empty_iff)
qed

text \<open>The self test ends, prints the numbers it pushed and then the same numbers in reverse.\<close>

lemma SelfTest_output:
  assumes "ok s" "contents s = []" "\<forall>k. room s = Some k \<longrightarrow> n \<le> k" "17 + int n < 2 ^ 31"
  shows "\<exists>s'. Stack_SelfTest C (int n) s = Some (Inr (map (\<lambda>i. pushing (17 + int i)) [0..<n] @
      map popping (rev (map (\<lambda>i. 17 + int i) [0..<n])), s')) \<and> ok s' \<and> contents s' = []"
proof -
  from push_all [OF assms(1) _ assms(4)] assms(2,3) obtain s1 where
    s1: "SelfTest_push C n 17 s = Inr (map (\<lambda>i. pushing (17 + int i)) [0..<n], s1)" "ok s1"
    "contents s1 = rev (map (\<lambda>i. 17 + int i) [0..<n])" by auto
  from pop_all [OF s1(2)] s1 show ?thesis by (auto simp: Stack_SelfTest_def)
qed

end


section \<open>The array implementation\<close>

definition ArrayStack_ok :: "'a ArrayStack \<Rightarrow> bool" where
  "ArrayStack_ok s \<longleftrightarrow> 0 \<le> atop s \<and> atop s \<le> asize s \<and> length (astack s) = nat (asize s)"

definition ArrayStack_contents :: "'a ArrayStack \<Rightarrow> 'a list" where
  "ArrayStack_contents s = rev (take (nat (atop s)) (astack s))"

definition ArrayStack_room :: "'a ArrayStack \<Rightarrow> nat option" where
  "ArrayStack_room s = Some (nat (asize s))"

lemma ArrayStack_length [simp]: "ArrayStack_ok s \<Longrightarrow> length (ArrayStack_contents s) = nat (atop s)"
  by (simp add: ArrayStack_ok_def ArrayStack_contents_def min_absorb2 nat_mono)

lemma ArrayStack_new_ok:
  "sz \<ge> 1 \<Longrightarrow> \<exists>s. ArrayStack_new junk sz = Inr s \<and> ArrayStack_ok s \<and> ArrayStack_contents s = [] \<and>
     ArrayStack_room s = Some (nat sz)"
  by (simp add: ArrayStack_new_def ArrayStack_ok_def ArrayStack_contents_def ArrayStack_room_def)

lemma ArrayStack_Push_room:
  assumes "ArrayStack_ok s" "atop s \<noteq> asize s"
  shows "\<exists>s'. ArrayStack_Push v s = Inr s' \<and> ArrayStack_ok s' \<and>
    ArrayStack_contents s' = v # ArrayStack_contents s \<and> ArrayStack_room s' = ArrayStack_room s"
proof -
  have "nat (atop s) < length (astack s)" "nat (atop s + 1) = Suc (nat (atop s))"
    using assms by (auto simp: ArrayStack_ok_def)
  then show ?thesis
    using assms by (auto simp: ArrayStack_Push_def ArrayStack_Full_def ArrayStack_ok_def write_array_def
        ArrayStack_contents_def ArrayStack_room_def take_Suc_conv_app_nth)
qed

lemma ArrayStack_Pop_item:
  assumes "ArrayStack_ok s" "ArrayStack_contents s = x # xs"
  shows "\<exists>s'. ArrayStack_Pop s = Inr (x, s') \<and> ArrayStack_ok s' \<and> ArrayStack_contents s' = xs \<and>
    ArrayStack_room s' = ArrayStack_room s"
proof -
  have "nat (atop s) = Suc (length xs)" using ArrayStack_length [OF assms(1)] assms(2) by simp
  then have t: "atop s = int (length xs) + 1" using assms(1) by (simp add: ArrayStack_ok_def)
  then have l: "length xs < length (astack s)" using assms(1) by (auto simp: ArrayStack_ok_def)
  have "take (Suc (length xs)) (astack s) = rev xs @ [x]"
    using assms(2) t by (simp add: ArrayStack_contents_def nat_add_distrib rev_swap)
  then have "take (length xs) (astack s) = rev xs" "astack s ! length xs = x"
    using l by (auto simp: take_Suc_conv_app_nth)
  then show ?thesis
    using t l assms(1) by (simp add: ArrayStack_Pop_def ArrayStack_Empty_def ArrayStack_ok_def read_array_def
        ArrayStack_contents_def ArrayStack_room_def)
qed

interpretation array_stack: stack_class ArrayStack_class ArrayStack_ok ArrayStack_contents ArrayStack_room
proof
  fix s :: "int ArrayStack" and v x xs
  assume s: "ArrayStack_ok s"
  have full: "stack_no_room (ArrayStack_room s) (ArrayStack_contents s) \<longleftrightarrow> atop s = asize s"
  proof -
    have "0 \<le> atop s" "atop s \<le> asize s" using s by (simp_all add: ArrayStack_ok_def)
    then show ?thesis using s by (auto simp: stack_no_room_def ArrayStack_room_def)
  qed
  have empty: "ArrayStack_contents s = [] \<longleftrightarrow> atop s = 0"
    using s ArrayStack_length [OF s] by (auto simp: ArrayStack_ok_def simp flip: length_0_conv)
  show "Full ArrayStack_class s = stack_no_room (ArrayStack_room s) (ArrayStack_contents s)"
    by (simp add: full ArrayStack_class_def ArrayStack_Full_def)
  show "Empty ArrayStack_class s = (ArrayStack_contents s = [])"
    by (simp add: empty ArrayStack_class_def ArrayStack_Empty_def)
  show "stack_no_room (ArrayStack_room s) (ArrayStack_contents s) \<Longrightarrow> Push ArrayStack_class v s = Inl AssertFailed"
    by (simp add: full ArrayStack_class_def ArrayStack_Push_def ArrayStack_Full_def)
  show "\<not> stack_no_room (ArrayStack_room s) (ArrayStack_contents s) \<Longrightarrow> \<exists>s'. Push ArrayStack_class v s = Inr s' \<and>
      ArrayStack_ok s' \<and> ArrayStack_contents s' = v # ArrayStack_contents s \<and> ArrayStack_room s' = ArrayStack_room s"
    using ArrayStack_Push_room [OF s] by (simp add: full ArrayStack_class_def)
  show "ArrayStack_contents s = [] \<Longrightarrow> Pop ArrayStack_class s = Inl AssertFailed"
    by (simp add: empty ArrayStack_class_def ArrayStack_Pop_def ArrayStack_Empty_def)
  show "ArrayStack_contents s = x # xs \<Longrightarrow> \<exists>s'. Pop ArrayStack_class s = Inr (x, s') \<and>
      ArrayStack_ok s' \<and> ArrayStack_contents s' = xs \<and> ArrayStack_room s' = ArrayStack_room s"
    using ArrayStack_Pop_item [OF s] by (simp add: ArrayStack_class_def)
qed


section \<open>The list implementation\<close>

primrec ichain :: "(nat \<rightharpoonup> IntElement) \<Rightarrow> nat option \<Rightarrow> nat list \<Rightarrow> bool" where
  "ichain h p [] \<longleftrightarrow> p = None"
| "ichain h p (a # as) \<longleftrightarrow> p = Some a \<and> (\<exists>e. h a = Some e \<and> ichain h (inext e) as)"

definition IntList_rep :: "IntList \<Rightarrow> nat list \<Rightarrow> bool" where
  "IntList_rep l as \<longleftrightarrow> ichain (icells l) (ifirst l) as \<and> distinct as \<and> dom (icells l) = set as \<and>
     (\<forall>a\<in>set as. a < ibrk l) \<and> ilast l = (if as = [] then None else Some (last as))"

definition IntList_ok :: "IntList \<Rightarrow> bool" where
  "IntList_ok l \<longleftrightarrow> (\<exists>as. IntList_rep l as)"

text \<open>The items from a pointer on, reading at most \<open>n\<close> cells; no list has more cells than addresses
  were handed out.\<close>

fun items_from :: "(nat \<rightharpoonup> IntElement) \<Rightarrow> nat \<Rightarrow> nat option \<Rightarrow> int list" where
  "items_from h (Suc n) (Some a) = (case h a of None \<Rightarrow> [] | Some e \<Rightarrow> iitem e # items_from h n (inext e))"
| "items_from h _ _ = []"

definition IntList_items :: "IntList \<Rightarrow> int list" where
  "IntList_items l = items_from (icells l) (ibrk l) (ifirst l)"

lemma ichain_upd [simp]: "a \<notin> set as \<Longrightarrow> ichain (h(a := v)) p as = ichain h p as"
  by (induction as arbitrary: p) auto

lemma items_from_chain:
  "ichain h p as \<Longrightarrow> length as \<le> n \<Longrightarrow> items_from h n p = map (\<lambda>a. iitem (the (h a))) as"
proof (induction as arbitrary: p n)
  case (Cons a as)
  then show ?case by (cases n) auto
qed (cases n; simp)

lemma IntList_items_rep:
  assumes "IntList_rep l as"
  shows "IntList_items l = map (\<lambda>a. iitem (the (icells l a))) as"
proof -
  have "set as \<subseteq> {..<ibrk l}" "distinct as" using assms by (auto simp: IntList_rep_def)
  then have "length as \<le> ibrk l" using card_mono [of "{..<ibrk l}" "set as"] by (simp add: distinct_card)
  then show ?thesis using assms items_from_chain by (simp add: IntList_rep_def IntList_items_def)
qed

lemma IntList_new_ok [simp]: "IntList_ok IntList_new" "IntList_items IntList_new = []"
  by (auto simp: IntList_ok_def IntList_rep_def IntList_new_def IntList_items_def intro!: exI [of _ "[]"])

lemma IntList_Prepend_ok:
  assumes "IntList_ok l"
  shows "IntList_ok (IntList_Prepend v l)" "IntList_items (IntList_Prepend v l) = v # IntList_items l"
proof -
  obtain as where r: "IntList_rep l as" using assms by (auto simp: IntList_ok_def)
  have f: "ibrk l \<notin> set as" using r by (auto simp: IntList_rep_def)
  have e: "IntList_Empty l \<longleftrightarrow> as = []" using r by (cases as) (auto simp: IntList_rep_def IntList_Empty_def)
  have r': "IntList_rep (IntList_Prepend v l) (ibrk l # as)"
    using r f e by (auto simp: IntList_rep_def IntList_Prepend_def IntElement_new_def IntList_Empty_def Let_def less_SucI)
  then show "IntList_ok (IntList_Prepend v l)" by (auto simp: IntList_ok_def)
  have "icells (IntList_Prepend v l) a = icells l a" if "a \<in> set as" for a
    using that f by (auto simp: IntList_Prepend_def Let_def)
  moreover have "iitem (the (icells (IntList_Prepend v l) (ibrk l))) = v"
    by (simp add: IntList_Prepend_def IntElement_new_def Let_def)
  ultimately show "IntList_items (IntList_Prepend v l) = v # IntList_items l"
    by (simp add: IntList_items_rep [OF r'] IntList_items_rep [OF r])
qed

lemma IntList_Empty_iff: "IntList_ok l \<Longrightarrow> IntList_Empty l \<longleftrightarrow> IntList_items l = []"
proof -
  assume "IntList_ok l"
  then obtain as where r: "IntList_rep l as" by (auto simp: IntList_ok_def)
  then show ?thesis by (cases as) (auto simp: IntList_items_rep [OF r] IntList_rep_def IntList_Empty_def)
qed

lemma IntList_Remove_item:
  assumes "IntList_ok l" "IntList_items l = x # xs"
  shows "\<exists>l'. IntList_Remove l = Inr (x, l') \<and> IntList_ok l' \<and> IntList_items l' = xs"
proof -
  obtain bs where r: "IntList_rep l bs" using assms(1) by (auto simp: IntList_ok_def)
  then obtain a as where bs: "bs = a # as" using assms(2) by (cases bs) (auto simp: IntList_items_rep)
  obtain e where e: "icells l a = Some e" "ichain (icells l) (inext e) as" "ifirst l = Some a"
    using r bs by (auto simp: IntList_rep_def)
  have x: "iitem e = x" "xs = map (\<lambda>b. iitem (the (icells l b))) as"
    using assms(2) e by (auto simp: IntList_items_rep [OF r] bs)
  have one: "ilast l = Some a \<longleftrightarrow> as = []"
    using r bs by (auto simp: IntList_rep_def split: if_splits)
  define l' where "l' = (if as = [] then l\<lparr>ifirst := None, ilast := None\<rparr> else l\<lparr>ifirst := inext e\<rparr>)
    \<lparr>icells := (icells l)(a := None)\<rparr>"
  have "IntList_Remove l = Inr (x, l')"
    using e one x by (auto simp: IntList_Remove_def IntList_Empty_def l'_def Let_def)
  moreover have r': "IntList_rep l' as"
    using r bs e by (auto simp: IntList_rep_def l'_def)
  moreover have "IntList_items l' = xs"
  proof -
    have "a \<notin> set as" using r bs by (simp add: IntList_rep_def)
    then have "icells l' b = icells l b" if "b \<in> set as" for b using that by (auto simp: l'_def)
    then show ?thesis by (simp add: IntList_items_rep [OF r'] x)
  qed
  ultimately show ?thesis by (auto simp: IntList_ok_def)
qed

lemma IntList_delete_ok:
  "IntList_ok l \<Longrightarrow> \<exists>l'. IntList_delete l = Some (Inr l') \<and> IntList_ok l' \<and> IntList_items l' = []"
proof (induction "IntList_items l" arbitrary: l)
  case Nil
  then show ?case by (simp add: IntList_delete.simps [of l] IntList_Empty_iff)
next
  case (Cons x xs)
  from IntList_Remove_item [OF Cons.prems Cons.hyps(2) [symmetric]] obtain l1 where
    l1: "IntList_Remove l = Inr (x, l1)" "IntList_ok l1" "IntList_items l1 = xs" by blast
  then show ?case
    using Cons.hyps(1) [of l1] Cons.prems Cons.hyps(2) [symmetric]
    by (simp add: IntList_delete.simps [of l] IntList_Empty_iff)
qed

interpretation list_stack: stack_class ListStack_class IntList_ok IntList_items "\<lambda>_. None"
proof
  fix s v x xs
  assume s: "IntList_ok s"
  show "Full ListStack_class s = stack_no_room None (IntList_items s)"
    by (simp add: ListStack_class_def ListStack_Full_def stack_no_room_def)
  show "Empty ListStack_class s = (IntList_items s = [])"
    using s by (simp add: ListStack_class_def ListStack_Empty_def IntList_Empty_iff)
  show "stack_no_room None (IntList_items s) \<Longrightarrow> Push ListStack_class v s = Inl AssertFailed"
    by (simp add: stack_no_room_def)
  show "\<exists>s'. Push ListStack_class v s = Inr s' \<and> IntList_ok s' \<and> IntList_items s' = v # IntList_items s \<and> None = None"
    using IntList_Prepend_ok [OF s] by (simp add: ListStack_class_def ListStack_Push_def)
  show "IntList_items s = [] \<Longrightarrow> Pop ListStack_class s = Inl AssertFailed"
    using s by (simp add: ListStack_class_def ListStack_Pop_def ListStack_Empty_def IntList_Empty_iff)
  show "IntList_items s = x # xs \<Longrightarrow>
      \<exists>s'. Pop ListStack_class s = Inr (x, s') \<and> IntList_ok s' \<and> IntList_items s' = xs \<and> None = None"
    using s IntList_Remove_item [OF s, of x xs]
    by (auto simp: ListStack_class_def ListStack_Pop_def ListStack_Empty_def IntList_Empty_iff)
qed


section \<open>The implementations agree\<close>

text \<open>A sequence of calls that never holds more than \<open>n\<close> items, starting from \<open>d\<close>.\<close>

fun fits :: "nat \<Rightarrow> nat \<Rightarrow> stack_call list \<Rightarrow> bool" where
  "fits n d [] \<longleftrightarrow> True"
| "fits n d (CallPush v # cs) \<longleftrightarrow> d < n \<and> fits n (Suc d) cs"
| "fits n d (CallPop # cs) \<longleftrightarrow> fits n (d - 1) cs"
| "fits n d (CallEmpty # cs) \<longleftrightarrow> fits n d cs"

lemma seq_run_room: "fits n (length xs) cs \<Longrightarrow> seq_run (Some n) cs xs = seq_run None cs xs"
proof (induction cs arbitrary: xs)
  case (Cons c cs)
  then show ?case by (cases c; cases xs) (auto simp: stack_no_room_def)
qed simp

lemma answers_map: "map_sum (\<lambda>e. e) fst r = map_sum (\<lambda>e. e) fst (map_sum (\<lambda>e. e) (\<lambda>(as, s'). (as, f s')) r)"
  by (cases r) auto

text \<open>C36. A client cannot tell the array stack from the list stack: on every sequence of calls that
  stays within the capacity of the array both give the same answers, and both fail the same
  assertion on a pop of the empty stack.\<close>

theorem stacks_agree:
  assumes "ArrayStack_new junk sz = Inr s" "fits (nat sz) 0 cs"
  shows "map_sum (\<lambda>e. e) fst (stack_run ArrayStack_class cs s) =
    map_sum (\<lambda>e. e) fst (stack_run ListStack_class cs ListStack_new)"
proof -
  have sz: "sz \<ge> 1" using assms(1) by (auto simp: ArrayStack_new_def res_simps)
  have s: "ArrayStack_ok s" "ArrayStack_contents s = []" "ArrayStack_room s = Some (nat sz)"
    using ArrayStack_new_ok [OF sz, of junk] assms(1) by auto
  have "map_sum (\<lambda>e. e) (\<lambda>(as, s'). (as, ArrayStack_contents s')) (stack_run ArrayStack_class cs s) =
      map_sum (\<lambda>e. e) (\<lambda>(as, s'). (as, IntList_items s')) (stack_run ListStack_class cs ListStack_new)"
    using array_stack.run_refines [OF s(1), of cs] list_stack.run_refines [of ListStack_new cs] seq_run_room [of _ "[]"] assms(2)
    by (simp add: s ListStack_new_def)
  then show ?thesis
    using answers_map [where f = ArrayStack_contents] answers_map [where f = IntList_items] by metis
qed

theorem stacks_agree_witness:
  "\<exists>s. ArrayStack_new (\<lambda>_. 0) 2 = Inr s \<and>
     map_sum (\<lambda>e. e) fst (stack_run ArrayStack_class [CallPush 3, CallPush 4, CallPop, CallEmpty, CallPop, CallPop] s) =
     map_sum (\<lambda>e. e) fst (stack_run ListStack_class [CallPush 3, CallPush 4, CallPop, CallEmpty, CallPop, CallPop] ListStack_new)"
proof -
  obtain s where s: "ArrayStack_new (\<lambda>_. 0 :: int) 2 = Inr s" using ArrayStack_new_ok [of 2 "\<lambda>_. 0 :: int"] by auto
  show ?thesis using stacks_agree [OF s, of "[CallPush 3, CallPush 4, CallPop, CallEmpty, CallPop, CallPop]"] s by simp
qed

text \<open>The test program of \<^verbatim>\<open>inheritstack.cc\<close> ends, whatever the new array holds, and both self
  tests print the numbers 17 to 26 as they are pushed and then in reverse as they are popped.\<close>

lemma inheritstack_main_output:
  "inheritstack_main junk =
     Some (Inr (map pushing [17..26] @ map popping (rev [17..26]), map pushing [17..26] @ map popping (rev [17..26])))"
proof -
  obtain s where s: "ArrayStack_new junk 10 = Inr s" "ArrayStack_ok s" "ArrayStack_contents s = []"
    "ArrayStack_room s = Some 10"
    using ArrayStack_new_ok [of 10 junk] by auto
  have n: "map (\<lambda>i. 17 + int i) [0..<10] = [17..26]" by code_simp
  then have p: "map (\<lambda>i. pushing (17 + int i)) [0..<10] = map pushing [17..26]" by (metis (no_types) map_map comp_apply map_cong)
  obtain s1 where "Stack_SelfTest ArrayStack_class 10 s = Some (Inr (map pushing [17..26] @ map popping (rev [17..26]), s1))"
    using array_stack.SelfTest_output [OF s(2,3), of 10] s(4) unfolding n p by auto
  moreover obtain s2 where "Stack_SelfTest ListStack_class 10 ListStack_new =
      Some (Inr (map pushing [17..26] @ map popping (rev [17..26]), s2))" "IntList_ok s2"
    using list_stack.SelfTest_output [of ListStack_new 10] unfolding n p by (auto simp: ListStack_new_def)
  ultimately show ?thesis
    using s(1) IntList_delete_ok by (fastforce simp: inheritstack_main_def)
qed


section \<open>The template is the array stack\<close>

definition as_template :: "'a ArrayStack \<Rightarrow> 'a TStack" where
  "as_template s = \<lparr>tsize = asize s, ttop = atop s, tstack = astack s\<rparr>"

lemma template_simps [simp]:
  "tsize (as_template s) = asize s" "ttop (as_template s) = atop s" "tstack (as_template s) = astack s"
  by (simp_all add: as_template_def)

lemma TStack_ops:
  "TStack_new junk sz = map_sum (\<lambda>e. e) as_template (ArrayStack_new junk sz)"
  "TStack_Full (as_template s) = ArrayStack_Full s"
  "TStack_Empty (as_template s) = ArrayStack_Empty s"
  "TStack_Push v (as_template s) = map_sum (\<lambda>e. e) as_template (ArrayStack_Push v s)"
  "TStack_Pop (as_template s) = map_sum (\<lambda>e. e) (\<lambda>(v, s'). (v, as_template s')) (ArrayStack_Pop s)"
  by (auto simp: TStack_new_def ArrayStack_new_def TStack_Full_def ArrayStack_Full_def TStack_Empty_def
      ArrayStack_Empty_def TStack_Push_def ArrayStack_Push_def TStack_Pop_def ArrayStack_Pop_def as_template_def
      ASSERT_def write_array_def read_array_def Let_def)

lemma TStack_fill_output:
  assumes "ArrayStack_ok s" "nat (asize s) = nat (atop s) + n" "\<forall>i<n. inc (f i) = Inr (f (Suc i))"
  shows "\<exists>s'. TStack_fill inc (f 0) (as_template s) = Some (Inr (map (\<lambda>i. pushing (f i)) [0..<n], as_template s')) \<and>
    ArrayStack_ok s' \<and> ArrayStack_contents s' = rev (map f [0..<n]) @ ArrayStack_contents s"
  using assms
proof (induction n arbitrary: s f)
  case 0
  then have "ArrayStack_Full s" by (auto simp: ArrayStack_Full_def ArrayStack_ok_def)
  then show ?case using 0 by (auto simp: TStack_fill.simps [of inc "f 0"] TStack_ops)
next
  case (Suc n)
  have nf: "atop s \<noteq> asize s" using Suc.prems(2) by auto
  from ArrayStack_Push_room [OF Suc.prems(1) nf, of "f 0"] obtain s1 where
    s1: "ArrayStack_Push (f 0) s = Inr s1" "ArrayStack_ok s1" "ArrayStack_contents s1 = f 0 # ArrayStack_contents s"
      "ArrayStack_room s1 = ArrayStack_room s" by blast
  have "length (ArrayStack_contents s1) = Suc (length (ArrayStack_contents s))" using s1(3) by simp
  then have "nat (asize s1) = nat (atop s1) + n"
    using Suc.prems(1,2) s1(2,4) by (simp add: ArrayStack_room_def)
  then obtain s2 where "TStack_fill inc (f 1) (as_template s1) =
      Some (Inr (map (\<lambda>i. pushing (f (Suc i))) [0..<n], as_template s2))" "ArrayStack_ok s2"
      "ArrayStack_contents s2 = rev (map (\<lambda>i. f (Suc i)) [0..<n]) @ ArrayStack_contents s1"
    using Suc.IH [OF s1(2), of "\<lambda>i. f (Suc i)"] Suc.prems(3) by auto
  moreover have "[0..<Suc n] = 0 # map Suc [0..<n]" by (simp add: upt_conv_Cons map_Suc_upt del: upt_Suc)
  ultimately show ?case
    using s1 nf Suc.prems(3) by (auto simp: TStack_fill.simps [of inc "f 0"] TStack_ops ArrayStack_Full_def comp_def
        simp del: upt_Suc)
qed

lemma TStack_drain_output:
  "ArrayStack_ok s \<Longrightarrow> \<exists>s'. TStack_drain (as_template s) = Some (Inr (map popping (ArrayStack_contents s), as_template s')) \<and>
     ArrayStack_contents s' = []"
proof (induction "ArrayStack_contents s" arbitrary: s)
  case Nil
  then have "atop s = 0" using ArrayStack_length [OF Nil.prems] by (simp add: ArrayStack_ok_def)
  then show ?case using Nil by (auto simp: TStack_drain.simps [of "as_template s"] TStack_ops ArrayStack_Empty_def)
next
  case (Cons x xs)
  have e: "\<not> ArrayStack_Empty s"
    using ArrayStack_length [OF Cons.prems] Cons.hyps(2) [symmetric] by (auto simp: ArrayStack_Empty_def)
  from ArrayStack_Pop_item [OF Cons.prems Cons.hyps(2) [symmetric]] obtain s1 where
    s1: "ArrayStack_Pop s = Inr (x, s1)" "ArrayStack_ok s1" "ArrayStack_contents s1 = xs" by blast
  then show ?case
    using Cons.hyps(1) [of s1] e Cons.hyps(2) [symmetric]
    by (auto simp: TStack_drain.simps [of "as_template s"] TStack_ops)
qed

text \<open>The self test of the template, at any type whose \<open>++\<close> steps through \<open>f\<close>, fills the stack and
  prints what it pushed in reverse.\<close>

lemma TStack_SelfTest_output:
  assumes "sz \<ge> 1" "\<forall>i<nat sz. inc (f i) = Inr (f (Suc i))"
  shows "\<exists>s s'. TStack_new junk sz = Inr s \<and> TStack_SelfTest inc (f 0) s =
    Some (Inr (map (\<lambda>i. pushing (f i)) [0..<nat sz] @ map popping (rev (map f [0..<nat sz])), s'))"
proof -
  obtain s where s: "ArrayStack_new junk sz = Inr s" "ArrayStack_ok s" "ArrayStack_contents s = []"
    "ArrayStack_room s = Some (nat sz)" using ArrayStack_new_ok [OF assms(1), of junk] by blast
  have "nat (asize s) = nat (atop s) + nat sz"
    using s ArrayStack_length [OF s(2)] by (simp add: ArrayStack_room_def)
  from TStack_fill_output [OF s(2) this assms(2)] TStack_drain_output show ?thesis
    using s(1,3) by (fastforce simp: TStack_ops TStack_SelfTest_def)
qed

end
