(* ===== verification/Synch_List.thy ===== *)
theory Synch_List
  imports Linked_List
begin

text \<open>
  Locks and condition variables (\<^verbatim>\<open>threads/synch.cc\<close>) and the synchronized list built from them
  (\<^verbatim>\<open>threads/synchlist.cc\<close>).  Locks and conditions are stubs in this system: acquiring and releasing
  do nothing, waiting on a condition fails an assertion.  So nothing in a synchronized list blocks, and
  its operations are functions on the list.
\<close>

section \<open>Locks and conditions\<close>

datatype Lock = Lock
datatype Condition = Condition

definition Lock_new :: "'n \<Rightarrow> Lock" where "Lock_new debugName = Lock"
definition Acquire :: "Lock \<Rightarrow> Lock" where "Acquire l = l"
definition Release :: "Lock \<Rightarrow> Lock" where "Release l = l"

definition Condition_new :: "'n \<Rightarrow> Condition" where "Condition_new debugName = Condition"

definition Condition_Wait :: "Condition \<Rightarrow> Lock \<Rightarrow> Condition res" where
  "Condition_Wait c conditionLock = bindR (ASSERT False) (\<lambda>_. Inr c)"

definition Condition_Signal :: "Condition \<Rightarrow> Lock \<Rightarrow> Condition" where
  "Condition_Signal c conditionLock = c"

definition Condition_Broadcast :: "Condition \<Rightarrow> Lock \<Rightarrow> Condition" where
  "Condition_Broadcast c conditionLock = c"


section \<open>Synchronized lists\<close>

record 'a SynchList =
  slist :: "('a \<times> int) list"
  slock :: Lock
  listEmpty :: Condition

definition SynchList_new :: "'a SynchList" where
  "SynchList_new = \<lparr>slist = [], slock = Lock_new ''list lock'', listEmpty = Condition_new ''list empty cond''\<rparr>"

definition SynchList_Append :: "'a SynchList \<Rightarrow> 'a \<Rightarrow> 'a SynchList" where
  "SynchList_Append l x =
     (let l1 = l\<lparr>slock := Acquire (slock l)\<rparr>;
          l2 = l1\<lparr>slist := seq_Append (slist l1) x\<rparr>;
          l3 = l2\<lparr>listEmpty := Condition_Signal (listEmpty l2) (slock l2)\<rparr>
      in l3\<lparr>slock := Release (slock l3)\<rparr>)"

text \<open>The loop that waits for an element; it is partial, because nothing in the code makes it end.\<close>

partial_function (option) SynchList_wait :: "'a SynchList \<Rightarrow> 'a SynchList res option" where
  "SynchList_wait l =
     (if slist l = [] then
        (case Condition_Wait (listEmpty l) (slock l) of Inl e \<Rightarrow> Some (Inl e)
         | Inr c \<Rightarrow> SynchList_wait (l\<lparr>listEmpty := c\<rparr>))
      else Some (Inr l))"

definition SynchList_Remove :: "'a SynchList \<Rightarrow> ('a \<times> 'a SynchList) res option" where
  "SynchList_Remove l =
     map_option (\<lambda>r. bindR r (\<lambda>l1.
       let (item, rest) = seq_Remove (slist l1); l2 = l1\<lparr>slist := rest\<rparr> in
       bindR (ASSERT (item \<noteq> None)) (\<lambda>_. Inr (the item, l2\<lparr>slock := Release (slock l2)\<rparr>))))
     (SynchList_wait (l\<lparr>slock := Acquire (slock l)\<rparr>))"

definition SynchList_Mapcar :: "('a \<Rightarrow> 's \<Rightarrow> 's) \<Rightarrow> 'a SynchList \<Rightarrow> 's \<Rightarrow> 's" where
  "SynchList_Mapcar func l s = fold (\<lambda>(x, _). func x) (slist l) s"

lemma SynchList_Append_slist [simp]:
  "slist (SynchList_Append l x) = slist l @ [(x, 0)]"
  by (simp add: SynchList_Append_def Let_def seq_Append_def)

lemma SynchList_Remove_empty: "slist l = [] \<Longrightarrow> SynchList_Remove l = Some (Inl AssertFailed)"
  by (simp add: SynchList_Remove_def SynchList_wait.simps Condition_Wait_def)

lemma SynchList_Remove_first:
  "slist l = (x, j) # xs \<Longrightarrow> SynchList_Remove l = Some (Inr (x, l\<lparr>slist := xs\<rparr>))"
  by (simp add: SynchList_Remove_def SynchList_wait.simps seq_Remove_def Acquire_def Release_def)

end
