(* ===== verification/Network_Device.thy ===== *)
theory Network_Device
  imports Complex_Main Kernel_Client Host_System File_IO Synch_List
begin

text \<open>
  The simulated network (\<^verbatim>\<open>machine/network.cc\<close>) over the sockets of the host (\<^verbatim>\<open>machine/sysdep.cc\<close>),
  and the post office on top of it (\<^verbatim>\<open>network/post.cc\<close>), as a second client of the thread system.  Its
  threads are the postal worker and the test program of \<^verbatim>\<open>network/nettest.cc\<close>; its interrupt handlers are
  the poll of the socket and the completion of a send.

  \<open>chanceToWork\<close> is a rational, so that its product with 100 is exact where the code rounds.
\<close>


section \<open>Sockets of the host\<close>

text \<open>\<open>sys_recvfrom\<close> returns its result and the bytes it put into the buffer, as many as the result says; \<open>sys_sendto\<close> gets the
  buffer, the count and the name of the destination.\<close>

record 'w NetHost =
  host :: "'w Host"
  sys_socket :: "'w \<Rightarrow> int \<times> 'w"
  sys_bind :: "int \<Rightarrow> bytes \<Rightarrow> 'w \<Rightarrow> int \<times> 'w"
  sys_recvfrom :: "int \<Rightarrow> int \<Rightarrow> 'w \<Rightarrow> (int \<times> bytes) \<times> 'w"
  sys_sendto :: "int \<Rightarrow> bytes \<Rightarrow> int \<Rightarrow> bytes \<Rightarrow> 'w \<Rightarrow> int \<times> 'w"

definition OpenSocket :: "'w NetHost \<Rightarrow> 'w \<Rightarrow> (int \<times> 'w) res" where
  "OpenSocket N w = (let (sockID, w1) = sys_socket N w in bindR (ASSERT (sockID \<ge> 0)) (\<lambda>_. Inr (sockID, w1)))"

definition CloseSocket :: "'w NetHost \<Rightarrow> int \<Rightarrow> 'w \<Rightarrow> 'w" where
  "CloseSocket N sockID w = snd (sys_close (host N) sockID w)"

definition AssignNameToSocket :: "'w NetHost \<Rightarrow> bytes \<Rightarrow> int \<Rightarrow> 'w \<Rightarrow> 'w res" where
  "AssignNameToSocket N socketName sockID w =
     (let w1 = snd (sys_unlink (host N) socketName w); (retVal, w2) = sys_bind N sockID socketName w1 in
      bindR (ASSERT (retVal \<ge> 0)) (\<lambda>_. Inr w2))"

definition DeAssignNameToSocket :: "'w NetHost \<Rightarrow> bytes \<Rightarrow> 'w \<Rightarrow> 'w" where
  "DeAssignNameToSocket N socketName w = snd (sys_unlink (host N) socketName w)"

definition PollSocket :: "'w NetHost \<Rightarrow> bool \<Rightarrow> int \<Rightarrow> 'w \<Rightarrow> (bool \<times> 'w) res" where
  "PollSocket N idle sockID w = PollFile (host N) idle sockID w"

definition ReadFromSocket :: "'w NetHost \<Rightarrow> int \<Rightarrow> int \<Rightarrow> 'w \<Rightarrow> (bytes \<times> 'w) res" where
  "ReadFromSocket N sockID packetSize w =
     (let ((retVal, d), w1) = sys_recvfrom N sockID packetSize w in
      bindR (ASSERT (retVal = packetSize)) (\<lambda>_.
      if int (length d) = retVal then Inr (d, w1) else Inl Undefined))"

definition SendToSocket :: "'w NetHost \<Rightarrow> int \<Rightarrow> bytes \<Rightarrow> int \<Rightarrow> bytes \<Rightarrow> 'w \<Rightarrow> 'w res" where
  "SendToSocket N sockID buffer packetSize toName w =
     (let (retVal, w1) = sys_sendto N sockID buffer packetSize toName w in
      bindR (ASSERT (retVal = packetSize)) (\<lambda>_. Inr w1))"

text \<open>The conversion \<^verbatim>\<open>%d\<close> of \<open>sprintf\<close>, and the file name of the socket of a machine.\<close>

fun decimal :: "nat \<Rightarrow> bytes" where
  "decimal n = (if n < 10 then [of_nat (48 + n)] else decimal (n div 10) @ [of_nat (48 + n mod 10)])"

declare decimal.simps [simp del]

definition print_int :: "int \<Rightarrow> bytes" where
  "print_int i = (if i < 0 then 45 # decimal (nat (- i)) else decimal (nat i))"

definition socket_name :: "32 word \<Rightarrow> bytes" where
  "socket_name addr = cstr ''SOCKET_'' @ print_int (sint addr)"


section \<open>Packets and mail\<close>

record PacketHeader =
  pkt_to :: "32 word"
  pkt_from :: "32 word"
  pkt_length :: "32 word"

record MailHeader =
  mail_to :: "32 word"
  mail_from :: "32 word"
  mail_length :: "32 word"

definition MaxWireSize :: nat where "MaxWireSize = 64"
definition MaxPacketSize :: nat where "MaxPacketSize = MaxWireSize - 12"
definition MaxMailSize :: nat where "MaxMailSize = MaxPacketSize - 12"

lemmas wire_defs = MaxWireSize_def MaxPacketSize_def MaxMailSize_def

text \<open>The bytes of the two structures, three words each.\<close>

definition pkt_bytes :: "PacketHeader \<Rightarrow> bytes" where
  "pkt_bytes h = words_bytes [pkt_to h, pkt_from h, pkt_length h]"

definition bytes_pkt :: "bytes \<Rightarrow> PacketHeader" where
  "bytes_pkt bs = (let ws = bytes_words bs in \<lparr>pkt_to = ws ! 0, pkt_from = ws ! 1, pkt_length = ws ! 2\<rparr>)"

definition mail_bytes :: "MailHeader \<Rightarrow> bytes" where
  "mail_bytes h = words_bytes [mail_to h, mail_from h, mail_length h]"

definition bytes_mail :: "bytes \<Rightarrow> MailHeader" where
  "bytes_mail bs = (let ws = bytes_words bs in \<lparr>mail_to = ws ! 0, mail_from = ws ! 1, mail_length = ws ! 2\<rparr>)"

text \<open>\<open>bcopy\<close> of \<open>n\<close> bytes from \<open>src\<close> to offset \<open>i\<close> of \<open>dst\<close>.\<close>

definition bcopy :: "bytes \<Rightarrow> bytes \<Rightarrow> nat \<Rightarrow> nat \<Rightarrow> bytes res" where
  "bcopy src dst i n = bindR (copy_out src 0 (int n)) (\<lambda>d. copy_in d dst (int i))"

text \<open>The payload of a message; of the array \<open>data\<close> only these bytes are ever read.\<close>

record Mail =
  pktHdr :: PacketHeader
  mailHdr :: MailHeader
  mdata :: bytes

definition Mail_new :: "PacketHeader \<Rightarrow> MailHeader \<Rightarrow> bytes \<Rightarrow> Mail res" where
  "Mail_new pktH mailH msgData =
     bindR (ASSERT (unat (mail_length mailH) \<le> MaxMailSize)) (\<lambda>_.
     bindR (copy_out msgData 0 (uint (mail_length mailH))) (\<lambda>d.
     Inr \<lparr>pktHdr = pktH, mailHdr = mailH, mdata = d\<rparr>))"


section \<open>State\<close>

record Network =
  ident :: "32 word"
  chanceToWork :: rat
  sock :: int
  sockName :: bytes
  sendBusy :: bool
  inHdr :: PacketHeader
  inbox :: bytes

record PostOffice =
  netAddr :: "32 word"
  boxes :: "Mail SynchList list"
  numBoxes :: int
  messageAvailable :: nat
  messageSent :: nat
  sendLock :: Lock

text \<open>\<open>printed\<close> is the output of the test program: the text of a message, the machine and the mailbox
  it came from.\<close>

record 'w NetGlobals =
  nworld :: 'w
  network :: Network
  postOffice :: PostOffice
  printed :: "(bytes \<times> 32 word \<times> 32 word) list"

datatype nhandler = NetworkReadPoll | NetworkSendDone

text \<open>The program points: \<open>Initialize_network\<close> is \<open>Initialize\<close> behind \<open>interrupt->Enable\<close>; the loop of the
  postal worker and the point behind its \<open>P\<close>, with its buffer; the test program, and the points behind
  its two sends, with its buffer.\<close>

datatype ncode =
    Initialize_network "32 word" rat
  | PostalDelivery bytes
  | PostalDelivery_got bytes
  | MailTest "32 word"
  | MailTest_sent bytes
  | MailTest_acked bytes

type_synonym 'w nkern = "(nhandler, ncode, 'w NetGlobals) Kernel"

text \<open>What new memory holds: the network object, the buffers for a packet, for the wire and for a
  message, and a thread.\<close>

record NetFresh =
  fresh_network :: Network
  fresh_packet :: bytes
  fresh_wire :: bytes
  fresh_mail :: bytes
  fresh_nthread :: "ncode Thread"

definition set_nworld :: "'w \<Rightarrow> 'w nkern \<Rightarrow> 'w nkern" where
  "set_nworld w k = set_dev (\<lambda>d. d\<lparr>nworld := w\<rparr>) k"

definition set_network :: "(Network \<Rightarrow> Network) \<Rightarrow> 'w nkern \<Rightarrow> 'w nkern" where
  "set_network f k = set_dev (\<lambda>d. d\<lparr>network := f (network d)\<rparr>) k"

definition set_post :: "(PostOffice \<Rightarrow> PostOffice) \<Rightarrow> 'w nkern \<Rightarrow> 'w nkern" where
  "set_post f k = set_dev (\<lambda>d. d\<lparr>postOffice := f (postOffice d)\<rparr>) k"

lemmas net_defs = set_nworld_def set_network_def set_post_def


section \<open>The device\<close>

definition Network_new :: "'w NetHost \<Rightarrow> NetFresh \<Rightarrow> 32 word \<Rightarrow> rat \<Rightarrow> 'w nkern \<Rightarrow> 'w nkern res" where
  "Network_new N J addr reliability k =
     (let chance = (if reliability < 0 then 0 else if reliability > 1 then 1 else reliability);
          nm = socket_name addr in
      bindR (OpenSocket N (nworld (dev k))) (\<lambda>(s, w1).
      bindR (AssignNameToSocket N nm s w1) (\<lambda>w2.
      Schedule NetworkReadPoll NetworkTime NetworkRecvInt
        (set_network (\<lambda>_. (fresh_network J)\<lparr>ident := addr, chanceToWork := chance, sock := s, sockName := nm,
           sendBusy := False, inHdr := (inHdr (fresh_network J))\<lparr>pkt_length := 0\<rparr>\<rparr>) (set_nworld w2 k)))))"

definition Network_delete :: "'w NetHost \<Rightarrow> 'w nkern \<Rightarrow> 'w nkern" where
  "Network_delete N k =
     (let n = network (dev k) in
      set_nworld (DeAssignNameToSocket N (sockName n) (CloseSocket N (sock n) (nworld (dev k)))) k)"

text \<open>The handlers the network is created with: \<open>IncomingPacket\<close> and \<open>PacketSent\<close>.\<close>

definition IncomingPacket :: "'w nkern \<Rightarrow> 'w nkern res" where
  "IncomingPacket k = Semaphore_V (messageAvailable (postOffice (dev k))) k"

definition PacketSent :: "'w nkern \<Rightarrow> 'w nkern res" where
  "PacketSent k = Semaphore_V (messageSent (postOffice (dev k))) k"

definition CheckPktAvail :: "'w NetHost \<Rightarrow> 'w nkern \<Rightarrow> 'w nkern res" where
  "CheckPktAvail N k =
     bindR (Schedule NetworkReadPoll NetworkTime NetworkRecvInt k) (\<lambda>k1.
     let n = network (dev k1) in
     if pkt_length (inHdr n) \<noteq> 0 then Inr k1
     else
       bindR (PollSocket N (istatus (interrupt k1) = IdleMode) (sock n) (nworld (dev k1))) (\<lambda>(avail, w1).
       if \<not> avail then Inr (set_nworld w1 k1)
       else
         bindR (ReadFromSocket N (sock n) (int MaxWireSize) w1) (\<lambda>(buffer, w2).
         let h = bytes_pkt buffer in
         bindR (ASSERT (pkt_to h = ident n \<and> unat (pkt_length h) \<le> MaxPacketSize)) (\<lambda>_.
         bindR (bcopy (drop 12 buffer) (inbox n) 0 (unat (pkt_length h))) (\<lambda>ib.
         let k2 = set_network (\<lambda>n. n\<lparr>inHdr := h, inbox := ib\<rparr>) (set_nworld w2 k1);
             k3 = k2\<lparr>stats := (stats k2)\<lparr>numPacketsRecvd := numPacketsRecvd (stats k2) + 1\<rparr>\<rparr>
         in IncomingPacket k3)))))"

definition SendDone :: "'w nkern \<Rightarrow> 'w nkern res" where
  "SendDone k =
     (let k1 = set_network (\<lambda>n. n\<lparr>sendBusy := False\<rparr>) k;
          k2 = k1\<lparr>stats := (stats k1)\<lparr>numPacketsSent := numPacketsSent (stats k1) + 1\<rparr>\<rparr>
      in PacketSent k2)"

definition net_call :: "'w NetHost \<Rightarrow> nhandler \<Rightarrow> 'w nkern \<Rightarrow> 'w nkern res" where
  "net_call N h k = (case h of NetworkReadPoll \<Rightarrow> CheckPktAvail N k | NetworkSendDone \<Rightarrow> SendDone k)"

text \<open>The packet on the wire is padded with what the new buffer held.\<close>

definition Network_Send :: "'w NetHost \<Rightarrow> NetFresh \<Rightarrow> PacketHeader \<Rightarrow> bytes \<Rightarrow> 'w nkern \<Rightarrow> 'w nkern res" where
  "Network_Send N J h d k =
     (let n = network (dev k) in
      bindR (ASSERT (sendBusy n = False \<and> 0 < pkt_length h \<and> unat (pkt_length h) \<le> MaxPacketSize \<and>
        pkt_from h = ident n)) (\<lambda>_.
      bindR (Schedule NetworkSendDone NetworkTime NetworkSendInt k) (\<lambda>k1.
      let (r, w1) = Random (host N) (nworld (dev k1)) in
      if of_int (r smod 100) \<ge> chanceToWork n * 100 then Inr (set_nworld w1 k1)
      else
        bindR (copy_in (pkt_bytes h) (fresh_wire J) 0) (\<lambda>b1.
        bindR (bcopy d b1 12 (unat (pkt_length h))) (\<lambda>buffer.
        bindR (SendToSocket N (sock n) buffer (int MaxWireSize) (socket_name (pkt_to h)) w1) (\<lambda>w2.
        Inr (set_nworld w2 k1)))))))"

text \<open>\<open>Receive\<close> into \<open>buffer\<close>.\<close>

definition Network_Receive :: "bytes \<Rightarrow> 'w nkern \<Rightarrow> (PacketHeader \<times> bytes \<times> 'w nkern) res" where
  "Network_Receive buffer k =
     (let n = network (dev k); h = inHdr n;
          k1 = set_network (\<lambda>n. n\<lparr>inHdr := h\<lparr>pkt_length := 0\<rparr>\<rparr>) k in
      if pkt_length h \<noteq> 0
      then bindR (bcopy (inbox n) buffer 0 (unat (pkt_length h))) (\<lambda>b. Inr (h, b, k1))
      else Inr (h, buffer, k1))"


section \<open>The post office\<close>

definition MailBox_new :: "Mail SynchList" where
  "MailBox_new = SynchList_new"

definition MailBox_Put :: "Mail SynchList \<Rightarrow> PacketHeader \<Rightarrow> MailHeader \<Rightarrow> bytes \<Rightarrow> Mail SynchList res" where
  "MailBox_Put box pktH mailH d = bindR (Mail_new pktH mailH d) (\<lambda>mail. Inr (SynchList_Append box mail))"

definition MailBox_Get :: "Mail SynchList \<Rightarrow> (Mail \<times> Mail SynchList) res option" where
  "MailBox_Get box = SynchList_Remove box"

definition PostOffice_new :: "'w NetHost \<Rightarrow> NetFresh \<Rightarrow> 32 word \<Rightarrow> rat \<Rightarrow> int \<Rightarrow> 'w nkern \<Rightarrow> 'w nkern res" where
  "PostOffice_new N J addr reliability nBoxes k =
     (let (avail, k1) = Semaphore_new (cstr ''message available'') 0 k;
          (sent, k2) = Semaphore_new (cstr ''message sent'') 0 k1;
          k3 = set_post (\<lambda>_. \<lparr>netAddr = addr, boxes = replicate (nat nBoxes) MailBox_new, numBoxes = nBoxes,
                 messageAvailable = avail, messageSent = sent, sendLock = Lock_new ''message send lock''\<rparr>) k2 in
      bindR (Network_new N J addr reliability k3) (\<lambda>k4.
      let (t, k5) = Thread_new (fresh_nthread J) 0 k4 in
      Fork t (PostalDelivery (fresh_packet J)) k5))"

text \<open>The postal worker, up to its \<open>P\<close> and behind it.\<close>

definition PostalDelivery_wait :: "bytes \<Rightarrow> 'w nkern \<Rightarrow> 'w nkern" where
  "PostalDelivery_wait buffer k =
     push [P_call (messageAvailable (postOffice (dev k))), Code (PostalDelivery_got buffer)] k"

definition PostalDelivery_deliver :: "bytes \<Rightarrow> 'w nkern \<Rightarrow> 'w nkern res" where
  "PostalDelivery_deliver buffer k =
     bindR (Network_Receive buffer k) (\<lambda>(pktH, buffer', k1).
     let mailH = bytes_mail buffer'; po = postOffice (dev k1) in
     bindR (ASSERT (0 \<le> sint (mail_to mailH) \<and> sint (mail_to mailH) < numBoxes po)) (\<lambda>_.
     bindR (ASSERT (unat (mail_length mailH) \<le> MaxMailSize)) (\<lambda>_.
     bindR (read_array (boxes po) (sint (mail_to mailH))) (\<lambda>box.
     bindR (MailBox_Put box pktH mailH (drop 12 buffer')) (\<lambda>box'.
     bindR (write_array (boxes po) (sint (mail_to mailH)) box') (\<lambda>bs.
     Inr (push [Code (PostalDelivery buffer')] (set_post (\<lambda>p. p\<lparr>boxes := bs\<rparr>) k1))))))))"

text \<open>\<open>Send\<close> up to the wait for \<open>messageSent\<close>; releasing the lock behind it does nothing.\<close>

definition PostOffice_Send :: "'w NetHost \<Rightarrow> NetFresh \<Rightarrow> PacketHeader \<Rightarrow> MailHeader \<Rightarrow> bytes \<Rightarrow> 'w nkern \<Rightarrow> 'w nkern res" where
  "PostOffice_Send N J pktH mailH d k =
     (let po = postOffice (dev k) in
      bindR (ASSERT (unat (mail_length mailH) \<le> MaxMailSize)) (\<lambda>_.
      bindR (ASSERT (0 \<le> sint (mail_to mailH) \<and> sint (mail_to mailH) < numBoxes po)) (\<lambda>_.
      let h = pktH\<lparr>pkt_from := netAddr po, pkt_length := mail_length mailH + 12\<rparr> in
      bindR (copy_in (mail_bytes mailH) (fresh_packet J) 0) (\<lambda>b1.
      bindR (bcopy d b1 12 (unat (mail_length mailH))) (\<lambda>buffer.
      bindR (Network_Send N J h buffer (set_post (\<lambda>p. p\<lparr>sendLock := Acquire (sendLock p)\<rparr>) k)) (\<lambda>k1.
      Inr (push [P_call (messageSent (postOffice (dev k1)))] k1)))))))"

definition PostOffice_Receive :: "int \<Rightarrow> 'w nkern \<Rightarrow> (Mail \<times> 'w nkern) res option" where
  "PostOffice_Receive box k =
     (let po = postOffice (dev k) in
      case bindR (ASSERT (box \<ge> 0 \<and> box < numBoxes po)) (\<lambda>_. read_array (boxes po) box) of
        Inl e \<Rightarrow> Some (Inl e)
      | Inr b \<Rightarrow> map_option (\<lambda>r. bindR r (\<lambda>(mail, b').
          bindR (ASSERT (unat (mail_length (mailHdr mail)) \<le> MaxMailSize)) (\<lambda>_.
          bindR (write_array (boxes po) box b') (\<lambda>bs.
          Inr (mail, set_post (\<lambda>p. p\<lparr>boxes := bs\<rparr>) k))))) (MailBox_Get b))"


section \<open>The test program\<close>

text \<open>Receive a message into \<open>buffer\<close> and print it as a string.  The wait of \<open>Receive\<close> always ends, so the
  outcome \<^const>\<open>None\<close> does not arise; it stands for a loop that runs forever.\<close>

definition receive_and_print :: "int \<Rightarrow> bytes \<Rightarrow> 'w nkern \<Rightarrow> (Mail \<times> bytes \<times> 'w nkern) res" where
  "receive_and_print box buffer k =
     (case PostOffice_Receive box k of None \<Rightarrow> Inl Undefined
      | Some r \<Rightarrow> bindR r (\<lambda>(mail, k1).
          bindR (copy_in (mdata mail) buffer 0) (\<lambda>buffer'.
          bindR (cstring buffer') (\<lambda>s.
          Inr (mail, buffer',
            set_dev (\<lambda>d. d\<lparr>printed := printed d @ [(s, pkt_from (pktHdr mail), mail_from (mailHdr mail))]\<rparr>) k1)))))"

definition MailTest_start :: "'w NetHost \<Rightarrow> NetFresh \<Rightarrow> 32 word \<Rightarrow> 'w nkern \<Rightarrow> 'w nkern res" where
  "MailTest_start N J farAddr k =
     PostOffice_Send N J \<lparr>pkt_to = farAddr, pkt_from = 0, pkt_length = 0\<rparr>
       \<lparr>mail_to = 0, mail_from = 1, mail_length = 13\<rparr> (cstr ''Hello there!'' @ [0])
       (push [Code (MailTest_sent (fresh_mail J))] k)"

definition MailTest_reply :: "'w NetHost \<Rightarrow> NetFresh \<Rightarrow> bytes \<Rightarrow> 'w nkern \<Rightarrow> 'w nkern res" where
  "MailTest_reply N J buffer k =
     bindR (receive_and_print 0 buffer k) (\<lambda>(mail, buffer', k1).
     PostOffice_Send N J \<lparr>pkt_to = pkt_from (pktHdr mail), pkt_from = 0, pkt_length = 0\<rparr>
       \<lparr>mail_to = mail_from (mailHdr mail), mail_from = 1, mail_length = 8\<rparr> (cstr ''Got it!'' @ [0])
       (push [Code (MailTest_acked buffer')] k1))"

definition MailTest_finish :: "bytes \<Rightarrow> 'w nkern \<Rightarrow> 'w nkern res" where
  "MailTest_finish buffer k = bindR (receive_and_print 1 buffer k) (\<lambda>_. Halt)"


section \<open>The network build\<close>

definition net_code :: "'w NetHost \<Rightarrow> NetFresh \<Rightarrow> ncode \<Rightarrow> 'w nkern \<Rightarrow> 'w nkern res" where
  "net_code N J c k =
     (case c of
        Initialize_network netname rely \<Rightarrow> PostOffice_new N J netname rely 10 k
      | PostalDelivery buffer \<Rightarrow> Inr (PostalDelivery_wait buffer k)
      | PostalDelivery_got buffer \<Rightarrow> PostalDelivery_deliver buffer k
      | MailTest farAddr \<Rightarrow> MailTest_start N J farAddr k
      | MailTest_sent buffer \<Rightarrow> MailTest_reply N J buffer k
      | MailTest_acked buffer \<Rightarrow> MailTest_finish buffer k)"

text \<open>\<open>Initialize\<close> without the random timer, up to \<open>Enable\<close>, and \<open>main\<close> with the options \<^verbatim>\<open>-m\<close>, \<^verbatim>\<open>-l\<close> and
  \<^verbatim>\<open>-o\<close>; \<open>g\<close> are the globals before they have been set.\<close>

definition net_Initialize :: "NetFresh \<Rightarrow> 'w NetGlobals \<Rightarrow> 32 word \<Rightarrow> rat \<Rightarrow> 32 word \<Rightarrow> 'w nkern res" where
  "net_Initialize J g netname rely farAddr =
     (let k0 = \<lparr>stats = Statistics_new, interrupt = Interrupt_new, threads = Map.empty, nextThread = 0,
                currentThread = 0, threadToBeDestroyed = None, readyList = [], sems = Map.empty, nextSem = 0,
                machine = None,
                running = [Code (Initialize_network netname rely), Code (MailTest farAddr), ThreadFinish],
                dev = g\<rparr>;
          (t, k1) = Thread_new (fresh_nthread J) 0 k0 in
      bindR (setStatus t RUNNING (k1\<lparr>currentThread := t\<rparr>)) (\<lambda>k2.
      bindR (get_thread k2 t) (\<lambda>th.
      SetLevel IntOn (put_thread t (th\<lparr>pid := 0\<rparr>) k2))))"

end
