(* ===== verification/Network_Client.thy ===== *)
theory Network_Client
  imports Network_Device
begin

text \<open>
  The network build keeps the contracts of the thread system: its handlers are an interpretation of
  \<open>interrupt_handlers\<close> and its code is one of \<open>kernel_client\<close>, so the theorems about runs of the kernel
  hold of it as they hold of the user-program build.
\<close>


section \<open>Handlers\<close>

lemma V_kept:
  assumes "Semaphore_V s (set_dev f k\<lparr>stats := st\<rparr>) = Inr k'" "klevel k = IntOff" "totalTicks st = now k"
  shows "handler_kept k k'"
proof -
  have "handler_kept k (set_dev f k\<lparr>stats := st\<rparr>)" by (rule handler_kept_same) (simp_all add: assms(3) same_sched_def)
  also have "handler_kept \<dots> k'" using Semaphore_V_kept [OF assms(1)] assms(2) by simp
  finally show ?thesis .
qed

lemma CheckPktAvail_kept:
  assumes "CheckPktAvail N k = Inr k'" "klevel k = IntOff"
  shows "handler_kept k k'"
proof -
  obtain k1 where s: "Schedule NetworkReadPoll NetworkTime NetworkRecvInt k = Inr k1"
    using assms(1) by (auto simp: CheckPktAvail_def elim!: bindR_InrE)
  note K = Schedule_kept [OF s]
  have l: "klevel k1 = IntOff" using K assms(2) by (simp add: handler_kept_def)
  have "handler_kept k1 k'"
    using assms(1) s
    by (auto simp: CheckPktAvail_def IncomingPacket_def Let_def net_defs set_dev_fusion elim!: bindR_InrE
        split: if_splits intro!: set_dev_kept)
      (rule V_kept [OF _ l], assumption, simp)
  with K show ?thesis by (rule handler_kept_trans)
qed

lemma SendDone_kept: "SendDone k = Inr k' \<Longrightarrow> klevel k = IntOff \<Longrightarrow> handler_kept k k'"
  by (auto simp: SendDone_def PacketSent_def Let_def set_network_def intro: V_kept)

interpretation net_interrupts: interrupt_handlers "net_call N" for N :: "'w NetHost"
  by unfold_locales (auto simp: net_call_def intro: CheckPktAvail_kept SendDone_kept split: nhandler.splits)


section \<open>Program points\<close>

lemma quiet_net [simp]: "quiet k k' \<Longrightarrow> quiet k (set_nworld w k')" "quiet k k' \<Longrightarrow> quiet k (set_network f k')"
  "quiet k k' \<Longrightarrow> quiet k (set_post g k')"
  by (simp_all add: net_defs)

lemma Network_Send_gentle:
  assumes "Network_Send N J h d k = Inr k'"
  shows "gentle k k'"
proof -
  obtain k1 w where s: "Schedule NetworkSendDone NetworkTime NetworkSendInt k = Inr k1" and k': "k' = set_nworld w k1"
    using assms by (auto simp: Network_Send_def Let_def elim!: bindR_InrE split: if_splits prod.splits)
  show ?thesis using gentle_quiet [OF Schedule_gentle [OF s]] k' by simp
qed

lemma PostOffice_Send_gentle:
  assumes "PostOffice_Send N J h mh d k = Inr k'"
  shows "gentle k k'"
proof -
  obtain b h' k1 where s: "Network_Send N J h' b (set_post (\<lambda>p. p\<lparr>sendLock := Acquire (sendLock p)\<rparr>) k) = Inr k1"
    and k': "k' = push [P_call (messageSent (postOffice (dev k1)))] k1"
    using assms by (auto simp: PostOffice_Send_def Let_def elim!: bindR_InrE)
  have "gentle k k1" by (rule quiet_then [OF _ Network_Send_gentle [OF s]]) simp
  then show ?thesis by (simp add: k' gentle_push)
qed

lemma receive_and_print_quiet: "receive_and_print box buffer k = Inr (mail, b, k') \<Longrightarrow> quiet k k'"
  by (auto simp: receive_and_print_def PostOffice_Receive_def Let_def elim!: bindR_InrE split: option.splits sum.splits)

lemma PostalDelivery_gentle:
  "gentle k (PostalDelivery_wait buffer k)"
  "PostalDelivery_deliver buffer k = Inr k' \<Longrightarrow> gentle k k'"
  by (auto simp: PostalDelivery_wait_def PostalDelivery_deliver_def Network_Receive_def Let_def
      elim!: bindR_InrE split: if_splits intro!: push_gentle quiet_push)

lemma MailTest_gentle:
  "MailTest_start N J a k = Inr k' \<Longrightarrow> gentle k k'"
  "MailTest_reply N J buffer k = Inr k' \<Longrightarrow> gentle k k'"
  "MailTest_finish buffer k = Inr k' \<Longrightarrow> gentle k k'"
proof -
  have p: "gentle k (push [Code c] k1)" if "quiet k k1" for c k1 using that by (simp add: quiet_push)
  show "gentle k k'" if "MailTest_start N J a k = Inr k'"
    using that p [OF quiet_refl] PostOffice_Send_gentle gentle_trans unfolding MailTest_start_def by blast
  show "gentle k k'" if r: "MailTest_reply N J buffer k = Inr k'"
  proof -
    obtain mail :: Mail and b k1 h mh where q: "receive_and_print 0 buffer k = Inr (mail, b, k1)"
      and s: "PostOffice_Send N J h mh (cstr ''Got it!'' @ [0]) (push [Code (MailTest_acked b)] k1) = Inr k'"
      using r by (auto simp: MailTest_reply_def elim!: bindR_InrE)
    show ?thesis using gentle_trans [OF p [OF receive_and_print_quiet [OF q]] PostOffice_Send_gentle [OF s]] .
  qed
  show "gentle k k'" if "MailTest_finish buffer k = Inr k'"
    using that by (auto simp: MailTest_finish_def Halt_def elim!: bindR_InrE)
qed

lemma PostOffice_new_ok:
  assumes k: "calm k" and n: "PostOffice_new N J addr rely nBoxes k = Inr k'"
  shows "kernel_ok k'" "advances k k'"
proof -
  obtain a k1 b k2 g k4 t k5 where
    s: "Semaphore_new (cstr ''message available'') 0 k = (a, k1)" "Semaphore_new (cstr ''message sent'') 0 k1 = (b, k2)"
    and w: "Network_new N J addr rely (set_post g k2) = Inr k4" and th: "Thread_new (fresh_nthread J) 0 k4 = (t, k5)"
    and f: "Fork t (PostalDelivery (fresh_packet J)) k5 = Inr k'"
    using n by (auto simp: PostOffice_new_def Let_def elim!: bindR_InrE split: prod.splits)
  obtain k3 where q: "quiet (set_post g k2) k3" and c: "Schedule NetworkReadPoll NetworkTime NetworkRecvInt k3 = Inr k4"
  proof -
    obtain w2 h where "Schedule NetworkReadPoll NetworkTime NetworkRecvInt (set_network h (set_nworld w2 (set_post g k2))) = Inr k4"
      using w by (auto simp: Network_new_def Let_def elim!: bindR_InrE)
    then show thesis using that [of "set_network h (set_nworld w2 (set_post g k2))"] by simp
  qed
  have "gentle k k1" "gentle k1 k2" using s Semaphore_new_gentle by blast+
  moreover have "gentle k2 k3" using quiet_gentle [OF quiet_trans [OF _ q], of k2] by simp
  moreover have "gentle k3 k4" "gentle k4 k5" using Schedule_gentle [OF c] Thread_new_gentle [OF th] by blast+
  ultimately have g: "gentle k k5" by (meson gentle_trans)
  have "status_of k5 t = Some JUST_CREATED" using th by (auto simp: Thread_new_def Let_def status_of_def put_thread_def)
  moreover have "calm k5" "advances k k5" using g k by (simp_all add: gentle_def)
  ultimately show "kernel_ok k'" "advances k k'"
    using Fork_ok [OF _ _ f] advances_trans by blast+
qed

interpretation net_kernel: kernel_client "net_call N" "net_code N J" for N :: "'w NetHost" and J
proof
  fix c k k'
  assume k: "calm k" and c: "net_code N J c k = Inr k'"
  have "(\<exists>a r. PostOffice_new N J a r 10 k = Inr k') \<or> gentle k k'"
    using c by (cases c) (auto simp: net_code_def intro: PostalDelivery_gentle MailTest_gentle)
  then show "kernel_ok k'" "advances k k'"
    using PostOffice_new_ok [OF k] calm_kernel_ok k by (auto simp: gentle_def)
qed

end
