(* ===== verification/Mail_Delivery.thy ===== *)
theory Mail_Delivery
  imports Network_Client
begin

text \<open>
  What the post office promises: a message that one machine sends and the wire carries arrives in the
  mailbox it was addressed to, with its headers and its data, and no other mailbox changes.
\<close>


section \<open>Headers and copies\<close>

lemma bytes_pkt_pkt_bytes [simp]: "bytes_pkt (pkt_bytes h @ r) = h"
  by (simp add: bytes_pkt_def pkt_bytes_def words_bytes_def Let_def)

lemma bytes_mail_mail_bytes [simp]: "bytes_mail (mail_bytes h @ r) = h"
  by (simp add: bytes_mail_def mail_bytes_def words_bytes_def Let_def)

lemma length_headers [simp, len_simps]: "length (pkt_bytes h) = 12" "length (mail_bytes mh) = 12"
  by (simp_all add: pkt_bytes_def mail_bytes_def)

lemma bcopy_front: "n \<le> length src \<Longrightarrow> n \<le> length dst \<Longrightarrow> bcopy src dst 0 n = Inr (take n src @ drop n dst)"
  by (simp add: bcopy_def copy_out_def copy_in_def splice_at_def)

lemma bcopy_behind:
  assumes "bcopy src (as @ bs) (length as) n = Inr r"
  shows "n \<le> length src" "n \<le> length bs" "r = as @ take n src @ drop n bs"
  using assms by (auto simp: bcopy_def copy_out_def copy_in_def splice_at_def split: if_splits)

lemma copy_in_front: "copy_in as bs 0 = Inr r \<Longrightarrow> length as \<le> length bs \<and> r = as @ drop (length as) bs"
  by (auto simp: copy_in_def splice_at_def split: if_splits)


section \<open>The packet on the wire\<close>

text \<open>The loss of packets is emulated; with a chance of 1 nothing is lost.\<close>

lemma Network_Send_wire:
  assumes s: "Network_Send N J h d k = Inr k'" and c: "chanceToWork (network (dev k)) = 1"
    and r: "\<forall>w. 0 \<le> fst (sys_rand (host N) w)" and J: "length (fresh_wire J) = MaxWireSize"
  shows "unat (pkt_length h) \<le> length d" "unat (pkt_length h) \<le> MaxPacketSize"
    "\<exists>w. sys_sendto N (sock (network (dev k))) (pkt_bytes h @ take (unat (pkt_length h)) d @ drop (12 + unat (pkt_length h)) (fresh_wire J))
       (int MaxWireSize) (socket_name (pkt_to h)) w = (int MaxWireSize, nworld (dev k'))"
proof -
  define n where "n = unat (pkt_length h)"
  obtain k1 x w1 where sc: "Schedule NetworkSendDone NetworkTime NetworkSendInt k = Inr k1"
    and x: "Random (host N) (nworld (dev k1)) = (x, w1)" and n: "n \<le> MaxPacketSize"
    using s by (auto simp: Network_Send_def n_def Let_def elim!: bindR_InrE split: prod.splits)
  have "0 \<le> x" using x r by (metis Random_def fst_conv)
  then have "x smod 100 < 100" by simp
  then have lt: "\<not> of_int (x smod 100) \<ge> (1 :: rat) * 100" by (simp add: of_int_less_numeral_iff not_le)
  obtain b1 b w2 where b1: "copy_in (pkt_bytes h) (fresh_wire J) 0 = Inr b1" and b: "bcopy d b1 12 n = Inr b"
    and st: "SendToSocket N (sock (network (dev k))) b (int MaxWireSize) (socket_name (pkt_to h)) w1 = Inr w2"
    and k': "k' = set_nworld w2 k1"
    using s sc x lt by (auto simp: Network_Send_def n_def c Let_def elim!: bindR_InrE split: if_splits)
  note B = bcopy_behind [of d "pkt_bytes h" "drop 12 (fresh_wire J)" n b]
  have e: "b1 = pkt_bytes h @ drop 12 (fresh_wire J)" using copy_in_front [OF b1] by simp
  have f: "n \<le> length d" "b = pkt_bytes h @ take n d @ drop (12 + n) (fresh_wire J)"
    using B b e by (simp_all add: add.commute)
  then show "unat (pkt_length h) \<le> length d" "unat (pkt_length h) \<le> MaxPacketSize" using n by (simp_all add: n_def)
  have "sys_sendto N (sock (network (dev k))) b (int MaxWireSize) (socket_name (pkt_to h)) w1 = (int MaxWireSize, w2)"
    using st by (auto simp: SendToSocket_def elim!: bindR_InrE split: prod.splits)
  then show "\<exists>w. sys_sendto N (sock (network (dev k))) (pkt_bytes h @ take (unat (pkt_length h)) d @ drop (12 + unat (pkt_length h)) (fresh_wire J))
       (int MaxWireSize) (socket_name (pkt_to h)) w = (int MaxWireSize, nworld (dev k'))"
    using f(2) by (auto simp: n_def k' set_nworld_def)
qed

text \<open>The header the post office fills in, and the packet it makes of a message.\<close>

definition filled :: "PacketHeader \<Rightarrow> MailHeader \<Rightarrow> 32 word \<Rightarrow> PacketHeader" where
  "filled pktH mailH addr = pktH\<lparr>pkt_from := addr, pkt_length := mail_length mailH + 12\<rparr>"

lemma filled_length:
  assumes "unat (mail_length mailH) \<le> MaxMailSize"
  shows "unat (pkt_length (filled pktH mailH addr)) = unat (mail_length mailH) + 12"
proof -
  have "unat (mail_length mailH + 12) = unat (mail_length mailH) + unat (12 :: 32 word)"
    using assms by (subst unat_add_lem [THEN iffD1]) (simp_all add: wire_defs)
  then show ?thesis by (simp add: filled_def)
qed

lemma PostOffice_Send_wire:
  assumes s: "PostOffice_Send N J pktH mailH d k = Inr k'" and c: "chanceToWork (network (dev k)) = 1"
    and r: "\<forall>w. 0 \<le> fst (sys_rand (host N) w)" and J: "length (fresh_wire J) = MaxWireSize"
  shows "unat (mail_length mailH) \<le> MaxMailSize" "unat (mail_length mailH) \<le> length d"
    "0 \<le> sint (mail_to mailH)" "sint (mail_to mailH) < numBoxes (postOffice (dev k))"
    "\<exists>pad w. length (mail_bytes mailH @ take (unat (mail_length mailH)) d @ pad) = MaxPacketSize \<and>
       sys_sendto N (sock (network (dev k))) (pkt_bytes (filled pktH mailH (netAddr (postOffice (dev k)))) @ mail_bytes mailH @
         take (unat (mail_length mailH)) d @ pad) (int MaxWireSize) (socket_name (pkt_to pktH)) w = (int MaxWireSize, nworld (dev k'))"
proof -
  define n where "n = unat (mail_length mailH)"
  let ?k = "set_post (\<lambda>p. p\<lparr>sendLock := Acquire (sendLock p)\<rparr>) k"
  let ?h = "filled pktH mailH (netAddr (postOffice (dev k)))"
  obtain b1 b k1 where a: "n \<le> MaxMailSize" "0 \<le> sint (mail_to mailH)" "sint (mail_to mailH) < numBoxes (postOffice (dev k))"
    and b1: "copy_in (mail_bytes mailH) (fresh_packet J) 0 = Inr b1" and b: "bcopy d b1 12 n = Inr b"
    and ns: "Network_Send N J ?h b ?k = Inr k1" and k': "k' = push [P_call (messageSent (postOffice (dev k1)))] k1"
    using s by (auto simp: PostOffice_Send_def n_def filled_def Let_def elim!: bindR_InrE)
  have e: "b1 = mail_bytes mailH @ drop 12 (fresh_packet J)" using copy_in_front [OF b1] by simp
  have f: "n \<le> length d" "b = mail_bytes mailH @ take n d @ drop (12 + n) (fresh_packet J)"
    using bcopy_behind [of d "mail_bytes mailH" "drop 12 (fresh_packet J)" n b] b e by (simp_all add: add.commute)
  have l: "unat (pkt_length ?h) = n + 12" using filled_length a(1) by (simp add: n_def)
  show "unat (mail_length mailH) \<le> MaxMailSize" "unat (mail_length mailH) \<le> length d" "0 \<le> sint (mail_to mailH)"
    "sint (mail_to mailH) < numBoxes (postOffice (dev k))" using a f(1) by (simp_all add: n_def)
  have t: "take (n + 12) b = mail_bytes mailH @ take n d" using f by simp
  have "length (mail_bytes mailH @ take n d @ drop (12 + (n + 12)) (fresh_wire J)) = MaxPacketSize"
    using f(1) J a(1) by (simp add: wire_defs)
  moreover have "\<exists>w. sys_sendto N (sock (network (dev k))) (pkt_bytes ?h @ mail_bytes mailH @ take n d @
      drop (12 + (n + 12)) (fresh_wire J)) (int MaxWireSize) (socket_name (pkt_to pktH)) w = (int MaxWireSize, nworld (dev k'))"
  proof -
    have e: "network (dev ?k) = network (dev k)" "pkt_to ?h = pkt_to pktH" "nworld (dev k') = nworld (dev k1)"
      by (simp_all add: set_post_def filled_def k' push_def)
    show ?thesis using Network_Send_wire(3) [OF ns _ r J] c unfolding l t e append_assoc by simp
  qed
  ultimately show "\<exists>pad w. length (mail_bytes mailH @ take (unat (mail_length mailH)) d @ pad) = MaxPacketSize \<and>
       sys_sendto N (sock (network (dev k))) (pkt_bytes ?h @ mail_bytes mailH @
         take (unat (mail_length mailH)) d @ pad) (int MaxWireSize) (socket_name (pkt_to pktH)) w = (int MaxWireSize, nworld (dev k'))"
    unfolding n_def [symmetric] by blast
qed


section \<open>Arrival\<close>

text \<open>A receiver with its tables, and a datagram that its socket holds.\<close>

definition post_ok :: "'w nkern \<Rightarrow> bool" where
  "post_ok k \<longleftrightarrow> length (inbox (network (dev k))) = MaxPacketSize \<and>
     numBoxes (postOffice (dev k)) = int (length (boxes (postOffice (dev k)))) \<and>
     sems k (messageAvailable (postOffice (dev k))) \<noteq> None"

definition arrives :: "'w NetHost \<Rightarrow> 'w nkern \<Rightarrow> bytes \<Rightarrow> bool" where
  "arrives N k wire \<longleftrightarrow> (\<forall>t w. \<exists>w1. sys_select (host N) (sock (network (dev k))) t w = (1, w1)) \<and>
     (\<forall>w. \<exists>w1. sys_recvfrom N (sock (network (dev k))) (int MaxWireSize) w = ((int MaxWireSize, wire), w1))"

lemma V_effect:
  assumes "core b k" "klevel k = IntOff" "sems k s = Some sem"
  shows "\<exists>k'. Semaphore_V s k = Inr k' \<and> dev k' = dev k \<and> (\<exists>sem'. sems k' s = Some sem' \<and> semValue sem' = semValue sem + 1)"
proof -
  obtain k' where v: "Semaphore_V s k = Inr k'" using V_total [OF assms(1), of s] assms by auto
  moreover have "dev k' = dev k \<and> (\<exists>sem'. sems k' s = Some sem' \<and> semValue sem' = semValue sem + 1)"
    using v assms by (auto simp: Semaphore_V_def SetLevel_off ChangeLevel_def set_int_def store_defs ReadyToRun_def
        Let_def elim!: bindR_InrE split: option.splits prod.splits if_splits)
  ultimately show ?thesis by blast
qed

lemma CheckPktAvail_arrival:
  assumes k: "core b k" "klevel k = IntOff" "post_ok k" and e: "pkt_length (inHdr (network (dev k))) = 0"
    and w: "arrives N k (pkt_bytes h @ payload)" "length payload = MaxPacketSize"
    and h: "pkt_to h = ident (network (dev k))" "unat (pkt_length h) \<le> MaxPacketSize"
  shows "\<exists>k'. CheckPktAvail N k = Inr k' \<and> postOffice (dev k') = postOffice (dev k) \<and>
    network (dev k') = (network (dev k))\<lparr>inHdr := h, inbox := take (unat (pkt_length h)) payload @
      drop (unat (pkt_length h)) (inbox (network (dev k)))\<rparr> \<and>
    (\<exists>sem sem'. sems k (messageAvailable (postOffice (dev k))) = Some sem \<and>
       sems k' (messageAvailable (postOffice (dev k))) = Some sem' \<and> semValue sem' = semValue sem + 1)"
proof -
  let ?po = "postOffice (dev k)" and ?n = "network (dev k)"
  obtain sem where sem: "sems k (messageAvailable ?po) = Some sem" using k(3) by (auto simp: post_ok_def)
  obtain k1 where s: "Schedule NetworkReadPoll NetworkTime NetworkRecvInt k = Inr k1" and
    k1: "dev k1 = dev k" "sems k1 = sems k" "klevel k1 = IntOff"
    using k(2) by (simp add: Schedule_def tick_defs set_int_def Let_def)
  have c1: "core b k1" using Schedule_kept [OF s] k(1) by (simp add: handler_kept_def)
  obtain w1 where p: "PollSocket N (istatus (interrupt k1) = IdleMode) (sock ?n) (nworld (dev k)) = Inr (True, w1)"
  proof -
    obtain w1 where "sys_select (host N) (sock ?n) (if istatus (interrupt k1) = IdleMode then 20000 else 0) (nworld (dev k)) = (1, w1)"
      using w(1) unfolding arrives_def by blast
    then show thesis using that by (simp add: PollSocket_def PollFile_def)
  qed
  obtain w2 where rv: "ReadFromSocket N (sock ?n) (int MaxWireSize) w1 = Inr (pkt_bytes h @ payload, w2)"
  proof -
    obtain w2 where "sys_recvfrom N (sock ?n) (int MaxWireSize) w1 = ((int MaxWireSize, pkt_bytes h @ payload), w2)"
      using w(1) unfolding arrives_def by blast
    then show thesis using that w(2) by (simp add: ReadFromSocket_def wire_defs)
  qed
  have bc: "bcopy payload (inbox ?n) 0 (unat (pkt_length h)) = Inr (take (unat (pkt_length h)) payload @ drop (unat (pkt_length h)) (inbox ?n))"
    using bcopy_front h(2) w(2) k(3) by (simp add: post_ok_def)
  let ?g = "\<lambda>d. d\<lparr>nworld := w2, network := (network d)\<lparr>inHdr := h, inbox := take (unat (pkt_length h)) payload @
      drop (unat (pkt_length h)) (inbox ?n)\<rparr>\<rparr>"
  let ?k3 = "set_dev ?g k1\<lparr>stats := (stats k1)\<lparr>numPacketsRecvd := numPacketsRecvd (stats k1) + 1\<rparr>\<rparr>"
  have "CheckPktAvail N k = IncomingPacket ?k3"
    using s e p rv h bc by (simp add: CheckPktAvail_def k1(1) net_defs set_dev_fusion)
  moreover have "core b ?k3" using c1 core_cong [of k1 ?k3] by (simp add: same_sched_def)
  then obtain k' where "Semaphore_V (messageAvailable ?po) ?k3 = Inr k'" "dev k' = dev ?k3"
    "\<exists>sem'. sems k' (messageAvailable ?po) = Some sem' \<and> semValue sem' = semValue sem + 1"
    using V_effect [of b ?k3 "messageAvailable ?po" sem] sem k1 by auto
  ultimately show ?thesis using sem by (simp add: IncomingPacket_def k1(1))
qed

lemma deliver_arrival:
  assumes n: "inHdr (network (dev k)) = h" "inbox (network (dev k)) = mail_bytes mh @ d @ rest"
    and l: "unat (pkt_length h) = 12 + length d" "unat (mail_length mh) = length d" "length d \<le> MaxMailSize"
    and b: "length buffer = MaxPacketSize" and t: "sint (mail_to mh) = int i" "i < length (boxes (postOffice (dev k)))"
    and po: "numBoxes (postOffice (dev k)) = int (length (boxes (postOffice (dev k))))"
  shows "\<exists>k' buffer'. PostalDelivery_deliver buffer k = Inr k' \<and> running k' = Code (PostalDelivery buffer') # running k \<and>
    length buffer' = MaxPacketSize \<and> pkt_length (inHdr (network (dev k'))) = 0 \<and>
    postOffice (dev k') = (postOffice (dev k))\<lparr>boxes := (boxes (postOffice (dev k)))[i :=
       SynchList_Append (boxes (postOffice (dev k)) ! i) \<lparr>pktHdr = h, mailHdr = mh, mdata = d\<rparr>]\<rparr>"
proof -
  let ?b = "mail_bytes mh @ d @ drop (12 + length d) buffer"
  have z: "pkt_length h \<noteq> 0" using l(1) by auto
  have c: "bcopy (mail_bytes mh @ d @ rest) buffer 0 (12 + length d) = Inr ?b"
    using bcopy_front [of "12 + length d" "mail_bytes mh @ d @ rest" buffer] b l(3) by (simp add: wire_defs)
  have nr: "Network_Receive buffer k = Inr (h, ?b, set_network (\<lambda>n. n\<lparr>inHdr := h\<lparr>pkt_length := 0\<rparr>\<rparr>) k)"
    using z c by (simp add: Network_Receive_def Let_def n l(1))
  have u: "uint (mail_length mh) = int (length d)" using l(2) by (metis uint_nat)
  have m: "Mail_new h mh (d @ drop (12 + length d) buffer) = Inr \<lparr>pktHdr = h, mailHdr = mh, mdata = d\<rparr>"
    using l(2,3) by (simp add: Mail_new_def copy_out_def u)
  show ?thesis
    using t po l b by (simp add: PostalDelivery_deliver_def nr m MailBox_Put_def Let_def net_defs read_array_def
        write_array_def push_def wire_defs)
qed


section \<open>Delivery\<close>

definition mail_added :: "'w nkern \<Rightarrow> nat \<Rightarrow> Mail \<Rightarrow> 'w nkern \<Rightarrow> bool" where
  "mail_added k i mail k' \<longleftrightarrow> i < length (boxes (postOffice (dev k))) \<and>
     boxes (postOffice (dev k')) = (boxes (postOffice (dev k)))[i := SynchList_Append (boxes (postOffice (dev k)) ! i) mail]"

text \<open>A machine that can take a packet from the wire: interrupts are off, its tables are in order, no packet
  is buffered.\<close>

definition can_receive :: "'w nkern \<Rightarrow> 32 word \<Rightarrow> bool" where
  "can_receive k addr \<longleftrightarrow> (\<exists>b. core b k) \<and> klevel k = IntOff \<and> post_ok k \<and>
     pkt_length (inHdr (network (dev k))) = 0 \<and> ident (network (dev k)) = addr"

lemma mail_arrives:
  assumes r: "can_receive r (pkt_to h)" and w: "arrives M r (pkt_bytes h @ mail_bytes mh @ d @ pad)"
    and l: "length (mail_bytes mh @ d @ pad) = MaxPacketSize" "unat (pkt_length h) = length d + 12"
      "unat (mail_length mh) = length d" "length d \<le> MaxMailSize"
    and t: "0 \<le> sint (mail_to mh)" "sint (mail_to mh) < numBoxes (postOffice (dev r))"
  shows "\<exists>r1. CheckPktAvail M r = Inr r1 \<and>
    (\<forall>r2 buffer. network (dev r2) = network (dev r1) \<longrightarrow> postOffice (dev r2) = postOffice (dev r1) \<longrightarrow>
       length buffer = MaxPacketSize \<longrightarrow> (\<exists>r3. PostalDelivery_deliver buffer r2 = Inr r3 \<and>
         mail_added r (nat (sint (mail_to mh))) \<lparr>pktHdr = h, mailHdr = mh, mdata = d\<rparr> r3))"
proof -
  obtain b where R: "core b r" "klevel r = IntOff" "post_ok r" "pkt_length (inHdr (network (dev r))) = 0"
    "ident (network (dev r)) = pkt_to h" using r by (auto simp: can_receive_def)
  have n: "unat (pkt_length h) \<le> MaxPacketSize" using l by (simp add: wire_defs)
  from CheckPktAvail_arrival [OF R(1-4) w l(1) R(5) [symmetric] n] obtain r1 where
    c: "CheckPktAvail M r = Inr r1" "postOffice (dev r1) = postOffice (dev r)"
    and net: "network (dev r1) = (network (dev r))\<lparr>inHdr := h, inbox := mail_bytes mh @ d @ drop (length d + 12) (inbox (network (dev r)))\<rparr>"
    using l(2) by auto
  have bx: "numBoxes (postOffice (dev r)) = int (length (boxes (postOffice (dev r))))" using R(3) by (simp add: post_ok_def)
  have i: "sint (mail_to mh) = int (nat (sint (mail_to mh)))" "nat (sint (mail_to mh)) < length (boxes (postOffice (dev r)))"
    using t bx by simp_all
  have "\<exists>r3. PostalDelivery_deliver buffer r2 = Inr r3 \<and>
      mail_added r (nat (sint (mail_to mh))) \<lparr>pktHdr = h, mailHdr = mh, mdata = d\<rparr> r3"
    if "network (dev r2) = network (dev r1)" "postOffice (dev r2) = postOffice (dev r1)" "length buffer = MaxPacketSize" for r2 buffer
    using deliver_arrival [of r2 h mh d _ buffer "nat (sint (mail_to mh))"] that net c(2) l i bx
    by (auto simp: mail_added_def)
  with c(1) show ?thesis by blast
qed

text \<open>C19. A message that one machine sends, and that the wire carries to the machine it names, is put by
  the postal worker there at the end of the mailbox it names, with the headers and the data the sender gave
  and the sender's address; no other mailbox changes.  Between the arrival and the worker's turn the
  receiver may do anything that leaves its network and mailboxes alone.\<close>

theorem mail_delivery:
  assumes "PostOffice_Send N J pktH mailH d k = Inr k'" "chanceToWork (network (dev k)) = 1"
    "\<forall>w. 0 \<le> fst (sys_rand (host N) w)" "length (fresh_wire J) = MaxWireSize"
  shows "\<exists>wire w. sys_sendto N (sock (network (dev k))) wire (int MaxWireSize) (socket_name (pkt_to pktH)) w =
      (int MaxWireSize, nworld (dev k')) \<and>
    (\<forall>M r. can_receive r (pkt_to pktH) \<longrightarrow> arrives M r wire \<longrightarrow> sint (mail_to mailH) < numBoxes (postOffice (dev r)) \<longrightarrow>
      (\<exists>r1. CheckPktAvail M r = Inr r1 \<and>
        (\<forall>r2 buffer. network (dev r2) = network (dev r1) \<longrightarrow> postOffice (dev r2) = postOffice (dev r1) \<longrightarrow>
          length buffer = MaxPacketSize \<longrightarrow> (\<exists>r3. PostalDelivery_deliver buffer r2 = Inr r3 \<and>
            mail_added r (nat (sint (mail_to mailH)))
              \<lparr>pktHdr = pktH\<lparr>pkt_from := netAddr (postOffice (dev k)), pkt_length := mail_length mailH + 12\<rparr>,
               mailHdr = mailH, mdata = take (unat (mail_length mailH)) d\<rparr> r3))))"
proof -
  note W = PostOffice_Send_wire [OF assms]
  let ?h = "filled pktH mailH (netAddr (postOffice (dev k)))" and ?d = "take (unat (mail_length mailH)) d"
  obtain pad w where p: "length (mail_bytes mailH @ ?d @ pad) = MaxPacketSize"
    "sys_sendto N (sock (network (dev k))) (pkt_bytes ?h @ mail_bytes mailH @ ?d @ pad) (int MaxWireSize) (socket_name (pkt_to pktH)) w =
      (int MaxWireSize, nworld (dev k'))" using W(5) by blast
  have l: "unat (pkt_length ?h) = length ?d + 12" "unat (mail_length mailH) = length ?d" "length ?d \<le> MaxMailSize"
    using W(1,2) filled_length [OF W(1)] by simp_all
  show ?thesis
  proof (rule exI [of _ "pkt_bytes ?h @ mail_bytes mailH @ ?d @ pad"], rule exI [of _ w], intro conjI allI impI)
    show "sys_sendto N (sock (network (dev k))) (pkt_bytes ?h @ mail_bytes mailH @ ?d @ pad) (int MaxWireSize)
        (socket_name (pkt_to pktH)) w = (int MaxWireSize, nworld (dev k'))" by (rule p(2))
    fix M r
    assume r: "can_receive r (pkt_to pktH)" "arrives M r (pkt_bytes ?h @ mail_bytes mailH @ ?d @ pad)"
      "sint (mail_to mailH) < numBoxes (postOffice (dev r))"
    have "can_receive r (pkt_to ?h)" using r(1) by (simp add: filled_def)
    from mail_arrives [OF this r(2) p(1) l W(3) r(3)] show "\<exists>r1. CheckPktAvail M r = Inr r1 \<and>
        (\<forall>r2 buffer. network (dev r2) = network (dev r1) \<longrightarrow> postOffice (dev r2) = postOffice (dev r1) \<longrightarrow>
          length buffer = MaxPacketSize \<longrightarrow> (\<exists>r3. PostalDelivery_deliver buffer r2 = Inr r3 \<and>
            mail_added r (nat (sint (mail_to mailH)))
              \<lparr>pktHdr = pktH\<lparr>pkt_from := netAddr (postOffice (dev k)), pkt_length := mail_length mailH + 12\<rparr>,
               mailHdr = mailH, mdata = ?d\<rparr> r3))" by (simp only: filled_def)
  qed
qed

section \<open>A sample machine\<close>

definition sample_sockets :: "bytes \<Rightarrow> unit NetHost" where
  "sample_sockets wire = \<lparr>host = \<lparr>sys_open = (\<lambda>_ _ w. (3, w)), sys_read = (\<lambda>_ _ w. ((0, []), w)), sys_write = (\<lambda>_ _ n w. (n, w)),
       sys_lseek = (\<lambda>_ off _ w. (off, w)), sys_close = (\<lambda>_ w. (0, w)), sys_unlink = (\<lambda>_ w. (0, w)),
       sys_select = (\<lambda>_ _ w. (1, w)), sys_rand = (\<lambda>w. (7, w)), sys_fgets = (\<lambda>w. ([10], w))\<rparr>,
     sys_socket = (\<lambda>w. (4, w)), sys_bind = (\<lambda>_ _ w. (0, w)),
     sys_recvfrom = (\<lambda>_ n w. ((n, wire), w)), sys_sendto = (\<lambda>_ _ n _ w. (n, w))\<rparr>"

definition sample_nthread :: "ncode Thread" where
  "sample_nthread = \<lparr>tname = 0, tstatus = RUNNING, stack = None, continuation = [], userRegisters = (\<lambda>_. 0), space = None,
     pid = 0, parentID = 0\<rparr>"

definition sample_network :: Network where
  "sample_network = \<lparr>ident = 5, chanceToWork = 1, sock = 4, sockName = socket_name 5, sendBusy = False,
     inHdr = \<lparr>pkt_to = 0, pkt_from = 0, pkt_length = 0\<rparr>, inbox = replicate 52 0\<rparr>"

definition sample_nfresh :: NetFresh where
  "sample_nfresh = \<lparr>fresh_network = sample_network, fresh_packet = replicate 52 0, fresh_wire = replicate 64 0,
     fresh_mail = replicate 40 0, fresh_nthread = sample_nthread\<rparr>"

text \<open>Machine 5 with ten mailboxes, which sends to itself.\<close>

definition sample_net :: "unit nkern" where
  "sample_net = \<lparr>stats = Statistics_new, interrupt = Interrupt_new, threads = [0 \<mapsto> sample_nthread], nextThread = 1,
     currentThread = 0, threadToBeDestroyed = None, readyList = [], sems = [0 \<mapsto> \<lparr>semName = [], semValue = 0, queue = []\<rparr>],
     nextSem = 1, machine = None, running = [ThreadFinish],
     dev = \<lparr>nworld = (), network = sample_network, postOffice = \<lparr>netAddr = 5, boxes = replicate 10 MailBox_new, numBoxes = 10,
       messageAvailable = 0, messageSent = 1, sendLock = Lock\<rparr>, printed = []\<rparr>\<rparr>"

lemma sample_net_receives: "can_receive sample_net 5"
proof -
  have "core False sample_net" unfolding core_def
    by (auto simp: sample_net_def sample_nthread_def status_of_def waiting_def split: if_splits)
  then show ?thesis
    by (auto simp: can_receive_def post_ok_def sample_net_def sample_network_def Interrupt_new_def wire_defs)
qed

lemma sample_Send: "case PostOffice_Send (sample_sockets []) sample_nfresh \<lparr>pkt_to = 5, pkt_from = 0, pkt_length = 0\<rparr>
    \<lparr>mail_to = 3, mail_from = 1, mail_length = 2\<rparr> [72, 105] sample_net of Inl e \<Rightarrow> False | Inr k \<Rightarrow> True"
  by code_simp

theorem mail_delivery_witness:
  "\<exists>wire r1 r3. CheckPktAvail (sample_sockets wire) sample_net = Inr r1 \<and>
     PostalDelivery_deliver (replicate 52 0) r1 = Inr r3 \<and>
     mail_added sample_net 3 \<lparr>pktHdr = \<lparr>pkt_to = 5, pkt_from = 5, pkt_length = 14\<rparr>,
       mailHdr = \<lparr>mail_to = 3, mail_from = 1, mail_length = 2\<rparr>, mdata = [72, 105]\<rparr> r3"
proof -
  obtain k' where k': "PostOffice_Send (sample_sockets []) sample_nfresh \<lparr>pkt_to = 5, pkt_from = 0, pkt_length = 0\<rparr>
    \<lparr>mail_to = 3, mail_from = 1, mail_length = 2\<rparr> [72, 105] sample_net = Inr k'"
    using sample_Send by (auto split: sum.splits)
  have h: "chanceToWork (network (dev sample_net)) = 1" "\<forall>w. 0 \<le> fst (sys_rand (host (sample_sockets [])) w)"
    "length (fresh_wire sample_nfresh) = MaxWireSize"
    by (simp_all add: sample_net_def sample_network_def sample_sockets_def sample_nfresh_def wire_defs)
  have a: "arrives (sample_sockets wire) sample_net wire" for wire by (simp add: arrives_def sample_sockets_def)
  have b: "sint (mail_to \<lparr>mail_to = 3, mail_from = 1, mail_length = 2\<rparr>) < numBoxes (postOffice (dev sample_net))"
    by (simp add: sample_net_def)
  from mail_delivery [OF k' h] obtain wire r1 where "CheckPktAvail (sample_sockets wire) sample_net = Inr r1"
    "\<exists>r3. PostalDelivery_deliver (replicate 52 0) r1 = Inr r3 \<and> mail_added sample_net 3
      \<lparr>pktHdr = \<lparr>pkt_to = 5, pkt_from = netAddr (postOffice (dev sample_net)), pkt_length = 14\<rparr>,
       mailHdr = \<lparr>mail_to = 3, mail_from = 1, mail_length = 2\<rparr>, mdata = [72, 105]\<rparr> r3"
    using sample_net_receives a b by (fastforce simp: wire_defs)
  then show ?thesis by (auto simp: sample_net_def)
qed


section \<open>Receiving\<close>

text \<open>C38. \<open>Receive\<close> on a mailbox returns the oldest message in it and leaves the others, in every mailbox; on
  an empty mailbox it does not wait, as its comment says, but fails the assertion in the stub of \<open>Wait\<close>.\<close>

theorem Receive_oldest_or_abort:
  assumes "0 \<le> i" "i < numBoxes (postOffice (dev k))"
    "numBoxes (postOffice (dev k)) = int (length (boxes (postOffice (dev k))))"
  shows "PostOffice_Receive i k = (case slist (boxes (postOffice (dev k)) ! nat i) of
       [] \<Rightarrow> Some (Inl AssertFailed)
     | (mail, _) # rest \<Rightarrow> Some (if unat (mail_length (mailHdr mail)) \<le> MaxMailSize
         then Inr (mail, set_post (\<lambda>p. p\<lparr>boxes := (boxes (postOffice (dev k)))[nat i :=
           (boxes (postOffice (dev k)) ! nat i)\<lparr>slist := rest\<rparr>]\<rparr>) k)
         else Inl AssertFailed))"
proof (cases "slist (boxes (postOffice (dev k)) ! nat i)")
  case Nil
  then show ?thesis using assms by (simp add: PostOffice_Receive_def MailBox_Get_def SynchList_Remove_empty read_array_def)
next
  case (Cons a rest)
  obtain mail j where a: "a = (mail, j)" by (cases a)
  show ?thesis
    using assms Cons by (simp add: a PostOffice_Receive_def MailBox_Get_def SynchList_Remove_first [of _ mail j] read_array_def
        write_array_def Let_def)
qed

theorem Receive_oldest_or_abort_witness: "PostOffice_Receive 3 sample_net = Some (Inl AssertFailed)"
proof -
  have "slist (boxes (postOffice (dev sample_net)) ! nat 3) = []"
    by (simp add: sample_net_def MailBox_new_def SynchList_new_def)
  then show ?thesis using Receive_oldest_or_abort [of 3 sample_net] by (simp add: sample_net_def)
qed

text \<open>The check of an arriving message is an assertion, so a machine whose packets name a mailbox that does not
  exist here stops this one.\<close>

lemma bad_box_aborts:
  assumes "inHdr (network (dev k)) = h" "inbox (network (dev k)) = mail_bytes mh @ rest" "12 \<le> unat (pkt_length h)"
    "unat (pkt_length h) \<le> 12 + length rest" "unat (pkt_length h) \<le> length buffer"
    "numBoxes (postOffice (dev k)) \<le> sint (mail_to mh)"
  shows "PostalDelivery_deliver buffer k = Inl AssertFailed"
proof -
  have z: "pkt_length h \<noteq> 0" using assms(3) by auto
  obtain x where x: "unat (pkt_length h) = 12 + x" using assms(3) le_Suc_ex by blast
  have "bcopy (mail_bytes mh @ rest) buffer 0 (12 + x) = Inr (mail_bytes mh @ take x rest @ drop (12 + x) buffer)"
    using bcopy_front [of "12 + x" "mail_bytes mh @ rest" buffer] assms(4,5) x by simp
  then show ?thesis
    using z assms(6) x by (simp add: PostalDelivery_deliver_def Network_Receive_def Let_def assms(1,2) net_defs)
qed

end
