(* ===== verification/Program_Load.thy ===== *)
theory Program_Load
  imports Memory_View
begin

text \<open>
  The constructor of an address space loads the program: every page gets a frame of its own that was free,
  and through the new table the program sees its code, then its data, then zeros, whatever page
  boundaries they fall on; memory outside the new frames keeps its contents.

  The host is assumed to implement \<open>lseek\<close> and \<open>read\<close> on the executable as documented (\<open>posix_file\<close>).
\<close>


section \<open>Reading the executable\<close>

definition posix_file :: "'w Host \<Rightarrow> int \<Rightarrow> bytes \<Rightarrow> bool" where
  "posix_file H fd content \<longleftrightarrow> (\<forall>w pos n. \<exists>w1 w2.
     sys_lseek H fd (int pos) SEEK_SET w = (int pos, w1) \<and>
     sys_read H fd (int n) w1 = ((int (length (take n (drop pos content))), take n (drop pos content)), w2))"

lemma UnixFile_ReadAt_posix:
  assumes "posix_file H (ufile f) content"
  shows "\<exists>w'. UnixFile_ReadAt H f (int n) (int pos) w =
    Inr ((int (length (take n (drop pos content))), take n (drop pos content)), w')"
proof -
  obtain w1 w2 where "sys_lseek H (ufile f) (int pos) SEEK_SET w = (int pos, w1)"
    "sys_read H (ufile f) (int n) w1 = ((int (length (take n (drop pos content))), take n (drop pos content)), w2)"
    using assms unfolding posix_file_def by blast
  then show ?thesis by (simp add: UnixFile_ReadAt_def Lseek_def ReadPartial_def)
qed

lemma read_frame_posix:
  assumes "posix_file H (ufile f) content" "a + n \<le> MemorySize"
  shows "\<exists>w'. read_frame H f 0 (int a) (int n) (int pos) m w = Inr (store_bytes a (take n (drop pos content)) m, w')"
proof -
  have "(\<lambda>i. if a \<le> i \<and> i < a then [] ! (i - a) else mainMemory m i) = mainMemory m" by (rule ext) auto
  then have "store_bytes a [] m = m" by (simp add: store_bytes_def)
  then show ?thesis
    using UnixFile_ReadAt_posix [OF assms(1), of n pos w] assms(2) by (auto simp: read_frame_def Let_def)
qed


section \<open>Storing through a table\<close>

text \<open>\<open>vload m fm v d m'\<close>: memory \<open>m'\<close> is \<open>m\<close> with the bytes \<open>d\<close> stored at virtual address \<open>v\<close>.\<close>

definition vload :: "Machine \<Rightarrow> page_view list \<Rightarrow> nat \<Rightarrow> bytes \<Rightarrow> Machine \<Rightarrow> bool" where
  "vload m fm v d m' \<longleftrightarrow> m' = m\<lparr>mainMemory := mainMemory m'\<rparr> \<and>
     (\<forall>u. u div PageSize < length fm \<longrightarrow>
        vbyte m' fm u = (if v \<le> u \<and> u < v + length d then d ! (u - v) else vbyte m fm u)) \<and>
     (\<forall>a. a div PageSize \<notin> set (map frame_of fm) \<longrightarrow> mainMemory m' a = mainMemory m a)"

lemma vload_nil [simp]: "vload m fm v [] m"
  by (auto simp: vload_def)

lemma vload_append:
  assumes "vload m fm v d m1" "vload m1 fm (v + length d) e m2"
  shows "vload m fm v (d @ e) m2"
proof -
  have "m2 = m\<lparr>mainMemory := mainMemory m2\<rparr>" using assms unfolding vload_def by (metis Machine.select_convs Machine.surjective Machine.update_convs(2))
  moreover have "vbyte m2 fm u = (if v \<le> u \<and> u < v + length (d @ e) then (d @ e) ! (u - v) else vbyte m fm u)"
    if "u div PageSize < length fm" for u
    using assms that by (auto simp: vload_def nth_append)
  ultimately show ?thesis using assms by (simp add: vload_def)
qed

lemma phys_div [simp]: "phys fm v div PageSize = frame_of (fm ! (v div PageSize))"
  and phys_mod [simp]: "phys fm v mod PageSize = v mod PageSize"
  by (simp_all add: phys_def)

lemma phys_same_page:
  "u div PageSize = v div PageSize \<Longrightarrow> phys fm u + v mod PageSize = phys fm v + u mod PageSize"
  by (simp add: phys_def)

lemma same_page_diff: "u div PageSize = v div PageSize \<Longrightarrow> u + v mod PageSize = v + u mod PageSize"
  by (metis add.commute add.left_commute mult_div_mod_eq)

lemma same_block: "x \<le> y \<Longrightarrow> y < x + n \<Longrightarrow> x mod PageSize + n \<le> PageSize \<Longrightarrow> y div PageSize = x div PageSize"
proof (rule div_nat_eqI)
  assume h: "x \<le> y" "y < x + n" "x mod PageSize + n \<le> PageSize"
  have x: "PageSize * (x div PageSize) + x mod PageSize = x" by (rule mult_div_mod_eq)
  show "PageSize * (x div PageSize) \<le> y" using h(1) x by linarith
  show "y < PageSize * Suc (x div PageSize)" using h x unfolding mult_Suc_right by linarith
qed

lemma vload_store:
  assumes d: "distinct (map frame_of fm)" and v: "v div PageSize < length fm" "v mod PageSize + length bs \<le> PageSize"
  shows "vload m fm v bs (store_bytes (phys fm v) bs m)"
proof -
  have page: "u div PageSize = v div PageSize"
    if "u div PageSize < length fm" "phys fm v \<le> phys fm u" "phys fm u < phys fm v + length bs" for u
  proof -
    have "phys fm u div PageSize = phys fm v div PageSize" using same_block [OF that(2,3)] v(2) by simp
    then show ?thesis using d that(1) v(1) by (simp add: distinct_conv_nth) (metis nth_map)
  qed
  have page': "u div PageSize = v div PageSize" if "v \<le> u" "u < v + length bs" for u
    using same_block [OF that v(2)] .
  have at: "vbyte (store_bytes (phys fm v) bs m) fm u = (if v \<le> u \<and> u < v + length bs then bs ! (u - v) else vbyte m fm u)"
    if u: "u div PageSize < length fm" for u
  proof (cases "u div PageSize = v div PageSize")
    case True
    have e: "phys fm u + v = phys fm v + u"
      using phys_same_page [OF True, of fm] same_page_diff [OF True] by linarith
    then have "phys fm v \<le> phys fm u \<longleftrightarrow> v \<le> u" "phys fm u < phys fm v + length bs \<longleftrightarrow> u < v + length bs"
      "phys fm u - phys fm v = u - v" by linarith+
    then show ?thesis by (simp add: vbyte_def store_bytes_def)
  next
    case False
    then show ?thesis using page [OF u] page' by (auto simp: vbyte_def store_bytes_def)
  qed
  have "mainMemory (store_bytes (phys fm v) bs m) a = mainMemory m a" if a: "a div PageSize \<notin> set (map frame_of fm)" for a
  proof -
    have "a div PageSize = phys fm v div PageSize" if "phys fm v \<le> a" "a < phys fm v + length bs"
      using same_block [OF that] v(2) by simp
    then show ?thesis using a v(1) by (auto simp: store_bytes_def)
  qed
  with at show ?thesis by (simp add: vload_def store_bytes_def)
qed


section \<open>One page\<close>

definition table_ok :: "TranslationEntry list \<Rightarrow> bool" where
  "table_ok pt \<longleftrightarrow> distinct (map frame_of (map entry_view pt)) \<and> (\<forall>e\<in>set pt. unat (physicalPage e) < NumPhysPages)"

abbreviation view :: "TranslationEntry list \<Rightarrow> page_view list" where
  "view pt \<equiv> map entry_view pt"

lemma sint_positive:
  assumes "unat (w :: 32 word) < 2 ^ 31"
  shows "sint w = int (unat w)"
proof -
  have u: "0 \<le> uint w" "uint w < 2 ^ 31" using assms uint_less_int [of w "2 ^ 31"] by simp_all
  have "sint w = signed_take_bit 31 (uint w)" by (simp add: sint_uint)
  also have "\<dots> = uint w" by (rule signed_take_bit_int_eq_self) (use u in linarith)+
  finally show ?thesis by simp
qed

lemma frame_addr_ok:
  assumes "table_ok pt" "i < length pt"
  shows "frame_addr pt (int i) = Inr (int (phys (view pt) (i * PageSize)))"
proof -
  have "unat (physicalPage (pt ! i)) < NumPhysPages" using assms by (simp add: table_ok_def)
  then have "unat (physicalPage (pt ! i)) < 2 ^ 31" by (simp add: NumPhysPages_def)
  then show ?thesis
    using assms(2) by (simp add: frame_addr_def phys_def frame_of_def entry_view_def sint_positive)
qed

lemma page_end:
  assumes "table_ok pt" "v div PageSize < length pt"
  shows "phys (view pt) v + (PageSize - v mod PageSize) \<le> MemorySize"
proof -
  have "unat (physicalPage (pt ! (v div PageSize))) < NumPhysPages" using assms by (simp add: table_ok_def)
  then have "Suc (unat (physicalPage (pt ! (v div PageSize)))) * PageSize \<le> NumPhysPages * PageSize" by (intro mult_le_mono1) simp
  moreover have "v mod PageSize < PageSize" by simp
  ultimately show ?thesis
    using assms(2) by (simp add: phys_def frame_of_def entry_view_def MemorySize_def)
qed

lemma load_chunk:
  assumes t: "table_ok pt" and f: "posix_file H (ufile exe) content"
    and v: "v div PageSize < length pt" "v mod PageSize + n \<le> PageSize" and p: "pos + n \<le> length content"
  shows "\<exists>m' w'. bindR (frame_addr pt (int (v div PageSize))) (\<lambda>a.
      read_frame H exe 0 (a + int (v mod PageSize)) (int n) (int pos) m w) = Inr (m', w') \<and>
    vload m (view pt) v (take n (drop pos content)) m'"
proof -
  have "phys (view pt) (v div PageSize * PageSize) + v mod PageSize = phys (view pt) v" by (simp add: phys_def)
  then have a: "int (phys (view pt) (v div PageSize * PageSize)) + int (v mod PageSize) = int (phys (view pt) v)" by linarith
  have "phys (view pt) v + n \<le> MemorySize" using page_end [OF t v(1)] v(2) by linarith
  from read_frame_posix [OF f this] obtain w' where
    "read_frame H exe 0 (int (phys (view pt) v)) (int n) (int pos) m w = Inr (store_bytes (phys (view pt) v) (take n (drop pos content)) m, w')"
    by blast
  moreover have "vload m (view pt) v (take n (drop pos content)) (store_bytes (phys (view pt) v) (take n (drop pos content)) m)"
    using t v p by (intro vload_store) (auto simp: table_ok_def)
  ultimately show ?thesis using frame_addr_ok [OF t v(1)] a by auto
qed


section \<open>Loops over pages\<close>

definition pages :: "nat \<Rightarrow> nat" where
  "pages n = (n + (PageSize - 1)) div PageSize"

lemma pages_0 [simp]: "pages 0 = 0"
  by (simp add: pages_def)

lemma pages_bounds:
  assumes "0 < n"
  shows "(pages n - 1) * PageSize < n" "n \<le> pages n * PageSize" "0 < pages n"
proof -
  have q: "pages n * PageSize + (n + (PageSize - 1)) mod PageSize = n + (PageSize - 1)"
    by (simp add: pages_def)
  have m: "(n + (PageSize - 1)) mod PageSize \<le> PageSize - 1" using mod_less_divisor [OF PageSize_pos] by (metis Suc_pred' PageSize_pos less_Suc_eq_le)
  show c: "n \<le> pages n * PageSize" using q m by linarith
  then show p: "0 < pages n" using assms by (cases "pages n") auto
  have "pages n * PageSize = (pages n - 1) * PageSize + PageSize" using p by (cases "pages n") auto
  then show "(pages n - 1) * PageSize < n" using q assms PageSize_pos by linarith
qed

lemma divRoundUp_pages: "divRoundUp (int n) (int PageSize) = int (pages n)"
proof (cases "n = 0")
  case False
  then have b: "(pages n - 1) * PageSize < n" "n \<le> pages n * PageSize" "0 < pages n" using pages_bounds [of n] by simp_all
  note d = divRoundUp_bounds [of "int n" "int PageSize"]
  have "int n \<le> divRoundUp (int n) (int PageSize) * int PageSize" "divRoundUp (int n) (int PageSize) * int PageSize < int n + int PageSize"
    using d by simp_all
  moreover have "int (pages n) * int PageSize < int n + int PageSize" "int n \<le> int (pages n) * int PageSize"
  proof -
    have "pages n * PageSize = (pages n - 1) * PageSize + PageSize" using b(3) by (cases "pages n") auto
    then have "int (pages n * PageSize) < int n + int PageSize" "int n \<le> int (pages n * PageSize)" using b by linarith+
    then show "int (pages n) * int PageSize < int n + int PageSize" "int n \<le> int (pages n) * int PageSize" by simp_all
  qed
  ultimately have "(divRoundUp (int n) (int PageSize) - int (pages n)) * int PageSize < int PageSize"
    "(int (pages n) - divRoundUp (int n) (int PageSize)) * int PageSize < int PageSize"
    by (simp_all add: left_diff_distrib)
  then have "divRoundUp (int n) (int PageSize) - int (pages n) < 1" "int (pages n) - divRoundUp (int n) (int PageSize) < 1"
    by (simp_all add: mult_less_cancel_right2)
  then show ?thesis by linarith
qed simp

text \<open>Both loops of the constructor have this shape.\<close>

fun page_loop :: "(nat \<Rightarrow> Machine \<Rightarrow> 'w \<Rightarrow> (Machine \<times> 'w) res) \<Rightarrow> nat \<Rightarrow> nat \<Rightarrow> Machine \<Rightarrow> 'w \<Rightarrow> (Machine \<times> 'w) res" where
  "page_loop g i 0 m w = Inr (m, w)"
| "page_loop g i (Suc n) m w = bindR (g i m w) (\<lambda>(m1, w1). page_loop g (Suc i) n m1 w1)"

lemma page_loop_loads:
  assumes g: "\<And>i m w. i < pages (length d) \<Longrightarrow>
      \<exists>m' w'. g i m w = Inr (m', w') \<and> vload m fm (v + i * PageSize) (take PageSize (drop (i * PageSize) d)) m'"
  shows "i + n = pages (length d) \<Longrightarrow>
    \<exists>m' w'. page_loop g i n m w = Inr (m', w') \<and> vload m fm (v + i * PageSize) (drop (i * PageSize) d) m'"
proof (induction n arbitrary: i m w)
  case 0
  then have "drop (i * PageSize) d = []" using pages_bounds(2) [of "length d"] by (cases "d = []") auto
  then show ?case by simp
next
  case (Suc n)
  have i: "i < pages (length d)" using Suc.prems by simp
  from g [OF i] obtain m1 w1 where 1: "g i m w = Inr (m1, w1)"
    "vload m fm (v + i * PageSize) (take PageSize (drop (i * PageSize) d)) m1" by blast
  from Suc.IH [of "Suc i" m1 w1] Suc.prems obtain m2 w2 where 2: "page_loop g (Suc i) n m1 w1 = Inr (m2, w2)"
    "vload m1 fm (v + Suc i * PageSize) (drop (Suc i * PageSize) d) m2" by auto
  have "vload m fm (v + i * PageSize) (take PageSize (drop (i * PageSize) d) @ drop (Suc i * PageSize) d) m2"
  proof (cases "PageSize \<le> length (drop (i * PageSize) d)")
    case True
    then have "v + i * PageSize + length (take PageSize (drop (i * PageSize) d)) = v + Suc i * PageSize" by simp
    then show ?thesis using vload_append [OF 1(2)] 2(2) by metis
  next
    case False
    then have e: "drop (Suc i * PageSize) d = []" by simp
    then have "m2 = m1 \<or> vload m1 fm x [] m2" for x using 2(2) by (auto simp: vload_def)
    then show ?thesis using vload_append [OF 1(2), of "[]" m2] 1(2) e by auto
  qed
  moreover have "take PageSize (drop (i * PageSize) d) @ drop (Suc i * PageSize) d = drop (i * PageSize) d"
    by (simp add: add.commute flip: drop_drop)
  ultimately show ?case using 1(1) 2(1) by auto
qed


section \<open>The sizes the constructor computes\<close>

definition code_size :: "NoffHeader \<Rightarrow> nat" where "code_size h = unat (seg_size (code_seg h))"
definition data_size :: "NoffHeader \<Rightarrow> nat" where "data_size h = unat (seg_size (initData h))"
definition bss_size :: "NoffHeader \<Rightarrow> nat" where "bss_size h = unat (seg_size (uninitData h))"

text \<open>The header of a well-formed executable: the code starts at address 0, its segments lie in the file,
  and nothing is too large for an \<open>int\<close>.\<close>

definition noff_ok :: "NoffHeader \<Rightarrow> bytes \<Rightarrow> bool" where
  "noff_ok h content \<longleftrightarrow> virtualAddr (code_seg h) = 0 \<and>
     code_size h + data_size h + bss_size h + unat UserStackSize < 2 ^ 31 \<and> length content < 2 ^ 31 \<and>
     unat (inFileAddr (code_seg h)) + code_size h \<le> length content \<and>
     unat (inFileAddr (initData h)) + data_size h \<le> length content"

text \<open>The bytes that are free on the last page of the code.\<close>

definition code_gap :: "NoffHeader \<Rightarrow> nat" where
  "code_gap h = pages (code_size h) * PageSize - code_size h"

lemma pages_le: "pages n \<le> n"
proof (cases "n = 0")
  case False
  then have b: "(pages n - 1) * PageSize < n" "0 < pages n" using pages_bounds [of n] by simp_all
  have "pages n - 1 \<le> (pages n - 1) * PageSize" using PageSize_pos by (cases PageSize) auto
  then show ?thesis using b by linarith
qed simp

lemma gap_bound: "code_gap h < PageSize" "code_size h + code_gap h = pages (code_size h) * PageSize"
proof -
  show "code_gap h < PageSize"
  proof (cases "code_size h = 0")
    case False
    then have b: "(pages (code_size h) - 1) * PageSize < code_size h" "0 < pages (code_size h)" using pages_bounds by simp_all
    have "pages (code_size h) * PageSize = (pages (code_size h) - 1) * PageSize + PageSize" using b(2) by (cases "pages (code_size h)") auto
    then show ?thesis using b PageSize_pos unfolding code_gap_def by linarith
  qed (simp add: code_gap_def)
  show "code_size h + code_gap h = pages (code_size h) * PageSize"
    using pages_bounds(2) [of "code_size h"] by (cases "code_size h = 0") (simp_all add: code_gap_def)
qed

lemma unat_of_nat32 [simp]: "n < 2 ^ 32 \<Longrightarrow> unat (of_nat n :: 32 word) = n"
  by (simp add: unat_of_nat)

lemma last_page_word:
  assumes "0 < n" "n < 2 ^ 31"
  shows "sint ((of_nat n :: 32 word) - (of_nat (pages n) - 1) * of_nat PageSize) = int (n - (pages n - 1) * PageSize)"
proof -
  note b = pages_bounds [OF assms(1)]
  have "(of_nat n :: 32 word) - (of_nat (pages n) - 1) * of_nat PageSize = of_nat (n - (pages n - 1) * PageSize)"
    using b by (simp add: of_nat_diff)
  moreover have "unat (of_nat (n - (pages n - 1) * PageSize) :: 32 word) = n - (pages n - 1) * PageSize"
    using assms(2) by (intro unat_of_nat32) simp
  ultimately show ?thesis using assms(2) by (subst sint_positive) simp_all
qed

lemma last_page_size: "0 < n \<Longrightarrow> n - (pages n - 1) * PageSize = PageSize - (pages n * PageSize - n)"
proof -
  assume "0 < n"
  note b = pages_bounds [OF this]
  have "pages n * PageSize = (pages n - 1) * PageSize + PageSize" using b(3) by (cases "pages n") auto
  then show ?thesis using b by linarith
qed

lemma code_numbers:
  assumes "noff_ok h content"
  shows "numCodePage h = of_nat (pages (code_size h))" "lastCodePageSize h = int PageSize - int (code_gap h)"
    "sint (seg_size (code_seg h)) = int (code_size h)"
proof -
  have c: "code_size h < 2 ^ 31" using assms by (simp add: noff_ok_def)
  then show s: "sint (seg_size (code_seg h)) = int (code_size h)" by (simp add: code_size_def sint_positive)
  then show n: "numCodePage h = of_nat (pages (code_size h))" by (simp add: numCodePage_def divRoundUp_pages)
  have w: "seg_size (code_seg h) = of_nat (code_size h)" by (simp add: code_size_def)
  show "lastCodePageSize h = int PageSize - int (code_gap h)"
  proof (cases "code_size h = 0")
    case True
    then show ?thesis using w by (simp add: lastCodePageSize_def n code_gap_def size_defs)
  next
    case False
    then show ?thesis
      using last_page_word [OF _ c] last_page_size [of "code_size h"] gap_bound(1) [of h]
      by (simp add: lastCodePageSize_def n w code_gap_def of_nat_diff)
  qed
qed

lemma code_last:
  assumes "noff_ok h content" "0 < code_size h"
  shows "lastCodePageSize h = int (code_size h - (pages (code_size h) - 1) * PageSize)"
proof -
  have "int (code_size h - (pages (code_size h) - 1) * PageSize) = int (PageSize - code_gap h)"
    using last_page_size [OF assms(2)] by (simp add: code_gap_def)
  then show ?thesis using code_numbers(2) [OF assms(1)] gap_bound(1) [of h] by (simp add: of_nat_diff)
qed

lemma data_numbers:
  assumes "noff_ok h content"
  defines "r \<equiv> data_size h - min (data_size h) (code_gap h)"
  shows "sint (seg_size (initData h)) = int (data_size h)" "firstDataPageSize h = int (min (data_size h) (code_gap h))"
    "numDataPage h = of_nat (pages r)" "0 < r \<Longrightarrow> lastDataPageSize h = int (r - (pages r - 1) * PageSize)"
proof -
  have d: "data_size h < 2 ^ 31" using assms(1) by (simp add: noff_ok_def)
  then show s: "sint (seg_size (initData h)) = int (data_size h)" by (simp add: data_size_def sint_positive)
  note C = code_numbers [OF assms(1)]
  have t: "tempDataSize h = int (data_size h) - int (code_gap h)" by (simp add: tempDataSize_def s C)
  show "firstDataPageSize h = int (min (data_size h) (code_gap h))" by (simp add: firstDataPageSize_def t s C min_def)
  have r: "tempDataSize h = int r" if "\<not> tempDataSize h < 0" using that by (simp add: t r_def min_def)
  show n: "numDataPage h = of_nat (pages r)"
  proof (cases "tempDataSize h < 0")
    case True
    then have "r = 0" by (simp add: t r_def)
    then show ?thesis using True by (simp add: numDataPage_def)
  next
    case False
    then show ?thesis using r [OF False] by (simp add: numDataPage_def divRoundUp_pages)
  qed
  show "lastDataPageSize h = int (r - (pages r - 1) * PageSize)" if "0 < r"
  proof -
    have "\<not> tempDataSize h < 0" using that by (simp add: t r_def)
    then show ?thesis using r last_page_word [OF that] d by (simp add: lastDataPageSize_def n r_def)
  qed
qed

text \<open>The size of chunk \<open>i\<close> of \<open>n\<close> bytes, as the loops compute it.\<close>

lemma chunk_size:
  assumes "0 < n" "n < 2 ^ 31" "i < pages n"
  shows "(if (of_nat i :: 32 word) < of_nat (pages n) - 1 then int PageSize else int (n - (pages n - 1) * PageSize)) =
    int (min PageSize (n - i * PageSize))"
proof -
  note b = pages_bounds [OF assms(1)]
  have e: "(of_nat (pages n) - 1 :: 32 word) = of_nat (pages n - 1)" using b(3) by (simp add: of_nat_diff)
  have "pages n < 2 ^ 32" using pages_le [of n] assms(2) by simp
  then have "unat (of_nat i :: 32 word) = i" "unat (of_nat (pages n - 1) :: 32 word) = pages n - 1"
    using assms(3) by (intro unat_of_nat32; simp)+
  then have w: "(of_nat i :: 32 word) < of_nat (pages n) - 1 \<longleftrightarrow> i < pages n - 1"
    unfolding e word_less_nat_alt by simp
  show ?thesis
  proof (cases "i < pages n - 1")
    case True
    then have "Suc i * PageSize \<le> (pages n - 1) * PageSize" by (intro mult_le_mono1) simp
    then have "PageSize \<le> n - i * PageSize" using b(1) by simp
    then show ?thesis using True w by simp
  next
    case False
    then have i: "i = pages n - 1" using assms(3) by simp
    have "pages n * PageSize = (pages n - 1) * PageSize + PageSize" using b(3) by (cases "pages n") auto
    then have "n - i * PageSize \<le> PageSize" using b(2) i by simp
    then show ?thesis using False w i by simp
  qed
qed

lemma file_position:
  assumes "unat (f :: 32 word) + p < 2 ^ 31"
  shows "sint (f + of_nat p) = int (unat f + p)"
  using assms unat_offset [of f p] by (subst sint_positive) simp_all


section \<open>Loading\<close>

abbreviation code_bytes :: "NoffHeader \<Rightarrow> bytes \<Rightarrow> bytes" where
  "code_bytes h content \<equiv> take (code_size h) (drop (unat (inFileAddr (code_seg h))) content)"

abbreviation data_bytes :: "NoffHeader \<Rightarrow> bytes \<Rightarrow> bytes" where
  "data_bytes h content \<equiv> take (data_size h) (drop (unat (inFileAddr (initData h))) content)"

definition code_page :: "'w Host \<Rightarrow> UnixFile \<Rightarrow> NoffHeader \<Rightarrow> TranslationEntry list \<Rightarrow> nat \<Rightarrow> Machine \<Rightarrow> 'w \<Rightarrow> (Machine \<times> 'w) res" where
  "code_page H exe h pt i m w =
     (if sint (seg_size (code_seg h)) > 0
      then bindR (frame_addr pt (int i)) (\<lambda>a. read_frame H exe (virtualAddr (code_seg h)) a
             (if of_nat i < numCodePage h - 1 then int PageSize else lastCodePageSize h)
             (sint (inFileAddr (code_seg h) + of_nat i * of_nat PageSize)) m w)
      else Inr (m, w))"

definition data_page :: "'w Host \<Rightarrow> UnixFile \<Rightarrow> NoffHeader \<Rightarrow> TranslationEntry list \<Rightarrow> nat \<Rightarrow> nat \<Rightarrow> Machine \<Rightarrow> 'w \<Rightarrow> (Machine \<times> 'w) res" where
  "data_page H exe h pt c j m w =
     (if sint (seg_size (initData h)) > 0
      then bindR (frame_addr pt (int (c + j))) (\<lambda>a. read_frame H exe (virtualAddr (code_seg h)) a
             (if of_nat j < numDataPage h - 1 then int PageSize else lastDataPageSize h)
             (sint (inFileAddr (initData h) + of_nat j * of_nat PageSize + of_int (firstDataPageSize h))) m w)
      else Inr (m, w))"

lemma load_code_loop: "load_code H exe h pt i n m w = page_loop (code_page H exe h pt) i n m w"
proof (induction n arbitrary: i m w)
  case (Suc n)
  have "load_code H exe h pt (Suc i) n = page_loop (code_page H exe h pt) (Suc i) n" by (intro ext) (rule Suc.IH)
  then show ?case by (simp only: load_code.simps page_loop.simps code_page_def [of H exe h pt i m w])
qed simp

lemma load_data_loop: "load_data H exe h pt (c + j) j n m w = page_loop (data_page H exe h pt c) j n m w"
proof (induction n arbitrary: j m w)
  case (Suc n)
  have "load_data H exe h pt (Suc (c + j)) (Suc j) n = page_loop (data_page H exe h pt c) (Suc j) n"
    using Suc.IH [of "Suc j"] by (intro ext) simp
  then show ?case by (simp only: load_data.simps page_loop.simps data_page_def [of H exe h pt c j m w])
qed simp

lemma load_code_loads:
  assumes t: "table_ok pt" and f: "posix_file H (ufile exe) content" and h: "noff_ok h content"
    and l: "pages (code_size h) \<le> length pt"
  shows "\<exists>m' w'. load_code H exe h pt 0 (unat (numCodePage h)) m w = Inr (m', w') \<and>
    vload m (view pt) 0 (code_bytes h content) m'"
proof -
  define c F where "c = code_size h" and "F = unat (inFileAddr (code_seg h))"
  have H: "virtualAddr (code_seg h) = 0" "c < 2 ^ 31" "F + c \<le> length content" "length content < 2 ^ 31"
    using h by (simp_all add: noff_ok_def c_def F_def)
  have len: "length (code_bytes h content) = c" using H by (simp add: c_def F_def)
  have u: "unat (numCodePage h) = pages c"
    using code_numbers(1) [OF h] pages_le [of c] H(2) by (simp add: c_def)
  have "\<exists>m' w'. code_page H exe h pt i m w = Inr (m', w') \<and> vload m (view pt) (0 + i * PageSize) (take PageSize (drop (i * PageSize) (code_bytes h content))) m'"
    if i: "i < pages (length (code_bytes h content))" for i m w
  proof -
    have i: "i < pages c" using that len by simp
    then have c0: "0 < c" by (cases c) simp_all
    have ip: "i * PageSize < c"
      using i pages_bounds(1) [OF c0] by (metis Suc_pred' c0 le_less_trans less_Suc_eq_le mult_le_mono1 pages_bounds(3))
    let ?n = "min PageSize (c - i * PageSize)"
    have nu: "numCodePage h = of_nat (pages c)" using code_numbers(1) [OF h] by (simp only: c_def)
    have la: "lastCodePageSize h = int (c - (pages c - 1) * PageSize)" using code_last [OF h] c0 by (simp only: c_def)
    have sz: "(if of_nat i < numCodePage h - 1 then int PageSize else lastCodePageSize h) = int ?n"
      unfolding nu la by (rule chunk_size [OF c0 H(2) i])
    have pos: "sint (inFileAddr (code_seg h) + of_nat i * of_nat PageSize) = int (F + i * PageSize)"
      using file_position [of "inFileAddr (code_seg h)" "i * PageSize"] H ip by (simp add: F_def)
    have e: "take PageSize (drop (i * PageSize) (code_bytes h content)) = take ?n (drop (F + i * PageSize) content)"
      by (simp add: c_def F_def drop_take add.commute)
    have "F + i * PageSize + ?n \<le> length content" using H ip by linarith
    then show ?thesis
      using load_chunk [OF t f, of "i * PageSize" ?n "F + i * PageSize" m w] i l c0
      unfolding code_page_def sz pos e H(1) by (simp add: code_numbers(3) [OF h] c_def)
  qed
  from page_loop_loads [of "code_bytes h content" "code_page H exe h pt" "view pt" 0, OF this, where i = 0 and n = "pages c" and m = m and w = w] len show ?thesis
    by (simp add: load_code_loop u)
qed

lemma load_data_loads:
  assumes t: "table_ok pt" and f: "posix_file H (ufile exe) content" and h: "noff_ok h content"
  defines "q \<equiv> min (data_size h) (code_gap h)"
  assumes l: "pages (code_size h) + pages (data_size h - q) \<le> length pt"
  shows "\<exists>m' w'. load_data H exe h pt (unat (numCodePage h)) 0 (unat (numDataPage h)) m w = Inr (m', w') \<and>
    vload m (view pt) (pages (code_size h) * PageSize) (drop q (data_bytes h content)) m'"
proof -
  define r c G where "r = data_size h - q" and "c = pages (code_size h)" and "G = unat (inFileAddr (initData h))"
  have H: "virtualAddr (code_seg h) = 0" "data_size h < 2 ^ 31" "code_size h < 2 ^ 31" "G + data_size h \<le> length content" "length content < 2 ^ 31"
    using h by (simp_all add: noff_ok_def G_def)
  have q: "q \<le> data_size h" "q + r = data_size h" by (simp_all add: q_def r_def)
  note D = data_numbers [OF h, folded q_def, folded r_def]
  have len: "length (drop q (data_bytes h content)) = r" using H by (simp add: r_def G_def)
  have rl: "r < 2 ^ 31" using H(2) by (simp add: r_def)
  have u: "unat (numDataPage h) = pages r" "unat (numCodePage h) = c"
    using D(3) pages_le [of r] rl code_numbers(1) [OF h] pages_le [of "code_size h"] H(3) by (simp_all add: c_def)
  have "\<exists>m' w'. data_page H exe h pt c j m w = Inr (m', w') \<and>
      vload m (view pt) (c * PageSize + j * PageSize) (take PageSize (drop (j * PageSize) (drop q (data_bytes h content)))) m'"
    if "j < pages (length (drop q (data_bytes h content)))" for j m w
  proof -
    have j: "j < pages r" using that len by simp
    then have r0: "0 < r" by (cases r) simp_all
    have jp: "j * PageSize < r"
      using j pages_bounds(1) [OF r0] by (metis Suc_pred' r0 le_less_trans less_Suc_eq_le mult_le_mono1 pages_bounds(3))
    let ?n = "min PageSize (r - j * PageSize)"
    have sz: "(if of_nat j < numDataPage h - 1 then int PageSize else lastDataPageSize h) = int ?n"
      unfolding D(3) D(4) [OF r0] by (rule chunk_size [OF r0 rl j])
    have "sint (inFileAddr (initData h) + of_nat (j * PageSize + q)) = int (G + (j * PageSize + q))"
      using file_position [of "inFileAddr (initData h)" "j * PageSize + q"] H jp q by (simp add: G_def)
    then have pos: "sint (inFileAddr (initData h) + of_nat j * of_nat PageSize + of_int (firstDataPageSize h)) = int (G + (j * PageSize + q))"
      by (simp add: D(2) add.assoc)
    have e: "take PageSize (drop (j * PageSize) (drop q (data_bytes h content))) = take ?n (drop (G + (j * PageSize + q)) content)"
      by (simp add: G_def r_def drop_take add.commute add.left_commute diff_diff_eq min.commute)
    have "G + (j * PageSize + q) + ?n \<le> length content" using H jp q by linarith
    moreover have "c * PageSize + j * PageSize = (c + j) * PageSize" by (simp add: add_mult_distrib)
    ultimately show ?thesis
      using load_chunk [OF t f, of "(c + j) * PageSize" ?n "G + (j * PageSize + q)" m w] j l q r0
      unfolding data_page_def sz pos e H(1) by (simp add: D(1) c_def r_def)
  qed
  from page_loop_loads [of "drop q (data_bytes h content)" "data_page H exe h pt c" "view pt" "c * PageSize", OF this,
      where i = 0 and n = "pages r" and m = m and w = w] len show ?thesis
    using load_data_loop [of H exe h pt c 0] by (simp add: u c_def)
qed

lemma load_first_data_loads:
  assumes t: "table_ok pt" and f: "posix_file H (ufile exe) content" and h: "noff_ok h content"
    and l: "pages (code_size h) \<le> length pt"
  defines "q \<equiv> min (data_size h) (code_gap h)"
  shows "\<exists>m' w'. load_first_data H exe h pt m w = Inr (m', w') \<and> vload m (view pt) (code_size h) (take q (data_bytes h content)) m'"
proof -
  define c where "c = code_size h"
  note D = data_numbers(2) [OF h, folded q_def] and C = code_numbers [OF h, folded c_def]
  note g = gap_bound [of h, folded c_def]
  show ?thesis
  proof (cases "0 < code_gap h \<and> 0 < q")
    case False
    then have "q = 0" by (auto simp: q_def)
    then show ?thesis using D by (simp add: load_first_data_def)
  next
    case True
    have c0: "0 < c" using True g(2) by (cases "c = 0") (auto simp: code_gap_def c_def)
    have p0: "0 < pages c" by (rule pages_bounds(3) [OF c0])
    then have p: "pages c * PageSize = (pages c - 1) * PageSize + PageSize" "0 < pages c" by (cases "pages c", auto)
    have e: "c = (pages c - 1) * PageSize + (PageSize - code_gap h)" using p g by linarith
    have lt: "PageSize - code_gap h < PageSize" using True by simp
    have dv: "c div PageSize = pages c - 1" "c mod PageSize = PageSize - code_gap h"
      using lt by (subst e, simp)+
    have u: "unat (numCodePage h) = pages c" using C(1) pages_le [of c] h by (simp add: noff_ok_def c_def)
    have i: "int (unat (numCodePage h)) - 1 = int (c div PageSize)" using p(2) by (simp add: u dv of_nat_diff)
    have o: "lastCodePageSize h = int (c mod PageSize)" using C(2) g(1) by (simp add: dv of_nat_diff)
    have V: "virtualAddr (code_seg h) = 0" "unat (inFileAddr (initData h)) + q \<le> length content" "unat (inFileAddr (initData h)) < 2 ^ 31"
      using h True by (auto simp: noff_ok_def q_def)
    have cond: "lastCodePageSize h < int PageSize \<and> firstDataPageSize h > 0" using True lt by (simp add: o D dv)
    have tk: "take q (data_bytes h content) = take q (drop (unat (inFileAddr (initData h))) content)" by (simp add: q_def)
    show ?thesis
      using load_chunk [OF t f, of c q "unat (inFileAddr (initData h))" m w] l p(2) V cond g(1) True
      unfolding load_first_data_def i o D tk c_def [symmetric] sint_positive [OF V(3)] by (simp add: dv q_def)
  qed
qed

lemma pages_mono: "m \<le> n \<Longrightarrow> pages m \<le> pages n"
  by (simp add: pages_def div_le_mono)

lemma pages_add: "pages (k * PageSize + r) = k + pages r"
  by (simp add: pages_def add.assoc)

lemma load_program_loads:
  assumes t: "table_ok pt" and f: "posix_file H (ufile exe) content" and h: "noff_ok h content"
    and l: "pages (code_size h + data_size h) \<le> length pt"
  shows "\<exists>m' w'. load_program H exe h pt m w = Inr (m', w') \<and> vload m (view pt) 0 (code_bytes h content @ data_bytes h content) m'"
proof -
  define q where "q = min (data_size h) (code_gap h)"
  note g = gap_bound [of h]
  have "pages (code_size h) + pages (data_size h - q) \<le> pages (code_size h + data_size h)"
  proof (cases "data_size h \<le> code_gap h")
    case True
    then show ?thesis by (simp add: q_def pages_mono)
  next
    case False
    then have "code_size h + data_size h = pages (code_size h) * PageSize + (data_size h - q)" using g(2) by (simp add: q_def)
    then show ?thesis by (simp add: pages_add)
  qed
  then have l2: "pages (code_size h) + pages (data_size h - q) \<le> length pt" using l by simp
  have l1: "pages (code_size h) \<le> length pt" using l2 by simp
  obtain m1 w1 where 1: "load_code H exe h pt 0 (unat (numCodePage h)) m w = Inr (m1, w1)" "vload m (view pt) 0 (code_bytes h content) m1"
    using load_code_loads [OF t f h l1] by blast
  obtain m2 w2 where 2: "load_first_data H exe h pt m1 w1 = Inr (m2, w2)" "vload m1 (view pt) (code_size h) (take q (data_bytes h content)) m2"
    using load_first_data_loads [OF t f h l1] unfolding q_def by blast
  obtain m3 w3 where 3: "load_data H exe h pt (unat (numCodePage h)) 0 (unat (numDataPage h)) m2 w2 = Inr (m3, w3)"
    "vload m2 (view pt) (pages (code_size h) * PageSize) (drop q (data_bytes h content)) m3"
    using load_data_loads [OF t f h l2 [unfolded q_def]] unfolding q_def by blast
  have len: "length (code_bytes h content) = code_size h" "length (data_bytes h content) = data_size h"
    using h by (auto simp: noff_ok_def)
  have "vload m2 (view pt) (code_size h + q) (drop q (data_bytes h content)) m3"
  proof (cases "data_size h \<le> code_gap h")
    case True
    then have "drop q (data_bytes h content) = []" by (simp add: q_def)
    then show ?thesis using 3(2) by (auto simp: vload_def)
  next
    case False
    then show ?thesis using 3(2) g(2) by (simp add: q_def)
  qed
  moreover have "length (take q (data_bytes h content)) = q" using len(2) by (simp add: q_def)
  ultimately have "vload m1 (view pt) (code_size h) (take q (data_bytes h content) @ drop q (data_bytes h content)) m3"
    using vload_append [OF 2(2)] by simp
  then have "vload m1 (view pt) (0 + length (code_bytes h content)) (data_bytes h content) m3"
    unfolding len by (simp only: append_take_drop_id add_0)
  from vload_append [OF 1(2) this] show ?thesis using 1(1) 2(1) 3(1) by (simp add: load_program_def)
qed


section \<open>Allocation\<close>

lemma entry_view_make [simp]:
  "entry_view \<lparr>virtualPage = v, physicalPage = p, valid = a, readOnly = b, use = c, dirty = d\<rparr> = (p, a, b)"
  by (simp add: entry_view_def)

lemma alloc_pages_frames:
  assumes "find_n BitMap_Find n bm = Inr (map int is, bm')" "\<forall>j\<in>set is. j < NumPhysPages"
  shows "\<exists>pt m'. alloc_pages i n bm m = Inr (pt, bm', m') \<and> view pt = map (\<lambda>j. (of_nat j, True, False)) is \<and>
    m' = m\<lparr>mainMemory := (\<lambda>a. if a div PageSize \<in> set is then 0 else mainMemory m a)\<rparr>"
  using assms
proof (induction n arbitrary: i bm m "is")
  case 0
  then show ?case by simp
next
  case (Suc n)
  obtain j js bm1 where f: "BitMap_Find bm = Inr (int j, bm1)" "find_n BitMap_Find n bm1 = Inr (map int js, bm')" "is = j # js"
    using Suc.prems(1) by (auto elim!: bindR_InrE simp: map_eq_Cons_conv Cons_eq_map_conv)
  have j: "j < NumPhysPages" "\<forall>i\<in>set js. i < NumPhysPages" using Suc.prems(2) f(3) by simp_all
  let ?m = "bzero (j * PageSize) PageSize m"
  from Suc.IH [OF f(2) j(2), of "Suc i" ?m] obtain pt where
    pt: "alloc_pages (Suc i) n bm1 ?m = Inr (pt, bm', ?m\<lparr>mainMemory := (\<lambda>a. if a div PageSize \<in> set js then 0 else mainMemory ?m a)\<rparr>)"
      "view pt = map (\<lambda>j. (of_nat j, True, False)) js" by blast
  have z: "(j * PageSize \<le> a \<and> a < j * PageSize + PageSize) \<longleftrightarrow> a div PageSize = j" for a
    by (metis add.commute div_nat_eqI mult.commute mult_Suc_right div_times_less_eq_dividend dividend_less_div_times PageSize_pos)
  have "(\<lambda>a. if a div PageSize \<in> set js then 0 else mainMemory ?m a) = (\<lambda>a. if a div PageSize \<in> set is then 0 else mainMemory m a)"
    by (rule ext) (simp add: bzero_def z f(3))
  then have "?m\<lparr>mainMemory := (\<lambda>a. if a div PageSize \<in> set js then 0 else mainMemory ?m a)\<rparr> =
      m\<lparr>mainMemory := (\<lambda>a. if a div PageSize \<in> set is then 0 else mainMemory m a)\<rparr>" by (simp add: bzero_def)
  then show ?case using f pt j(1) by (simp add: Let_def)
qed

lemma frames_table_ok:
  assumes "view pt = map (\<lambda>j. (of_nat j, True, False)) is" "distinct is" "\<forall>j\<in>set is. j < NumPhysPages"
  shows "table_ok pt" "map frame_of (view pt) = is"
proof -
  have small: "unat (of_nat j :: 32 word) = j" if "j \<in> set is" for j
    using assms(3) that by (intro unat_of_nat32) (auto simp: NumPhysPages_def)
  show e: "map frame_of (view pt) = is"
    unfolding assms(1) by (simp add: comp_def frame_of_def small map_idI)
  have "unat (physicalPage x) < NumPhysPages" if "x \<in> set pt" for x
  proof -
    have "frame_of (entry_view x) \<in> set is" using that e by (metis image_eqI list.set_map)
    then show ?thesis using assms(3) by (simp add: frame_of_def entry_view_def)
  qed
  then show "table_ok pt" using e assms(2) by (simp add: table_ok_def)
qed


section \<open>Properties\<close>

lemma space_pages_pages:
  assumes "noff_ok h content"
  shows "space_pages h = pages (code_size h + data_size h + bss_size h + unat UserStackSize)"
proof -
  have "unat (seg_size (code_seg h) + seg_size (initData h) + seg_size (uninitData h) + UserStackSize) =
      code_size h + data_size h + bss_size h + unat UserStackSize"
    using assms by (simp add: noff_ok_def code_size_def data_size_def bss_size_def unat_word_ariths)
  then have "uint (seg_size (code_seg h) + seg_size (initData h) + seg_size (uninitData h) + UserStackSize) =
      int (code_size h + data_size h + bss_size h + unat UserStackSize)" by (metis uint_nat)
  then show ?thesis unfolding space_pages_def Let_def by (simp only: divRoundUp_pages nat_int)
qed

lemma program_loads:
  assumes "BitMap_ok bm" "numBits bm = int NumPhysPages" "BitMap_NumClear bm = Inr free" "int (space_pages h) \<le> free"
    "noff_ok h content" "posix_file H (ufile exe) content"
  shows "\<exists>is pt bm' m1 m2 w'. alloc_pages 0 (space_pages h) bm m = Inr (pt, bm', m1) \<and>
    load_program H exe h pt m1 w = Inr (m2, w') \<and>
    view pt = map (\<lambda>j. (of_nat j, True, False)) is \<and> length is = space_pages h \<and> distinct is \<and>
    (\<forall>j\<in>set is. j < NumPhysPages \<and> \<not> BitMap_bits bm ! j) \<and> BitMap_ok bm' \<and>
    (\<forall>j<NumPhysPages. BitMap_bits bm' ! j = (BitMap_bits bm ! j \<or> j \<in> set is)) \<and>
    (\<forall>v < space_pages h * PageSize. vbyte m2 (view pt) v =
       (if v < code_size h then content ! (unat (inFileAddr (code_seg h)) + v)
        else if v < code_size h + data_size h then content ! (unat (inFileAddr (initData h)) + (v - code_size h)) else 0)) \<and>
    (\<forall>a. a div PageSize \<notin> set is \<longrightarrow> mainMemory m2 a = mainMemory m a)"
proof -
  have "space_pages h \<le> count_list (BitMap_bits bm) False"
    using assms(3,4) bitmap.numClear_eq [OF assms(1)] by simp
  from bitmap.find_n_allocates [OF assms(1) this] assms(2) obtain "is" bm' where
    A: "find_n BitMap_Find (space_pages h) bm = Inr (map int is, bm')" "length is = space_pages h" "distinct is"
      "\<forall>j\<in>set is. j < NumPhysPages \<and> \<not> BitMap_bits bm ! j" "BitMap_ok bm'"
      "\<forall>j<NumPhysPages. BitMap_bits bm' ! j = (BitMap_bits bm ! j \<or> j \<in> set is)"
    by auto
  have lt: "\<forall>j\<in>set is. j < NumPhysPages" using A(4) by blast
  let ?m1 = "m\<lparr>mainMemory := (\<lambda>a. if a div PageSize \<in> set is then 0 else mainMemory m a)\<rparr>"
  from alloc_pages_frames [OF A(1) lt, of 0 m] obtain pt where
    P: "alloc_pages 0 (space_pages h) bm m = Inr (pt, bm', ?m1)" "view pt = map (\<lambda>j. (of_nat j, True, False)) is" by blast
  note T = frames_table_ok [OF P(2) A(3) lt]
  have len: "length pt = space_pages h" using P(2) A(2) by (metis length_map)
  have "pages (code_size h + data_size h) \<le> length pt"
    unfolding len space_pages_pages [OF assms(5)] by (rule pages_mono) simp
  from load_program_loads [OF T(1) assms(6,5) this, of ?m1 w] obtain m2 w' where
    L: "load_program H exe h pt ?m1 w = Inr (m2, w')" "vload ?m1 (view pt) 0 (code_bytes h content @ data_bytes h content) m2" by blast
  have cl: "length (code_bytes h content) = code_size h" "length (data_bytes h content) = data_size h"
    using assms(5) by (auto simp: noff_ok_def)
  have seen: "vbyte m2 (view pt) v = (if v < code_size h then content ! (unat (inFileAddr (code_seg h)) + v)
      else if v < code_size h + data_size h then content ! (unat (inFileAddr (initData h)) + (v - code_size h)) else 0)"
    if v: "v < space_pages h * PageSize" for v
  proof -
    have d: "v div PageSize < length (view pt)" using v len by (simp add: less_mult_imp_div_less)
    have "frame_of (view pt ! (v div PageSize)) \<in> set is" using d T(2) by (metis length_map nth_map nth_mem)
    then have z: "vbyte ?m1 (view pt) v = 0" by (simp add: vbyte_def)
    have "vbyte m2 (view pt) v = (if v < code_size h + data_size h then (code_bytes h content @ data_bytes h content) ! v else 0)"
      using L(2) d z cl unfolding vload_def by (metis (no_types, lifting) add_0 diff_zero le0 length_append)
    then show ?thesis using cl assms(5) by (auto simp: nth_append noff_ok_def)
  qed
  have "mainMemory m2 a = mainMemory m a" if "a div PageSize \<notin> set is" for a
    using L(2) that unfolding vload_def T(2) by simp
  then show ?thesis using P L(1) A seen by blast
qed

text \<open>C21. A program is loaded into an address space of its own: if enough frames are free, every page gets a
  different frame that was free and is now marked; through the new table the program sees its code, then its
  initialised data, then zeros up to the end of its stack; and no byte outside those frames changes.\<close>

theorem program_load_correct:
  assumes "BitMap_ok bm" "numBits bm = int NumPhysPages" "BitMap_NumClear bm = Inr free" "int (space_pages h) \<le> free"
    "noff_ok h content" "posix_file H (ufile exe) content"
  shows "\<exists>is pt bm' m1 m2 w'. alloc_pages 0 (space_pages h) bm m = Inr (pt, bm', m1) \<and>
    load_program H exe h pt m1 w = Inr (m2, w') \<and>
    view pt = map (\<lambda>j. (of_nat j, True, False)) is \<and> length is = space_pages h \<and> distinct is \<and>
    (\<forall>j\<in>set is. j < NumPhysPages \<and> \<not> BitMap_bits bm ! j) \<and> BitMap_ok bm' \<and>
    (\<forall>j<NumPhysPages. BitMap_bits bm' ! j = (BitMap_bits bm ! j \<or> j \<in> set is)) \<and>
    (\<forall>v < space_pages h * PageSize. vbyte m2 (view pt) v =
       (if v < code_size h then content ! (unat (inFileAddr (code_seg h)) + v)
        else if v < code_size h + data_size h then content ! (unat (inFileAddr (initData h)) + (v - code_size h)) else 0)) \<and>
    (\<forall>a. a div PageSize \<notin> set is \<longrightarrow> mainMemory m2 a = mainMemory m a)"
  using assms by (rule program_loads)

text \<open>A host whose world is the position in one file.\<close>

definition sample_file_host :: "bytes \<Rightarrow> nat Host" where
  "sample_file_host content = \<lparr>sys_open = (\<lambda>_ _ w. (3, w)),
     sys_read = (\<lambda>_ n w. ((int (length (take (nat n) (drop w content))), take (nat n) (drop w content)), w + nat n)),
     sys_write = (\<lambda>_ _ n w. (n, w)), sys_lseek = (\<lambda>_ off _ w. (off, nat off)), sys_close = (\<lambda>_ w. (0, w)),
     sys_unlink = (\<lambda>_ w. (0, w)), sys_select = (\<lambda>_ _ w. (0, w)), sys_rand = (\<lambda>w. (0, w)), sys_fgets = (\<lambda>w. ([10], w))\<rparr>"

definition sample_noff :: NoffHeader where
  "sample_noff = \<lparr>noffMagic = NOFFMAGIC, code_seg = \<lparr>virtualAddr = 0, inFileAddr = 0, seg_size = 3\<rparr>,
     initData = \<lparr>virtualAddr = 3, inFileAddr = 3, seg_size = 2\<rparr>, uninitData = \<lparr>virtualAddr = 5, inFileAddr = 0, seg_size = 0\<rparr>\<rparr>"

lemma count_replicate [simp]: "count_list (replicate n x) x = n"
  by (induction n) auto

lemma empty_bitmap: "\<exists>bm. BitMap_ok bm \<and> numBits bm = int NumPhysPages \<and> BitMap_NumClear bm = Inr 128"
proof -
  obtain bm where bm: "BitMap_ok bm" "numBits bm = int NumPhysPages" "BitMap_bits bm = replicate 128 False"
    using BitMap_new_spec [of "int NumPhysPages"] by (auto simp: NumPhysPages_def)
  then show ?thesis using bitmap.numClear_eq [OF bm(1)] by auto
qed

theorem program_load_correct_witness:
  "\<exists>bm pt bm' m1 m2 w'. alloc_pages 0 (space_pages sample_noff) bm (sample_machine []) = Inr (pt, bm', m1) \<and>
     load_program (sample_file_host [11, 12, 13, 21, 22]) \<lparr>ufile = 3, uoffset = 0, utype = 0\<rparr> sample_noff pt m1 0 = Inr (m2, w') \<and>
     vbyte m2 (view pt) 2 = 13 \<and> vbyte m2 (view pt) 4 = 22"
proof -
  obtain bm where bm: "BitMap_ok bm" "numBits bm = int NumPhysPages" and free: "BitMap_NumClear bm = Inr 128"
    using empty_bitmap by blast
  have h: "noff_ok sample_noff [11, 12, 13, 21, 22]"
    by (simp add: noff_ok_def sample_noff_def code_size_def data_size_def bss_size_def UserStackSize_def)
  have sp: "space_pages sample_noff = 3"
    using space_pages_pages [OF h] by (simp add: pages_def sample_noff_def code_size_def data_size_def bss_size_def UserStackSize_def size_defs)
  have f: "posix_file (sample_file_host [11, 12, 13, 21, 22]) (ufile \<lparr>ufile = 3, uoffset = 0, utype = 0\<rparr>) [11, 12, 13, 21, 22]"
    by (simp add: posix_file_def sample_file_host_def)
  have s: "code_size sample_noff = 3" "data_size sample_noff = 2"
    "unat (inFileAddr (code_seg sample_noff)) = 0" "unat (inFileAddr (initData sample_noff)) = 3" by (simp_all add: sample_noff_def code_size_def data_size_def)
  have "int (space_pages sample_noff) \<le> 128" by (simp add: sp)
  from program_load_correct [OF bm(1,2) free this h f, of "sample_machine []" 0] obtain pt bm' m1 m2 w' where
    L: "alloc_pages 0 (space_pages sample_noff) bm (sample_machine []) = Inr (pt, bm', m1)"
      "load_program (sample_file_host [11, 12, 13, 21, 22]) \<lparr>ufile = 3, uoffset = 0, utype = 0\<rparr> sample_noff pt m1 0 = Inr (m2, w')"
      "\<forall>v < space_pages sample_noff * PageSize. vbyte m2 (view pt) v =
        (if v < code_size sample_noff then [11, 12, 13, 21, 22] ! (unat (inFileAddr (code_seg sample_noff)) + v)
         else if v < code_size sample_noff + data_size sample_noff
         then [11, 12, 13, 21, 22] ! (unat (inFileAddr (initData sample_noff)) + (v - code_size sample_noff)) else 0)"
    by blast
  have "vbyte m2 (view pt) 2 = 13 \<and> vbyte m2 (view pt) 4 = 22"
    using L(3) [rule_format, of 2] L(3) [rule_format, of 4] by (simp add: sp s size_defs)
  then show ?thesis using L(1,2) by blast
qed

end
