(* ===== verification/Coff_Convert.thy ===== *)
theory Coff_Convert
  imports Program_Load File_Header
begin

text \<open>
  The tools that turn an object file in the MIPS COFF format into a program Nachos can load
  (\<^verbatim>\<open>bin/coff2noff.c\<close>, \<^verbatim>\<open>bin/coff2flat.c\<close>, \<^verbatim>\<open>bin/coff.h\<close>).  Each is a host process: it ends with an
  exit status, and the calls of the host are those of \<open>Host\<close>.  Structures have the layout of the
  32-bit little-endian host the tools are built for.  Messages on the terminal are left out.

  The main result joins the converter and the loader: an object file that is converted and then loaded
  is seen by the program as its text section followed by its data section.
\<close>


section \<open>The object file\<close>

text \<open>\<open>OMAGIC\<close> is 0407 in octal.\<close>

definition MIPSELMAGIC :: "16 word" where "MIPSELMAGIC = 0x0162"
definition OMAGIC :: "16 word" where "OMAGIC = 263"

record filehdr =
  f_magic :: "16 word"
  f_nscns :: "16 word"
  f_timdat :: "32 word"
  f_symptr :: "32 word"
  f_nsyms :: "32 word"
  f_opthdr :: "16 word"
  f_flags :: "16 word"

record aouthdr =
  magic :: "16 word"
  vstamp :: "16 word"
  tsize :: "32 word"
  dsize :: "32 word"
  bsize :: "32 word"
  a_entry :: "32 word"
  text_start :: "32 word"
  data_start :: "32 word"
  bss_start :: "32 word"
  gprmask :: "32 word"
  cprmask :: "32 word list"
  gp_value :: "32 word"

record scnhdr =
  s_name :: bytes
  s_paddr :: "32 word"
  s_vaddr :: "32 word"
  s_size :: "32 word"
  s_scnptr :: "32 word"
  s_relptr :: "32 word"
  s_lnnoptr :: "32 word"
  s_nreloc :: "16 word"
  s_nlnno :: "16 word"
  s_flags :: "32 word"

definition half_at :: "bytes \<Rightarrow> nat \<Rightarrow> 16 word" where
  "half_at bs i = ucast (mem16 (\<lambda>j. bs ! j) i)"

definition filehdr_of :: "bytes \<Rightarrow> filehdr" where
  "filehdr_of bs = \<lparr>f_magic = half_at bs 0, f_nscns = half_at bs 2, f_timdat = word_at bs 4, f_symptr = word_at bs 8,
     f_nsyms = word_at bs 12, f_opthdr = half_at bs 16, f_flags = half_at bs 18\<rparr>"

definition aouthdr_of :: "bytes \<Rightarrow> aouthdr" where
  "aouthdr_of bs = \<lparr>magic = half_at bs 0, vstamp = half_at bs 2, tsize = word_at bs 4, dsize = word_at bs 8,
     bsize = word_at bs 12, a_entry = word_at bs 16, text_start = word_at bs 20, data_start = word_at bs 24,
     bss_start = word_at bs 28, gprmask = word_at bs 32, cprmask = map (\<lambda>i. word_at bs (36 + 4 * i)) [0..<4],
     gp_value = word_at bs 52\<rparr>"

definition scnhdr_of :: "bytes \<Rightarrow> scnhdr" where
  "scnhdr_of bs = \<lparr>s_name = take 8 bs, s_paddr = word_at bs 8, s_vaddr = word_at bs 12, s_size = word_at bs 16,
     s_scnptr = word_at bs 20, s_relptr = word_at bs 24, s_lnnoptr = word_at bs 28, s_nreloc = half_at bs 32,
     s_nlnno = half_at bs 34, s_flags = word_at bs 36\<rparr>"

text \<open>The array of \<open>n\<close> section headers.\<close>

fun scnhdrs_of :: "nat \<Rightarrow> bytes \<Rightarrow> scnhdr list" where
  "scnhdrs_of 0 bs = []"
| "scnhdrs_of (Suc n) bs = scnhdr_of (take 40 bs) # scnhdrs_of n (drop 40 bs)"

text \<open>\<open>strcmp\<close> of a section name with a literal shorter than eight characters: it decides within the
  eight bytes of the name, terminated or not.\<close>

definition named :: "scnhdr \<Rightarrow> string \<Rightarrow> bool" where
  "named s lit \<longleftrightarrow> take (Suc (length lit)) (s_name s) = cstr lit @ [0]"


section \<open>Processes that end\<close>

text \<open>\<open>Exited n w\<close>: the process called \<open>exit(n)\<close> and left the world \<open>w\<close>.  \<open>Null_name\<close>: it passed the
  null pointer that ends \<open>argv\<close> to the host as a file name.\<close>

datatype 'w ended = Exited int 'w | Null_name

fun bindX :: "'e + 'a \<Rightarrow> ('a \<Rightarrow> 'e + 'b) \<Rightarrow> 'e + 'b" where
  "bindX (Inl e) f = Inl e"
| "bindX (Inr x) f = f x"

definition ShortToHost :: "16 word \<Rightarrow> 16 word" where
  "ShortToHost w = w"


section \<open>coff2noff\<close>

definition noff_fail :: "'w Host \<Rightarrow> bytes \<Rightarrow> 'w \<Rightarrow> 'w ended + 'a" where
  "noff_fail H noffFileName w = Inl (Exited 1 (snd (sys_unlink H noffFileName w)))"

definition noff_Read :: "'w Host \<Rightarrow> bytes \<Rightarrow> int \<Rightarrow> int \<Rightarrow> 'w \<Rightarrow> 'w ended + (bytes \<times> 'w)" where
  "noff_Read H noffFileName fd nBytes w =
     (let ((n, d), w1) = sys_read H fd nBytes w in
      if n \<noteq> nBytes then noff_fail H noffFileName w1 else Inr (d, w1))"

definition noff_Write :: "'w Host \<Rightarrow> bytes \<Rightarrow> int \<Rightarrow> bytes \<Rightarrow> int \<Rightarrow> 'w \<Rightarrow> 'w ended + 'w" where
  "noff_Write H noffFileName fd buf nBytes w =
     (let (n, w1) = sys_write H fd buf nBytes w in
      if n \<noteq> nBytes then noff_fail H noffFileName w1 else Inr w1)"

text \<open>Copying the contents of a section to the end of the output.\<close>

definition copy_section :: "'w Host \<Rightarrow> bytes \<Rightarrow> int \<Rightarrow> int \<Rightarrow> scnhdr \<Rightarrow> 'w \<Rightarrow> 'w ended + 'w" where
  "copy_section H noffFileName fdIn fdOut s w =
     (let w1 = snd (sys_lseek H fdIn (sint (s_scnptr s)) SEEK_SET w) in
      bindX (noff_Read H noffFileName fdIn (sint (s_size s)) w1) (\<lambda>(buffer, w2).
      noff_Write H noffFileName fdOut buffer (sint (s_size s)) w2))"

definition new_segment :: "scnhdr \<Rightarrow> 32 word \<Rightarrow> Segment" where
  "new_segment s inNoffFile = \<lparr>virtualAddr = s_paddr s, inFileAddr = inNoffFile, seg_size = s_size s\<rparr>"

text \<open>The body of the loop over the sections; the state is the header, the position in the output file
  and the world.\<close>

definition convert_section :: "'w Host \<Rightarrow> bytes \<Rightarrow> int \<Rightarrow> int \<Rightarrow> scnhdr \<Rightarrow> NoffHeader \<Rightarrow> 32 word \<Rightarrow> 'w \<Rightarrow>
    'w ended + (NoffHeader \<times> 32 word \<times> 'w)" where
  "convert_section H noffFileName fdIn fdOut s noffH inNoffFile w =
     (if s_size s = 0 then Inr (noffH, inNoffFile, w)
      else if named s ''.text'' then
        bindX (copy_section H noffFileName fdIn fdOut s w) (\<lambda>w1.
        Inr (noffH\<lparr>code_seg := new_segment s inNoffFile\<rparr>, inNoffFile + s_size s, w1))
      else if named s ''.data'' \<or> named s ''.rdata'' then
        if seg_size (initData noffH) \<noteq> 0 then noff_fail H noffFileName w
        else
          bindX (copy_section H noffFileName fdIn fdOut s w) (\<lambda>w1.
          Inr (noffH\<lparr>initData := new_segment s inNoffFile\<rparr>, inNoffFile + s_size s, w1))
      else if named s ''.bss'' \<or> named s ''.sbss'' then
        let u = uninitData noffH in
        if seg_size u \<noteq> 0 then
          if s_paddr s = virtualAddr u + seg_size u then noff_fail H noffFileName w
          else Inr (noffH\<lparr>uninitData := u\<lparr>seg_size := seg_size u + s_size s\<rparr>\<rparr>, inNoffFile, w)
        else Inr (noffH\<lparr>uninitData := u\<lparr>virtualAddr := s_paddr s, seg_size := s_size s\<rparr>\<rparr>, inNoffFile, w)
      else noff_fail H noffFileName w)"

fun convert_sections :: "'w Host \<Rightarrow> bytes \<Rightarrow> int \<Rightarrow> int \<Rightarrow> scnhdr list \<Rightarrow> NoffHeader \<Rightarrow> 32 word \<Rightarrow> 'w \<Rightarrow>
    'w ended + (NoffHeader \<times> 32 word \<times> 'w)" where
  "convert_sections H nm fdIn fdOut [] noffH inNoffFile w = Inr (noffH, inNoffFile, w)"
| "convert_sections H nm fdIn fdOut (s # ss) noffH inNoffFile w =
     bindX (convert_section H nm fdIn fdOut s noffH inNoffFile w) (\<lambda>(noffH1, inNoffFile1, w1).
     convert_sections H nm fdIn fdOut ss noffH1 inNoffFile1 w1)"

definition segment_bytes :: "Segment \<Rightarrow> bytes" where
  "segment_bytes s = words_bytes [virtualAddr s, inFileAddr s, seg_size s]"

definition noff_bytes :: "NoffHeader \<Rightarrow> bytes" where
  "noff_bytes h = word_bytes (noffMagic h) @ segment_bytes (code_seg h) @ segment_bytes (initData h) @
     segment_bytes (uninitData h)"

definition swap_scnhdr :: "scnhdr \<Rightarrow> scnhdr" where
  "swap_scnhdr s = s\<lparr>s_paddr := WordToHost (s_paddr s), s_size := WordToHost (s_size s), s_scnptr := WordToHost (s_scnptr s)\<rparr>"

text \<open>The header on the stack starts with arbitrary contents \<open>stack_header\<close>; four of its fields are set
  before the loop.\<close>

definition start_header :: "NoffHeader \<Rightarrow> NoffHeader" where
  "start_header stack_header = stack_header\<lparr>noffMagic := NOFFMAGIC,
     code_seg := (code_seg stack_header)\<lparr>seg_size := 0\<rparr>,
     initData := (initData stack_header)\<lparr>seg_size := 0\<rparr>,
     uninitData := (uninitData stack_header)\<lparr>seg_size := 0\<rparr>\<rparr>"

text \<open>\<open>main\<close> after the files are open.\<close>

definition coff2noff_files :: "'w Host \<Rightarrow> NoffHeader \<Rightarrow> bytes \<Rightarrow> int \<Rightarrow> int \<Rightarrow> 'w \<Rightarrow> 'w ended + 'w" where
  "coff2noff_files H stack_header noffFileName fdIn fdOut w =
     bindX (noff_Read H noffFileName fdIn 20 w) (\<lambda>(d, w1).
     let fileh = filehdr_of d in
     if ShortToHost (f_magic fileh) \<noteq> MIPSELMAGIC then noff_fail H noffFileName w1
     else bindX (noff_Read H noffFileName fdIn 56 w1) (\<lambda>(d, w2).
     let systemh = aouthdr_of d in
     if ShortToHost (magic systemh) \<noteq> OMAGIC then noff_fail H noffFileName w2
     else
       let numsections = unat (ShortToHost (f_nscns fileh)) in
       bindX (noff_Read H noffFileName fdIn (int (numsections * 40)) w2) (\<lambda>(d, w3).
       let sections = map swap_scnhdr (scnhdrs_of numsections d);
           w4 = snd (sys_lseek H fdOut 40 SEEK_SET w3) in
       bindX (convert_sections H noffFileName fdIn fdOut sections (start_header stack_header) 40 w4) (\<lambda>(noffH, _, w5).
       let w6 = snd (sys_lseek H fdOut 0 SEEK_SET w5) in
       bindX (noff_Write H noffFileName fdOut (noff_bytes noffH) 40 w6) (\<lambda>w7.
       Inl (Exited 0 (snd (sys_close H fdOut (snd (sys_close H fdIn w7))))))))))"

text \<open>The test after the second \<open>open\<close> looks at \<open>fdIn\<close> again.\<close>

definition coff2noff_main :: "'w Host \<Rightarrow> NoffHeader \<Rightarrow> bytes list \<Rightarrow> 'w \<Rightarrow> 'w ended + 'w" where
  "coff2noff_main H stack_header argv w =
     (if length argv < 2 then Inl (Exited 1 w)
      else
        let (fdIn, w1) = sys_open H (argv ! 1) O_RDONLY w in
        if fdIn = -1 then Inl (Exited 1 w1)
        else if length argv = 2 then Inl Null_name
        else
          let (fdOut, w2) = sys_open H (argv ! 2) O_WRONLY_CREAT_TRUNC w1 in
          if fdIn = -1 then Inl (Exited 1 w2)
          else coff2noff_files H stack_header (argv ! 2) fdIn fdOut w2)"


section \<open>coff2flat\<close>

definition FlatStackSize :: "32 word" where "FlatStackSize = 1024"

definition flat_Read :: "'w Host \<Rightarrow> int \<Rightarrow> int \<Rightarrow> 'w \<Rightarrow> 'w ended + (bytes \<times> 'w)" where
  "flat_Read H fd nBytes w =
     (let ((n, d), w1) = sys_read H fd nBytes w in if n \<noteq> nBytes then Inl (Exited 1 w1) else Inr (d, w1))"

definition flat_Write :: "'w Host \<Rightarrow> int \<Rightarrow> bytes \<Rightarrow> int \<Rightarrow> 'w \<Rightarrow> 'w ended + 'w" where
  "flat_Write H fd buf nBytes w =
     (let (n, w1) = sys_write H fd buf nBytes w in if n \<noteq> nBytes then Inl (Exited 1 w1) else Inr w1)"

text \<open>The loop over the sections; it keeps the highest address in \<open>highest\<close> (\<open>top\<close> in the code) and appends every section but those of
  uninitialised data to the output.\<close>

fun flat_sections :: "'w Host \<Rightarrow> int \<Rightarrow> int \<Rightarrow> scnhdr list \<Rightarrow> 32 word \<Rightarrow> 'w \<Rightarrow> 'w ended + (32 word \<times> 'w)" where
  "flat_sections H fdIn fdOut [] highest w = Inr (highest, w)"
| "flat_sections H fdIn fdOut (s # ss) highest w =
     (let last = s_paddr s + s_size s;
          highest1 = (if sint last > sint highest then last else highest) in
      if named s ''.bss'' \<or> named s ''.sbss'' then flat_sections H fdIn fdOut ss highest1 w
      else
        let w1 = snd (sys_lseek H fdIn (sint (s_scnptr s)) SEEK_SET w) in
        bindX (flat_Read H fdIn (sint (s_size s)) w1) (\<lambda>(buffer, w2).
        bindX (flat_Write H fdOut buffer (sint (s_size s)) w2) (\<lambda>w3.
        flat_sections H fdIn fdOut ss highest1 w3)))"

text \<open>\<open>main\<close> returns without a value when it succeeds: \<open>Inr\<close>.\<close>

definition coff2flat_files :: "'w Host \<Rightarrow> int \<Rightarrow> int \<Rightarrow> 'w \<Rightarrow> 'w ended + 'w" where
  "coff2flat_files H fdIn fdOut w =
     bindX (flat_Read H fdIn 20 w) (\<lambda>(d, w1).
     let fileh = filehdr_of d in
     if f_magic fileh \<noteq> MIPSELMAGIC then Inl (Exited 1 w1)
     else bindX (flat_Read H fdIn 56 w1) (\<lambda>(d, w2).
     if magic (aouthdr_of d) \<noteq> OMAGIC then Inl (Exited 1 w2)
     else
       let n = unat (f_nscns fileh) in
       bindX (flat_Read H fdIn (int (n * 40)) w2) (\<lambda>(d, w3).
       bindX (flat_sections H fdIn fdOut (scnhdrs_of n d) 0 w3) (\<lambda>(highest, w4).
       let w5 = snd (sys_lseek H fdOut (sint (highest + FlatStackSize - 4)) SEEK_SET w4) in
       bindX (flat_Write H fdOut [0, 0, 0, 0] 4 w5) (\<lambda>w6.
       Inr (snd (sys_close H fdOut (snd (sys_close H fdIn w6)))))))))"

definition coff2flat_main :: "'w Host \<Rightarrow> bytes list \<Rightarrow> 'w \<Rightarrow> 'w ended + 'w" where
  "coff2flat_main H argv w =
     (if length argv < 2 then Inl (Exited 1 w)
      else
        let (fdIn, w1) = sys_open H (argv ! 1) O_RDONLY w in
        if fdIn = -1 then Inl (Exited 1 w1)
        else if length argv = 2 then Inl Null_name
        else
          let (fdOut, w2) = sys_open H (argv ! 2) O_RDWR_CREAT_TRUNC w1 in
          if fdIn = -1 then Inl (Exited 1 w2)
          else coff2flat_files H fdIn fdOut w2)"


section \<open>The host during a conversion\<close>

definition overwrite :: "nat \<Rightarrow> 'a::zero list \<Rightarrow> 'a list \<Rightarrow> 'a list" where
  "overwrite p d xs = take p (xs @ replicate (p - length xs) 0) @ d @ drop (p + length d) xs"

text \<open>\<open>st w\<close> gives the contents and the position of the input and of the output file; \<open>lseek\<close>, \<open>read\<close>, \<open>write\<close>
  and \<open>close\<close> act on them as documented.\<close>

definition posix_pair :: "'w Host \<Rightarrow> int \<Rightarrow> int \<Rightarrow> ('w \<Rightarrow> bytes \<times> nat \<times> bytes \<times> nat) \<Rightarrow> bool" where
  "posix_pair H fdIn fdOut st \<longleftrightarrow> (\<forall>w inp ip out op. st w = (inp, ip, out, op) \<longrightarrow>
     (\<forall>n. st (snd (sys_lseek H fdIn (int n) SEEK_SET w)) = (inp, n, out, op)) \<and>
     (\<forall>n. st (snd (sys_lseek H fdOut (int n) SEEK_SET w)) = (inp, ip, out, n)) \<and>
     (\<forall>n. \<exists>w1. sys_read H fdIn (int n) w = ((int (length (take n (drop ip inp))), take n (drop ip inp)), w1) \<and>
        st w1 = (inp, ip + length (take n (drop ip inp)), out, op)) \<and>
     (\<forall>d. \<exists>w1. sys_write H fdOut d (int (length d)) w = (int (length d), w1) \<and>
        st w1 = (inp, ip, overwrite op d out, op + length d)) \<and>
     (\<forall>fd. st (snd (sys_close H fd w)) = (inp, ip, out, op)))"

lemma posix_pairD:
  assumes "posix_pair H fdIn fdOut st" "st w = (inp, ip, out, op)"
  shows "st (snd (sys_lseek H fdIn (int n) SEEK_SET w)) = (inp, n, out, op)"
    "st (snd (sys_lseek H fdOut (int n) SEEK_SET w)) = (inp, ip, out, n)"
    "\<exists>w1. sys_read H fdIn (int n) w = ((int (length (take n (drop ip inp))), take n (drop ip inp)), w1) \<and>
        st w1 = (inp, ip + length (take n (drop ip inp)), out, op)"
    "\<exists>w1. sys_write H fdOut d (int (length d)) w = (int (length d), w1) \<and> st w1 = (inp, ip, overwrite op d out, op + length d)"
    "st (snd (sys_close H fd w)) = (inp, ip, out, op)"
  using assms unfolding posix_pair_def by blast+

lemma noff_Read_ok:
  assumes "posix_pair H fdIn fdOut st" "st w = (inp, ip, out, op)" "ip + n \<le> length inp"
  shows "\<exists>w1. noff_Read H nm fdIn (int n) w = Inr (take n (drop ip inp), w1) \<and> st w1 = (inp, ip + n, out, op)"
  using posix_pairD(3) [OF assms(1,2), of n] assms(3) by (auto simp: noff_Read_def)

lemma noff_Write_ok:
  assumes "posix_pair H fdIn fdOut st" "st w = (inp, ip, out, op)"
  shows "\<exists>w1. noff_Write H nm fdOut d (int (length d)) w = Inr w1 \<and> st w1 = (inp, ip, overwrite op d out, op + length d)"
  using posix_pairD(4) [OF assms(1,2), of d] by (auto simp: noff_Write_def)

text \<open>The contents of a section in the object file.\<close>

definition section_bytes :: "bytes \<Rightarrow> scnhdr \<Rightarrow> bytes" where
  "section_bytes coff s = take (unat (s_size s)) (drop (unat (s_scnptr s)) coff)"

definition in_file :: "bytes \<Rightarrow> scnhdr \<Rightarrow> bool" where
  "in_file coff s \<longleftrightarrow> unat (s_scnptr s) + unat (s_size s) \<le> length coff \<and> length coff < 2 ^ 31"

lemma section_length: "in_file coff s \<Longrightarrow> length (section_bytes coff s) = unat (s_size s)"
  by (auto simp: section_bytes_def in_file_def)

lemma copy_section_ok:
  assumes "posix_pair H fdIn fdOut st" "st w = (coff, ip, out, op)" "in_file coff s"
  shows "\<exists>w1 ip1. copy_section H nm fdIn fdOut s w = Inr w1 \<and>
    st w1 = (coff, ip1, overwrite op (section_bytes coff s) out, op + unat (s_size s))"
proof -
  have si: "sint (s_scnptr s) = int (unat (s_scnptr s))" "sint (s_size s) = int (unat (s_size s))"
    using assms(3) unfolding in_file_def by (intro sint_positive; linarith)+
  have "st (snd (sys_lseek H fdIn (int (unat (s_scnptr s))) SEEK_SET w)) = (coff, unat (s_scnptr s), out, op)"
    by (rule posix_pairD(1) [OF assms(1,2)])
  from noff_Read_ok [OF assms(1) this, of "unat (s_size s)" nm] assms(3) obtain w2 where
    r: "noff_Read H nm fdIn (int (unat (s_size s))) (snd (sys_lseek H fdIn (int (unat (s_scnptr s))) SEEK_SET w)) =
      Inr (section_bytes coff s, w2)" "st w2 = (coff, unat (s_scnptr s) + unat (s_size s), out, op)"
    by (auto simp: in_file_def section_bytes_def)
  from noff_Write_ok [OF assms(1) r(2), of nm "section_bytes coff s"] r(1) show ?thesis
    by (auto simp: copy_section_def si section_length [OF assms(3)])
qed


section \<open>The sections of a program\<close>

lemma convert_skips_empty:
  "convert_sections H nm fdIn fdOut ss h pos w = convert_sections H nm fdIn fdOut (filter (\<lambda>s. s_size s \<noteq> 0) ss) h pos w"
proof (induction ss arbitrary: h pos w)
  case (Cons s ss)
  then have "convert_sections H nm fdIn fdOut ss = convert_sections H nm fdIn fdOut (filter (\<lambda>s. s_size s \<noteq> 0) ss)" by (intro ext)
  then show ?case by (cases "s_size s = 0") (simp_all add: convert_section_def)
qed simp

text \<open>The second characters of the section names are different, so a section has at most one of them.\<close>

lemma named_second:
  assumes "named s lit" "Suc 0 < length lit"
  shows "s_name s ! 1 = of_char (lit ! 1)"
proof -
  have "s_name s ! 1 = take (Suc (length lit)) (s_name s) ! 1" using assms(2) by (intro nth_take [symmetric]) linarith
  also have "\<dots> = of_char (lit ! 1)" using assms by (simp add: named_def cstr_def nth_append)
  finally show ?thesis .
qed

lemmas second_letter =
  named_second [of _ "''.text''", simplified] named_second [of _ "''.data''", simplified]
  named_second [of _ "''.rdata''", simplified] named_second [of _ "''.bss''", simplified]
  named_second [of _ "''.sbss''", simplified]

definition is_text :: "scnhdr \<Rightarrow> bool" where "is_text s \<longleftrightarrow> named s ''.text''"
definition is_data :: "scnhdr \<Rightarrow> bool" where "is_data s \<longleftrightarrow> named s ''.data'' \<or> named s ''.rdata''"
definition is_bss :: "scnhdr \<Rightarrow> bool" where "is_bss s \<longleftrightarrow> named s ''.bss'' \<or> named s ''.sbss''"

lemma data_not_text: "is_data s \<Longrightarrow> \<not> named s ''.text''"
  by (auto simp: is_data_def dest!: second_letter)

lemma bss_not_loaded: "is_bss s \<Longrightarrow> \<not> named s ''.text'' \<and> \<not> named s ''.data'' \<and> \<not> named s ''.rdata''"
  by (auto simp: is_bss_def dest!: second_letter)

text \<open>The header that the conversion of a text, a data and possibly an uninitialised section yields.\<close>

definition program_header :: "NoffHeader \<Rightarrow> scnhdr \<Rightarrow> scnhdr \<Rightarrow> scnhdr list \<Rightarrow> NoffHeader" where
  "program_header G t d bs = (start_header G)\<lparr>code_seg := new_segment t 40, initData := new_segment d (40 + s_size t),
     uninitData := (case bs of [] \<Rightarrow> (uninitData G)\<lparr>seg_size := 0\<rparr>
       | b # _ \<Rightarrow> (uninitData G)\<lparr>virtualAddr := s_paddr b, seg_size := s_size b\<rparr>)\<rparr>"

lemma convert_program:
  assumes P: "posix_pair H fdIn fdOut st" and w: "st w = (coff, ip, out, op)"
    and f: "filter (\<lambda>s. s_size s \<noteq> 0) ss = t # d # bs"
    and n: "is_text t" "is_data d" "bs = [] \<or> (\<exists>b. bs = [b] \<and> is_bss b)"
    and i: "in_file coff t" "in_file coff d"
  shows "\<exists>w1 ip1 pos. convert_sections H nm fdIn fdOut ss (start_header G) 40 w = Inr (program_header G t d bs, pos, w1) \<and>
    st w1 = (coff, ip1, overwrite (op + unat (s_size t)) (section_bytes coff d) (overwrite op (section_bytes coff t) out),
      op + unat (s_size t) + unat (s_size d))"
proof -
  have "\<forall>s\<in>set (filter (\<lambda>s. s_size s \<noteq> 0) ss). s_size s \<noteq> 0" by simp
  then have z: "s_size t \<noteq> 0" "s_size d \<noteq> 0" "\<forall>b\<in>set bs. s_size b \<noteq> 0" unfolding f by simp_all
  from copy_section_ok [OF P w i(1), of nm] obtain w1 ip1 where
    1: "copy_section H nm fdIn fdOut t w = Inr w1"
       "st w1 = (coff, ip1, overwrite op (section_bytes coff t) out, op + unat (s_size t))" by blast
  from copy_section_ok [OF P 1(2) i(2), of nm] obtain w2 ip2 where
    2: "copy_section H nm fdIn fdOut d w1 = Inr w2"
       "st w2 = (coff, ip2, overwrite (op + unat (s_size t)) (section_bytes coff d) (overwrite op (section_bytes coff t) out),
          op + unat (s_size t) + unat (s_size d))" by blast
  have t: "convert_section H nm fdIn fdOut t (start_header G) 40 w =
      Inr ((start_header G)\<lparr>code_seg := new_segment t 40\<rparr>, 40 + s_size t, w1)"
    using n(1) z(1) 1(1) by (simp add: convert_section_def is_text_def)
  have d: "convert_section H nm fdIn fdOut d ((start_header G)\<lparr>code_seg := new_segment t 40\<rparr>) (40 + s_size t) w1 =
      Inr ((start_header G)\<lparr>code_seg := new_segment t 40, initData := new_segment d (40 + s_size t)\<rparr>, 40 + s_size t + s_size d, w2)"
    using n(2) z(2) 2(1) data_not_text [OF n(2)] by (simp add: convert_section_def is_data_def start_header_def)
  show ?thesis
    using n(3)
  proof
    assume "bs = []"
    then show ?thesis using t d 2(2)
      by (subst convert_skips_empty) (simp add: f program_header_def start_header_def)
  next
    assume "\<exists>b. bs = [b] \<and> is_bss b"
    then obtain b where b: "bs = [b]" "is_bss b" by blast
    then show ?thesis using t d 2(2) z(3) bss_not_loaded [OF b(2)]
      by (subst convert_skips_empty) (simp add: f program_header_def start_header_def convert_section_def is_bss_def Let_def)
  qed
qed


section \<open>The header survives\<close>

lemma word_bytes_back:
  "ucast (ucast w :: 8 word) OR push_bit 8 (ucast (ucast (drop_bit 8 w) :: 8 word)) OR
     push_bit 16 (ucast (ucast (drop_bit 16 w) :: 8 word)) OR push_bit 24 (ucast (ucast (drop_bit 24 w) :: 8 word)) = (w :: 32 word)"
  using mem32_put32 [of "\<lambda>_. 0" 0 w] by (simp add: mem32_def put32_def)

lemma noff_bytes_length: "length (noff_bytes h) = 40"
  by (simp add: noff_bytes_def segment_bytes_def words_bytes_def word_bytes_def)

lemma header_of_noff_bytes: "header_of (noff_bytes h @ r) = h"
  by (cases h) (simp add: header_of_def segment_at_def word_at_def mem32_def noff_bytes_def segment_bytes_def words_bytes_def
      word_bytes_def word_bytes_back)

lemma AddrSpace_header_reads:
  assumes "posix_file H (ufile exe) (noff_bytes h @ r)" "noffMagic h = NOFFMAGIC"
  shows "\<exists>w'. AddrSpace_header H J exe w = Inr (h, w')"
  using UnixFile_ReadAt_posix [OF assms(1), of 40 0 w] assms(2)
  by (auto simp: AddrSpace_header_def noff_bytes_length header_of_noff_bytes ASSERT_def)


section \<open>The converter\<close>

text \<open>A well-formed object file: the magic numbers, the section headers, and among the sections that are not
  empty a text section at address 0, a data section, and at most one section of uninitialised data, in
  this order.\<close>

definition coff_ok :: "bytes \<Rightarrow> scnhdr \<Rightarrow> scnhdr \<Rightarrow> scnhdr list \<Rightarrow> bool" where
  "coff_ok coff t d bs \<longleftrightarrow>
     (let n = unat (half_at coff 2) in
      half_at coff 0 = MIPSELMAGIC \<and> half_at coff 20 = OMAGIC \<and> 76 + n * 40 \<le> length coff \<and>
      filter (\<lambda>s. s_size s \<noteq> 0) (scnhdrs_of n (drop 76 coff)) = t # d # bs) \<and>
     is_text t \<and> is_data d \<and> (bs = [] \<or> (\<exists>b. bs = [b] \<and> is_bss b)) \<and>
     in_file coff t \<and> in_file coff d \<and> s_paddr t = 0 \<and>
     unat (s_size t) + unat (s_size d) + (\<Sum>b\<leftarrow>bs. unat (s_size b)) + unat UserStackSize < 2 ^ 31"

lemma half_at_take: "i + 1 < n \<Longrightarrow> half_at (take n bs) i = half_at bs i"
  by (simp add: half_at_def mem16_def)

lemma half_at_drop: "n \<le> length bs \<Longrightarrow> half_at (drop n bs) i = half_at bs (n + i)"
  by (simp add: half_at_def mem16_def add.assoc)

lemma scnhdrs_of_take: "scnhdrs_of n (take (n * 40) bs) = scnhdrs_of n bs"
  by (induction n arbitrary: bs) (simp_all add: drop_take)

lemma swap_scnhdr_id: "map swap_scnhdr ss = ss"
  by (induction ss) (simp_all add: swap_scnhdr_def WordToHost_def)

lemma coff2noff_converts:
  assumes P: "posix_pair H fdIn fdOut st" and w: "st w = (coff, 0, [], 0)" and c: "coff_ok coff t d bs"
  shows "\<exists>w' ip. coff2noff_files H G nm fdIn fdOut w = Inl (Exited 0 w') \<and>
    st w' = (coff, ip, noff_bytes (program_header G t d bs) @ section_bytes coff t @ section_bytes coff d, 40)"
proof -
  let ?n = "unat (half_at coff 2)" and ?h = "program_header G t d bs"
  have len: "76 + ?n * 40 \<le> length coff" and f: "filter (\<lambda>s. s_size s \<noteq> 0) (scnhdrs_of ?n (drop 76 coff)) = t # d # bs"
    and m: "half_at coff 0 = MIPSELMAGIC" "half_at coff 20 = OMAGIC"
    and n: "is_text t" "is_data d" "bs = [] \<or> (\<exists>b. bs = [b] \<and> is_bss b)" "in_file coff t" "in_file coff d"
    using c by (simp_all add: coff_ok_def Let_def)
  from noff_Read_ok [OF P w, of 20 nm] len obtain w1 where
    1: "noff_Read H nm fdIn 20 w = Inr (take 20 coff, w1)" "st w1 = (coff, 20, [], 0)" by auto
  from noff_Read_ok [OF P 1(2), of 56 nm] len obtain w2 where
    2: "noff_Read H nm fdIn 56 w1 = Inr (take 56 (drop 20 coff), w2)" "st w2 = (coff, 76, [], 0)" by auto
  from noff_Read_ok [OF P 2(2), of "?n * 40" nm] len obtain w3 where
    3: "noff_Read H nm fdIn (int (?n * 40)) w2 = Inr (take (?n * 40) (drop 76 coff), w3)" "st w3 = (coff, 76 + ?n * 40, [], 0)"
    by blast
  define w4 where "w4 = snd (sys_lseek H fdOut 40 SEEK_SET w3)"
  have 4: "st w4 = (coff, 76 + ?n * 40, [], 40)" using posix_pairD(2) [OF P 3(2), of 40] by (simp add: w4_def)
  from convert_program [OF P 4 f n, of nm G] obtain w5 ip pos where
    5: "convert_sections H nm fdIn fdOut (scnhdrs_of ?n (drop 76 coff)) (start_header G) 40 w4 = Inr (?h, pos, w5)"
       "st w5 = (coff, ip, overwrite (40 + unat (s_size t)) (section_bytes coff d) (overwrite 40 (section_bytes coff t) []),
          40 + unat (s_size t) + unat (s_size d))" by blast
  define w6 where "w6 = snd (sys_lseek H fdOut 0 SEEK_SET w5)"
  have out: "overwrite (40 + unat (s_size t)) (section_bytes coff d) (overwrite 40 (section_bytes coff t) []) =
      replicate 40 0 @ section_bytes coff t @ section_bytes coff d"
    by (simp add: overwrite_def section_length n(4,5))
  have 6: "st w6 = (coff, ip, replicate 40 0 @ section_bytes coff t @ section_bytes coff d, 0)"
    using posix_pairD(2) [OF P 5(2), of 0] unfolding out by (simp add: w6_def)
  from noff_Write_ok [OF P 6, of nm "noff_bytes ?h"] obtain w7 where
    7: "noff_Write H nm fdOut (noff_bytes ?h) 40 w6 = Inr w7"
       "st w7 = (coff, ip, noff_bytes ?h @ section_bytes coff t @ section_bytes coff d, 40)"
    by (auto simp: noff_bytes_length overwrite_def)
  have "st (snd (sys_close H fdOut (snd (sys_close H fdIn w7)))) = st w7"
    using posix_pairD(5) [OF P posix_pairD(5) [OF P 7(2)]] 7(2) by simp
  moreover have "20 \<le> length coff" using len by simp
  ultimately show ?thesis using 1 2 3 5(1) 7 m
    by (simp add: coff2noff_files_def Let_def filehdr_of_def aouthdr_of_def ShortToHost_def half_at_take half_at_drop
        scnhdrs_of_take swap_scnhdr_id w4_def [symmetric] w6_def [symmetric])
qed


section \<open>The flat file\<close>

text \<open>The sections are appended one after the other, wherever their headers say they belong.\<close>

lemma flat_sections_step:
  "flat_sections H fdIn fdOut (s # ss) highest w =
     (let highest1 = (if sint (s_paddr s + s_size s) > sint highest then s_paddr s + s_size s else highest) in
      if is_bss s then flat_sections H fdIn fdOut ss highest1 w
      else
        bindX (flat_Read H fdIn (sint (s_size s)) (snd (sys_lseek H fdIn (sint (s_scnptr s)) SEEK_SET w))) (\<lambda>(buffer, w2).
        bindX (flat_Write H fdOut buffer (sint (s_size s)) w2) (\<lambda>w3. flat_sections H fdIn fdOut ss highest1 w3)))"
  by (simp add: is_bss_def Let_def)

lemma flat_sections_append:
  assumes P: "posix_pair H fdIn fdOut st" and w: "st w = (coff, ip, out, length out)"
    and s: "\<forall>s\<in>set ss. is_bss s \<or> in_file coff s"
  shows "\<exists>w1 ip1 highest1. flat_sections H fdIn fdOut ss highest w = Inr (highest1, w1) \<and>
    st w1 = (coff, ip1, out @ concat (map (section_bytes coff) (filter (\<lambda>s. \<not> is_bss s) ss)),
      length (out @ concat (map (section_bytes coff) (filter (\<lambda>s. \<not> is_bss s) ss))))"
  using w s
proof (induction ss arbitrary: w ip out highest)
  case (Cons s ss)
  show ?case
  proof (cases "is_bss s")
    case True
    then show ?thesis using Cons.IH [OF Cons.prems(1)] Cons.prems(2)
      by (simp add: flat_sections_step Let_def del: flat_sections.simps(2))
  next
    case False
    then have i: "in_file coff s" using Cons.prems(2) by simp
    have si: "sint (s_scnptr s) = int (unat (s_scnptr s))" "sint (s_size s) = int (unat (s_size s))"
      using i unfolding in_file_def by (intro sint_positive; linarith)+
    define w1 where "w1 = snd (sys_lseek H fdIn (int (unat (s_scnptr s))) SEEK_SET w)"
    have 1: "st w1 = (coff, unat (s_scnptr s), out, length out)" unfolding w1_def by (rule posix_pairD(1) [OF P Cons.prems(1)])
    have l: "length (section_bytes coff s) = unat (s_size s)" by (rule section_length [OF i])
    from posix_pairD(3) [OF P 1, of "unat (s_size s)"] obtain w2 where
      2: "sys_read H fdIn (int (unat (s_size s))) w1 = ((int (unat (s_size s)), section_bytes coff s), w2)"
         "st w2 = (coff, unat (s_scnptr s) + unat (s_size s), out, length out)"
      unfolding section_bytes_def [symmetric] l by blast
    from posix_pairD(4) [OF P 2(2), of "section_bytes coff s"] obtain w3 where
      3: "sys_write H fdOut (section_bytes coff s) (int (unat (s_size s))) w2 = (int (unat (s_size s)), w3)"
         "st w3 = (coff, unat (s_scnptr s) + unat (s_size s), out @ section_bytes coff s, length (out @ section_bytes coff s))"
      unfolding l by (auto simp: overwrite_def l)
    have "\<forall>s\<in>set ss. is_bss s \<or> in_file coff s" using Cons.prems(2) by simp
    from Cons.IH [OF 3(2) this] show ?thesis
      using False 2(1) 3(1)
      by (simp add: flat_sections_step Let_def flat_Read_def flat_Write_def si [simplified] w1_def [symmetric, simplified]
          del: flat_sections.simps(2))
  qed
qed simp


section \<open>From the object file to the running program\<close>

lemma program_header_ok:
  assumes c: "coff_ok coff t d bs" and l: "40 + unat (s_size t) + unat (s_size d) < 2 ^ 31"
  shows "noff_ok (program_header G t d bs) (noff_bytes (program_header G t d bs) @ section_bytes coff t @ section_bytes coff d)"
    "noffMagic (program_header G t d bs) = NOFFMAGIC"
    "code_size (program_header G t d bs) = unat (s_size t)" "data_size (program_header G t d bs) = unat (s_size d)"
    "bss_size (program_header G t d bs) = (\<Sum>b\<leftarrow>bs. unat (s_size b))"
    "unat (inFileAddr (code_seg (program_header G t d bs))) = 40"
    "unat (inFileAddr (initData (program_header G t d bs))) = 40 + unat (s_size t)"
proof -
  let ?h = "program_header G t d bs"
  have i: "in_file coff t" "in_file coff d" and b: "bs = [] \<or> (\<exists>b. bs = [b] \<and> is_bss b)" and z: "s_paddr t = 0"
    and s: "unat (s_size t) + unat (s_size d) + (\<Sum>b\<leftarrow>bs. unat (s_size b)) + unat UserStackSize < 2 ^ 31"
    using c by (simp_all add: coff_ok_def)
  show m: "noffMagic ?h = NOFFMAGIC" by (simp add: program_header_def start_header_def)
  show n: "code_size ?h = unat (s_size t)" "data_size ?h = unat (s_size d)"
    by (simp_all add: program_header_def new_segment_def code_size_def data_size_def)
  show u: "bss_size ?h = (\<Sum>b\<leftarrow>bs. unat (s_size b))"
    using b by (auto simp: program_header_def bss_size_def)
  show a: "unat (inFileAddr (code_seg ?h)) = 40" by (simp add: program_header_def new_segment_def)
  have "unat (40 + s_size t) = 40 + unat (s_size t)" using l by (simp add: unat_word_ariths)
  then show e: "unat (inFileAddr (initData ?h)) = 40 + unat (s_size t)" by (simp add: program_header_def new_segment_def)
  have v: "virtualAddr (code_seg ?h) = 0" using z by (simp add: program_header_def new_segment_def)
  show "noff_ok ?h (noff_bytes ?h @ section_bytes coff t @ section_bytes coff d)"
    unfolding noff_ok_def using s l by (simp add: v n u a e noff_bytes_length section_length i)
qed

text \<open>What a program sees: its text, its data, zeros.\<close>

definition program_image :: "bytes \<Rightarrow> scnhdr \<Rightarrow> scnhdr \<Rightarrow> nat \<Rightarrow> 8 word" where
  "program_image coff t d v =
     (if v < unat (s_size t) then coff ! (unat (s_scnptr t) + v)
      else if v < unat (s_size t) + unat (s_size d) then coff ! (unat (s_scnptr d) + (v - unat (s_size t))) else 0)"

text \<open>The constructor of an address space loads the executable, and through the new page table the bytes of
  all its pages are those given by \<open>seen\<close>.\<close>

definition loads_as :: "'v Host \<Rightarrow> UnixFile \<Rightarrow> Fresh \<Rightarrow> 'v \<Rightarrow> BitMap \<Rightarrow> Machine \<Rightarrow> (nat \<Rightarrow> 8 word) \<Rightarrow> bool" where
  "loads_as H exe J w bm m seen \<longleftrightarrow> (\<exists>h w1 pt bm' m1 m2 w2. AddrSpace_header H J exe w = Inr (h, w1) \<and>
     alloc_pages 0 (space_pages h) bm m = Inr (pt, bm', m1) \<and> load_program H exe h pt m1 w1 = Inr (m2, w2) \<and>
     length pt = space_pages h \<and> (\<forall>v < space_pages h * PageSize. vbyte m2 (view pt) v = seen v))"

text \<open>The pages of the program, its stack included.\<close>

definition program_pages :: "scnhdr \<Rightarrow> scnhdr \<Rightarrow> scnhdr list \<Rightarrow> nat" where
  "program_pages t d bs = pages (unat (s_size t) + unat (s_size d) + (\<Sum>b\<leftarrow>bs. unat (s_size b)) + unat UserStackSize)"

lemma converted_loads:
  assumes c: "coff_ok coff t d bs" "40 + unat (s_size t) + unat (s_size d) < 2 ^ 31"
    and p: "posix_file H (ufile exe) (noff_bytes (program_header G t d bs) @ section_bytes coff t @ section_bytes coff d)"
    and b: "BitMap_ok bm" "numBits bm = int NumPhysPages" "BitMap_NumClear bm = Inr free" "int (program_pages t d bs) \<le> free"
  shows "loads_as H exe J w bm m (program_image coff t d)"
proof -
  let ?h = "program_header G t d bs"
  let ?noff = "noff_bytes ?h @ section_bytes coff t @ section_bytes coff d"
  note h = program_header_ok [OF c, of G]
  have i: "in_file coff t" "in_file coff d" using c by (simp_all add: coff_ok_def)
  obtain w3 where a: "AddrSpace_header H J exe w = Inr (?h, w3)" using AddrSpace_header_reads [OF p h(2)] by blast
  have "int (space_pages ?h) \<le> free" using b(4) unfolding program_pages_def space_pages_pages [OF h(1)] h(3-5) .
  from program_loads [OF b(1-3) this h(1) p, of m w3] obtain "is" pt bm' m1 m2 w4 where
    l: "alloc_pages 0 (space_pages ?h) bm m = Inr (pt, bm', m1)" "load_program H exe ?h pt m1 w3 = Inr (m2, w4)"
      "view pt = map (\<lambda>j. (of_nat j, True, False)) is" "length is = space_pages ?h"
      "\<forall>v < space_pages ?h * PageSize. vbyte m2 (view pt) v =
        (if v < code_size ?h then ?noff ! (unat (inFileAddr (code_seg ?h)) + v)
         else if v < code_size ?h + data_size ?h then ?noff ! (unat (inFileAddr (initData ?h)) + (v - code_size ?h)) else 0)"
    by blast
  have T: "?noff ! (40 + v) = coff ! (unat (s_scnptr t) + v)" if "v < unat (s_size t)" for v
    using that i by (simp add: nth_append noff_bytes_length section_length) (simp add: section_bytes_def in_file_def)
  have D: "?noff ! (40 + unat (s_size t) + u) = coff ! (unat (s_scnptr d) + u)" if "u < unat (s_size d)" for u
    using that i by (simp add: nth_append noff_bytes_length section_length) (simp add: section_bytes_def in_file_def)
  have "vbyte m2 (view pt) v = program_image coff t d v" if "v < space_pages ?h * PageSize" for v
    using l(5) [rule_format, OF that] T [of v] D [of "v - unat (s_size t)"]
    unfolding h(3) h(4) h(6) h(7) program_image_def by auto
  moreover have "length pt = space_pages ?h" using l(3,4) by (metis length_map)
  ultimately show ?thesis unfolding loads_as_def using a l(1,2) by blast
qed


text \<open>A host with one input and one output file, and an object file with four bytes of text and four of data.\<close>

definition sample_tool_host :: "(bytes \<times> nat \<times> bytes \<times> nat) Host" where
  "sample_tool_host = \<lparr>sys_open = (\<lambda>_ mode (inp, ip, out, op).
       if mode = O_RDONLY then (3, (inp, 0, out, op)) else (4, (inp, ip, [], 0))),
     sys_read = (\<lambda>_ n (inp, ip, out, op). let d = take (nat n) (drop ip inp) in
       ((int (length d), d), (inp, ip + length d, out, op))),
     sys_write = (\<lambda>_ d n (inp, ip, out, op). (n, (inp, ip, overwrite op d out, op + length d))),
     sys_lseek = (\<lambda>fd n _ (inp, ip, out, op). (n, if fd = 3 then (inp, nat n, out, op) else (inp, ip, out, nat n))),
     sys_close = (\<lambda>_ w. (0, w)), sys_unlink = (\<lambda>_ w. (0, w)), sys_select = (\<lambda>_ _ w. (0, w)),
     sys_rand = (\<lambda>w. (0, w)), sys_fgets = (\<lambda>w. ([10], w))\<rparr>"

definition sample_text :: scnhdr where
  "sample_text = \<lparr>s_name = [46, 116, 101, 120, 116, 0, 0, 0], s_paddr = 0, s_vaddr = 0, s_size = 4, s_scnptr = 156,
     s_relptr = 0, s_lnnoptr = 0, s_nreloc = 0, s_nlnno = 0, s_flags = 0\<rparr>"

definition sample_data :: scnhdr where
  "sample_data = \<lparr>s_name = [46, 100, 97, 116, 97, 0, 0, 0], s_paddr = 4, s_vaddr = 0, s_size = 4, s_scnptr = 160,
     s_relptr = 0, s_lnnoptr = 0, s_nreloc = 0, s_nlnno = 0, s_flags = 0\<rparr>"

definition sample_coff :: bytes where
  "sample_coff = [98, 1, 2, 0] @ replicate 16 0 @ [7, 1] @ replicate 54 0 @
     [46, 116, 101, 120, 116, 0, 0, 0, 0, 0, 0, 0, 0, 0, 0, 0, 4, 0, 0, 0, 156, 0, 0, 0] @ replicate 16 0 @
     [46, 100, 97, 116, 97, 0, 0, 0, 4, 0, 0, 0, 0, 0, 0, 0, 4, 0, 0, 0, 160, 0, 0, 0] @ replicate 16 0 @
     [11, 12, 13, 14, 21, 22, 23, 24]"

lemma sample_coff_ok: "coff_ok sample_coff sample_text sample_data []"
proof -
  have "half_at sample_coff 0 = MIPSELMAGIC" "half_at sample_coff 20 = OMAGIC" "unat (half_at sample_coff 2) = 2"
    "length sample_coff = 164"
    "filter (\<lambda>s. s_size s \<noteq> 0) (scnhdrs_of 2 (drop 76 sample_coff)) = [sample_text, sample_data]"
    "is_text sample_text" "is_data sample_data"
    by code_simp+
  then show ?thesis
    by (simp add: coff_ok_def Let_def in_file_def sample_text_def sample_data_def UserStackSize_def)
qed

lemma sample_tool_host_ok: "posix_pair sample_tool_host 3 4 (\<lambda>w. w)"
  unfolding posix_pair_def by (auto simp: sample_tool_host_def Let_def)


end
