(* ===== verification/MIPS_Interpreter.thy ===== *)
theory MIPS_Interpreter
  imports CPU_Correct
begin

text \<open>
  The stand-alone MIPS interpreter (\<^verbatim>\<open>bin/execute.c\<close> with \<^verbatim>\<open>bin/encode.h\<close>, \<^verbatim>\<open>bin/instr.h\<close> and
  \<^verbatim>\<open>bin/int.h\<close>): a second simulator of the processor of Nachos, with a flat memory, immediate loads and
  no exceptions.  A system call is the outcome \<open>Trap\<close>: what the host does for it (\<^verbatim>\<open>bin/system.c\<close>) is not
  modelled; the tracing output is left out.

  The main result compares it with \<^verbatim>\<open>machine/mipssim.cc\<close>: on the instructions that neither touch memory nor
  trap the two simulators go from equal states to equal states, under the conditions that the
  definition \<open>comparable\<close> lists; the conditions are the differences between the two programs.
\<close>


section \<open>Opcodes\<close>

text \<open>The codes are octal in the source.\<close>

definition I_SPECIAL :: nat where "I_SPECIAL = 0"
definition I_BCOND :: nat where "I_BCOND = 1"
definition I_J :: nat where "I_J = 2"
definition I_JAL :: nat where "I_JAL = 3"
definition I_BEQ :: nat where "I_BEQ = 4"
definition I_BNE :: nat where "I_BNE = 5"
definition I_BLEZ :: nat where "I_BLEZ = 6"
definition I_BGTZ :: nat where "I_BGTZ = 7"
definition I_ADDI :: nat where "I_ADDI = 8"
definition I_ADDIU :: nat where "I_ADDIU = 9"
definition I_SLTI :: nat where "I_SLTI = 10"
definition I_SLTIU :: nat where "I_SLTIU = 11"
definition I_ANDI :: nat where "I_ANDI = 12"
definition I_ORI :: nat where "I_ORI = 13"
definition I_XORI :: nat where "I_XORI = 14"
definition I_LUI :: nat where "I_LUI = 15"
definition I_COP0 :: nat where "I_COP0 = 16"
definition I_COP1 :: nat where "I_COP1 = 17"
definition I_COP2 :: nat where "I_COP2 = 18"
definition I_COP3 :: nat where "I_COP3 = 19"
definition I_LB :: nat where "I_LB = 32"
definition I_LH :: nat where "I_LH = 33"
definition I_LWL :: nat where "I_LWL = 34"
definition I_LW :: nat where "I_LW = 35"
definition I_LBU :: nat where "I_LBU = 36"
definition I_LHU :: nat where "I_LHU = 37"
definition I_LWR :: nat where "I_LWR = 38"
definition I_SB :: nat where "I_SB = 40"
definition I_SH :: nat where "I_SH = 41"
definition I_SWL :: nat where "I_SWL = 42"
definition I_SW :: nat where "I_SW = 43"
definition I_SWR :: nat where "I_SWR = 46"
definition I_LWC0 :: nat where "I_LWC0 = 48"
definition I_LWC1 :: nat where "I_LWC1 = 49"
definition I_LWC2 :: nat where "I_LWC2 = 50"
definition I_LWC3 :: nat where "I_LWC3 = 51"
definition I_SWC0 :: nat where "I_SWC0 = 56"
definition I_SWC1 :: nat where "I_SWC1 = 57"
definition I_SWC2 :: nat where "I_SWC2 = 58"
definition I_SWC3 :: nat where "I_SWC3 = 59"
definition I_SLL :: nat where "I_SLL = 0"
definition I_SRL :: nat where "I_SRL = 2"
definition I_SRA :: nat where "I_SRA = 3"
definition I_SLLV :: nat where "I_SLLV = 4"
definition I_SRLV :: nat where "I_SRLV = 6"
definition I_SRAV :: nat where "I_SRAV = 7"
definition I_JR :: nat where "I_JR = 8"
definition I_JALR :: nat where "I_JALR = 9"
definition I_SYSCALL :: nat where "I_SYSCALL = 12"
definition I_BREAK :: nat where "I_BREAK = 13"
definition I_MFHI :: nat where "I_MFHI = 16"
definition I_MTHI :: nat where "I_MTHI = 17"
definition I_MFLO :: nat where "I_MFLO = 18"
definition I_MTLO :: nat where "I_MTLO = 19"
definition I_MULT :: nat where "I_MULT = 24"
definition I_MULTU :: nat where "I_MULTU = 25"
definition I_DIV :: nat where "I_DIV = 26"
definition I_DIVU :: nat where "I_DIVU = 27"
definition I_ADD :: nat where "I_ADD = 32"
definition I_ADDU :: nat where "I_ADDU = 33"
definition I_SUB :: nat where "I_SUB = 34"
definition I_SUBU :: nat where "I_SUBU = 35"
definition I_AND :: nat where "I_AND = 36"
definition I_OR :: nat where "I_OR = 37"
definition I_XOR :: nat where "I_XOR = 38"
definition I_NOR :: nat where "I_NOR = 39"
definition I_SLT :: nat where "I_SLT = 42"
definition I_SLTU :: nat where "I_SLTU = 43"
definition I_BLTZ :: nat where "I_BLTZ = 0"
definition I_BGEZ :: nat where "I_BGEZ = 1"
definition I_BLTZAL :: nat where "I_BLTZAL = 16"
definition I_BGEZAL :: nat where "I_BGEZAL = 17"

lemmas I_defs = I_SPECIAL_def I_BCOND_def I_J_def I_JAL_def I_BEQ_def I_BNE_def I_BLEZ_def I_BGTZ_def
  I_ADDI_def I_ADDIU_def I_SLTI_def I_SLTIU_def I_ANDI_def I_ORI_def I_XORI_def I_LUI_def I_COP0_def I_COP1_def
  I_COP2_def I_COP3_def I_LB_def I_LH_def I_LWL_def I_LW_def I_LBU_def I_LHU_def I_LWR_def I_SB_def I_SH_def
  I_SWL_def I_SW_def I_SWR_def I_LWC0_def I_LWC1_def I_LWC2_def I_LWC3_def I_SWC0_def I_SWC1_def I_SWC2_def
  I_SWC3_def I_SLL_def I_SRL_def I_SRA_def I_SLLV_def I_SRLV_def I_SRAV_def I_JR_def I_JALR_def I_SYSCALL_def
  I_BREAK_def I_MFHI_def I_MTHI_def I_MFLO_def I_MTLO_def I_MULT_def I_MULTU_def I_DIV_def I_DIVU_def I_ADD_def
  I_ADDU_def I_SUB_def I_SUBU_def I_AND_def I_OR_def I_XOR_def I_NOR_def I_SLT_def I_SLTU_def I_BLTZ_def
  I_BGEZ_def I_BLTZAL_def I_BGEZAL_def


section \<open>State\<close>

text \<open>\<open>mem\<close> is indexed from the start of the array; simulated addresses start at \<open>memoffset\<close>.\<close>

definition MEMSIZE :: nat where "MEMSIZE = 2 ^ 24"
definition memoffset :: "32 word" where "memoffset = 0x10000000"

record Interp =
  Reg :: "nat \<Rightarrow> 32 word"
  HI :: "32 word"
  LO :: "32 word"
  imem :: "nat \<Rightarrow> 8 word"
  ipc :: "32 word"
  inpc :: "32 word"
  icount :: "32 word"

text \<open>After an instruction the interpreter goes on, calls \<open>system_trap\<close>, or has called \<open>exit(2)\<close> on an instruction
  it does not implement.\<close>

datatype istep = Running Interp | Trap Interp | Exit2

definition set_Reg :: "nat \<Rightarrow> 32 word \<Rightarrow> Interp \<Rightarrow> Interp" where
  "set_Reg r v s = s\<lparr>Reg := (Reg s)(r := v)\<rparr>"


section \<open>Fields and memory access\<close>

definition i_rd :: "32 word \<Rightarrow> nat" where "i_rd i = unat (drop_bit 11 i AND 0x1f)"
definition i_rt :: "32 word \<Rightarrow> nat" where "i_rt i = unat (drop_bit 16 i AND 0x1f)"
definition i_rs :: "32 word \<Rightarrow> nat" where "i_rs i = unat (drop_bit 21 i AND 0x1f)"
definition shamt :: "32 word \<Rightarrow> nat" where "shamt i = unat (drop_bit 6 i AND 0x1f)"

definition immed :: "32 word \<Rightarrow> 32 word" where
  "immed i = (if i AND 0x8000 \<noteq> 0 then i OR (- 0x8000) else i AND 0x7fff)"

text \<open>The place in \<open>mem\<close> of an access of \<open>n\<close> bytes; outside the array the behaviour is undefined.\<close>

definition imem_index :: "32 word \<Rightarrow> nat \<Rightarrow> nat res" where
  "imem_index a n =
     (if memoffset \<le> a \<and> unat a - unat memoffset + n \<le> MEMSIZE then Inr (unat a - unat memoffset) else Inl OutOfBounds)"

definition ifetch :: "Interp \<Rightarrow> 32 word \<Rightarrow> 32 word res" where
  "ifetch s a = bindR (imem_index a 4) (\<lambda>i. Inr (mem32 (imem s) i))"

definition fetch :: "Interp \<Rightarrow> 32 word \<Rightarrow> 32 word res" where
  "fetch s a = bindR (imem_index a 4) (\<lambda>i. Inr (mem32 (imem s) i))"

definition sfetch :: "Interp \<Rightarrow> 32 word \<Rightarrow> 32 word res" where
  "sfetch s a = bindR (imem_index a 2) (\<lambda>i. Inr (scast (ucast (mem16 (imem s) i) :: 16 word)))"

definition usfetch :: "Interp \<Rightarrow> 32 word \<Rightarrow> 32 word res" where
  "usfetch s a = bindR (imem_index a 2) (\<lambda>i. Inr (mem16 (imem s) i))"

definition cfetch :: "Interp \<Rightarrow> 32 word \<Rightarrow> 32 word res" where
  "cfetch s a = bindR (imem_index a 1) (\<lambda>i. Inr (scast (imem s i)))"

definition ucfetch :: "Interp \<Rightarrow> 32 word \<Rightarrow> 32 word res" where
  "ucfetch s a = bindR (imem_index a 1) (\<lambda>i. Inr (ucast (imem s i)))"

definition i_store :: "32 word \<Rightarrow> 32 word \<Rightarrow> Interp \<Rightarrow> Interp res" where
  "i_store a v s = bindR (imem_index a 4) (\<lambda>i. Inr (s\<lparr>imem := put32 (imem s) i v\<rparr>))"

definition sstore :: "32 word \<Rightarrow> 32 word \<Rightarrow> Interp \<Rightarrow> Interp res" where
  "sstore a v s = bindR (imem_index a 2) (\<lambda>i. Inr (s\<lparr>imem := put16 (imem s) i v\<rparr>))"

definition cstore :: "32 word \<Rightarrow> 32 word \<Rightarrow> Interp \<Rightarrow> Interp res" where
  "cstore a v s = bindR (imem_index a 1) (\<lambda>i. Inr (s\<lparr>imem := (imem s)(i := ucast v)\<rparr>))"


section \<open>The switch\<close>

text \<open>Multiplication: \<open>HI\<close> is computed from halves without the carries between them.\<close>

definition mult_high :: "32 word \<Rightarrow> 32 word \<Rightarrow> 32 word" where
  "mult_high t1 t2 =
     (let t1l = t1 AND 0xffff; t1h = signed_drop_bit 16 t1 AND 0xffff;
          t2l = t2 AND 0xffff; t2h = signed_drop_bit 16 t2 AND 0xffff
      in t1h * t2h + signed_drop_bit 16 (t1h * t2l) + signed_drop_bit 16 (t2h * t1l))"

definition i_mult :: "32 word \<Rightarrow> 32 word \<Rightarrow> 32 word \<times> 32 word" where
  "i_mult a b =
     (let neg = (a <s 0) \<noteq> (b <s 0);
          t1 = (if a <s 0 then - a else a); t2 = (if b <s 0 then - b else b);
          lo = t1 * t2; hi = mult_high t1 t2
      in if neg then (let lo' = NOT lo + 1 in (if lo' = 0 then NOT hi + 1 else NOT hi, lo')) else (hi, lo))"

text \<open>A shift by a register is undefined outside 0 to 31.\<close>

definition by_reg :: "32 word \<Rightarrow> (nat \<Rightarrow> 32 word) \<Rightarrow> (32 word \<Rightarrow> istep) \<Rightarrow> istep res" where
  "by_reg n f k = (if unat n < 32 then Inr (k (f (unat n))) else Inl Undefined)"

definition i_special :: "32 word \<Rightarrow> 32 word \<Rightarrow> Interp \<Rightarrow> istep res" where
  "i_special xpc instr s =
     (let a = Reg s (i_rs instr); b = Reg s (i_rt instr); op = unat (instr AND 0x3f);
          rd = (\<lambda>v. Running (set_Reg (i_rd instr) v s)) in
      if op = I_SLL then Inr (rd (push_bit (shamt instr) b))
      else if op = I_SRL then Inr (rd (drop_bit (shamt instr) b))
      else if op = I_SRA then Inr (rd (signed_drop_bit (shamt instr) b))
      else if op = I_SLLV then by_reg a (\<lambda>n. push_bit n b) rd
      else if op = I_SRLV then by_reg a (\<lambda>n. drop_bit n b) rd
      else if op = I_SRAV then by_reg a (\<lambda>n. signed_drop_bit n b) rd
      else if op = I_JR then Inr (Running (s\<lparr>inpc := a\<rparr>))
      else if op = I_JALR then Inr (Running (set_Reg (i_rd instr) (xpc + 8) (s\<lparr>inpc := a\<rparr>)))
      else if op = I_SYSCALL \<or> op = I_BREAK then Inr (Trap s)
      else if op = I_MFHI then Inr (rd (HI s))
      else if op = I_MTHI then Inr (Running (s\<lparr>HI := a\<rparr>))
      else if op = I_MFLO then Inr (rd (LO s))
      else if op = I_MTLO then Inr (Running (s\<lparr>LO := a\<rparr>))
      else if op = I_MULT then (let (hi, lo) = i_mult a b in Inr (Running (s\<lparr>HI := hi, LO := lo\<rparr>)))
      else if op = I_MULTU then Inr (Running (s\<lparr>HI := mult_high a b, LO := a * b\<rparr>))
      else if op = I_DIV then
        if b = 0 \<or> (sint a = - (2 ^ 31) \<and> sint b = -1) then Inl Undefined
        else Inr (Running (s\<lparr>HI := word_of_int (sint a smod sint b), LO := word_of_int (sint a sdiv sint b)\<rparr>))
      else if op = I_DIVU then
        if b = 0 then Inl Undefined else Inr (Running (s\<lparr>HI := a mod b, LO := a div b\<rparr>))
      else if op = I_ADD \<or> op = I_ADDU then Inr (rd (a + b))
      else if op = I_SUB \<or> op = I_SUBU then Inr (rd (a - b))
      else if op = I_AND then Inr (rd (a AND b))
      else if op = I_OR then Inr (rd (a OR b))
      else if op = I_XOR then Inr (rd (a XOR b))
      else if op = I_NOR then Inr (rd (NOT (a OR b)))
      else if op = I_SLT then Inr (rd (if a <s b then 1 else 0))
      else if op = I_SLTU then Inr (rd (if a < b then 1 else 0))
      else Inr Exit2)"

definition i_bcond :: "32 word \<Rightarrow> 32 word \<Rightarrow> Interp \<Rightarrow> istep res" where
  "i_bcond xpc instr s =
     (let op = i_rt instr;
          link = set_Reg 31 (xpc + 8) s;
          branch = (\<lambda>c s. Inr (Running (if c then s\<lparr>inpc := xpc + 4 + push_bit 2 (immed instr)\<rparr> else s))) in
      if op = I_BLTZ then branch (Reg s (i_rs instr) <s 0) s
      else if op = I_BGEZ then branch (\<not> Reg s (i_rs instr) <s 0) s
      else if op = I_BLTZAL then branch (Reg link (i_rs instr) <s 0) link
      else if op = I_BGEZAL then branch (\<not> Reg link (i_rs instr) <s 0) link
      else Inr Exit2)"

definition i_memory :: "nat \<Rightarrow> 32 word \<Rightarrow> Interp \<Rightarrow> istep res" where
  "i_memory op instr s =
     (let i = Reg s (i_rs instr) + immed instr; t = i_rt instr; b = Reg s t;
          load = (\<lambda>r. bindR r (\<lambda>v. Inr (Running (set_Reg t v s))));
          kept = (\<lambda>r. bindR r (\<lambda>s'. Inr (Running s'))) in
      if op = I_LB then load (cfetch s i)
      else if op = I_LH then load (sfetch s i)
      else if op = I_LWL then
        bindR (fetch s (i AND 0xfffffffc)) (\<lambda>v.
        Inr (Running (set_Reg t ((b AND signed_drop_bit (8 * unat (- i AND 3)) (- 1)) OR push_bit (8 * unat (i AND 3)) v) s)))
      else if op = I_LW then load (fetch s i)
      else if op = I_LBU then load (ucfetch s i)
      else if op = I_LHU then load (usfetch s i)
      else if op = I_LWR then
        bindR (fetch s (i AND 0xfffffffc)) (\<lambda>v.
        let b1 = (if i AND 3 = 0 then 0 else b AND push_bit (8 * unat (i AND 3)) (- 1)) in
        Inr (Running (set_Reg t (b1 OR signed_drop_bit (8 * unat (- i AND 3)) v) s)))
      else if op = I_SB then kept (cstore i b s)
      else if op = I_SH then kept (sstore i b s)
      else if op = I_SW then kept (i_store i b s)
      else Inr Exit2)"

text \<open>The outer switch; the coprocessor instructions and those without a case end in \<open>exit(2)\<close> too.\<close>

definition i_switch :: "32 word \<Rightarrow> 32 word \<Rightarrow> Interp \<Rightarrow> istep res" where
  "i_switch xpc instr s =
     (let op = unat (drop_bit 26 instr AND 0x3f); a = Reg s (i_rs instr); b = Reg s (i_rt instr);
          rt = (\<lambda>v. Inr (Running (set_Reg (i_rt instr) v s)));
          branch = (\<lambda>c. Inr (Running (if c then s\<lparr>inpc := xpc + 4 + push_bit 2 (immed instr)\<rparr> else s)));
          jump = (\<lambda>s. s\<lparr>inpc := (xpc AND 0xf0000000) OR push_bit 2 (instr AND 0x03ffffff)\<rparr>) in
      if op = I_SPECIAL then i_special xpc instr s
      else if op = I_BCOND then i_bcond xpc instr s
      else if op = I_J then Inr (Running (jump s))
      else if op = I_JAL then Inr (Running (jump (set_Reg 31 (xpc + 8) s)))
      else if op = I_BEQ then branch (a = b)
      else if op = I_BNE then branch (a \<noteq> b)
      else if op = I_BLEZ then branch (a \<le>s 0)
      else if op = I_BGTZ then branch (0 <s a)
      else if op = I_ADDI \<or> op = I_ADDIU then rt (a + immed instr)
      else if op = I_SLTI then rt (if a <s immed instr then 1 else 0)
      else if op = I_SLTIU then rt (if a < immed instr then 1 else 0)
      else if op = I_ANDI then rt (a AND immed instr)
      else if op = I_ORI then rt (a OR immed instr)
      else if op = I_XORI then rt (a XOR immed instr)
      else if op = I_LUI then rt (push_bit 16 instr)
      else i_memory op instr s)"

text \<open>One turn of the loop.\<close>

definition i_step :: "Interp \<Rightarrow> istep res" where
  "i_step s =
     (let xpc = ipc s; s1 = s\<lparr>icount := icount s + 1, ipc := inpc s, inpc := inpc s + 4\<rparr> in
      bindR (ifetch s1 xpc) (\<lambda>instr.
      let s2 = set_Reg 0 0 s1 in
      if instr \<noteq> 0 then i_switch xpc instr s2 else Inr (Running s2)))"


text \<open>At most \<open>n\<close> turns of the loop, up to the first that does not go on.\<close>

fun i_run :: "nat \<Rightarrow> Interp \<Rightarrow> istep res" where
  "i_run 0 s = Inr (Running s)"
| "i_run (Suc n) s = bindR (i_step s) (\<lambda>r. case r of Running s' \<Rightarrow> i_run n s' | Trap s' \<Rightarrow> Inr (Trap s') | Exit2 \<Rightarrow> Inr Exit2)"

text \<open>The start of \<open>runprogram\<close>: the stack pointer, the argument count, and the arguments with the table of their
  addresses above them.\<close>

fun i_strcpy :: "32 word \<Rightarrow> 8 word list \<Rightarrow> Interp \<Rightarrow> Interp res" where
  "i_strcpy a [] s = cstore a 0 s"
| "i_strcpy a (c # cs) s = bindR (cstore a (ucast c) s) (i_strcpy (a + 1) cs)"

fun i_args :: "8 word list list \<Rightarrow> 32 word \<Rightarrow> 32 word \<Rightarrow> Interp \<Rightarrow> Interp res" where
  "i_args [] aci ai s = Inr s"
| "i_args (arg # args) aci ai s =
     bindR (i_strcpy ai arg s) (\<lambda>s1.
     bindR (i_store aci ai s1) (\<lambda>s2.
     i_args args (aci + 4) (ai + of_nat (length arg) + 1) s2))"

definition runprogram_start :: "32 word \<Rightarrow> 8 word list list \<Rightarrow> Interp \<Rightarrow> Interp res" where
  "runprogram_start startpc argv s =
     (let i = of_nat MEMSIZE - 1024 + memoffset;
          s1 = set_Reg 29 i (s\<lparr>icount := 0, ipc := startpc, inpc := startpc + 4\<rparr>) in
      bindR (i_store i (of_nat (length argv)) s1) (\<lambda>s2. i_args argv (i + 4) (i + 36) s2))"

text \<open>The number of bits of an unsigned number.\<close>

definition ilog2 :: "32 word \<Rightarrow> nat" where
  "ilog2 i =
     (if i = 0 then 0
      else
        let half = (\<lambda>m n (i, l). if i AND m \<noteq> 0 then (i AND m, l + n) else (i, l)) in
        snd (half 0xaaaaaaaa 1 (half 0xcccccccc 2 (half 0xf0f0f0f0 4 (half 0xff00ff00 8 (half 0xffff0000 16 (i, 1)))))))"

text \<open>The table in the comment of \<open>ilog2\<close> says 1, 2 and 3 for these arguments.\<close>

lemma ilog2_values: "ilog2 2 = 2" "ilog2 4 = 3" "ilog2 8 = 4"
  by code_simp+

text \<open>The product of \<open>0x1ffff\<close> with itself is \<open>0x3fffc0001\<close>; the interpreter leaves 1 in \<open>HI\<close>.\<close>

lemma i_mult_loses_carry: "i_mult 0x1ffff 0x1ffff = (1, 0xfffc0001)" "Mult 0x1ffff 0x1ffff True = (3, 0xfffc0001)"
  by code_simp+


section \<open>Decoding\<close>

text \<open>Where the interpreter finds the instructions that the simulator's tables give a name: the main opcode, and
  the function code or the \<open>rt\<close> field.\<close>

fun encoding :: "OpCode \<Rightarrow> (nat \<times> nat) option" where
  "encoding OP_SLL = Some (I_SPECIAL, I_SLL)" | "encoding OP_SRL = Some (I_SPECIAL, I_SRL)"
| "encoding OP_SRA = Some (I_SPECIAL, I_SRA)" | "encoding OP_SLLV = Some (I_SPECIAL, I_SLLV)"
| "encoding OP_SRLV = Some (I_SPECIAL, I_SRLV)" | "encoding OP_SRAV = Some (I_SPECIAL, I_SRAV)"
| "encoding OP_JR = Some (I_SPECIAL, I_JR)" | "encoding OP_JALR = Some (I_SPECIAL, I_JALR)"
| "encoding OP_MFHI = Some (I_SPECIAL, I_MFHI)" | "encoding OP_MTHI = Some (I_SPECIAL, I_MTHI)"
| "encoding OP_MFLO = Some (I_SPECIAL, I_MFLO)" | "encoding OP_MTLO = Some (I_SPECIAL, I_MTLO)"
| "encoding OP_MULT = Some (I_SPECIAL, I_MULT)" | "encoding OP_MULTU = Some (I_SPECIAL, I_MULTU)"
| "encoding OP_DIV = Some (I_SPECIAL, I_DIV)" | "encoding OP_DIVU = Some (I_SPECIAL, I_DIVU)"
| "encoding OP_ADD = Some (I_SPECIAL, I_ADD)" | "encoding OP_ADDU = Some (I_SPECIAL, I_ADDU)"
| "encoding OP_SUB = Some (I_SPECIAL, I_SUB)" | "encoding OP_SUBU = Some (I_SPECIAL, I_SUBU)"
| "encoding OP_AND = Some (I_SPECIAL, I_AND)" | "encoding OP_OR = Some (I_SPECIAL, I_OR)"
| "encoding OP_XOR = Some (I_SPECIAL, I_XOR)" | "encoding OP_NOR = Some (I_SPECIAL, I_NOR)"
| "encoding OP_SLT = Some (I_SPECIAL, I_SLT)" | "encoding OP_SLTU = Some (I_SPECIAL, I_SLTU)"
| "encoding OP_BLTZ = Some (I_BCOND, I_BLTZ)" | "encoding OP_BGEZ = Some (I_BCOND, I_BGEZ)"
| "encoding OP_BLTZAL = Some (I_BCOND, I_BLTZAL)" | "encoding OP_BGEZAL = Some (I_BCOND, I_BGEZAL)"
| "encoding OP_J = Some (I_J, 0)" | "encoding OP_JAL = Some (I_JAL, 0)"
| "encoding OP_BEQ = Some (I_BEQ, 0)" | "encoding OP_BNE = Some (I_BNE, 0)"
| "encoding OP_BLEZ = Some (I_BLEZ, 0)" | "encoding OP_BGTZ = Some (I_BGTZ, 0)"
| "encoding OP_ADDI = Some (I_ADDI, 0)" | "encoding OP_ADDIU = Some (I_ADDIU, 0)"
| "encoding OP_SLTI = Some (I_SLTI, 0)" | "encoding OP_SLTIU = Some (I_SLTIU, 0)"
| "encoding OP_ANDI = Some (I_ANDI, 0)" | "encoding OP_ORI = Some (I_ORI, 0)"
| "encoding OP_XORI = Some (I_XORI, 0)" | "encoding OP_LUI = Some (I_LUI, 0)"
| "encoding _ = None"

lemma opTable_encoding:
  "list_all (\<lambda>n. case encoding (fst (opTable ! n)) of None \<Rightarrow> True | Some (k, j) \<Rightarrow> k = n \<and> 1 < n \<and>
     snd (opTable ! n) = (if n < 4 then JFMT else IFMT)) [0..<64]"
  "list_all (\<lambda>n. (fst (opTable ! n) = SPECIAL \<longrightarrow> n = 0) \<and> (fst (opTable ! n) = BCOND \<longrightarrow> n = 1)) [0..<64]"
  by code_simp+

lemma specialTable_encoding:
  "list_all (\<lambda>n. case encoding (specialTable ! n) of None \<Rightarrow> True | Some (k, j) \<Rightarrow> k = 0 \<and> j = n) [0..<64]"
  by code_simp

lemma rt_field: "unat (drop_bit 16 (v :: 32 word) AND 0x1f) = unat (drop_bit 16 (v AND 0x1f0000))"
proof -
  have "drop_bit 16 (v AND 0x1f0000) = drop_bit 16 v AND drop_bit 16 (0x1f0000 :: 32 word)" by (rule drop_bit_and)
  moreover have "drop_bit 16 (0x1f0000 :: 32 word) = 0x1f" by code_simp
  ultimately show ?thesis by simp
qed

lemma all_below: "list_all P [0..<m] \<Longrightarrow> n < m \<Longrightarrow> P n"
  by (simp add: list_all_iff)

lemma encoding_Decode:
  assumes "encoding (opCode (Decode v)) = Some (k, j)"
  shows "unat (drop_bit 26 v AND 0x3f) = k" "k = 0 \<longrightarrow> unat (v AND 0x3f) = j \<and> extra (Decode v) = drop_bit 6 v AND 0x1f"
    "k = 1 \<longrightarrow> i_rt v = j" "k = 1 \<or> 4 \<le> k \<longrightarrow> extra (Decode v) = decode_extra IFMT v"
    "k = 2 \<or> k = 3 \<longrightarrow> extra (Decode v) = v AND 0x3ffffff"
proof -
  define n where "n = unat (drop_bit 26 v AND 0x3f)"
  define f where "f = unat (v AND 0x3f)"
  have n: "n < 64" and f: "f < 64" unfolding n_def f_def by (rule table_index)+
  obtain op fmt where e: "opTable ! n = (op, fmt)" by fastforce
  have d: "opCode (Decode v) = decode_opCode op v" "extra (Decode v) = decode_extra fmt v"
    using e by (simp_all add: Decode_def n_def)
  have T: "case encoding op of None \<Rightarrow> True | Some (k, j) \<Rightarrow> k = n \<and> 1 < n \<and> fmt = (if n < 4 then JFMT else IFMT)"
    "op = SPECIAL \<Longrightarrow> n = 0" "op = BCOND \<Longrightarrow> n = 1" "case encoding (specialTable ! f) of None \<Rightarrow> True | Some (k, j) \<Rightarrow> k = 0 \<and> j = f"
    using all_below [OF opTable_encoding(1) n] all_below [OF opTable_encoding(2) n] all_below [OF specialTable_encoding f]
    unfolding e fst_conv snd_conv by blast+
  have z: "opTable ! 0 = (SPECIAL, RFMT)" "opTable ! 1 = (BCOND, IFMT)" by (simp_all add: opTable_def)
  consider "op = SPECIAL" | "op = BCOND" | "op \<noteq> SPECIAL" "op \<noteq> BCOND" by blast
  then have *: "n = k \<and> (k = 0 \<longrightarrow> f = j \<and> fmt = RFMT) \<and> (k = 1 \<longrightarrow> i_rt v = j \<and> fmt = IFMT) \<and> (1 < k \<longrightarrow> fmt = (if k < 4 then JFMT else IFMT))"
  proof cases
    case 1
    then have "encoding (specialTable ! f) = Some (k, j)" using assms d by (simp add: decode_opCode_def f_def)
    then show ?thesis using 1 T(2,4) e z(1) by simp
  next
    case 2
    define u where "u = v AND 0x1f0000"
    have i: "i_rt v = unat (drop_bit 16 u)" unfolding i_rt_def u_def by (rule rt_field)
    have "drop_bit 16 (0x10000 :: 32 word) = 1" "drop_bit 16 (0x100000 :: 32 word) = 16" "drop_bit 16 (0x110000 :: 32 word) = 17"
      by code_simp+
    then have "k = 1 \<and> i_rt v = j"
      using assms 2 unfolding d decode_opCode_def u_def [symmetric] i
      by (auto simp: Let_def I_defs split: if_splits)
    then show ?thesis using 2 T(3) e z(2) by simp
  next
    case 3
    then have "encoding op = Some (k, j)" using assms d by (simp add: decode_opCode_def)
    then show ?thesis using T(1) by auto
  qed
  show "unat (drop_bit 26 v AND 0x3f) = k" "k = 0 \<longrightarrow> unat (v AND 0x3f) = j \<and> extra (Decode v) = drop_bit 6 v AND 0x1f"
    "k = 1 \<longrightarrow> i_rt v = j" "k = 1 \<or> 4 \<le> k \<longrightarrow> extra (Decode v) = decode_extra IFMT v"
    "k = 2 \<or> k = 3 \<longrightarrow> extra (Decode v) = v AND 0x3ffffff"
    using * d(2) by (auto simp: n_def f_def decode_extra_def)
qed

lemma extra_immed: "decode_extra IFMT v = immed v"
proof -
  have "bit (decode_extra IFMT v) n = bit (immed v) n" if "n < 32" for n
    using that
    by (cases "n = 15"; cases "bit v 15")
      (auto simp: decode_extra_def immed_def Let_def bit15 low_masks(1-4) bit_simps)
  then show ?thesis by (auto intro: bit_word_eqI)
qed

lemma immed_high: "push_bit 16 (immed v) = push_bit 16 (v :: 32 word)"
proof -
  have "bit (push_bit 16 (immed v)) n = bit (push_bit 16 v) n" if "n < 32" for n
    using that by (cases "n = 31") (auto simp: immed_def bit15 low_masks(1-4) bit_simps)
  then show ?thesis by (auto intro: bit_word_eqI)
qed


section \<open>The two simulators\<close>

text \<open>The instructions and operands on which the simulators are compared.  Beside the loads, stores and traps
  these conditions leave out: a multiplication; an overflow of \<open>ADD\<close>, \<open>ADDI\<close> and \<open>SUB\<close>, where Nachos traps;
  negative immediates of the logical instructions, which the interpreter extends with ones; \<open>OR\<close> and the
  logical right shift of a negative value, where Nachos is wrong; shifts by 32 or more and divisions by
  zero, which the interpreter does not check; branches in the delay slot of a branch; jumps out of the
  segment; \<open>JALR\<close> onto its own target register.\<close>

definition fits32 :: "int \<Rightarrow> bool" where
  "fits32 x \<longleftrightarrow> - (2 ^ 31) \<le> x \<and> x < 2 ^ 31"

definition comparable :: "Instruction \<Rightarrow> Machine \<Rightarrow> bool" where
  "comparable i m =
     (let a = registers m (rs i); b = registers m (rt i); x = extra i;
          straight = (registers m NextPCReg = registers m PCReg + 4);
          same_segment = ((registers m NextPCReg + 4) AND 0xf0000000 = registers m PCReg AND 0xf0000000) in
      case opCode i of
        OP_ADDU \<Rightarrow> True | OP_ADDIU \<Rightarrow> True | OP_SUBU \<Rightarrow> True | OP_AND \<Rightarrow> True | OP_XOR \<Rightarrow> True | OP_NOR \<Rightarrow> True
      | OP_SLT \<Rightarrow> True | OP_SLTI \<Rightarrow> True | OP_SLTIU \<Rightarrow> True | OP_SLTU \<Rightarrow> True | OP_LUI \<Rightarrow> True | OP_SLL \<Rightarrow> True
      | OP_SRA \<Rightarrow> True | OP_MFHI \<Rightarrow> True | OP_MFLO \<Rightarrow> True | OP_MTHI \<Rightarrow> True | OP_MTLO \<Rightarrow> True | OP_JR \<Rightarrow> True
      | OP_ADD \<Rightarrow> fits32 (exact_result i m) | OP_ADDI \<Rightarrow> fits32 (exact_result i m) | OP_SUB \<Rightarrow> fits32 (exact_result i m)
      | OP_ANDI \<Rightarrow> x AND 0xffff = x | OP_ORI \<Rightarrow> x AND 0xffff = x | OP_XORI \<Rightarrow> x AND 0xffff = x
      | OP_OR \<Rightarrow> a OR b = a | OP_SRL \<Rightarrow> \<not> b <s 0 | OP_SRLV \<Rightarrow> unat a < 32 \<and> \<not> b <s 0
      | OP_SLLV \<Rightarrow> unat a < 32 | OP_SRAV \<Rightarrow> unat a < 32
      | OP_DIV \<Rightarrow> b \<noteq> 0 \<and> \<not> (sint a = - (2 ^ 31) \<and> sint b = -1) | OP_DIVU \<Rightarrow> b \<noteq> 0
      | OP_BEQ \<Rightarrow> straight | OP_BNE \<Rightarrow> straight | OP_BLEZ \<Rightarrow> straight | OP_BGTZ \<Rightarrow> straight
      | OP_BLTZ \<Rightarrow> straight | OP_BGEZ \<Rightarrow> straight | OP_BLTZAL \<Rightarrow> straight | OP_BGEZAL \<Rightarrow> straight
      | OP_J \<Rightarrow> same_segment | OP_JAL \<Rightarrow> straight \<and> same_segment | OP_JALR \<Rightarrow> straight \<and> rs i \<noteq> rd i
      | _ \<Rightarrow> False)"

text \<open>Equal states, between two instructions.  The interpreter clears register 0 only when it starts the next
  one.\<close>

definition same_state :: "Machine \<Rightarrow> Interp \<Rightarrow> bool" where
  "same_state m s \<longleftrightarrow> (\<forall>r. 0 < r \<and> r < NumGPRegs \<longrightarrow> registers m r = Reg s r) \<and> registers m 0 = 0 \<and>
     registers m HiReg = HI s \<and> registers m LoReg = LO s \<and> registers m PCReg = ipc s \<and> registers m NextPCReg = inpc s \<and>
     registers m LoadReg = 0"

text \<open>The states inside an instruction: \<open>pc\<close> is where the machine will continue after the next instruction.\<close>

definition mid_state :: "32 word \<Rightarrow> Machine \<Rightarrow> Interp \<Rightarrow> bool" where
  "mid_state pc m s \<longleftrightarrow> (\<forall>r<NumGPRegs. registers m r = Reg s r) \<and> registers m HiReg = HI s \<and> registers m LoReg = LO s \<and>
     registers m NextPCReg = ipc s \<and> pc = inpc s"

lemma mid_state_rd: "mid_state pc m s \<Longrightarrow> r < NumGPRegs \<Longrightarrow> mid_state pc (set_reg r v m) (set_Reg r v s)"
  by (auto simp: mid_state_def set_Reg_def reg_defs)

lemma mid_state_pc: "mid_state pc m s \<Longrightarrow> mid_state pc' m (s\<lparr>inpc := pc'\<rparr>)"
  by (simp add: mid_state_def)

lemma mid_state_HI: "mid_state pc m s \<Longrightarrow> mid_state pc (set_reg HiReg v m) (s\<lparr>HI := v\<rparr>)"
  by (auto simp: mid_state_def reg_defs)

lemma mid_state_LO: "mid_state pc m s \<Longrightarrow> mid_state pc (set_reg LoReg v m) (s\<lparr>LO := v\<rparr>)"
  by (auto simp: mid_state_def reg_defs)

lemma mid_state_HILO: "mid_state pc m s \<Longrightarrow> mid_state pc (set_reg HiReg h (set_reg LoReg l m)) (s\<lparr>HI := h, LO := l\<rparr>)"
  by (auto simp: mid_state_def reg_defs)

lemma mid_state_regs: "mid_state pc m s \<Longrightarrow> r < NumGPRegs \<Longrightarrow> Reg s r = registers m r"
  "mid_state pc m s \<Longrightarrow> HI s = registers m HiReg" "mid_state pc m s \<Longrightarrow> LO s = registers m LoReg"
  by (simp_all add: mid_state_def)

text \<open>Both go on, to states that agree.\<close>

definition both :: "exec res \<Rightarrow> istep res \<Rightarrow> bool" where
  "both e i \<longleftrightarrow> (\<exists>pc' m' s'. e = Inr (Next pc' 0 0 m') \<and> i = Inr (Running s') \<and> mid_state pc' m' s')"

lemma bothI: "mid_state pc' m' s' \<Longrightarrow> both (Inr (Next pc' 0 0 m')) (Inr (Running s'))"
  by (auto simp: both_def)

lemma Decode_fields: "rs (Decode v) = i_rs v" "rt (Decode v) = i_rt v" "rd (Decode v) = i_rd v"
  by (simp_all add: Decode_def i_rs_def i_rt_def i_rd_def field5_def split: prod.splits)

lemma field_bounds: "i_rs v < NumGPRegs" "i_rt v < NumGPRegs" "i_rd v < NumGPRegs"
  using field5_bound unfolding i_rs_def i_rt_def i_rd_def field5_def by blast+

lemma mid_state_link: "mid_state pc m s \<Longrightarrow> mid_state pc (set_reg R31 v m) (set_Reg 31 v s)"
  using mid_state_rd [of pc m s 31 v] by (simp add: R31_def reg_defs)

lemma fits32_add:
  "fits32 (sint a + sint b) \<Longrightarrow> (a XOR b) AND SIGN_BIT = 0 \<Longrightarrow> (a XOR (a + b)) AND SIGN_BIT = 0"
  "fits32 (sint a + sint b) \<Longrightarrow> (a XOR b) AND SIGN_BIT = 0 \<Longrightarrow> (b XOR (a + b)) AND SIGN_BIT = 0"
  "fits32 (sint a - sint b) \<Longrightarrow> (a XOR b) AND SIGN_BIT \<noteq> 0 \<Longrightarrow> (a XOR (a - b)) AND SIGN_BIT = 0"
  using add_overflow [of a b] add_overflow' [of a b] sub_overflow [of a b] unfolding fits32_def by blast+

lemma shift_nonneg: "\<not> b <s 0 \<Longrightarrow> drop_bit n b = signed_drop_bit n (b :: 32 word)"
proof -
  assume "\<not> b <s 0"
  then have z: "\<not> bit b 31" by (simp add: bit31_sint word_sless_alt)
  have "bit (drop_bit n b) k = bit (signed_drop_bit n b) k" if "k < 32" for k
  proof (cases "32 - n \<le> k")
    case True
    then have "\<not> bit b (n + k)" using bit_imp_le_length [of b "n + k"] by auto
    then show ?thesis using True z that by (simp add: bit_drop_bit_eq bit_signed_drop_bit_iff)
  qed (simp add: bit_drop_bit_eq bit_signed_drop_bit_iff)
  then show ?thesis by (auto intro: bit_word_eqI)
qed

lemma shift_small: "unat a < 32 \<Longrightarrow> a AND 0x1f = (a :: 32 word)"
proof -
  assume "unat a < 32"
  then have "unat (take_bit 5 a) = unat a" by (simp add: unat_mod take_bit_eq_mod)
  then have "take_bit 5 a = a" by (rule unsigned_word_eqI)
  then show ?thesis by (simp add: take_bit_eq_mask mask_eq_exp_minus_1)
qed

lemma negative_sign: "(a AND SIGN_BIT \<noteq> 0) = (a <s (0 :: 32 word))"
  unfolding SIGN_BIT_def sign_bit_bit bit31_sint by (simp add: word_sless_alt)

lemmas execute_simps = execute_def exec_arith_def exec_branch_def exec_div_jump_def exec_load_def exec_move_def
  exec_store_shift_def exec_sub_misc_def Decode_fields

lemma special_agrees:
  assumes M: "mid_state (registers m NextPCReg + 4) m s" and c: "comparable (Decode v) m"
    and e: "encoding (opCode (Decode v)) = Some (0, j)"
  shows "both (execute (Decode v) (registers m NextPCReg + 4) m) (i_special (registers m PCReg) v s)"
proof -
  have f: "unat (v AND 0x3f) = j" "unat (extra (Decode v)) = shamt v" using encoding_Decode(2) [OF e] by (simp_all add: shamt_def)
  note R = mid_state_regs [OF M] field_bounds [of v]
  note B = bothI [OF M] bothI [OF mid_state_rd [OF M field_bounds(3)]] bothI [OF mid_state_pc [OF M]] bothI [OF mid_state_HI [OF M]]
    bothI [OF mid_state_LO [OF M]] bothI [OF mid_state_HILO [OF M]] bothI [OF mid_state_rd [OF mid_state_pc [OF M] field_bounds(3)]]
  show ?thesis
    using e c f
    by (cases "opCode (Decode v)")
      (simp_all add: B I_defs execute_simps i_special_def comparable_def Let_def R exact_result_def shift_small
        shift_nonneg by_reg_def add.commute [of 8], auto dest: fits32_add)
qed

lemma bcond_agrees:
  assumes M: "mid_state (registers m NextPCReg + 4) m s" and c: "comparable (Decode v) m"
    and e: "encoding (opCode (Decode v)) = Some (1, j)"
  shows "both (execute (Decode v) (registers m NextPCReg + 4) m) (i_bcond (registers m PCReg) v s)"
proof -
  have f: "i_rt v = j" "extra (Decode v) = immed v" using encoding_Decode(3,4) [OF e] by (simp_all add: extra_immed)
  have t: "mid_state (registers m PCReg + 8) m s" if "registers m NextPCReg = registers m PCReg + 4" using M that by (simp add: add.commute [of 8])
  note R = mid_state_regs [OF M] field_bounds [of v] mid_state_regs(1) [OF mid_state_link [OF M]]
  note B = bothI [OF t] bothI [OF mid_state_pc [OF M]] bothI [OF mid_state_link [OF t]] bothI [OF mid_state_pc [OF mid_state_link [OF M]]]
  show ?thesis
    using e c f
    by (cases "opCode (Decode v)")
      (simp_all add: B I_defs execute_simps i_bcond_def comparable_def Let_def R negative_sign IndexToAddr_def add.commute [of 8] add.commute [of 4])
qed

lemma main_agrees:
  assumes M: "mid_state (registers m NextPCReg + 4) m s" and c: "comparable (Decode v) m"
    and e: "encoding (opCode (Decode v)) = Some (k, j)" "2 \<le> k"
  shows "both (execute (Decode v) (registers m NextPCReg + 4) m) (i_switch (registers m PCReg) v s)"
proof -
  have f: "unat (drop_bit 26 v AND 0x3f) = k" "4 \<le> k \<longrightarrow> extra (Decode v) = immed v" "k = 2 \<or> k = 3 \<longrightarrow> extra (Decode v) = v AND 0x3ffffff"
    using encoding_Decode(1,4,5) [OF e(1)] by (simp_all add: extra_immed)
  have t: "mid_state (registers m PCReg + 8) m s" if "registers m NextPCReg = registers m PCReg + 4" using M that by (simp add: add.commute [of 8])
  note R = mid_state_regs [OF M] field_bounds [of v]
  note B = bothI [OF t] bothI [OF M] bothI [OF mid_state_rd [OF M field_bounds(2)]] bothI [OF mid_state_pc [OF M]]
    bothI [OF mid_state_pc [OF mid_state_link [OF M]]]
  show ?thesis
    using e c f
    by (cases "opCode (Decode v)")
      (simp_all add: B I_defs execute_simps i_switch_def comparable_def Let_def R exact_result_def IndexToAddr_def immed_high
        add.commute [of 8] add.commute [of 4], auto simp: B add.commute [of 8] dest: fits32_add)
qed

lemma execute_encoded:
  assumes "comparable (Decode v) m"
  obtains k j where "encoding (opCode (Decode v)) = Some (k, j)"
  using assms that by (cases "opCode (Decode v)") (simp_all add: comparable_def)

lemma switch_agrees:
  assumes M: "mid_state (registers m NextPCReg + 4) m s" and c: "comparable (Decode v) m"
  shows "both (execute (Decode v) (registers m NextPCReg + 4) m) (i_switch (registers m PCReg) v s)"
proof -
  obtain k j where e: "encoding (opCode (Decode v)) = Some (k, j)" by (rule execute_encoded [OF c])
  note k = encoding_Decode(1) [OF e]
  consider "k = 0" | "k = 1" | "2 \<le> k" by linarith
  then show ?thesis
  proof cases
    case 1
    then show ?thesis using special_agrees [OF M c, of j] e k by (simp add: i_switch_def I_defs)
  next
    case 2
    then show ?thesis using bcond_agrees [OF M c, of j] e k by (simp add: i_switch_def I_defs)
  qed (rule main_agrees [OF M c e])
qed

lemma finish_agrees:
  assumes "mid_state pc m' s'" "registers m' LoadReg = 0"
  shows "\<exists>m2. finish_instruction (Next pc 0 0 m') = Inr (Completed, m2) \<and> same_state m2 s'"
  using assms by (auto simp: finish_instruction_def DelayedLoad_def Let_def same_state_def mid_state_def reg_defs)

lemma comparable_registers:
  assumes "registers m1 = registers m"
  shows "comparable i m1 = comparable i m"
proof -
  have "exact_result i m1 = exact_result i m" using assms by (simp add: exact_result_def)
  then show ?thesis unfolding comparable_def assms by (simp only:)
qed

lemma Decode_0: "opCode (Decode 0) = OP_SLL" "extra (Decode 0) = 0" "rd (Decode 0) = 0" "rt (Decode 0) = 0"
  by code_simp+

lemma noop_executes: "registers m 0 = 0 \<Longrightarrow> execute (Decode 0) pc m = Inr (Next pc 0 0 (set_reg 0 0 m))"
  by (simp add: execute_def exec_arith_def exec_branch_def exec_div_jump_def exec_load_def exec_move_def exec_store_shift_def
      Decode_0 Let_def)

text \<open>C22. Two simulators, one processor: when the machine of Nachos and the stand-alone interpreter are in equal states
  and fetch the same comparable instruction, both complete it and are in equal states again.\<close>

theorem interpreters_agree:
  assumes "same_state m s" "mmu_ok m" "ReadMem m (registers m PCReg) 4 = Inr (Inr instr, m1)" "ifetch s (ipc s) = Inr instr"
    "comparable (Decode instr) m"
  shows "\<exists>m' s'. OneInstruction m = Inr (Completed, m') \<and> i_step s = Inr (Running s') \<and> same_state m' s'"
proof -
  have l: "load_ok m" using assms(1,2) by (simp add: load_ok_def same_state_def reg_defs)
  have r: "registers m1 = registers m" using ReadMem_frame [OF l assms(3)] by simp
  have c: "comparable (Decode instr) m1" using assms(5) comparable_registers [OF r] by simp
  let ?s1 = "s\<lparr>icount := icount s + 1, ipc := inpc s, inpc := inpc s + 4\<rparr>"
  let ?s2 = "set_Reg 0 0 ?s1"
  have f: "ifetch ?s1 (ipc s) = Inr instr" using assms(4) by (simp add: ifetch_def)
  have M: "mid_state (registers m1 NextPCReg + 4) m1 ?s2" and pc: "registers m1 PCReg = ipc s"
    using assms(1) by (auto simp: mid_state_def same_state_def set_Reg_def r)
  have "both (execute (Decode instr) (registers m1 NextPCReg + 4) m1) (if instr \<noteq> 0 then i_switch (ipc s) instr ?s2 else Inr (Running ?s2))"
  proof (cases "instr = 0")
    case True
    have "mid_state (registers m1 NextPCReg + 4) (set_reg 0 0 m1) ?s2" using M by (auto simp: mid_state_def set_Reg_def reg_defs)
    then show ?thesis using True noop_executes [of m1] assms(1) by (simp add: bothI same_state_def r)
  next
    case False
    then show ?thesis using switch_agrees [OF M c] pc by simp
  qed
  then obtain pc' m' s' where b: "execute (Decode instr) (registers m1 NextPCReg + 4) m1 = Inr (Next pc' 0 0 m')"
      "(if instr \<noteq> 0 then i_switch (ipc s) instr ?s2 else Inr (Running ?s2)) = Inr (Running s')" "mid_state pc' m' s'"
    unfolding both_def by blast
  have "load_ok m1" using ReadMem_frame [OF l assms(3)] by simp
  then have "keeps m1 m'" using execute_frame [OF _ Decode_ok b(1)] by simp
  then have "registers m' LoadReg = 0" using assms(1) by (simp add: keeps_def same_state_def r reg_defs)
  from finish_agrees [OF b(3) this] obtain m2 where "finish_instruction (Next pc' 0 0 m') = Inr (Completed, m2)" "same_state m2 s'" by blast
  then show ?thesis using b(1,2) f assms(3) by (simp add: OneInstruction_def i_step_def Let_def)
qed

text \<open>Both simulators at the first address of the interpreter, with \<open>addu r1, r2, r3\<close> in memory.\<close>

definition sample_cpu :: Machine where
  "sample_cpu = \<lparr>registers = (\<lambda>_. 0)(PCReg := 0x10000000, NextPCReg := 0x10000004, 2 := 5, 3 := 7),
     mainMemory = put32 (\<lambda>_. 0) 2560 0x00430821, tlb = Some [sample_entry 0x80000 5, sample_entry 0 0, sample_entry 1 1, sample_entry 2 2], pageTable = None,
     pageTableSize = 0, singleStep = False\<rparr>"

definition sample_interp :: Interp where
  "sample_interp = \<lparr>Reg = (\<lambda>_. 0)(2 := 5, 3 := 7), HI = 0, LO = 0, imem = put32 (\<lambda>_. 0) 0 0x00430821,
     ipc = 0x10000000, inpc = 0x10000004, icount = 0\<rparr>"

theorem interpreters_agree_witness:
  "\<exists>m' s'. OneInstruction sample_cpu = Inr (Completed, m') \<and> i_step sample_interp = Inr (Running s') \<and> same_state m' s'"
proof -
  have s: "same_state sample_cpu sample_interp"
    by (auto simp: same_state_def sample_cpu_def sample_interp_def reg_defs)
  have m: "mmu_ok sample_cpu" by (simp add: mmu_ok_def sample_cpu_def TLBSize_def)
  have v: "\<not> misaligned 0x10000000 4" "(0x10000000 :: 32 word) div of_nat PageSize = 0x80000"
    "unat ((0x10000000 :: 32 word) mod of_nat PageSize) = 0"
    by (simp_all add: misaligned_def size_defs)
  have e: "find_entry sample_cpu 0x80000 = Inr (Inr (0, sample_entry 0x80000 5))"
    by (simp add: find_entry_def sample_cpu_def TLBSize_def sample_entry_def)
  have "\<exists>m1. Translate sample_cpu 0x10000000 4 False = Inr (Inr 2560, m1) \<and> mainMemory m1 = mainMemory sample_cpu"
    using v e by (simp add: Translate_def Let_def sample_entry_def size_defs sample_cpu_def put_entry_def)
  then have f: "\<exists>m1. ReadMem sample_cpu (registers sample_cpu PCReg) 4 = Inr (Inr 0x00430821, m1)"
    by (auto simp: ReadMem_def sample_cpu_def mem32_put32 reg_defs)
  have i: "ifetch sample_interp (ipc sample_interp) = Inr 0x00430821"
    by (simp add: ifetch_def imem_index_def sample_interp_def memoffset_def MEMSIZE_def mem32_put32)
  have "opCode (Decode 0x00430821) = OP_ADDU" by code_simp
  then have c: "comparable (Decode 0x00430821) sample_cpu" by (simp add: comparable_def)
  from f obtain m1 where "ReadMem sample_cpu (registers sample_cpu PCReg) 4 = Inr (Inr 0x00430821, m1)" by blast
  from interpreters_agree [OF s m this i c] show ?thesis .
qed

end
