(* ===== verification/Syscall_Results.thy ===== *)
theory Syscall_Results
  imports Kernel_Theorems Memory_View CPU_Correct
begin

text \<open>
  What system calls of \<^verbatim>\<open>userprog/exception.cc\<close> do for the program that makes them: the number that
  \<open>PrintInt\<close> prints is the one \<open>ReadInt\<close> reads, for positive numbers only; and where the program
  continues after a call that touches files or creates a semaphore.
\<close>


section \<open>Decimal numbers\<close>

text \<open>The last \<open>n\<close> decimal digits of a number.\<close>

fun places :: "nat \<Rightarrow> int \<Rightarrow> bytes" where
  "places 0 x = []"
| "places (Suc n) x = places n (x div 10) @ [of_int (x mod 10 + 48)]"

lemma length_places [simp]: "length (places n x) = n"
  by (induction n arbitrary: x) auto

lemma fill_digits_places:
  "0 \<le> x \<Longrightarrow> n \<le> length buf \<Longrightarrow> fill_digits n x buf = Inr (places n x @ drop n buf)"
proof (induction n arbitrary: x buf)
  case (Suc n)
  have "drop n (buf[n := c]) = c # drop (Suc n) buf" for c
    using Suc.prems(2) by (metis Cons_nth_drop_Suc Suc_le_eq drop_update_cancel length_list_update lessI nth_list_update_eq)
  with Suc show ?case by (simp add: sdiv_nonneg smod_nonneg write_array_def)
qed simp

lemma digit_char:
  assumes "0 \<le> d" "d < (10 :: int)"
  shows "isdigit (of_int (d + 48))" "uint (of_int (d + 48) :: 8 word) = d + 48"
proof -
  show u: "uint (of_int (d + 48) :: 8 word) = d + 48" unfolding uint_word_of_int using assms by simp
  show "isdigit (of_int (d + 48))" using assms unfolding isdigit_def word_le_def u by simp
qed

lemmas last_digit = digit_char [of "x mod 10" for x, simplified]

lemma digits_value_append: "digits_value acc (xs @ [c]) = digits_value acc xs * 10 + (uint c - 48)"
  by (induction xs arbitrary: acc) auto

lemma places_digits: "0 \<le> x \<Longrightarrow> list_all isdigit (places n x)"
  by (induction n arbitrary: x) (simp_all add: last_digit)

lemma places_value: "0 \<le> x \<Longrightarrow> x < 10 ^ n \<Longrightarrow> digits_value 0 (places n x) = x"
proof (induction n arbitrary: x)
  case (Suc n)
  have "x div 10 < 10 ^ n" using Suc.prems by (simp add: div_less_iff_less_mult)
  then show ?case using Suc by (simp add: digits_value_append last_digit)
qed simp

lemma numberOfDigits_bound: "x < 10 ^ numberOfDigits x"
proof (induction x rule: numberOfDigits.induct)
  case (1 x)
  show ?case
  proof (cases "0 < x")
    case True
    then have "x div 10 < 10 ^ numberOfDigits (x div 10)" using 1 by (simp add: sdiv_nonneg smod_nonneg)
    then have "x < 10 ^ numberOfDigits (x div 10) * 10" by (simp add: div_less_iff_less_mult)
    then show ?thesis using True by (subst numberOfDigits.simps) (simp add: sdiv_nonneg smod_nonneg mult.commute)
  qed (subst numberOfDigits.simps, simp)
qed

lemma numberOfDigits_le: "x < 10 ^ n \<Longrightarrow> numberOfDigits x \<le> n"
proof (induction n arbitrary: x)
  case 0
  then show ?case by (subst numberOfDigits.simps) simp
next
  case (Suc n)
  then have "x div 10 < 10 ^ n" by (simp add: div_less_iff_less_mult mult.commute)
  then show ?case using Suc.IH [of "x div 10"] by (subst numberOfDigits.simps) (simp add: sdiv_nonneg smod_nonneg)
qed

lemma digits_not: "isdigit c \<Longrightarrow> c \<noteq> 0 \<and> \<not> isspace c \<and> c \<noteq> 45 \<and> c \<noteq> 43"
  by (auto simp: isdigit_def isspace_def dest: order_trans [of 48 c "13 :: 8 word"])

lemma scan_digits: "ds \<noteq> [] \<Longrightarrow> list_all isdigit ds \<Longrightarrow> scan_int ds = Some (digits_value 0 ds)"
proof -
  assume d: "ds \<noteq> []" "list_all isdigit ds"
  then obtain c cs where c: "ds = c # cs" by (cases ds) auto
  then have n: "c \<noteq> 0 \<and> \<not> isspace c \<and> c \<noteq> 45 \<and> c \<noteq> 43" using d digits_not by simp
  have "takeWhile isdigit ds = ds" using d(2) by (simp add: takeWhile_eq_all_conv list_all_iff)
  then show ?thesis using n by (simp add: scan_int_def c Let_def)
qed

lemma atoi_digits:
  assumes "ds \<noteq> []" "list_all isdigit ds" "digits_value 0 ds < 2 ^ 31" "0 \<le> digits_value 0 ds"
  shows "atoi (ds @ 0 # rest) = Inr (digits_value 0 ds)"
proof -
  have "takeWhile (\<lambda>c. c \<noteq> 0) (ds @ 0 # rest) = ds"
    using assms(2) digits_not by (subst takeWhile_append2) (auto simp: list_all_iff)
  then show ?thesis using scan_digits [OF assms(1,2)] assms(3,4) by (simp add: atoi_def)
qed


section \<open>Where a program continues\<close>

text \<open>A step of the kernel that neither starts another call nor moves the program counters.\<close>

definition pc_kept :: "'w kern \<Rightarrow> 'w kern \<Rightarrow> bool" where
  "pc_kept k k' \<longleftrightarrow> running k' = running k \<and> (\<forall>m. machine k = Some m \<longrightarrow> (\<exists>m'. machine k' = Some m' \<and>
     registers m' PCReg = registers m PCReg \<and> registers m' NextPCReg = registers m NextPCReg))"

lemma pc_kept_refl [simp]: "pc_kept k k"
  by (simp add: pc_kept_def)

lemma pc_kept_trans: "pc_kept k k1 \<Longrightarrow> pc_kept k1 k2 \<Longrightarrow> pc_kept k k2"
  by (fastforce simp: pc_kept_def)

lemma pc_kept_set_dev [simp]: "pc_kept k (set_dev f k)" "pc_kept k (set_world w k)"
  by (simp_all add: pc_kept_def user_defs)

lemma pc_kept_world: "pc_kept (set_world w k) k1 \<Longrightarrow> pc_kept k k1"
  by (rule pc_kept_trans [OF pc_kept_set_dev(2)])

lemma Translate_registers: "Translate m a sz wr = Inr (r, m') \<Longrightarrow> registers m' = registers m"
  by (auto simp: Translate_def Let_def put_entry_def elim!: bindR_InrE split: if_splits sum.split_asm option.splits)

lemma kernel_read_registers: "kernel_read m a = Inr (c, m') \<Longrightarrow> registers m' = registers m"
  by (auto simp: kernel_read_def ReadMem_def Halt_def dest!: Translate_registers elim!: bindR_InrE split: if_splits sum.split_asm)

lemma UserToSystem_registers: "UserToSystem a n m = Inr (b, m') \<Longrightarrow> registers m' = registers m"
proof -
  have "UserToSystem_loop a i n b m = Inr (b', m') \<Longrightarrow> registers m' = registers m" for a i n b b' m
    by (induction n arbitrary: i b m) (fastforce dest: kernel_read_registers elim!: bindR_InrE split: if_splits)+
  then show "UserToSystem a n m = Inr (b, m') \<Longrightarrow> registers m' = registers m" by (auto simp: UserToSystem_def split: if_splits)
qed

lemma user_string_pc: "user_string a n k = Inr (nm, k') \<Longrightarrow> pc_kept k k'"
  by (auto simp: user_string_def user_buffer_def user_defs pc_kept_def dest!: UserToSystem_registers
      elim!: bindR_InrE split: option.split_asm)

lemma set_result_pc: "set_result v k = Inr k' \<Longrightarrow> pc_kept k k'"
  by (auto simp: set_result_def user_defs pc_kept_def WriteRegister_def reg_defs elim!: bindR_InrE split: option.split_asm)

lemma set_openf_pc: "set_openf i f k = Inr k' \<Longrightarrow> pc_kept k k'"
  by (auto simp: set_openf_def elim!: bindR_InrE)

lemma STable_Create_pc: "STable_Create nm v k = Inr (i, k') \<Longrightarrow> pc_kept k k'"
  by (auto simp: STable_Create_def Sem_new_def Semaphore_new_def put_sem_def pc_kept_def set_dev_def Let_def
      elim!: bindR_InrE split: if_splits)

lemma SC_Create_pc: "SC_Create H k = Inr k' \<Longrightarrow> pc_kept k k'"
  by (auto simp: SC_Create_def elim!: bindR_InrE dest!: user_string_pc set_result_pc
      intro: pc_kept_trans pc_kept_world)

lemma SC_Close_pc: "SC_Close H k = Inr k' \<Longrightarrow> pc_kept k k'"
  by (auto simp: SC_Close_def Let_def elim!: bindR_InrE dest!: set_openf_pc set_result_pc pc_kept_world
      split: if_splits option.split_asm) (meson pc_kept_trans)+

lemma SC_Open_pc: "SC_Open H k = Inr k' \<Longrightarrow> pc_kept k k'"
  by (auto simp: SC_Open_def elim!: bindR_InrE dest!: user_string_pc set_openf_pc set_result_pc pc_kept_world split: if_splits)
    (meson pc_kept_trans)+

text \<open>\<open>SC_CreateSemaphore\<close> moves the program counters itself.\<close>

lemma SC_CreateSemaphore_pc:
  assumes "SC_CreateSemaphore k = Inr k'"
  shows "\<exists>k1. pc_kept k k1 \<and> advance_pc k1 = Inr k'"
  using assms by (auto simp: SC_CreateSemaphore_def elim!: bindR_InrE dest!: user_string_pc STable_Create_pc set_result_pc)
    (meson pc_kept_trans)


section \<open>Properties\<close>

text \<open>C31. Printing and reading numbers.  A positive number is printed as decimal digits, and when these digits are the
  line that \<open>ReadInt\<close> gets, it returns the number.  For zero and for negative numbers \<open>PrintInt\<close> prints
  nothing.\<close>

theorem print_read_int:
  assumes "reg 4 k = Inr v"
  shows "\<exists>ds. SC_PrintInt k = Inr (SynchConsole_Write (ds @ replicate (100 - length ds) 0) (int (length ds)) k) \<and>
    (if 0 < sint v
     then list_all isdigit ds \<and> ds \<noteq> [] \<and>
       (\<forall>rest (k' :: 'v kern). Read_finish For_ReadInt (ds @ 0 # rest) (int (length ds)) k' = set_result v k')
     else ds = [])"
proof (cases "0 < sint v")
  case True
  let ?n = "numberOfDigits (sint v)"
  let ?ds = "places ?n (sint v)"
  have r: "sint v < 2 ^ 31" using sint_range [of v] by blast
  then have "?n \<le> 10" by (intro numberOfDigits_le) simp
  then have f: "fill_digits ?n (sint v) (replicate 100 0) = Inr (?ds @ replicate (100 - ?n) 0)"
    using True by (simp add: fill_digits_places)
  have "0 < ?n" using True by (subst numberOfDigits.simps) simp
  then have ne: "?ds \<noteq> []" by (metis length_places list.size(3) not_less_zero)
  have d: "list_all isdigit ?ds" "digits_value 0 ?ds = sint v"
    using True numberOfDigits_bound by (simp_all add: places_digits places_value)
  have "Read_finish For_ReadInt (?ds @ 0 # rest) (int (length ?ds)) k' = set_result v k'" for rest and k' :: "'v kern"
    using atoi_digits [OF ne d(1), of rest] d True r by (simp add: Read_finish_def)
  then show ?thesis using True f assms ne d(1) by (intro exI [of _ ?ds]) (simp add: SC_PrintInt_def Let_def)
next
  case False
  then have "numberOfDigits (sint v) = 0" by (subst numberOfDigits.simps) simp
  then show ?thesis using False assms by (intro exI [of _ "[]"]) (simp add: SC_PrintInt_def Let_def)
qed

theorem print_read_int_witness:
  "\<exists>ds. SC_PrintInt (sample_kernel\<lparr>machine := Some (set_reg 4 1024 (sample_machine []))\<rparr>) =
      Inr (SynchConsole_Write (ds @ replicate (100 - length ds) 0) (int (length ds))
        (sample_kernel\<lparr>machine := Some (set_reg 4 1024 (sample_machine []))\<rparr>)) \<and> ds \<noteq> [] \<and>
    (\<forall>rest. Read_finish For_ReadInt (ds @ 0 # rest) (int (length ds)) sample_kernel = set_result 1024 sample_kernel)"
proof -
  have "reg 4 (sample_kernel\<lparr>machine := Some (set_reg 4 1024 (sample_machine []))\<rparr>) = Inr 1024"
    by (simp add: reg_def get_machine_def ReadRegister_def reg_defs)
  from print_read_int [OF this] show ?thesis by fastforce
qed

lemma advance_pc_moves:
  assumes "advance_pc k = Inr k'" "machine k = Some m"
  shows "running k' = running k" "\<exists>m'. machine k' = Some m' \<and> registers m' PCReg = registers m NextPCReg \<and>
    registers m' NextPCReg = registers m NextPCReg + 4"
  using assms by (auto simp: advance_pc_def user_defs AdvanceProgramCounter_def Let_def reg_defs)

text \<open>C32. Where a program continues after a system call.  After \<open>Create\<close>, \<open>Open\<close> and \<open>Close\<close> it is at the instruction
  behind the call; after \<open>CreateSemaphore\<close> the handler has moved the program counter twice, and the
  instruction behind the call is skipped.\<close>

theorem syscall_continues:
  assumes t: "reg 2 k = Inr t" "t \<in> {4, 5, 8, 17}" and m: "machine k = Some m"
    and e: "ExceptionHandler H SyscallException k = Inr k1" and s: "kernel_step (user_call H) (user_code H J) k1 = Inr k2"
  shows "running k2 = running k \<and>
    (\<exists>m2. machine k2 = Some m2 \<and> registers m2 PCReg = registers m NextPCReg + (if t = 17 then 4 else 0))"
proof -
  let ?k0 = "push [Code AdvancePC] k"
  have k0: "machine ?k0 = Some m" "running ?k0 = Code AdvancePC # running k" using m by (simp_all add: push_def)
  have y: "syscall H t ?k0 = Inr k1" using e t(1) by (simp add: ExceptionHandler_def)
  have r: "\<exists>m1. running k1 = Code AdvancePC # running k \<and> machine k1 = Some m1 \<and>
      registers m1 NextPCReg = registers m NextPCReg + (if t = 17 then 4 else 0)"
  proof (cases "t = 17")
    case True
    then have "SC_CreateSemaphore ?k0 = Inr k1" using y by (simp add: syscall_def)
    from SC_CreateSemaphore_pc [OF this] obtain k' where k': "pc_kept ?k0 k'" "advance_pc k' = Inr k1" by blast
    obtain m' where m': "machine k' = Some m'" "registers m' NextPCReg = registers m NextPCReg"
      using k'(1) k0(1) by (auto simp: pc_kept_def)
    have "running k' = Code AdvancePC # running k" using k'(1) k0(2) by (simp add: pc_kept_def)
    then show ?thesis using advance_pc_moves [OF k'(2) m'(1)] m'(2) True by auto
  next
    case False
    then have "pc_kept ?k0 k1"
      using y t(2) by (auto simp: syscall_def dest: SC_Create_pc SC_Open_pc SC_Close_pc)
    then show ?thesis using k0 False by (auto simp: pc_kept_def)
  qed
  then obtain m1 where m1: "running k1 = Code AdvancePC # running k" "machine k1 = Some m1"
    "registers m1 NextPCReg = registers m NextPCReg + (if t = 17 then 4 else 0)" by blast
  have "advance_pc (k1\<lparr>running := running k\<rparr>) = Inr k2"
    using s m1(1) by (simp add: kernel_step_def frame_step_def user_code_def)
  from advance_pc_moves [OF this, of m1] m1(2,3) show ?thesis by auto
qed

text \<open>A program with one page of zeros asks for a semaphore with the empty name.\<close>

definition sample_caller :: "unit kern" where
  "sample_caller = sample_kernel\<lparr>machine := Some (set_reg NextPCReg 4 (set_reg 2 17 (sample_machine [sample_entry 0 5])))\<rparr>"

lemma sample_caller_returns:
  "\<exists>k1 k2. ExceptionHandler sample_host SyscallException sample_caller = Inr k1 \<and> sample_step k1 = Inr k2"
proof -
  let ?m = "set_reg NextPCReg 4 (set_reg 2 17 (sample_machine [sample_entry 0 5]))"
  have sp: "user_space ?m [(5, True, False)]"
    by (simp add: user_space_def sample_machine_def sample_entry_def entry_view_def set_reg_def)
  have st: "string_at ?m [(5, True, False)] (unat (0 :: 32 word)) []"
    by (simp add: string_at_def vbyte_def sample_machine_def set_reg_def)
  have mr: "mapped_range [(5, True, False)] (unat (0 :: 32 word)) (Suc (length ([] :: bytes)))"
    by (simp add: mapped_range_def mapped_def size_defs)
  obtain m' where u: "UserToSystem 0 33 ?m = Inr (replicate 34 0, m')" "registers m' = registers ?m"
    using UserToSystem_string [OF sp st mr, of 33] by auto
  let ?k = "push [Code AdvancePC] sample_caller"
  have k: "machine ?k = Some ?m" "machine sample_caller = Some ?m" by (simp_all add: sample_caller_def push_def)
  have r: "reg 2 sample_caller = Inr 17" "reg 4 ?k = Inr 0" "reg 5 ?k = Inr 0"
    using k by (simp_all add: reg_def get_machine_def ReadRegister_def reg_defs sample_machine_def)
  have us: "user_string 0 33 ?k = Inr ([], put_machine m' ?k)"
    using u(1) k by (simp add: user_string_def user_buffer_def get_machine_def cstring_def)
  have st: "\<exists>k2. STable_Create [] 0 (put_machine m' ?k) = Inr (-1, k2) \<and> machine k2 = Some m' \<and> running k2 = Code AdvancePC # running sample_caller"
    by (simp add: STable_Create_def STable_IsExist_def BitMap_Find_def sample_caller_def sample_defs user_defs push_def)
  then show ?thesis
    by (auto simp: ExceptionHandler_def syscall_def SC_CreateSemaphore_def r us MaxNameLength_def set_result_def user_defs
        WriteRegister_def reg_defs advance_pc_def kernel_step_def frame_step_def user_code_def)
qed

theorem syscall_continues_witness:
  "\<exists>k1 k2 m2. ExceptionHandler sample_host SyscallException sample_caller = Inr k1 \<and> sample_step k1 = Inr k2 \<and>
     machine k2 = Some m2 \<and> registers m2 PCReg = 8"
proof -
  obtain k1 k2 where k: "ExceptionHandler sample_host SyscallException sample_caller = Inr k1" "sample_step k1 = Inr k2"
    using sample_caller_returns by blast
  have m: "machine sample_caller = Some (set_reg NextPCReg 4 (set_reg 2 17 (sample_machine [sample_entry 0 5])))"
    by (simp add: sample_caller_def)
  then have "reg 2 sample_caller = Inr 17" by (simp add: reg_def get_machine_def ReadRegister_def reg_defs)
  from syscall_continues [OF this _ m k] show ?thesis using k by auto
qed

end
