(* ===== verification/Context_Switch.thy ===== *)
theory Context_Switch
  imports Kernel_Threads
begin

text \<open>
  The machine level of a context switch on the host the system is built for (\<open>HOST_i386\<close>): the routines
  \<open>SWITCH\<close> and \<open>ThreadRoot\<close> of \<^verbatim>\<open>threads/switch.c\<close> as lists of x86 instructions, the register offsets of
  \<^verbatim>\<open>threads/switch.h\<close>, and the part of \<open>Thread::StackAllocate\<close> that builds the first stack frame.  They
  justify what \<^verbatim>\<open>Kernel_Threads\<close> assumes of a switch: a thread that is switched out resumes where it was,
  and a new thread enables interrupts, calls its procedure and finishes.

  Memory is a function from addresses to bytes; words are little endian.  The instructions of the
  other hosts in the file are not part of this build.
\<close>


section \<open>The processor\<close>

datatype x86reg = EAX | EBX | ECX | EDX | ESI | EDI | EBP | ESP

text \<open>\<open>xcalls\<close> is a trace of the calls made through a register: the target and the word on top of the stack, which
  is the first argument.\<close>

record X86 =
  xregs :: "x86reg \<Rightarrow> 32 word"
  xmem :: "nat \<Rightarrow> 8 word"
  xcalls :: "(32 word \<times> 32 word) list"

text \<open>Operands in the order of the assembler: source, destination.  \<open>MovRM r d b\<close> is \<open>movl %r, d(%b)\<close>; \<open>MovRA\<close> and
  \<open>MovAR\<close> access the word of a label.\<close>

datatype x86 =
    MovRM x86reg "32 word" x86reg
  | MovMR "32 word" x86reg x86reg
  | MovRA x86reg "32 word"
  | MovAR "32 word" x86reg
  | MovRR x86reg x86reg
  | Push x86reg
  | Pop x86reg
  | Call x86reg
  | Ret

definition load32 :: "32 word \<Rightarrow> X86 \<Rightarrow> 32 word" where
  "load32 a s = mem32 (xmem s) (unat a)"

definition store32 :: "32 word \<Rightarrow> 32 word \<Rightarrow> X86 \<Rightarrow> X86" where
  "store32 a v s = s\<lparr>xmem := put32 (xmem s) (unat a) v\<rparr>"

definition set_xreg :: "x86reg \<Rightarrow> 32 word \<Rightarrow> X86 \<Rightarrow> X86" where
  "set_xreg r v s = s\<lparr>xregs := (xregs s)(r := v)\<rparr>"

definition xpush :: "32 word \<Rightarrow> X86 \<Rightarrow> X86" where
  "xpush v s = (let sp = xregs s ESP - 4 in store32 sp v (set_xreg ESP sp s))"

definition xpop :: "X86 \<Rightarrow> 32 word \<times> X86" where
  "xpop s = (load32 (xregs s ESP) s, set_xreg ESP (xregs s ESP + 4) s)"

text \<open>A routine runs from its first instruction to its \<open>ret\<close>; the result is the state after it and the address it
  returns to.  A call leaves the address behind it on the stack and runs \<open>callee\<close>, which returns the
  state in which it gives control back, or \<^const>\<open>None\<close> when it never does.  \<open>at n\<close> is the address of the
  \<open>n\<close>th instruction.\<close>

fun xrun :: "(32 word \<Rightarrow> X86 \<Rightarrow> X86 option) \<Rightarrow> (nat \<Rightarrow> 32 word) \<Rightarrow> nat \<Rightarrow> x86 list \<Rightarrow> X86 \<Rightarrow> (X86 \<times> 32 word option)" where
  "xrun callee at n [] s = (s, None)"
| "xrun callee at n (MovRM r d b # is) s = xrun callee at (Suc n) is (store32 (xregs s b + d) (xregs s r) s)"
| "xrun callee at n (MovMR d b r # is) s = xrun callee at (Suc n) is (set_xreg r (load32 (xregs s b + d) s) s)"
| "xrun callee at n (MovRA r a # is) s = xrun callee at (Suc n) is (store32 a (xregs s r) s)"
| "xrun callee at n (MovAR a r # is) s = xrun callee at (Suc n) is (set_xreg r (load32 a s) s)"
| "xrun callee at n (MovRR r q # is) s = xrun callee at (Suc n) is (set_xreg q (xregs s r) s)"
| "xrun callee at n (Push r # is) s = xrun callee at (Suc n) is (xpush (xregs s r) s)"
| "xrun callee at n (Pop r # is) s = (let (v, s1) = xpop s in xrun callee at (Suc n) is (set_xreg r v s1))"
| "xrun callee at n (Call r # is) s =
     (let f = xregs s r; s1 = xpush (at (Suc n)) (s\<lparr>xcalls := xcalls s @ [(f, load32 (xregs s ESP) s)]\<rparr>) in
      case callee f s1 of None \<Rightarrow> (s1, None) | Some s2 \<Rightarrow> xrun callee at (Suc n) is s2)"
| "xrun callee at n (Ret # is) s = (let (v, s1) = xpop s in (s1, Some v))"


section \<open>The routines\<close>

definition off_ESP :: "32 word" where "off_ESP = 0"
definition off_EAX :: "32 word" where "off_EAX = 4"
definition off_EBX :: "32 word" where "off_EBX = 8"
definition off_ECX :: "32 word" where "off_ECX = 12"
definition off_EDX :: "32 word" where "off_EDX = 16"
definition off_EBP :: "32 word" where "off_EBP = 20"
definition off_ESI :: "32 word" where "off_ESI = 24"
definition off_EDI :: "32 word" where "off_EDI = 28"
definition off_PC :: "32 word" where "off_PC = 32"

lemmas off_defs = off_ESP_def off_EAX_def off_EBX_def off_ECX_def off_EDX_def off_EBP_def off_ESI_def off_EDI_def off_PC_def

definition ThreadRoot_code :: "x86 list" where
  "ThreadRoot_code =
     [Push EBP,
      MovRR ESP EBP,
      Push EDX,
      Call ECX,
      Call ESI,
      Call EDI,
      MovRR EBP ESP,
      Pop EBP,
      Ret]"

text \<open>\<open>eax_save\<close> is the address of the common word \<open>_eax_save\<close>.\<close>

definition SWITCH_save :: "32 word \<Rightarrow> x86 list" where
  "SWITCH_save eax_save =
     [MovRA EAX eax_save,
      MovMR 4 ESP EAX,
      MovRM EBX off_EBX EAX,
      MovRM ECX off_ECX EAX,
      MovRM EDX off_EDX EAX,
      MovRM ESI off_ESI EAX,
      MovRM EDI off_EDI EAX,
      MovRM EBP off_EBP EAX,
      MovRM ESP off_ESP EAX,
      MovAR eax_save EBX,
      MovRM EBX off_EAX EAX,
      MovMR 0 ESP EBX,
      MovRM EBX off_PC EAX]"

definition SWITCH_restore :: "32 word \<Rightarrow> x86 list" where
  "SWITCH_restore eax_save =
     [MovMR 8 ESP EAX,
      MovMR off_EAX EAX EBX,
      MovRA EBX eax_save,
      MovMR off_EBX EAX EBX,
      MovMR off_ECX EAX ECX,
      MovMR off_EDX EAX EDX,
      MovMR off_ESI EAX ESI,
      MovMR off_EDI EAX EDI,
      MovMR off_EBP EAX EBP,
      MovMR off_ESP EAX ESP,
      MovMR off_PC EAX EAX,
      MovRM EAX 4 ESP,
      MovAR eax_save EAX,
      Ret]"

definition SWITCH_code :: "32 word \<Rightarrow> x86 list" where
  "SWITCH_code eax_save = SWITCH_save eax_save @ SWITCH_restore eax_save"

text \<open>\<open>SWITCH\<close> makes no calls.\<close>

definition SWITCH :: "32 word \<Rightarrow> X86 \<Rightarrow> X86 \<times> 32 word option" where
  "SWITCH eax_save s = xrun (\<lambda>_ _. None) (\<lambda>_. 0) 0 (SWITCH_code eax_save) s"

text \<open>The indices of \<open>machineState\<close>, which follows \<open>stackTop\<close> in the thread object.\<close>

definition state_word :: "32 word \<Rightarrow> 32 word \<Rightarrow> 32 word" where
  "state_word t i = t + 4 + 4 * i"

definition PCState :: "32 word" where "PCState = off_PC div 4 - 1"
definition InitialPCState :: "32 word" where "InitialPCState = off_ESI div 4 - 1"
definition InitialArgState :: "32 word" where "InitialArgState = off_EDX div 4 - 1"
definition WhenDonePCState :: "32 word" where "WhenDonePCState = off_EDI div 4 - 1"
definition StartupPCState :: "32 word" where "StartupPCState = off_ECX div 4 - 1"

definition StackSize :: "32 word" where "StackSize = 4 * 1024"

text \<open>\<open>StackAllocate\<close> on the thread object at \<open>t\<close>, with the array \<open>stack\<close> of \<open>StackSize\<close> words that the host allocated; the
  last three arguments are the addresses of the routines.\<close>

definition StackAllocate_frame :: "32 word \<Rightarrow> 32 word \<Rightarrow> 32 word \<Rightarrow> 32 word \<Rightarrow> 32 word \<Rightarrow> 32 word \<Rightarrow> 32 word \<Rightarrow> X86 \<Rightarrow> X86" where
  "StackAllocate_frame t stk func arg threadRoot interruptEnable threadFinish s =
     (let stackTop = stk + 4 * (StackSize - 4) - 4;
          s1 = store32 stackTop threadRoot s;
          s2 = store32 stk STACK_FENCEPOST (store32 t stackTop s1);
          s3 = store32 (state_word t PCState) threadRoot s2;
          s4 = store32 (state_word t StartupPCState) interruptEnable s3;
          s5 = store32 (state_word t InitialPCState) func s4;
          s6 = store32 (state_word t InitialArgState) arg s5
      in store32 (state_word t WhenDonePCState) threadFinish s6)"


section \<open>Memory\<close>

text \<open>Two ranges of bytes that do not overlap.\<close>

definition apart :: "nat \<Rightarrow> nat \<Rightarrow> nat \<Rightarrow> nat \<Rightarrow> bool" where
  "apart a n b m \<longleftrightarrow> a + n \<le> b \<or> b + m \<le> a"

lemma apart_sym: "apart a n b m = apart b m a n"
  by (auto simp: apart_def)

lemma mem32_apart: "apart a 4 b 4 \<Longrightarrow> mem32 (put32 mem b v) a = mem32 mem a"
  by (auto simp: apart_def mem32_def put32_def)

lemma byte_apart: "apart a 1 b 4 \<Longrightarrow> put32 mem b v a = mem a"
  by (auto simp: apart_def put32_def)

lemma apart_inside: "apart a n b m \<Longrightarrow> i + k \<le> n \<Longrightarrow> j + l \<le> m \<Longrightarrow> apart (a + i) k (b + j) l"
  by (auto simp: apart_def)

lemma apart_same: "apart (a + i) k (a + j) l \<longleftrightarrow> i + k \<le> j \<or> j + l \<le> i"
  by (auto simp: apart_def)

lemma unat_plus: "unat a + unat d < 2 ^ 32 \<Longrightarrow> unat (a + d :: 32 word) = unat a + unat d"
  by (simp add: unat_word_ariths)


text \<open>A block of \<open>n\<close> bytes that does not wrap around the end of the address space.\<close>

definition fits :: "32 word \<Rightarrow> nat \<Rightarrow> bool" where
  "fits a n \<longleftrightarrow> unat a + n \<le> 2 ^ 32"

lemma fits_plus: "fits a n \<Longrightarrow> unat d < n \<Longrightarrow> unat (a + d) = unat a + unat d"
  by (simp add: fits_def unat_plus)

text \<open>What \<open>SWITCH\<close> needs on entry: the thread object \<open>t\<close>, the stack above the stack pointer and the word
  \<open>_eax_save\<close> are different pieces of memory.\<close>

definition separate :: "32 word \<Rightarrow> 32 word \<Rightarrow> 32 word \<Rightarrow> bool" where
  "separate eax_save sp t \<longleftrightarrow>
     fits eax_save 4 \<and> fits sp 12 \<and> fits t 36 \<and>
     apart (unat sp) 12 (unat eax_save) 4 \<and> apart (unat sp) 12 (unat t) 36 \<and> apart (unat t) 36 (unat eax_save) 4"


section \<open>Saving and restoring\<close>

lemmas x86_simps = Let_def load32_def store32_def set_xreg_def xpush_def xpop_def off_defs

text \<open>The words a switch leaves in the object of the thread that loses the processor.\<close>

definition saved :: "X86 \<Rightarrow> 32 word \<Rightarrow> (nat \<Rightarrow> 8 word) \<Rightarrow> bool" where
  "saved s t mem \<longleftrightarrow>
     mem32 mem (unat t) = xregs s ESP \<and> mem32 mem (unat t + 4) = xregs s EAX \<and>
     mem32 mem (unat t + 8) = xregs s EBX \<and> mem32 mem (unat t + 12) = xregs s ECX \<and>
     mem32 mem (unat t + 16) = xregs s EDX \<and> mem32 mem (unat t + 20) = xregs s EBP \<and>
     mem32 mem (unat t + 24) = xregs s ESI \<and> mem32 mem (unat t + 28) = xregs s EDI \<and>
     mem32 mem (unat t + 32) = mem32 (xmem s) (unat (xregs s ESP))"

lemma separate_apart:
  assumes "separate v sp t"
  shows "i + 4 \<le> 12 \<Longrightarrow> apart (unat sp + i) 4 (unat v) 4" "i + 4 \<le> 12 \<Longrightarrow> j + 4 \<le> 36 \<Longrightarrow> apart (unat sp + i) 4 (unat t + j) 4"
    "j + 4 \<le> 36 \<Longrightarrow> apart (unat t + j) 4 (unat v) 4" "j + 4 \<le> 36 \<Longrightarrow> apart (unat v) 4 (unat t + j) 4"
    "i + 4 \<le> 12 \<Longrightarrow> apart (unat t + j) 4 (unat sp + i) 4 = apart (unat sp + i) 4 (unat t + j) 4"
    "apart (unat sp) 4 (unat v) 4" "apart (unat sp) 4 (unat t) 4" "i + 4 \<le> 12 \<Longrightarrow> apart (unat sp + i) 4 (unat t) 4"
    "j + 4 \<le> 36 \<Longrightarrow> apart (unat sp) 4 (unat t + j) 4" "apart (unat t) 4 (unat v) 4" "apart (unat v) 4 (unat t) 4"
  using assms by (auto simp: separate_def apart_def)

lemma apart_nearby: "apart a 4 (a + j) 4 = (4 \<le> j)" "apart (a + j) 4 a 4 = (4 \<le> j)"
  by (auto simp: apart_def)

lemma separate_unat:
  assumes "separate v sp t"
  shows "unat d < 12 \<Longrightarrow> unat (sp + d) = unat sp + unat d" "unat d < 36 \<Longrightarrow> unat (t + d) = unat t + unat d"
  using assms fits_plus by (auto simp: separate_def)

text \<open>The memory after the first half of \<open>SWITCH\<close>.\<close>

definition saved_mem :: "32 word \<Rightarrow> 32 word \<Rightarrow> X86 \<Rightarrow> nat \<Rightarrow> 8 word" where
  "saved_mem v t s =
     (let r = xregs s; T = unat t;
          m = put32 (put32 (put32 (xmem s) (unat v) (r EAX)) (T + 8) (r EBX)) (T + 12) (r ECX);
          m = put32 (put32 (put32 m (T + 16) (r EDX)) (T + 24) (r ESI)) (T + 28) (r EDI);
          m = put32 (put32 (put32 m (T + 20) (r EBP)) T (r ESP)) (T + 4) (r EAX)
      in put32 m (T + 32) (mem32 (xmem s) (unat (r ESP))))"

lemma Suc_13: "Suc (Suc (Suc (Suc (Suc (Suc (Suc (Suc (Suc (Suc (Suc (Suc (Suc n)))))))))))) = 13 + n"
  by simp

lemma SWITCH_saves:
  assumes "separate v (xregs s ESP) t" and "mem32 (xmem s) (unat (xregs s ESP) + 4) = t"
  shows "xrun c at n (SWITCH_save v @ is) s = xrun c at (13 + n) is
    (s\<lparr>xregs := (xregs s)(EAX := t, EBX := mem32 (xmem s) (unat (xregs s ESP))), xmem := saved_mem v t s\<rparr>)"
  by (simp add: SWITCH_save_def x86_simps separate_unat [OF assms(1)] mem32_apart separate_apart [OF assms(1)] assms(2)
      mem32_put32 saved_mem_def Let_def Suc_13)

lemma saved_mem_saved:
  assumes "separate v (xregs s ESP) t"
  shows "saved s t (saved_mem v t s)"
  by (simp add: saved_def saved_mem_def Let_def mem32_put32 mem32_apart apart_same apart_nearby)

lemma saved_mem_frame:
  assumes "apart a 1 (unat t) 36" and "apart a 1 (unat v) 4"
  shows "saved_mem v t s a = xmem s a"
proof -
  have "apart a 1 (unat t) 4" and "\<And>j. j + 4 \<le> 36 \<Longrightarrow> apart a 1 (unat t + j) 4"
    using assms(1) by (auto simp: apart_def)
  then show ?thesis
    using assms(2) by (simp add: saved_mem_def Let_def byte_apart)
qed

text \<open>The second half needs the block of the thread that gets the processor, and its stack, apart from \<open>_eax_save\<close>
  and the word that the routine writes above the return address.\<close>

lemma SWITCH_restores:
  fixes t :: "32 word"
  defines "ld \<equiv> \<lambda>mem k. mem32 mem (unat t + k)"
  assumes "mem32 (xmem s) (unat (xregs s ESP + 8)) = t" and "fits t 36" and "fits v 4" and "fits (ld (xmem s) 0) 8"
    and "apart (unat t) 36 (unat v) 4" and "apart (unat (ld (xmem s) 0)) 8 (unat v) 4"
  shows "xrun c at n (SWITCH_restore v) s =
    (s\<lparr>xregs := (\<lambda>r. case r of ESP \<Rightarrow> ld (xmem s) 0 + 4 | EAX \<Rightarrow> ld (xmem s) 4 | EBX \<Rightarrow> ld (xmem s) 8
        | ECX \<Rightarrow> ld (xmem s) 12 | EDX \<Rightarrow> ld (xmem s) 16 | EBP \<Rightarrow> ld (xmem s) 20 | ESI \<Rightarrow> ld (xmem s) 24 | EDI \<Rightarrow> ld (xmem s) 28),
       xmem := put32 (put32 (xmem s) (unat v) (ld (xmem s) 4)) (unat (ld (xmem s) 0) + 4) (ld (xmem s) 32)\<rparr>,
     Some (mem32 (xmem s) (unat (ld (xmem s) 0))))"
proof -
  have u: "unat d < 36 \<Longrightarrow> unat (t + d) = unat t + unat d" for d
    using assms(3) by (rule fits_plus)
  have a: "j + 4 \<le> 36 \<Longrightarrow> apart (unat t + j) 4 (unat v) 4" "apart (unat t) 4 (unat v) 4" for j
    using assms(6) by (auto simp: apart_def)
  let ?p = "mem32 (xmem s) (unat t)"
  have p: "unat (?p + 4) = unat ?p + 4" "apart (unat ?p) 4 (unat v) 4" "apart (unat v) 4 (unat ?p + 4) 4"
    using assms(5,7) fits_plus [of ?p 8 4] by (auto simp: ld_def apart_def)
  show ?thesis
    by (simp add: SWITCH_restore_def x86_simps ld_def assms(2) u a p mem32_apart mem32_put32 apart_nearby fun_eq_iff
        split: x86reg.split)
qed


section \<open>A switch\<close>

text \<open>The stack pointer that the object of a thread holds.\<close>

definition saved_sp :: "X86 \<Rightarrow> 32 word \<Rightarrow> 32 word" where
  "saved_sp s t = mem32 (xmem s) (unat t)"

text \<open>A call \<open>SWITCH (t1, t2)\<close> on the stack of \<open>t1\<close>, with every object in a place of its own.\<close>

definition can_switch :: "32 word \<Rightarrow> X86 \<Rightarrow> 32 word \<Rightarrow> 32 word \<Rightarrow> bool" where
  "can_switch v s t1 t2 \<longleftrightarrow>
     separate v (xregs s ESP) t1 \<and>
     mem32 (xmem s) (unat (xregs s ESP) + 4) = t1 \<and> mem32 (xmem s) (unat (xregs s ESP) + 8) = t2 \<and>
     fits t2 36 \<and> apart (unat t1) 36 (unat t2) 36 \<and> apart (unat t2) 36 (unat v) 4 \<and>
     fits (saved_sp s t2) 8 \<and> apart (unat (saved_sp s t2)) 8 (unat v) 4 \<and>
     apart (unat (saved_sp s t2)) 8 (unat t1) 36"

text \<open>The registers that the object of a thread holds.\<close>

definition saved_regs :: "(nat \<Rightarrow> 8 word) \<Rightarrow> 32 word \<Rightarrow> x86reg \<Rightarrow> 32 word" where
  "saved_regs mem t r = mem32 mem (unat t + (case r of ESP \<Rightarrow> 0 | EAX \<Rightarrow> 4 | EBX \<Rightarrow> 8 | ECX \<Rightarrow> 12 | EDX \<Rightarrow> 16
     | EBP \<Rightarrow> 20 | ESI \<Rightarrow> 24 | EDI \<Rightarrow> 28))"

definition same_block :: "(nat \<Rightarrow> 8 word) \<Rightarrow> (nat \<Rightarrow> 8 word) \<Rightarrow> nat \<Rightarrow> nat \<Rightarrow> bool" where
  "same_block m m' a n \<longleftrightarrow> (\<forall>i < n. m (a + i) = m' (a + i))"

lemma same_block_mem32: "same_block m m' a n \<Longrightarrow> j + 4 \<le> n \<Longrightarrow> mem32 m (a + j) = mem32 m' (a + j)"
proof -
  assume "same_block m m' a n" and "j + 4 \<le> n"
  then have "m (a + (j + k)) = m' (a + (j + k))" if "k < 4" for k
    using that unfolding same_block_def by simp
  from this [of 0] this [of 1] this [of 2] this [of 3] show ?thesis
    by (simp add: mem32_def add.assoc)
qed

lemma same_block_regs: "same_block m m' (unat t) 36 \<Longrightarrow> saved_regs m t = saved_regs m' t"
  using same_block_mem32 [of m m' "unat t" 36 0]
  unfolding saved_regs_def fun_eq_iff by (auto intro!: same_block_mem32 split: x86reg.split)

lemma same_block_apart:
  assumes "\<And>x. apart x 1 b k \<Longrightarrow> apart x 1 c l \<Longrightarrow> apart x 1 d j \<Longrightarrow> m x = m' x" and "apart a n b k" and "apart a n c l" and "apart a n d j"
  shows "same_block m m' a n"
  unfolding same_block_def
proof (intro allI impI)
  fix i assume "i < n"
  with assms(2-4) have "apart (a + i) 1 b k" "apart (a + i) 1 c l" "apart (a + i) 1 d j"
    by (auto simp: apart_def)
  then show "m (a + i) = m' (a + i)"
    by (rule assms(1))
qed

lemma saved_same_block:
  assumes "same_block m m' (unat t) 36" and "saved s t m'"
  shows "saved s t m"
  using assms(2) same_block_mem32 [OF assms(1), of 0] by (simp add: saved_def same_block_mem32 [OF assms(1)])

text \<open>The effect of one call: the registers and the return address of \<open>t2\<close>, the state of \<open>t1\<close> in its object, and
  nothing else but the two words the routine uses.\<close>

lemma SWITCH_effect:
  assumes "can_switch v s t1 t2"
  shows "\<exists>mem. SWITCH v s = (s\<lparr>xregs := (saved_regs (xmem s) t2)(ESP := saved_sp s t2 + 4), xmem := mem\<rparr>,
      Some (mem32 (xmem s) (unat (saved_sp s t2)))) \<and>
    saved s t1 mem \<and>
    (\<forall>a. apart a 1 (unat t1) 36 \<longrightarrow> apart a 1 (unat v) 4 \<longrightarrow> apart a 1 (unat (saved_sp s t2) + 4) 4 \<longrightarrow> mem a = xmem s a)"
proof -
  let ?sp = "unat (xregs s ESP)" and ?p = "saved_sp s t2"
  let ?m = "saved_mem v t1 s"
  let ?s = "s\<lparr>xregs := (xregs s)(EAX := t1, EBX := mem32 (xmem s) ?sp), xmem := ?m\<rparr>"
  have sep: "separate v (xregs s ESP) t1" and args: "mem32 (xmem s) (?sp + 4) = t1" "mem32 (xmem s) (?sp + 8) = t2"
    and t2: "fits t2 36" "apart (unat t1) 36 (unat t2) 36" "apart (unat t2) 36 (unat v) 4"
    and p: "fits ?p 8" "apart (unat ?p) 8 (unat v) 4" "apart (unat ?p) 8 (unat t1) 36"
    using assms by (auto simp: can_switch_def)
  have block: "same_block ?m (xmem s) a n" if "apart a n (unat t1) 36" and "apart a n (unat v) 4" for a n
    using that by (auto intro!: same_block_apart [where b = "unat t1" and c = "unat v" and d = "unat v"] saved_mem_frame)
  have b: "same_block ?m (xmem s) ?sp 12" "same_block ?m (xmem s) (unat t2) 36" "same_block ?m (xmem s) (unat ?p) 8"
    using sep t2 p by (auto intro!: block simp: separate_def apart_sym [of "unat t2"])
  have ld: "mem32 ?m (?sp + 8) = t2" "j + 4 \<le> 36 \<Longrightarrow> mem32 ?m (unat t2 + j) = mem32 (xmem s) (unat t2 + j)"
    "mem32 ?m (unat ?p) = mem32 (xmem s) (unat ?p)" for j
    using same_block_mem32 [OF b(1), of 8] same_block_mem32 [OF b(2), of j] same_block_mem32 [OF b(3), of 0] args by auto
  have ldp: "mem32 ?m (unat t2) = ?p"
    using ld(2) [of 0] by (simp add: saved_sp_def)
  have u8: "unat (xregs s ESP + 8) = ?sp + 8"
    using separate_unat(1) [OF sep, of 8] by simp
  have v: "fits v 4"
    using sep by (simp add: separate_def)
  let ?mem = "put32 (put32 ?m (unat v) (mem32 (xmem s) (unat t2 + 4))) (unat ?p + 4) (mem32 (xmem s) (unat t2 + 32))"
  have run: "SWITCH v s = (s\<lparr>xregs := (saved_regs (xmem s) t2)(ESP := ?p + 4), xmem := ?mem\<rparr>, Some (mem32 (xmem s) (unat ?p)))"
    using SWITCH_restores [of ?s t2 v "\<lambda>_ _. None" "\<lambda>_. 0" 13] v t2 p
    by (auto simp: SWITCH_def SWITCH_code_def SWITCH_saves [OF sep args(1)] u8 ld ldp saved_regs_def fun_eq_iff
        split: x86reg.split)
  have "same_block ?mem ?m (unat t1) 36"
  proof (rule same_block_apart [where b = "unat v" and c = "unat ?p + 4" and d = "unat v" and k = 4 and l = 4 and j = 4])
    show "apart (unat t1) 36 (unat v) 4" "apart (unat t1) 36 (unat ?p + 4) 4" "apart (unat t1) 36 (unat v) 4"
      using p(3) sep by (auto simp: separate_def apart_def)
  qed (simp add: byte_apart)
  then have "saved s t1 ?mem"
    using saved_mem_saved [OF sep] by (rule saved_same_block)
  with run show ?thesis
    by (intro exI [of _ ?mem]) (auto simp: byte_apart saved_mem_frame)
qed


lemma saved_regs_saved: "saved s t mem \<Longrightarrow> saved_regs mem t = xregs s"
  by (auto simp: saved_regs_def saved_def fun_eq_iff split: x86reg.split)

text \<open>C4.  A switch is transparent.  Thread \<open>t1\<close> calls \<open>SWITCH (t1, t2)\<close>.  Later some thread \<open>t3\<close> calls
  \<open>SWITCH (t3, t1)\<close>, and in between nobody has written to the object of \<open>t1\<close> or to the return address on its stack.  Then
  the second call returns to the caller of the first one, with all its registers, the stack pointer
  behind the return address; and it leaves the rest of memory alone.\<close>

theorem SWITCH_resumes:
  assumes "can_switch v s t1 t2" and "can_switch v s2 t3 t1"
    and "same_block (xmem s2) (xmem (fst (SWITCH v s))) (unat t1) 36"
    and "same_block (xmem s2) (xmem s) (unat (xregs s ESP)) 4"
  shows "\<exists>s3. SWITCH v s2 = (s3, Some (mem32 (xmem s) (unat (xregs s ESP)))) \<and>
    xregs s3 = (xregs s)(ESP := xregs s ESP + 4) \<and>
    (\<forall>a. apart a 1 (unat t3) 36 \<longrightarrow> apart a 1 (unat v) 4 \<longrightarrow> apart a 1 (unat (xregs s ESP) + 4) 4 \<longrightarrow> xmem s3 a = xmem s2 a)"
proof -
  obtain mem where 1: "SWITCH v s = (s\<lparr>xregs := (saved_regs (xmem s) t2)(ESP := saved_sp s t2 + 4), xmem := mem\<rparr>,
      Some (mem32 (xmem s) (unat (saved_sp s t2))))" and sv: "saved s t1 mem"
    using SWITCH_effect [OF assms(1)] by blast
  have "saved s t1 (xmem s2)"
    using assms(3) sv by (auto simp: 1 intro: saved_same_block)
  then have regs: "saved_regs (xmem s2) t1 = xregs s" and sp: "saved_sp s2 t1 = xregs s ESP"
    by (simp_all add: saved_regs_saved saved_sp_def) (simp add: saved_def)
  have "mem32 (xmem s2) (unat (xregs s ESP)) = mem32 (xmem s) (unat (xregs s ESP))"
    using same_block_mem32 [OF assms(4), of 0] by simp
  then show ?thesis
    using SWITCH_effect [OF assms(2)] by (auto simp: regs sp)
qed

text \<open>Two threads with objects at 1000 and 2000 and stacks around 5000 and 6000.\<close>

definition put_words :: "(nat \<times> 32 word) list \<Rightarrow> X86 \<Rightarrow> X86" where
  "put_words ws s = fold (\<lambda>(a, w). store32 (of_nat a) w) ws s"

definition sample_out :: X86 where
  "sample_out = put_words [(5000, 77), (5004, 1000), (5008, 2000), (2000, 6000), (6000, 88)]
     \<lparr>xregs = (\<lambda>r. case r of ESP \<Rightarrow> 5000 | EBX \<Rightarrow> 3 | _ \<Rightarrow> 9), xmem = (\<lambda>_. 0), xcalls = []\<rparr>"

definition sample_in :: X86 where
  "sample_in = (let s = fst (SWITCH 100 sample_out) in
     put_words [(5900, 99), (5904, 2000), (5908, 1000)] (s\<lparr>xregs := (xregs s)(ESP := 5900)\<rparr>))"

lemma sample_out_can: "can_switch 100 sample_out 1000 2000"
  by (simp add: can_switch_def separate_def fits_def sample_out_def put_words_def saved_sp_def store32_def
      mem32_put32 mem32_apart apart_def)

lemma sample_in_mem:
  obtains m where "xmem (fst (SWITCH 100 sample_out)) = m" "mem32 m 1000 = 5000" "same_block m (xmem sample_out) 5000 4"
    "xmem sample_in = put32 (put32 (put32 m 5900 99) 5904 2000) 5908 1000"
proof -
  have sp: "saved_sp sample_out 2000 = 6000" "xregs sample_out ESP = 5000"
    by (simp_all add: saved_sp_def sample_out_def put_words_def store32_def mem32_put32 mem32_apart apart_def)
  obtain m where m: "xmem (fst (SWITCH 100 sample_out)) = m" "saved sample_out 1000 m"
    "\<And>a. apart a 1 1000 36 \<Longrightarrow> apart a 1 100 4 \<Longrightarrow> apart a 1 6004 4 \<Longrightarrow> m a = xmem sample_out a"
    using SWITCH_effect [OF sample_out_can] by (auto simp: sp)
  have "same_block m (xmem sample_out) 5000 4"
    by (rule same_block_apart [of 1000 36 100 4 6004 4], erule (2) m(3)) (auto simp: apart_def)
  moreover have "mem32 m 1000 = 5000"
    using m(2) by (simp add: saved_def sp)
  ultimately show thesis
    using m(1) by (intro that [of m]) (simp_all add: sample_in_def put_words_def store32_def Let_def)
qed

lemma sample_in_regs: "xregs sample_in ESP = 5900"
  by (simp add: sample_in_def put_words_def store32_def Let_def)

theorem SWITCH_resumes_witness:
  "\<exists>s3. SWITCH 100 sample_in = (s3, Some 77) \<and> xregs s3 = (xregs sample_out)(ESP := 5004)"
proof -
  obtain m where m: "xmem (fst (SWITCH 100 sample_out)) = m" "mem32 m 1000 = 5000" "same_block m (xmem sample_out) 5000 4"
    "xmem sample_in = put32 (put32 (put32 m 5900 99) 5904 2000) 5908 1000"
    by (rule sample_in_mem)
  have sp: "xregs sample_out ESP = 5000" "mem32 (xmem sample_out) 5000 = 77"
    by (simp_all add: sample_out_def put_words_def store32_def mem32_put32 mem32_apart apart_def)
  have "can_switch 100 sample_in 2000 1000"
    by (simp add: can_switch_def separate_def fits_def saved_sp_def m sample_in_regs mem32_put32 mem32_apart apart_def)
  moreover have "same_block (xmem sample_in) m 1000 36"
    unfolding m(4) by (auto simp: same_block_def put32_def)
  moreover have "same_block (xmem sample_in) (xmem sample_out) 5000 4"
    using m(3) unfolding m(4) by (auto simp: same_block_def put32_def)
  ultimately show ?thesis
    using SWITCH_resumes [OF sample_out_can, of sample_in 2000] by (auto simp: m(1) sp)
qed


section \<open>A new thread\<close>

text \<open>The calling convention of the host: a procedure that returns has popped its return address and restored the
  registers that belong to its caller.\<close>

definition cdecl :: "X86 \<Rightarrow> X86 \<Rightarrow> bool" where
  "cdecl s s' \<longleftrightarrow> xregs s' ESP = xregs s ESP + 4 \<and> xcalls s' = xcalls s \<and> (\<forall>r \<in> {EBX, ESI, EDI, EBP}. xregs s' r = xregs s r)"

definition returns_from :: "(32 word \<Rightarrow> X86 \<Rightarrow> X86 option) \<Rightarrow> 32 word \<Rightarrow> 32 word \<Rightarrow> bool" where
  "returns_from callee f sp \<longleftrightarrow> (\<forall>s. xregs s ESP = sp \<longrightarrow> (\<exists>s'. callee f s = Some s' \<and> cdecl s s'))"

text \<open>A procedure without parameters does not write to the frame of its caller.\<close>

definition keeps_caller :: "(32 word \<Rightarrow> X86 \<Rightarrow> X86 option) \<Rightarrow> 32 word \<Rightarrow> 32 word \<Rightarrow> bool" where
  "keeps_caller callee f sp \<longleftrightarrow>
     (\<forall>s s'. xregs s ESP = sp \<longrightarrow> callee f s = Some s' \<longrightarrow> mem32 (xmem s') (unat (sp + 4)) = mem32 (xmem s) (unat (sp + 4)))"

lemma ThreadRoot_calls:
  assumes "returns_from callee (xregs s ECX) (xregs s ESP - 12)" and "keeps_caller callee (xregs s ECX) (xregs s ESP - 12)"
    and "returns_from callee (xregs s ESI) (xregs s ESP - 12)" and "\<And>s'. callee (xregs s EDI) s' = None"
    and "12 \<le> unat (xregs s ESP)"
  shows "\<exists>s' x. xrun callee at n ThreadRoot_code s = (s', None) \<and>
    xcalls s' = xcalls s @ [(xregs s ECX, xregs s EDX), (xregs s ESI, xregs s EDX), (xregs s EDI, x)]"
proof -
  let ?E = "xregs s ESP"
  have u: "unat (?E - 8) = unat ?E - 8" "unat (?E - 12) = unat ?E - 12"
    using assms(5) by (simp_all add: unat_sub word_le_nat_alt)
  have ap: "apart (unat ?E - 8) 4 (unat ?E - 12) 4"
    using assms(5) by (auto simp: apart_def)
  define s1 where "s1 = xpush (xregs s EDX) (set_xreg EBP (?E - 4) (xpush (xregs s EBP) s))"
  have s1: "xregs s1 ESP = ?E - 8" "xregs s1 ECX = xregs s ECX" "xregs s1 ESI = xregs s ESI" "xregs s1 EDI = xregs s EDI"
    "load32 (?E - 8) s1 = xregs s EDX" "xcalls s1 = xcalls s"
    by (simp_all add: s1_def x86_simps mem32_put32)
  define c1 where "c1 = xpush (at (4 + n)) (s1\<lparr>xcalls := xcalls s @ [(xregs s ECX, xregs s EDX)]\<rparr>)"
  have c1: "xregs c1 ESP = ?E - 12" "xregs c1 ESI = xregs s ESI" "xregs c1 EDI = xregs s EDI"
    "load32 (?E - 8) c1 = xregs s EDX" "xcalls c1 = xcalls s @ [(xregs s ECX, xregs s EDX)]"
    using s1 ap by (simp_all add: c1_def x86_simps mem32_apart u)
  obtain s2 where s2: "callee (xregs s ECX) c1 = Some s2" "cdecl c1 s2"
    using assms(1) c1(1) unfolding returns_from_def by blast
  have "mem32 (xmem s2) (unat (?E - 12 + 4)) = mem32 (xmem c1) (unat (?E - 12 + 4))"
    using assms(2) c1(1) s2(1) unfolding keeps_caller_def by blast
  then have arg: "load32 (?E - 8) s2 = xregs s EDX"
    using c1(4) by (simp add: load32_def)
  have r2: "xregs s2 ESP = ?E - 8" "xregs s2 ESI = xregs s ESI" "xregs s2 EDI = xregs s EDI" "xcalls s2 = xcalls c1"
    using s2(2) c1 by (simp_all add: cdecl_def)
  define c2 where "c2 = xpush (at (5 + n)) (s2\<lparr>xcalls := xcalls c1 @ [(xregs s ESI, xregs s EDX)]\<rparr>)"
  have c2: "xregs c2 ESP = ?E - 12" "xregs c2 EDI = xregs s EDI" "xcalls c2 = xcalls c1 @ [(xregs s ESI, xregs s EDX)]"
    using r2 by (simp_all add: c2_def x86_simps)
  obtain s3 where s3: "callee (xregs s ESI) c2 = Some s3" "cdecl c2 s3"
    using assms(3) c2(1) unfolding returns_from_def by blast
  have r3: "xregs s3 EDI = xregs s EDI" "xcalls s3 = xcalls c2"
    using s3(2) c2 by (simp_all add: cdecl_def)
  have "xrun callee at n ThreadRoot_code s = xrun callee at (3 + n) (drop 3 ThreadRoot_code) s1"
    by (simp add: ThreadRoot_code_def s1_def eval_nat_numeral) (simp add: x86_simps)
  also have "\<dots> = xrun callee at (4 + n) (drop 4 ThreadRoot_code) s2"
    by (simp add: ThreadRoot_code_def s1 c1_def [symmetric] s2 Let_def)
  also have "\<dots> = xrun callee at (5 + n) (drop 5 ThreadRoot_code) s3"
    by (simp add: ThreadRoot_code_def r2 arg c2_def [symmetric] s3 Let_def)
  finally show ?thesis
    using c1(5) c2(3) by (simp add: ThreadRoot_code_def r3 assms(4) Let_def x86_simps)
qed


text \<open>The stack pointer of a new thread.\<close>

definition new_sp :: "32 word \<Rightarrow> 32 word" where
  "new_sp stk = 16364 + stk"

lemmas state_defs = state_word_def PCState_def InitialPCState_def InitialArgState_def WhenDonePCState_def StartupPCState_def

lemma StackAllocate_frame_state:
  fixes s :: X86 and func arg root ie fin :: "32 word"
  assumes "fits t 36" and "fits stk 16384" and "apart (unat t) 36 (unat stk) 16384"
  defines "m \<equiv> xmem (StackAllocate_frame t stk func arg root ie fin s)"
  shows "saved_regs m t ESP = new_sp stk" "saved_regs m t ECX = ie" "saved_regs m t ESI = func" "saved_regs m t EDX = arg"
    "saved_regs m t EDI = fin" "mem32 m (unat (new_sp stk)) = root"
proof -
  have ut: "unat d < 36 \<Longrightarrow> unat (d + t) = unat t + unat d" and us: "unat (16364 + stk) = unat stk + 16364" for d
    using assms(1,2) fits_plus [of t 36 d] fits_plus [of stk 16384 16364] by (simp_all add: add.commute [of d t] add.commute [of _ stk])
  have ap: "j + 4 \<le> 36 \<Longrightarrow> i + 4 \<le> 16384 \<Longrightarrow> apart (unat t + j) 4 (unat stk + i) 4"
    "j + 4 \<le> 36 \<Longrightarrow> i + 4 \<le> 16384 \<Longrightarrow> apart (unat stk + i) 4 (unat t + j) 4"
    "i + 4 \<le> 16384 \<Longrightarrow> apart (unat t) 4 (unat stk + i) 4" "i + 4 \<le> 16384 \<Longrightarrow> apart (unat stk + i) 4 (unat t) 4"
    "j + 4 \<le> 36 \<Longrightarrow> apart (unat t + j) 4 (unat stk) 4" "apart (unat t) 4 (unat stk) 4" for i j
    using assms(3) by (auto simp: apart_def)
  note step = m_def StackAllocate_frame_def x86_simps state_defs StackSize_def new_sp_def saved_regs_def ut us
    mem32_put32 mem32_apart ap apart_same apart_nearby
  show "saved_regs m t ESP = new_sp stk" "saved_regs m t ECX = ie" "saved_regs m t ESI = func" "saved_regs m t EDX = arg"
    "saved_regs m t EDI = fin" "mem32 m (unat (new_sp stk)) = root"
    by (simp_all add: step)
qed

text \<open>C5.  The frame that \<open>StackAllocate\<close> builds starts the thread.  If nobody writes to it before the first switch to
  the thread, that switch goes to \<open>ThreadRoot\<close>, which calls \<open>InterruptEnable\<close>, then the procedure that was forked with its
  argument, then \<open>ThreadFinish\<close>, and does not return.  Hypotheses: \<open>InterruptEnable\<close> and the procedure return as
  the calling convention says, \<open>InterruptEnable\<close>, which has no parameters, leaves the frame of its caller
  alone, and \<open>ThreadFinish\<close> does not return.\<close>

theorem new_thread_starts:
  assumes "fits t 36" and "fits stk 16384" and "apart (unat t) 36 (unat stk) 16384"
    and "same_block (xmem s1) (xmem (StackAllocate_frame t stk func arg root ie fin s)) (unat t) 36"
    and "same_block (xmem s1) (xmem (StackAllocate_frame t stk func arg root ie fin s)) (unat (new_sp stk)) 4"
    and "can_switch v s1 t1 t"
    and "returns_from callee ie (new_sp stk - 8)" and "keeps_caller callee ie (new_sp stk - 8)"
    and "returns_from callee func (new_sp stk - 8)" and "\<And>s'. callee fin s' = None"
  shows "\<exists>s2 s3 x. SWITCH v s1 = (s2, Some root) \<and> xrun callee at 0 ThreadRoot_code s2 = (s3, None) \<and>
    xcalls s3 = xcalls s1 @ [(ie, arg), (func, arg), (fin, x)]"
proof -
  note st = StackAllocate_frame_state [OF assms(1-3), where s = s and func = func and arg = arg and root = root and ie = ie and fin = fin]
  have regs: "saved_regs (xmem s1) t = saved_regs (xmem (StackAllocate_frame t stk func arg root ie fin s)) t"
    using assms(4) by (rule same_block_regs)
  have "saved_sp s1 t = saved_regs (xmem s1) t ESP"
    by (simp add: saved_sp_def saved_regs_def)
  then have sp: "saved_sp s1 t = new_sp stk"
    by (simp add: regs st)
  have root: "mem32 (xmem s1) (unat (new_sp stk)) = root"
    using same_block_mem32 [OF assms(5), of 0] by (simp add: st)
  obtain mem where sw: "SWITCH v s1 = (s1\<lparr>xregs := (saved_regs (xmem s1) t)(ESP := new_sp stk + 4), xmem := mem\<rparr>, Some root)"
    using SWITCH_effect [OF assms(6)] unfolding sp root by blast
  define s2 where "s2 = s1\<lparr>xregs := (saved_regs (xmem s1) t)(ESP := new_sp stk + 4), xmem := mem\<rparr>"
  have r2: "xregs s2 ESP = new_sp stk + 4" "xregs s2 ECX = ie" "xregs s2 ESI = func" "xregs s2 EDX = arg" "xregs s2 EDI = fin"
    "xcalls s2 = xcalls s1"
    by (simp_all add: s2_def regs st)
  have "new_sp stk + 4 - 12 = new_sp stk - 8"
    by simp
  moreover have "12 \<le> unat (new_sp stk + 4)"
    using fits_plus [OF assms(2), of 16368] by (simp add: new_sp_def add.commute [of _ stk])
  ultimately show ?thesis
    using ThreadRoot_calls [of callee s2 at 0] assms(7-10) sw by (simp add: r2 s2_def [symmetric])
qed


text \<open>A thread object at 2000 and its stack at 16384, started by the thread of the example above; a callee that
  returns at once.\<close>

definition sample_start :: X86 where
  "sample_start = StackAllocate_frame 2000 16384 300 7 200 400 500 sample_out"

definition sample_callee :: "32 word \<Rightarrow> X86 \<Rightarrow> X86 option" where
  "sample_callee f s = (if f = 500 then None else Some (set_xreg ESP (xregs s ESP + 4) s))"

lemma sample_start_words:
  "xregs sample_start ESP = 5000" "mem32 (xmem sample_start) 5004 = 1000" "mem32 (xmem sample_start) 5008 = 2000"
  "saved_sp sample_start 2000 = 32748"
  by (simp_all add: sample_start_def sample_out_def put_words_def StackAllocate_frame_def x86_simps state_defs StackSize_def
      saved_sp_def mem32_put32 mem32_apart apart_def)

theorem new_thread_starts_witness:
  "\<exists>s2 s3 x. SWITCH 100 sample_start = (s2, Some 200) \<and> xrun sample_callee (\<lambda>n. 200 + of_nat n) 0 ThreadRoot_code s2 = (s3, None) \<and>
    xcalls s3 = xcalls sample_start @ [(400, 7), (300, 7), (500, x)]"
proof -
  have 1: "can_switch 100 sample_start 1000 2000"
    by (simp add: can_switch_def separate_def fits_def sample_start_words apart_def)
  have 2: "same_block m m a n" for m :: "nat \<Rightarrow> 8 word" and a n
    by (simp add: same_block_def)
  have 3: "returns_from sample_callee f sp" if "f \<noteq> 500" for f sp
    using that by (auto simp: returns_from_def sample_callee_def set_xreg_def cdecl_def)
  have 4: "keeps_caller sample_callee f sp" for f sp
    by (auto simp: keeps_caller_def sample_callee_def set_xreg_def split: if_splits)
  show ?thesis
    by (rule new_thread_starts [where s = sample_out and stk = 16384 and ?t1.0 = 1000 and t = 2000])
      (auto simp: 1 2 3 4 sample_start_def [symmetric] fits_def apart_def sample_callee_def)
qed

end
