(* ===== verification/File_Test.thy ===== *)
theory File_Test
  imports File_System_Calls
begin

text \<open>
  The test routines of the file system (\<^verbatim>\<open>filesys/fstest.cc\<close>): copying a host file into Nachos, printing a
  Nachos file, and the performance test.  A line that a routine prints is a value of \<open>report\<close>; the
  characters of a file that are printed are one value.

  The host files are a map from names to contents; a stream opened for reading is what is left of the
  contents.
\<close>

datatype report =
    NoInputFile "8 word list"
  | NoOutputFile "8 word list"
  | UnableToOpen "8 word list"
  | Chars "8 word list"
  | Starting
  | Statistics
  | SequentialWrite int int
  | SequentialRead int int
  | CantCreate
  | PerfUnableToOpen
  | UnableToWrite
  | UnableToRead
  | UnableToRemove

definition TransferSize :: nat where "TransferSize = 10"

lemma TransferSize_pos [simp]: "0 < TransferSize"
  by (simp add: TransferSize_def)

text \<open>\<open>fread\<close> takes the next \<open>n\<close> bytes of a stream, fewer at its end.\<close>

definition fread :: "nat \<Rightarrow> 8 word list \<Rightarrow> 8 word list \<times> 8 word list" where
  "fread n stream = (take n stream, drop n stream)"

function Copy_loop :: "(nat \<Rightarrow> 8 word) \<Rightarrow> disk \<Rightarrow> OpenFile \<Rightarrow> 8 word list \<Rightarrow> disk res" where
  "Copy_loop junk dsk openFile fp =
     (case fread TransferSize fp of (buffer, fp') \<Rightarrow>
        if buffer = [] then Inr dsk
        else bindR (OpenFile_Write junk dsk openFile buffer (int (length buffer))) (\<lambda>(_, openFile', dsk').
          Copy_loop junk dsk' openFile' fp'))"
  by pat_completeness auto
termination
  by (relation "measure (\<lambda>(_, _, _, fp). length fp)") (auto simp: fread_def)

declare Copy_loop.simps [simp del]

definition Copy :: "(8 word list \<rightharpoonup> 8 word list) \<Rightarrow> Junk \<Rightarrow> FileSystem \<Rightarrow> disk \<Rightarrow> 8 word list \<Rightarrow> 8 word list \<Rightarrow> (report list \<times> disk) res" where
  "Copy unix J fs dsk from_name to =
     (case unix from_name of
        None \<Rightarrow> Inr ([NoInputFile from_name], dsk)
      | Some fp \<Rightarrow>
          let fileLength = int (length fp) in
          bindR (Create J fs dsk to fileLength) (\<lambda>(ok, dsk1).
            if \<not> ok then Inr ([NoOutputFile to], dsk1)
            else
              bindR (Open J fs dsk1 to) (\<lambda>f.
              bindR (ASSERT (f \<noteq> None)) (\<lambda>_.
              bindR (Copy_loop (jbytes J) dsk1 (the f) fp) (\<lambda>dsk2.
              Inr ([], dsk2))))))"

text \<open>A read that returns bytes leaves fewer bytes to read.\<close>

lemma Read_advances:
  assumes "OpenFile_Read dsk f n = Inr (bs, f')" and "bs \<noteq> []"
  shows "FileLength (hdr f') - seekPosition f' < FileLength (hdr f) - seekPosition f \<and> 0 < FileLength (hdr f) - seekPosition f"
  using assms by (auto simp: OpenFile_Read_def ReadAt_def clip_request_def elim!: bindR_InrE split: if_splits)

function Print_loop :: "disk \<Rightarrow> OpenFile \<Rightarrow> 8 word list res" where
  "Print_loop dsk openFile =
     bindR (OpenFile_Read dsk openFile (int TransferSize)) (\<lambda>(buffer, openFile').
       if buffer = [] then Inr []
       else bindR (Print_loop dsk openFile') (\<lambda>rest. Inr (buffer @ rest)))"
  by pat_completeness auto
termination
  by (relation "measure (\<lambda>(_, f). nat (FileLength (hdr f) - seekPosition f))") (auto dest: Read_advances)

declare Print_loop.simps [simp del]

definition Print :: "Junk \<Rightarrow> FileSystem \<Rightarrow> disk \<Rightarrow> 8 word list \<Rightarrow> report list res" where
  "Print J fs dsk nm =
     bindR (Open J fs dsk nm) (\<lambda>f.
       case f of None \<Rightarrow> Inr [UnableToOpen nm]
       | Some openFile \<Rightarrow> bindR (Print_loop dsk openFile) (\<lambda>out. Inr [Chars out]))"


section \<open>The performance test\<close>

text \<open>\<open>TestFile\<close> and \<open>1234567890\<close>.\<close>

definition FileName :: "8 word list" where "FileName = [84, 101, 115, 116, 70, 105, 108, 101]"
definition Contents :: "8 word list" where "Contents = [49, 50, 51, 52, 53, 54, 55, 56, 57, 48]"
definition ContentSize :: int where "ContentSize = int (length Contents)"
definition FileSize :: int where "FileSize = ContentSize * 5000"

text \<open>The loops count \<open>i\<close> up to \<open>FileSize\<close> in steps of \<open>ContentSize\<close>; \<open>n\<close> is the number of rounds left.\<close>

definition rounds :: nat where "rounds = nat (divRoundUp FileSize ContentSize)"

fun FileWrite_loop :: "(nat \<Rightarrow> 8 word) \<Rightarrow> nat \<Rightarrow> disk \<Rightarrow> OpenFile \<Rightarrow> (report list \<times> disk) res" where
  "FileWrite_loop junk 0 dsk openFile = Inr ([], dsk)"
| "FileWrite_loop junk (Suc n) dsk openFile =
     bindR (OpenFile_Write junk dsk openFile Contents ContentSize) (\<lambda>(numBytes, openFile', dsk').
       if numBytes < 10 then Inr ([UnableToWrite], dsk') else FileWrite_loop junk n dsk' openFile')"

definition FileWrite :: "Junk \<Rightarrow> FileSystem \<Rightarrow> disk \<Rightarrow> (report list \<times> disk) res" where
  "FileWrite J fs dsk =
     bindR (Create J fs dsk FileName 0) (\<lambda>(ok, dsk1).
       if \<not> ok then Inr ([SequentialWrite FileSize ContentSize, CantCreate], dsk1)
       else
         bindR (Open J fs dsk1 FileName) (\<lambda>f.
           case f of None \<Rightarrow> Inr ([SequentialWrite FileSize ContentSize, PerfUnableToOpen], dsk1)
           | Some openFile \<Rightarrow>
               bindR (FileWrite_loop (jbytes J) rounds dsk1 openFile) (\<lambda>(out, dsk2).
               Inr (SequentialWrite FileSize ContentSize # out, dsk2))))"

fun FileRead_loop :: "nat \<Rightarrow> disk \<Rightarrow> OpenFile \<Rightarrow> report list res" where
  "FileRead_loop 0 dsk openFile = Inr []"
| "FileRead_loop (Suc n) dsk openFile =
     bindR (OpenFile_Read dsk openFile ContentSize) (\<lambda>(buffer, openFile').
       if length buffer < 10 \<or> buffer \<noteq> Contents then Inr [UnableToRead] else FileRead_loop n dsk openFile')"

definition FileRead :: "Junk \<Rightarrow> FileSystem \<Rightarrow> disk \<Rightarrow> report list res" where
  "FileRead J fs dsk =
     bindR (Open J fs dsk FileName) (\<lambda>f.
       case f of None \<Rightarrow> Inr [SequentialRead FileSize ContentSize, PerfUnableToOpen]
       | Some openFile \<Rightarrow>
           bindR (FileRead_loop rounds dsk openFile) (\<lambda>out. Inr (SequentialRead FileSize ContentSize # out)))"

definition PerformanceTest :: "Junk \<Rightarrow> FileSystem \<Rightarrow> disk \<Rightarrow> (report list \<times> disk) res" where
  "PerformanceTest J fs dsk =
     bindR (FileWrite J fs dsk) (\<lambda>(out1, dsk1).
     bindR (FileRead J fs dsk1) (\<lambda>out2.
     bindR (Remove J fs dsk1 FileName) (\<lambda>(ok, dsk2).
     Inr ([Starting, Statistics] @ out1 @ out2 @ (if ok then [Statistics] else [UnableToRemove]), dsk2))))"


section \<open>Copying and printing\<close>

lemma take_splice: "p + length bs \<le> length xs \<Longrightarrow> take (p + length bs) (splice_at p bs xs) = take p xs @ bs"
  by (simp add: splice_at_def)

lemma Copy_loop_spec:
  assumes "fs_inv fs dsk bm t" and "dir_map t n = Some s" and "hdr f = stored_header dsk s" and "seekPosition f = int p"
    and "length (file_bytes dsk (hdr f)) = p + length fp" and "p + length fp + 10 < 2 ^ 31"
  shows "\<exists>dsk'. Copy_loop junk dsk f fp = Inr dsk' \<and> fs_inv fs dsk' bm t \<and>
    files fs dsk' = (files fs dsk)(n \<mapsto> take p (file_bytes dsk (hdr f)) @ fp)"
  using assms
proof (induction "length fp" arbitrary: dsk f fp p rule: less_induct)
  case less
  note inv = less.prems(1) and s = less.prems(2,3)
  show ?case
  proof (cases "fp = []")
    case True
    have "files fs dsk = (files fs dsk)(n \<mapsto> take p (file_bytes dsk (hdr f)) @ fp)"
      using s True less.prems(5) files_entry [OF inv, of n] by (auto simp: fun_eq_iff)
    moreover have "Copy_loop junk dsk f fp = Inr dsk"
      unfolding True by (simp add: Copy_loop.simps [of _ _ _ "[]"] fread_def)
    ultimately show ?thesis
      using inv by auto
  next
    case False
    define b where "b = take TransferSize fp"
    have b: "length b \<le> length fp" "b \<noteq> []" "fp = b @ drop TransferSize fp"
      using False by (auto simp: b_def)
    have h: "header_ok (hdr f)"
      using fetch_stored(3) [OF inv s(1)] s(2) by simp
    have tr: "transferred (hdr f) (int (length b)) (int p) = length b"
      using transferred_min [OF fs_invD(1) [OF inv] h, of "int p" "length b"] less.prems(5) b(1) by simp
    obtain dsk' where w: "WriteAt junk dsk f b (int (length b)) (int p) = Inr (int (length b), dsk')" "fs_inv fs dsk' bm t"
      "files fs dsk' = (files fs dsk)(n \<mapsto> splice_at p b (file_bytes dsk (hdr f)))" "stored_header dsk' s = stored_header dsk s"
      using Write_spec [OF inv s, of "int p" "int (length b)" b junk] less.prems(6) b(1) by (auto simp: tr)
    let ?f = "f\<lparr>seekPosition := int (p + length b)\<rparr>"
    have run: "Copy_loop junk dsk f fp = Copy_loop junk dsk' ?f (drop TransferSize fp)"
      using b(2) w(1) less.prems(4) by (simp add: Copy_loop.simps [of _ _ _ fp] fread_def OpenFile_Write_def b_def [symmetric])
    have fb: "file_bytes dsk' (hdr ?f) = splice_at p b (file_bytes dsk (hdr f))"
      using files_entry [OF w(2), of n] s w(3,4) by simp
    have len: "length (drop TransferSize fp) + length b = length fp" "length (drop TransferSize fp) < length fp"
      using arg_cong [OF b(3), of length] b(2) False by (simp_all add: b_def)
    have "\<exists>dsk''. Copy_loop junk dsk' ?f (drop TransferSize fp) = Inr dsk'' \<and> fs_inv fs dsk'' bm t \<and>
      files fs dsk'' = (files fs dsk')(n \<mapsto> take (p + length b) (file_bytes dsk' (hdr ?f)) @ drop TransferSize fp)"
      by (rule less.hyps) (use False s less.prems w fb b len in \<open>simp_all del: length_drop\<close>)
    with w(3) show ?thesis
      unfolding run fb using less.prems(5) b(1,3) by (auto simp: take_splice)
  qed
qed

lemma Print_loop_spec:
  assumes "disk_ok dsk" and "header_ok (hdr f)" and "seekPosition f = int p" and "length (file_bytes dsk (hdr f)) + 10 < 2 ^ 31"
    and "p \<le> length (file_bytes dsk (hdr f))"
  shows "Print_loop dsk f = Inr (drop p (file_bytes dsk (hdr f)))"
  using assms
proof (induction "length (file_bytes dsk (hdr f)) - p" arbitrary: f p rule: less_induct)
  case less
  define xs where "xs = file_bytes dsk (hdr f)"
  define b where "b = take TransferSize (drop p xs)"
  have b: "drop p xs = b @ drop (p + length b) xs"
    using append_take_drop_id [of TransferSize "drop p xs"] unfolding b_def
    by (cases "length (drop p xs) \<le> TransferSize") (auto simp: min_def add.commute [of p])
  have r: "OpenFile_Read dsk f (int TransferSize) = Inr (b, f\<lparr>seekPosition := int (p + length b)\<rparr>)"
    using less.prems ReadAt_eq [OF less.prems(1,2), of "int p" "int TransferSize"]
    by (simp add: OpenFile_Read_def TransferSize_def b_def xs_def)
  have run: "Print_loop dsk f = (if b = [] then Inr []
      else bindR (Print_loop dsk (f\<lparr>seekPosition := int (p + length b)\<rparr>)) (\<lambda>rest. Inr (b @ rest)))"
    by (simp add: Print_loop.simps [of dsk f] r)
  show ?case
  proof (cases "p < length xs")
    case True
    have len: "b \<noteq> []" "p + length b \<le> length xs" "length xs - (p + length b) < length xs - p"
      using True by (auto simp: b_def TransferSize_def)
    have "Print_loop dsk (f\<lparr>seekPosition := int (p + length b)\<rparr>) = Inr (drop (p + length b) xs)"
      using less.hyps [of "f\<lparr>seekPosition := int (p + length b)\<rparr>" "p + length b"] less.prems len by (simp add: xs_def)
    then show ?thesis
      using len(1) b by (simp add: run xs_def)
  next
    case False
    then have "b = []" by (simp add: b_def)
    with False show ?thesis by (simp add: run xs_def)
  qed
qed

lemma small_file:
  assumes "disk_ok dsk" and "header_ok h"
  shows "length (file_bytes dsk h) + 10 < 2 ^ 31"
proof -
  have "numBytes h div 512 \<le> 126"
    using assms(2) by (auto simp: header_ok_def divRoundUp_def NumDirect_def size_defs split: if_splits)
  then have "numBytes h < 2147483638"
    by linarith
  then show ?thesis
    by (simp add: length_file_bytes [OF assms])
qed

lemma Print_file:
  assumes "fs_inv fs dsk bm t" and "files fs dsk (cname nm) = Some bs"
  shows "Print J fs dsk nm = Inr [Chars bs]"
proof -
  obtain s where s: "dir_map t (cname nm) = Some s" "bs = file_bytes dsk (stored_header dsk s)"
    using assms(2) by (auto simp: files_entry [OF assms(1)])
  note h = fs_invD(1) [OF assms(1)] fetch_stored(3) [OF assms(1) s(1)]
  show ?thesis
    using Print_loop_spec [OF h(1), of "\<lparr>hdr = stored_header dsk s, seekPosition = 0, ftype = jtype J\<rparr>" 0] h small_file [OF h]
    by (simp add: Print_def Open_spec [OF assms(1)] s)
qed

text \<open>C15.  Copying a host file of at most \<open>MaxFileSize\<close> bytes either reports that the Nachos file cannot be created,
  because the name is taken or there is no room, and changes nothing, or adds exactly one file with the contents of
  the host file; \<open>Print\<close> then prints these contents.\<close>

theorem Copy_then_Print:
  assumes "fs_inv fs dsk bm t" and "junk_ok J" and "unix src = Some data" and "length data \<le> MaxFileSize"
  shows "Copy unix J fs dsk src nm = Inr ([NoOutputFile nm], dsk) \<and>
      (files fs dsk (cname nm) \<noteq> None \<or> no_room bm t (int (length data))) \<or>
    files fs dsk (cname nm) = None \<and>
    (\<exists>dsk'. Copy unix J fs dsk src nm = Inr ([], dsk') \<and> fs_ok fs dsk' \<and>
       files fs dsk' = (files fs dsk)(cname nm \<mapsto> data) \<and> Print J' fs dsk' nm = Inr [Chars data])"
proof -
  have sz: "0 \<le> int (length data)" "int (length data) \<le> int MaxFileSize"
    using assms(4) by simp_all
  consider (no) "Create J fs dsk nm (int (length data)) = Inr (False, dsk)"
      "dir_map t (cname nm) \<noteq> None \<or> no_room bm t (int (length data))"
    | (yes) dsk1 bm1 t1 bs where "dir_map t (cname nm) = None" "Create J fs dsk nm (int (length data)) = Inr (True, dsk1)"
      "fs_inv fs dsk1 bm1 t1" "length bs = length data" "files fs dsk1 = (files fs dsk)(cname nm \<mapsto> bs)"
    using Create_spec [OF assms(1,2) sz, of nm] by auto
  then show ?thesis
  proof cases
    case no
    then show ?thesis
      using assms(3) by (auto simp: Copy_def files_entry [OF assms(1)])
  next
    case yes
    obtain s where s: "dir_map t1 (cname nm) = Some s" "bs = file_bytes dsk1 (stored_header dsk1 s)"
      using yes(5) files_entry [OF yes(3), of "cname nm"] by (cases "dir_map t1 (cname nm)") auto
    let ?f = "\<lparr>hdr = stored_header dsk1 s, seekPosition = 0, ftype = jtype J\<rparr>"
    have "length data + 10 < 2 ^ 31"
      using assms(4) by (simp add: MaxFileSize_def NumDirect_def size_defs)
    then obtain dsk' where c: "Copy_loop (jbytes J) dsk1 ?f data = Inr dsk'" "fs_inv fs dsk' bm1 t1"
      "files fs dsk' = (files fs dsk1)(cname nm \<mapsto> data)"
      using Copy_loop_spec [OF yes(3) s(1), of ?f 0 data "jbytes J"] yes(4) s(2) by auto
    have "Copy unix J fs dsk src nm = Inr ([], dsk')"
      using assms(3) by (simp add: Copy_def yes(2) Open_spec [OF yes(3)] s(1) ASSERT_def c(1))
    moreover have "files fs dsk (cname nm) = None"
      using yes(1) by (simp add: files_entry [OF assms(1)])
    ultimately show ?thesis
      using c Print_file [OF c(2), of nm data J'] yes(5) by (auto simp: fs_ok_def)
  qed
qed


text \<open>The result of formatting, with room for one small file.\<close>

lemma formatted:
  obtains fs dsk bm t where "FileSystem_new sample_junk True (sectors sample_disk) = Inr (fs, dsk)" "fs_inv fs dsk bm t"
    "files fs dsk = Map.empty"
  using format_spec [OF sample_junk_ok sample_file_ok(2)] by blast

theorem Copy_then_Print_witness:
  "\<exists>fs dsk bm t. FileSystem_new sample_junk True (sectors sample_disk) = Inr (fs, dsk) \<and> fs_inv fs dsk bm t \<and>
    (Copy [[99] \<mapsto> replicate 25 7] sample_junk fs dsk [99] [97] = Inr ([NoOutputFile [97]], dsk) \<and> no_room bm t 25 \<or>
     (\<exists>dsk'. Copy [[99] \<mapsto> replicate 25 7] sample_junk fs dsk [99] [97] = Inr ([], dsk') \<and>
       files fs dsk' = [cname [97] \<mapsto> replicate 25 7] \<and> Print sample_junk fs dsk' [97] = Inr [Chars (replicate 25 7)]))"
proof -
  obtain fs dsk bm t where f: "FileSystem_new sample_junk True (sectors sample_disk) = Inr (fs, dsk)" "fs_inv fs dsk bm t"
    "files fs dsk = Map.empty"
    by (rule formatted)
  have "length (replicate 25 (7 :: 8 word)) \<le> MaxFileSize"
    by (simp add: MaxFileSize_def NumDirect_def size_defs)
  from Copy_then_Print [OF f(2) sample_junk_ok _ this, of "[[99] \<mapsto> replicate 25 7]" "[99]" "[97]" sample_junk] f show ?thesis
    by auto
qed


section \<open>The performance test\<close>

lemma rounds_Suc: "\<exists>n. rounds = Suc n"
  by (rule exI [of _ 4999]) (simp add: rounds_def divRoundUp_def FileSize_def ContentSize_def Contents_def)

lemma empty_file_write:
  assumes "numBytes (hdr f) = 0" and "seekPosition f = 0"
  shows "FileWrite_loop junk rounds dsk f = Inr ([UnableToWrite], dsk)"
proof -
  obtain n where n: "rounds = Suc n"
    using rounds_Suc ..
  show ?thesis
    using assms unfolding n by (simp add: OpenFile_Write_def WriteAt_def clip_request_def FileLength_def)
qed

lemma empty_file_read:
  assumes "numBytes (hdr f) = 0" and "seekPosition f = 0"
  shows "FileRead_loop rounds dsk f = Inr [UnableToRead]"
proof -
  obtain n where n: "rounds = Suc n"
    using rounds_Suc ..
  show ?thesis
    using assms unfolding n by (simp add: OpenFile_Read_def ReadAt_def clip_request_def FileLength_def)
qed

text \<open>The performance test cannot succeed on this file system: files keep the length they are created with and the
  test creates its file with length 0.  If the name is free, the test either reports that it cannot create
  the file, or fails to write and to read the first ten bytes; after it the files are those before it.\<close>

theorem PerformanceTest_fails:
  assumes "fs_inv fs dsk bm t" and "junk_ok J" and "files fs dsk (cname FileName) = None"
  shows "\<exists>dsk' out. PerformanceTest J fs dsk = Inr ([Starting, Statistics] @ out, dsk') \<and> fs_ok fs dsk' \<and>
    files fs dsk' = files fs dsk \<and>
    (out = [SequentialWrite 50000 10, CantCreate, SequentialRead 50000 10, PerfUnableToOpen, UnableToRemove] \<and> no_room bm t 0 \<or>
     out = [SequentialWrite 50000 10, UnableToWrite, SequentialRead 50000 10, UnableToRead, Statistics])"
proof -
  have k: "FileSize = 50000" "ContentSize = 10"
    by (simp_all add: FileSize_def ContentSize_def Contents_def)
  have none: "dir_map t (cname FileName) = None"
    using assms(3) by (simp add: files_entry [OF assms(1)])
  consider (no) "Create J fs dsk FileName 0 = Inr (False, dsk)" "no_room bm t 0"
    | (yes) dsk1 bm1 t1 bs where "Create J fs dsk FileName 0 = Inr (True, dsk1)" "fs_inv fs dsk1 bm1 t1" "length bs = 0"
      "files fs dsk1 = (files fs dsk)(cname FileName \<mapsto> bs)"
    using Create_spec [OF assms(1,2), of 0 FileName] none by auto
  then show ?thesis
  proof cases
    case no
    then have "PerformanceTest J fs dsk = Inr ([Starting, Statistics, SequentialWrite 50000 10, CantCreate,
        SequentialRead 50000 10, PerfUnableToOpen, UnableToRemove], dsk)"
      using Remove_spec [OF assms(1), of FileName J] none
      by (simp add: PerformanceTest_def FileWrite_def FileRead_def Open_spec [OF assms(1)] k)
    with no assms(1) show ?thesis
      by (auto simp: fs_ok_def)
  next
    case yes
    obtain s where s: "dir_map t1 (cname FileName) = Some s" "bs = file_bytes dsk1 (stored_header dsk1 s)"
      using yes(4) files_entry [OF yes(2), of "cname FileName"] by (cases "dir_map t1 (cname FileName)") auto
    have "header_ok (stored_header dsk1 s)"
      using fetch_stored(3) [OF yes(2) s(1)] .
    then have z: "numBytes (stored_header dsk1 s) = 0"
      using yes(3) s(2) length_file_bytes [OF fs_invD(1) [OF yes(2)]] by (auto simp: header_ok_def)
    obtain dsk' bm' t' where r: "Remove J fs dsk1 FileName = Inr (True, dsk')" "fs_inv fs dsk' bm' t'"
      "files fs dsk' = (files fs dsk1)(cname FileName := None)"
      using Remove_spec [OF yes(2), of FileName J] s(1) by auto
    have "files fs dsk' = files fs dsk"
      using assms(3) by (auto simp: r(3) yes(4) fun_eq_iff)
    then show ?thesis
      using r(1,2) by (auto simp: PerformanceTest_def FileWrite_def FileRead_def yes(1) Open_spec [OF yes(2)] s(1) z
          empty_file_write empty_file_read k fs_ok_def)
  qed
qed

theorem PerformanceTest_fails_witness:
  "\<exists>fs dsk dsk' out. FileSystem_new sample_junk True (sectors sample_disk) = Inr (fs, dsk) \<and>
    PerformanceTest sample_junk fs dsk = Inr ([Starting, Statistics] @ out, dsk') \<and> files fs dsk' = Map.empty \<and>
    (CantCreate \<in> set out \<or> UnableToWrite \<in> set out)"
proof -
  obtain fs dsk bm t where f: "FileSystem_new sample_junk True (sectors sample_disk) = Inr (fs, dsk)" "fs_inv fs dsk bm t"
    "files fs dsk = Map.empty"
    by (rule formatted)
  from PerformanceTest_fails [OF f(2) sample_junk_ok] f show ?thesis
    by fastforce
qed

end
