(* ===== verification/Thread_Test.thy ===== *)
theory Thread_Test
  imports Kernel_Client Kernel_Run
begin

text \<open>
  The thread test (\<^verbatim>\<open>threads/threadtest.cc\<close>) as a client of the thread system: two threads that print a line and
  yield, five times each.  The program is the third instance of the contract of client code; it needs no
  device, so the interrupt handlers stay a parameter.
\<close>

datatype tline = Looped int int | NoTest

text \<open>The program points: a call of \<open>ThreadTest\<close> with the value of \<open>testnum\<close>, and the test of the loop of
  \<open>SimpleThread\<close>.\<close>

datatype tcode = ThreadTest int | SimpleThread int int

type_synonym 'h tkern = "('h, tcode, tline list) Kernel"

definition SimpleThread_loop :: "int \<Rightarrow> int \<Rightarrow> 'h tkern \<Rightarrow> 'h tkern" where
  "SimpleThread_loop which num k =
     (if num < 5
      then push [Yield_call, Code (SimpleThread which (num + 1))] (set_dev (\<lambda>out. out @ [Looped which num]) k)
      else k)"

definition ThreadTest1 :: "tcode Thread \<Rightarrow> 'h tkern \<Rightarrow> 'h tkern res" where
  "ThreadTest1 junk k =
     (let (t, k1) = Thread_new junk 0 k in
      Fork t (SimpleThread 1 0) (push [Code (SimpleThread 0 0)] k1))"

definition ThreadTest_call :: "tcode Thread \<Rightarrow> int \<Rightarrow> 'h tkern \<Rightarrow> 'h tkern res" where
  "ThreadTest_call junk testnum k =
     (if testnum = 1 then ThreadTest1 junk k else Inr (set_dev (\<lambda>out. out @ [NoTest]) k))"

definition test_code :: "tcode Thread \<Rightarrow> tcode \<Rightarrow> 'h tkern \<Rightarrow> 'h tkern res" where
  "test_code junk c k =
     (case c of
        ThreadTest testnum \<Rightarrow> ThreadTest_call junk testnum k
      | SimpleThread which num \<Rightarrow> Inr (SimpleThread_loop which num k))"

text \<open>\<open>Initialize\<close> without the random timer, up to \<open>Enable\<close>, and \<open>main\<close>.\<close>

definition test_Initialize :: "tcode Thread \<Rightarrow> int \<Rightarrow> 'h tkern res" where
  "test_Initialize junk testnum =
     (let k0 = \<lparr>stats = Statistics_new, interrupt = Interrupt_new, threads = Map.empty, nextThread = 0,
                currentThread = 0, threadToBeDestroyed = None, readyList = [], sems = Map.empty, nextSem = 0,
                machine = None, running = [Code (ThreadTest testnum), ThreadFinish], dev = []\<rparr>;
          (t, k1) = Thread_new junk 0 k0 in
      bindR (setStatus t RUNNING (k1\<lparr>currentThread := t\<rparr>)) (\<lambda>k2.
      bindR (get_thread k2 t) (\<lambda>th.
      SetLevel IntOn (put_thread t (th\<lparr>pid := 0\<rparr>) k2))))"

text \<open>The run of a kernel until it stops: the last state and the error that stopped it, or \<^const>\<open>None\<close> after \<open>n\<close> steps.\<close>

fun run_steps :: "('k \<Rightarrow> 'k res) \<Rightarrow> nat \<Rightarrow> 'k \<Rightarrow> 'k \<times> kerror option" where
  "run_steps step 0 k = (k, None)"
| "run_steps step (Suc n) k = (case step k of Inl e \<Rightarrow> (k, Some e) | Inr k' \<Rightarrow> run_steps step n k')"

lemmas kernel_exec = kernel_step_def frame_step_def test_code_def ThreadTest_call_def ThreadTest1_def SimpleThread_loop_def
  Thread_new_def Fork_def Yield_def Finish_def Sleep_def Idle_def SetLevel_def OneTick_def OneTick_end_def CheckIfDue_def
  ChangeLevel_def ReadyToRun_def FindNextToRun_def Scheduler_Run_def Run_end_def Thread_delete_def CheckOverflow_def save_user_def
  StackAllocate_def setStatus_def get_thread_def put_thread_def push_def set_int_def set_dev_def setMachineStatus_def
  ASSERT_def Halt_def Let_def seq_Append_def seq_Remove_def seq_SortedRemove.simps tick_defs Interrupt_new_def Statistics_new_def

lemma ping_pong_run:
  fixes call :: "'h \<Rightarrow> 'h tkern \<Rightarrow> 'h tkern res"
  shows "\<exists>k. test_Initialize junk 1 = Inr k \<and>
    (\<exists>k'. run_steps (kernel_step call (test_code junk)) 200 k = (k', Some Halted) \<and>
      dev k' = concat (map (\<lambda>i. [Looped 0 i, Looped 1 i]) [0..4]))"
  by (simp add: test_Initialize_def kernel_exec run_steps.simps numeral_nat upto.simps)


lemma run_steps_run:
  "run_steps (kernel_step call code) n k = (k', Some e) \<Longrightarrow>
    \<exists>ks. kernel_run call code k ks k' \<and> kernel_step call code k' = Inl e"
proof (induction n arbitrary: k)
  case (Suc n)
  show ?case
  proof (cases "kernel_step call code k")
    case (Inl e')
    then show ?thesis using Suc.prems run_refl by fastforce
  next
    case (Inr k1)
    then show ?thesis using Suc run_step by fastforce
  qed
qed simp



section \<open>The contract of client code\<close>

text \<open>Without the random timer no handler is ever installed.\<close>

definition test_call :: "unit \<Rightarrow> unit tkern \<Rightarrow> unit tkern res" where
  "test_call _ k = Inl Undefined"

interpretation test_interrupts: interrupt_handlers test_call
  by unfold_locales (simp add: test_call_def)

lemma ThreadTest1_ok:
  assumes k: "calm k" and f: "ThreadTest1 junk k = Inr k'"
  shows "kernel_ok k'" "advances k k'"
proof -
  obtain t k1 where th: "Thread_new junk 0 k = (t, k1)"
    by (cases "Thread_new junk 0 k")
  let ?k = "push [Code (SimpleThread 0 0)] k1"
  have g: "gentle k ?k"
    using gentle_push [OF Thread_new_gentle [OF th]] by simp
  have s: "status_of ?k t = Some JUST_CREATED"
    using th by (auto simp: Thread_new_def Let_def status_of_def put_thread_def push_def)
  have c: "calm ?k" "advances k ?k"
    using g k by (simp_all add: gentle_def)
  have "Fork t (SimpleThread 1 0) ?k = Inr k'"
    using f th by (simp add: ThreadTest1_def)
  note F = Fork_ok [OF c(1) s this]
  show "kernel_ok k'" "advances k k'"
    by (rule F(1), rule advances_trans [OF c(2) F(2)])
qed

interpretation test_kernel: kernel_client test_call "test_code junk" for junk
proof
  fix c k k'
  assume k: "calm k" and c: "test_code junk c k = Inr k'"
  have "ThreadTest1 junk k = Inr k' \<or> gentle k k'"
    using c by (cases c) (auto simp: test_code_def ThreadTest_call_def SimpleThread_loop_def quiet_gentle intro!: quiet_push
        split: if_splits)
  then show "kernel_ok k'" "advances k k'"
    using ThreadTest1_ok [OF k] calm_kernel_ok k by (auto simp: gentle_def)
qed


lemma test_Initialize_ok:
  fixes k :: "'a tkern"
  assumes "test_Initialize junk n = Inr k"
  shows "kernel_ok k"
proof -
  define th where "th = junk\<lparr>tname := 0, stack := None, continuation := [], space := None, tstatus := RUNNING, pid := 0\<rparr>"
  define k5 :: "'a tkern" where "k5 = \<lparr>stats = Statistics_new, interrupt = Interrupt_new, threads = [0 \<mapsto> th],
    nextThread = Suc 0, currentThread = 0, threadToBeDestroyed = None, readyList = [], sems = Map.empty, nextSem = 0,
    machine = None, running = [Code (ThreadTest n), ThreadFinish], dev = []\<rparr>"
  have l: "SetLevel IntOn k5 = Inr k"
    using assms by (simp add: k5_def th_def test_Initialize_def Let_def Thread_new_def setStatus_def get_thread_def put_thread_def)
  have th: "tstatus th = RUNNING" "stack th = None"
    by (simp_all add: th_def)
  have f: "readyList k5 = []" "currentThread k5 = 0" "threadToBeDestroyed k5 = None" "sems k5 = Map.empty" "nextSem k5 = 0"
      "threads k5 = [0 \<mapsto> th]" "nextThread k5 = 1" "list_all plain (running k5)" "interrupt k5 = Interrupt_new"
    by (simp_all add: k5_def)
  have s: "status_of k5 t = (if t = 0 then Some RUNNING else None)" for t
    using th by (simp add: f status_of_def)
  have w: "waiting k5 u = []" for u
    by (simp add: waiting_def f)
  have "core False k5"
    unfolding core_def using th by (auto simp: s f w split: if_splits)
  moreover have "conts_ok k5"
    by (simp add: conts_ok_def f)
  ultimately have "calm k5"
    by (simp add: calm_def f Interrupt_new_def pending_ok_def)
  then show ?thesis
    using SetLevel_ok l by blast
qed

text \<open>So the invariant of the thread system holds at every moment of every test.\<close>

lemma thread_test_ok:
  assumes "test_Initialize junk n = Inr k" and "kernel_run test_call (test_code junk) k ks k'"
  shows "kernel_ok k'"
  using test_kernel.kernel_run_ok [OF assms(2) test_Initialize_ok [OF assms(1)]] by simp

end
