(* ===== verification/Command_Line.thy ===== *)
theory Command_Line
  imports Nachos_Prelude Complex_Main
begin

text \<open>
  The command line: the scan of the options in \<open>Initialize\<close> (\<^verbatim>\<open>threads/system.cc\<close>) and the loops of \<open>main\<close>
  (\<^verbatim>\<open>threads/main.cc\<close>), for every combination of the macros that the makefiles define.  \<open>main\<close> is the list of
  the calls it makes, in order, as long as each of them returns.

  The arguments are without the name of the program.  \<open>atof\<close> of the C library is a parameter.
\<close>


section \<open>Builds\<close>

record Build =
  THREADS :: bool
  USER_PROGRAM :: bool
  FILESYS_NEEDED :: bool
  FILESYS :: bool
  NETWORK :: bool

definition userprog_build :: Build where
  "userprog_build = \<lparr>THREADS = False, USER_PROGRAM = True, FILESYS_NEEDED = True, FILESYS = False, NETWORK = False\<rparr>"

definition filesys_build :: Build where
  "filesys_build = \<lparr>THREADS = True, USER_PROGRAM = True, FILESYS_NEEDED = True, FILESYS = True, NETWORK = False\<rparr>"

definition network_build :: Build where
  "network_build = \<lparr>THREADS = False, USER_PROGRAM = True, FILESYS_NEEDED = True, FILESYS = True, NETWORK = True\<rparr>"


section \<open>The options of Initialize\<close>

text \<open>\<open>atoi\<close>: white space, a sign, decimal digits; a value that is not an \<open>int\<close> is undefined.\<close>

fun digits :: "int \<Rightarrow> string \<Rightarrow> int" where
  "digits acc [] = acc"
| "digits acc (c # cs) =
     (let d = int (of_char c) - 48 in if 0 \<le> d \<and> d \<le> 9 then digits (acc * 10 + d) cs else acc)"

definition isspace :: "char \<Rightarrow> bool" where
  "isspace c \<longleftrightarrow> c = CHR '' '' \<or> (9 \<le> (of_char c :: nat) \<and> (of_char c :: nat) \<le> 13)"

definition atoi :: "string \<Rightarrow> int res" where
  "atoi s =
     (let t = dropWhile isspace s;
          n = (if t \<noteq> [] \<and> hd t = CHR ''-'' then - digits 0 (tl t)
               else if t \<noteq> [] \<and> hd t = CHR ''+'' then digits 0 (tl t) else digits 0 t)
      in if - (2 ^ 31) \<le> n \<and> n < 2 ^ 31 then Inr n else Inl Undefined)"

text \<open>The local variables of \<open>Initialize\<close>; \<open>seeds\<close> are the arguments of the calls of \<open>RandomInit\<close>.\<close>

record Options =
  debugArgs :: string
  seeds :: "int list"
  randomYield :: bool
  debugUserProg :: bool
  format_disk :: bool
  rely :: rat
  netname :: int

definition Options_default :: Options where
  "Options_default = \<lparr>debugArgs = [], seeds = [], randomYield = False, debugUserProg = False, format_disk = False,
     rely = 1, netname = 0\<rparr>"

text \<open>One round of the loop: the new values and \<open>argCount\<close>.  \<open>argv\<close> is what is left of the command line.\<close>

definition Initialize_arg :: "Build \<Rightarrow> (string \<Rightarrow> rat) \<Rightarrow> string list \<Rightarrow> Options \<Rightarrow> (nat \<times> Options) res" where
  "Initialize_arg B atof argv opts =
     (let argc = length argv in
      bindR (if hd argv = ''-d'' then
               (if argc = 1 then Inr (1, opts\<lparr>debugArgs := ''+''\<rparr>) else Inr (2, opts\<lparr>debugArgs := argv ! 1\<rparr>))
             else if hd argv = ''-rs'' then
               bindR (ASSERT (argc > 1)) (\<lambda>_.
               bindR (atoi (argv ! 1)) (\<lambda>n.
               Inr (2, opts\<lparr>seeds := seeds opts @ [n], randomYield := True\<rparr>)))
             else Inr (1, opts)) (\<lambda>(argCount, opts1).
      let opts2 = (if USER_PROGRAM B \<and> hd argv = ''-s'' then opts1\<lparr>debugUserProg := True\<rparr> else opts1);
          opts3 = (if FILESYS_NEEDED B \<and> hd argv = ''-f'' then opts2\<lparr>format_disk := True\<rparr> else opts2) in
      if NETWORK B \<and> hd argv = ''-l'' then
        bindR (ASSERT (argc > 1)) (\<lambda>_. Inr (2, opts3\<lparr>rely := atof (argv ! 1)\<rparr>))
      else if NETWORK B \<and> hd argv = ''-m'' then
        bindR (ASSERT (argc > 1)) (\<lambda>_.
        bindR (atoi (argv ! 1)) (\<lambda>n. Inr (2, opts3\<lparr>netname := n\<rparr>)))
      else Inr (argCount, opts3)))"

text \<open>The flags that \<open>DebugInit\<close> stored (\<^verbatim>\<open>threads/utility.cc\<close>); \<open>strchr\<close> also finds the terminating zero.\<close>

definition DebugIsEnabled :: "string option \<Rightarrow> char \<Rightarrow> bool" where
  "DebugIsEnabled enableFlags flag =
     (case enableFlags of
        Some flags \<Rightarrow> flag \<in> set flags \<or> flag = CHR 0x00 \<or> CHR ''+'' \<in> set flags
      | None \<Rightarrow> False)"

function Initialize_args :: "Build \<Rightarrow> (string \<Rightarrow> rat) \<Rightarrow> string list \<Rightarrow> Options \<Rightarrow> Options res" where
  "Initialize_args B atof [] opts = Inr opts"
| "Initialize_args B atof (a # argv) opts =
     bindR (Initialize_arg B atof (a # argv) opts) (\<lambda>(argCount, opts').
       Initialize_args B atof (drop (argCount - 1) argv) opts')"
  by pat_completeness auto
termination
  by (relation "measure (\<lambda>(_, _, argv, _). length argv)") auto


section \<open>main\<close>

datatype main_call =
    DoInitialize Options
  | DoThreadTest int
  | DoCopyright
  | DoStartProcess string
  | DoConsoleTest "(string \<times> string) option"
  | DoHalt
  | DoCopy string string
  | DoPrint string
  | DoRemove string
  | DoList
  | DoPrintFileSystem
  | DoPerformanceTest
  | DoDelay int
  | DoMailTest int
  | DoFinish
  | Fails kerror

text \<open>The loop for the thread test: the value it leaves in \<open>testnum\<close>.  The second character of an argument
  is read without a check; behind a last \<open>-q\<close> there is a null pointer.\<close>

function testnum_args :: "string list \<Rightarrow> int \<Rightarrow> int res" where
  "testnum_args [] testnum = Inr testnum"
| "testnum_args (a # argv) testnum =
     (case a of
        [] \<Rightarrow> Inl OutOfBounds
      | [_] \<Rightarrow> testnum_args argv 1
      | _ # c # _ \<Rightarrow>
          if c = CHR ''q'' then
            (case argv of [] \<Rightarrow> Inl NullDeref | v # argv' \<Rightarrow> bindR (atoi v) (\<lambda>n. testnum_args argv' n))
          else testnum_args argv 1)"
  by pat_completeness auto
termination
  by (relation "measure (\<lambda>(argv, _). length argv)") auto

text \<open>One round of the second loop: the calls it makes and \<open>argCount\<close>.\<close>

definition main_arg :: "Build \<Rightarrow> string list \<Rightarrow> (main_call list \<times> nat) res" where
  "main_arg B argv =
     (let argc = length argv; a = hd argv in
      let c0 = (if a = ''-z'' then [DoCopyright] else []) in
      bindR (if \<not> USER_PROGRAM B then Inr (c0, 1)
             else if a = ''-x'' then bindR (ASSERT (argc > 1)) (\<lambda>_. Inr (c0 @ [DoStartProcess (argv ! 1)], 2))
             else if a = ''-c'' then
               (if argc = 1 then Inr (c0 @ [DoConsoleTest None, DoHalt], 1)
                else bindR (ASSERT (argc > 2)) (\<lambda>_. Inr (c0 @ [DoConsoleTest (Some (argv ! 1, argv ! 2)), DoHalt], 3)))
             else Inr (c0, 1)) (\<lambda>(c1, n1).
      bindR (if \<not> FILESYS B then Inr (c1, n1)
             else if a = ''-cp'' then bindR (ASSERT (argc > 2)) (\<lambda>_. Inr (c1 @ [DoCopy (argv ! 1) (argv ! 2)], 3))
             else if a = ''-p'' then bindR (ASSERT (argc > 1)) (\<lambda>_. Inr (c1 @ [DoPrint (argv ! 1)], 2))
             else if a = ''-r'' then bindR (ASSERT (argc > 1)) (\<lambda>_. Inr (c1 @ [DoRemove (argv ! 1)], 2))
             else if a = ''-l'' then Inr (c1 @ [DoList], n1)
             else if a = ''-D'' then Inr (c1 @ [DoPrintFileSystem], n1)
             else if a = ''-t'' then Inr (c1 @ [DoPerformanceTest], n1)
             else Inr (c1, n1)) (\<lambda>(c2, n2).
      if NETWORK B \<and> a = ''-o'' then
        bindR (ASSERT (argc > 1)) (\<lambda>_.
        bindR (atoi (argv ! 1)) (\<lambda>n. Inr (c2 @ [DoDelay 2, DoMailTest n], 2)))
      else Inr (c2, n2))))"

function main_args :: "Build \<Rightarrow> string list \<Rightarrow> main_call list" where
  "main_args B [] = [DoFinish]"
| "main_args B (a # argv) =
     (case main_arg B (a # argv) of
        Inl e \<Rightarrow> [Fails e]
      | Inr (calls, argCount) \<Rightarrow> calls @ main_args B (drop (argCount - 1) argv))"
  by pat_completeness auto
termination
  by (relation "measure (\<lambda>(_, argv). length argv)") auto

text \<open>The loop of the thread test leaves \<open>argc\<close> at 0, so the loop behind it has nothing to do.\<close>

definition main_calls :: "Build \<Rightarrow> (string \<Rightarrow> rat) \<Rightarrow> string list \<Rightarrow> main_call list" where
  "main_calls B atof argv =
     (case Initialize_args B atof argv Options_default of
        Inl e \<Rightarrow> [Fails e]
      | Inr opts \<Rightarrow> DoInitialize opts #
          (if THREADS B then
             (case testnum_args argv 1 of Inl e \<Rightarrow> [Fails e] | Inr n \<Rightarrow> DoThreadTest n # main_args B [])
           else main_args B argv))"


section \<open>What the commands do in the three builds\<close>


text \<open>In the network build the option \<^verbatim>\<open>-l\<close> has two meanings: with an argument it sets the reliability and lists the
  directory, without one it fails an assertion before the directory is listed.  The option \<^verbatim>\<open>-n\<close> of the
  comment does nothing.\<close>

lemma network_reliability_option:
  "main_calls network_build atof [''-l'', ''0.9''] =
     [DoInitialize (Options_default\<lparr>rely := atof ''0.9''\<rparr>), DoList, DoFinish]"
  "main_calls network_build atof [''-l''] = [Fails AssertFailed]"
  "main_calls network_build atof [''-n'', ''0.9''] = [DoInitialize Options_default, DoFinish]"
  by (simp_all add: main_calls_def network_build_def Initialize_arg_def main_arg_def ASSERT_def Options_default_def)

text \<open>An argument behind \<open>-q n\<close> puts the number of the test back to 1.\<close>

lemma testnum_forgotten: "testnum_args [''-q'', ''7''] 1 = Inr 7" "testnum_args [''-q'', ''7'', ''-z''] 1 = Inr 1"
  by (simp_all add: atoi_def isspace_def Let_def)

text \<open>A user program is started with the options in front of it; \<open>d\<close> and \<open>prog\<close> are not options themselves.\<close>

lemma run_user_program:
  assumes "\<forall>a \<in> {d, prog}. a \<notin> {''-d'', ''-rs'', ''-s'', ''-f'', ''-x'', ''-c'', ''-z''}"
  shows "main_calls userprog_build atof [''-rs'', ''1234'', ''-s'', ''-d'', d, ''-x'', prog] =
    [DoInitialize (Options_default\<lparr>debugArgs := d, seeds := [1234], randomYield := True, debugUserProg := True\<rparr>),
     DoStartProcess prog, DoFinish]"
  using assms by (simp add: main_calls_def userprog_build_def Initialize_arg_def main_arg_def ASSERT_def Options_default_def
      atoi_def isspace_def Let_def)

end
