(* ===== verification/Disassembler.thy ===== *)
theory Disassembler
  imports MIPS_Interpreter
begin

text \<open>
  The two printers of MIPS instructions: \<open>dump_ascii\<close> of the stand-alone tools (\<^verbatim>\<open>bin/d.c\<close>, \<^verbatim>\<open>bin/opstrings.c\<close>, called by
  \<^verbatim>\<open>bin/disasm.c\<close> and \<^verbatim>\<open>bin/out.c\<close>), and the trace of the simulator (\<^verbatim>\<open>machine/mipssim.cc\<close> with the table \<open>opStrings\<close> of
  \<^verbatim>\<open>machine/mipssim.h\<close>).  The result of each is the text it prints.

  They share no table, and the main result is that they call every instruction by the same name.
\<close>


section \<open>Formatted output\<close>

text \<open>The digits of a number, and the conversions \<open>%d\<close>, \<open>%x\<close> and \<open>%08x\<close> of \<open>printf\<close>.\<close>

definition digit_char :: "nat \<Rightarrow> char" where
  "digit_char d = char_of (if d < 10 then 48 + d else 87 + d)"

fun digits_of :: "nat \<Rightarrow> nat \<Rightarrow> string" where
  "digits_of b n = (if b < 2 \<or> n < b then [digit_char n] else digits_of b (n div b) @ [digit_char (n mod b)])"

declare digits_of.simps [simp del]

definition fmt_d :: "int \<Rightarrow> string" where
  "fmt_d i = (if i < 0 then CHR ''-'' # digits_of 10 (nat (- i)) else digits_of 10 (nat i))"

definition fmt_x :: "32 word \<Rightarrow> string" where
  "fmt_x w = digits_of 16 (unat w)"

definition fmt_08x :: "32 word \<Rightarrow> string" where
  "fmt_08x w = (let s = fmt_x w in replicate (8 - length s) (CHR ''0'') @ s)"

text \<open>\<open>printf\<close> with a format that has only \<open>%d\<close> in it; arguments that are left over are ignored.\<close>

fun printf_d :: "string \<Rightarrow> int list \<Rightarrow> string" where
  "printf_d [] args = []"
| "printf_d [c] args = [c]"
| "printf_d (c # c' # f) args =
     (if c = CHR ''%'' \<and> c' = CHR ''d'' \<and> args \<noteq> [] then fmt_d (hd args) @ printf_d f (tl args)
      else c # printf_d (c' # f) args)"


section \<open>The trace of the simulator\<close>

text \<open>The numbers of the opcodes; \<open>SPECIAL\<close> and \<open>BCOND\<close> do not survive decoding.\<close>

fun opNumber :: "OpCode \<Rightarrow> nat" where
  "opNumber OP_ADD = 1"
| "opNumber OP_ADDI = 2"
| "opNumber OP_ADDIU = 3"
| "opNumber OP_ADDU = 4"
| "opNumber OP_AND = 5"
| "opNumber OP_ANDI = 6"
| "opNumber OP_BEQ = 7"
| "opNumber OP_BGEZ = 8"
| "opNumber OP_BGEZAL = 9"
| "opNumber OP_BGTZ = 10"
| "opNumber OP_BLEZ = 11"
| "opNumber OP_BLTZ = 12"
| "opNumber OP_BLTZAL = 13"
| "opNumber OP_BNE = 14"
| "opNumber OP_DIV = 16"
| "opNumber OP_DIVU = 17"
| "opNumber OP_J = 18"
| "opNumber OP_JAL = 19"
| "opNumber OP_JALR = 20"
| "opNumber OP_JR = 21"
| "opNumber OP_LB = 22"
| "opNumber OP_LBU = 23"
| "opNumber OP_LH = 24"
| "opNumber OP_LHU = 25"
| "opNumber OP_LUI = 26"
| "opNumber OP_LW = 27"
| "opNumber OP_LWL = 28"
| "opNumber OP_LWR = 29"
| "opNumber OP_MFHI = 31"
| "opNumber OP_MFLO = 32"
| "opNumber OP_MTHI = 34"
| "opNumber OP_MTLO = 35"
| "opNumber OP_MULT = 36"
| "opNumber OP_MULTU = 37"
| "opNumber OP_NOR = 38"
| "opNumber OP_OR = 39"
| "opNumber OP_ORI = 40"
| "opNumber OP_RFE = 41"
| "opNumber OP_SB = 42"
| "opNumber OP_SH = 43"
| "opNumber OP_SLL = 44"
| "opNumber OP_SLLV = 45"
| "opNumber OP_SLT = 46"
| "opNumber OP_SLTI = 47"
| "opNumber OP_SLTIU = 48"
| "opNumber OP_SLTU = 49"
| "opNumber OP_SRA = 50"
| "opNumber OP_SRAV = 51"
| "opNumber OP_SRL = 52"
| "opNumber OP_SRLV = 53"
| "opNumber OP_SUB = 54"
| "opNumber OP_SUBU = 55"
| "opNumber OP_SW = 56"
| "opNumber OP_SWL = 57"
| "opNumber OP_SWR = 58"
| "opNumber OP_XOR = 59"
| "opNumber OP_XORI = 60"
| "opNumber OP_SYSCALL = 61"
| "opNumber OP_UNIMP = 62"
| "opNumber OP_RES = 63"
| "opNumber SPECIAL = 100"
| "opNumber BCOND = 101"

datatype RegType = NONE | RS | RT | RD | EXTRA

definition opStrings :: "(string \<times> RegType list) list" where
  "opStrings = [
    (''Shouldn'' @ [CHR 0x27] @ ''t happen'', [NONE, NONE, NONE]), (''ADD r%d,r%d,r%d'', [RD, RS, RT]),
    (''ADDI r%d,r%d,%d'', [RT, RS, EXTRA]), (''ADDIU r%d,r%d,%d'', [RT, RS, EXTRA]),
    (''ADDU r%d,r%d,r%d'', [RD, RS, RT]), (''AND r%d,r%d,r%d'', [RD, RS, RT]),
    (''ANDI r%d,r%d,%d'', [RT, RS, EXTRA]), (''BEQ r%d,r%d,%d'', [RS, RT, EXTRA]),
    (''BGEZ r%d,%d'', [RS, EXTRA, NONE]), (''BGEZAL r%d,%d'', [RS, EXTRA, NONE]),
    (''BGTZ r%d,%d'', [RS, EXTRA, NONE]), (''BLEZ r%d,%d'', [RS, EXTRA, NONE]),
    (''BLTZ r%d,%d'', [RS, EXTRA, NONE]), (''BLTZAL r%d,%d'', [RS, EXTRA, NONE]),
    (''BNE r%d,r%d,%d'', [RS, RT, EXTRA]), (''Shouldn'' @ [CHR 0x27] @ ''t happen'', [NONE, NONE, NONE]),
    (''DIV r%d,r%d'', [RS, RT, NONE]), (''DIVU r%d,r%d'', [RS, RT, NONE]),
    (''J %d'', [EXTRA, NONE, NONE]), (''JAL %d'', [EXTRA, NONE, NONE]),
    (''JALR r%d,r%d'', [RD, RS, NONE]), (''JR r%d,r%d'', [RD, RS, NONE]),
    (''LB r%d,%d(r%d)'', [RT, EXTRA, RS]), (''LBU r%d,%d(r%d)'', [RT, EXTRA, RS]),
    (''LH r%d,%d(r%d)'', [RT, EXTRA, RS]), (''LHU r%d,%d(r%d)'', [RT, EXTRA, RS]),
    (''LUI r%d,%d'', [RT, EXTRA, NONE]), (''LW r%d,%d(r%d)'', [RT, EXTRA, RS]),
    (''LWL r%d,%d(r%d)'', [RT, EXTRA, RS]), (''LWR r%d,%d(r%d)'', [RT, EXTRA, RS]),
    (''Shouldn'' @ [CHR 0x27] @ ''t happen'', [NONE, NONE, NONE]), (''MFHI r%d'', [RD, NONE, NONE]),
    (''MFLO r%d'', [RD, NONE, NONE]), (''Shouldn'' @ [CHR 0x27] @ ''t happen'', [NONE, NONE, NONE]),
    (''MTHI r%d'', [RS, NONE, NONE]), (''MTLO r%d'', [RS, NONE, NONE]),
    (''MULT r%d,r%d'', [RS, RT, NONE]), (''MULTU r%d,r%d'', [RS, RT, NONE]),
    (''NOR r%d,r%d,r%d'', [RD, RS, RT]), (''OR r%d,r%d,r%d'', [RD, RS, RT]),
    (''ORI r%d,r%d,%d'', [RT, RS, EXTRA]), (''RFE'', [NONE, NONE, NONE]),
    (''SB r%d,%d(r%d)'', [RT, EXTRA, RS]), (''SH r%d,%d(r%d)'', [RT, EXTRA, RS]),
    (''SLL r%d,r%d,%d'', [RD, RT, EXTRA]), (''SLLV r%d,r%d,r%d'', [RD, RT, RS]),
    (''SLT r%d,r%d,r%d'', [RD, RS, RT]), (''SLTI r%d,r%d,%d'', [RT, RS, EXTRA]),
    (''SLTIU r%d,r%d,%d'', [RT, RS, EXTRA]), (''SLTU r%d,r%d,r%d'', [RD, RS, RT]),
    (''SRA r%d,r%d,%d'', [RD, RT, EXTRA]), (''SRAV r%d,r%d,r%d'', [RD, RT, RS]),
    (''SRL r%d,r%d,%d'', [RD, RT, EXTRA]), (''SRLV r%d,r%d,r%d'', [RD, RT, RS]),
    (''SUB r%d,r%d,r%d'', [RD, RS, RT]), (''SUBU r%d,r%d,r%d'', [RD, RS, RT]),
    (''SW r%d,%d(r%d)'', [RT, EXTRA, RS]), (''SWL r%d,%d(r%d)'', [RT, EXTRA, RS]),
    (''SWR r%d,%d(r%d)'', [RT, EXTRA, RS]), (''XOR r%d,r%d,r%d'', [RD, RS, RT]),
    (''XORI r%d,r%d,%d'', [RT, RS, EXTRA]), (''SYSCALL'', [NONE, NONE, NONE]),
    (''Unimplemented'', [NONE, NONE, NONE]), (''Reserved'', [NONE, NONE, NONE])]"

definition TypeToReg :: "RegType \<Rightarrow> Instruction \<Rightarrow> int" where
  "TypeToReg reg instr =
     (case reg of
        RS \<Rightarrow> int (rs instr)
      | RT \<Rightarrow> int (rt instr)
      | RD \<Rightarrow> int (rd instr)
      | EXTRA \<Rightarrow> sint (extra instr)
      | NONE \<Rightarrow> -1)"

text \<open>The line that \<open>OneInstruction\<close> prints under the debug flag \<open>m\<close>.\<close>

definition trace_instruction :: "32 word \<Rightarrow> 32 word \<Rightarrow> string" where
  "trace_instruction pc raw =
     (let instr = Decode raw; (s, args) = opStrings ! opNumber (opCode instr) in
      ''At PC = 0x'' @ fmt_x pc @ '': '' @ printf_d s (map (\<lambda>r. TypeToReg r instr) args) @ [CHR 0x0A])"


section \<open>The disassembler\<close>

definition normalops :: "string list" where
  "normalops = [
    ''special'', ''bcond'', ''j'', ''jal'', ''beq'', ''bne'', ''blez'', ''bgtz'', ''addi'', ''addiu'',
    ''slti'', ''sltiu'', ''andi'', ''ori'', ''xori'', ''lui'', ''cop0'', ''cop1'', ''cop2'', ''cop3'',
    ''024'', ''025'', ''026'', ''027'', ''030'', ''031'', ''032'', ''033'', ''034'', ''035'',
    ''036'', ''037'', ''lb'', ''lh'', ''lwl'', ''lw'', ''lbu'', ''lhu'', ''lwr'', ''047'',
    ''sb'', ''sh'', ''swl'', ''sw'', ''054'', ''055'', ''swr'', ''057'', ''lwc0'', ''lwc1'',
    ''lwc2'', ''lwc3'', ''064'', ''065'', ''066'', ''067'', ''swc0'', ''swc1'', ''swc2'', ''swc3'',
    ''074'', ''075'', ''076'', ''077'']"

definition specialops :: "string list" where
  "specialops = [
    ''sll'', ''001'', ''srl'', ''sra'', ''sllv'', ''005'', ''srlv'', ''srav'', ''jr'', ''jalr'',
    ''012'', ''013'', ''syscall'', ''break'', ''016'', ''017'', ''mfhi'', ''mthi'', ''mflo'', ''mtlo'',
    ''024'', ''025'', ''026'', ''027'', ''mult'', ''multu'', ''div'', ''divu'', ''034'', ''035'',
    ''036'', ''037'', ''add'', ''addu'', ''sub'', ''subu'', ''and'', ''or'', ''xor'', ''nor'',
    ''050'', ''051'', ''slt'', ''sltu'', ''054'', ''055'', ''056'', ''057'', ''060'', ''061'',
    ''062'', ''063'', ''064'', ''065'', ''066'', ''067'', ''070'', ''071'', ''072'', ''073'',
    ''074'', ''075'', ''076'', ''077'']"

definition regstrings :: "string list" where
  "regstrings = [
    ''0'', ''r1'', ''r2'', ''r3'', ''r4'', ''r5'', ''r6'', ''r7'', ''r8'', ''r9'',
    ''r10'', ''r11'', ''r12'', ''r13'', ''r14'', ''r15'', ''r16'', ''r17'', ''r18'', ''r19'',
    ''r20'', ''r21'', ''r22'', ''r23'', ''r24'', ''r25'', ''r26'', ''r27'', ''gp'', ''sp'',
    ''r30'', ''r31'']"

definition R :: "nat \<Rightarrow> string" where
  "R i = regstrings ! i"

definition off26 :: "32 word \<Rightarrow> 32 word" where
  "off26 i = push_bit 2 (i AND 0x3ffffff)"

definition top4 :: "32 word \<Rightarrow> 32 word" where
  "top4 i = i AND 0xf0000000"

definition off16 :: "32 word \<Rightarrow> 32 word" where
  "off16 i = push_bit 2 (immed i)"

definition dump_special :: "32 word \<Rightarrow> string" where
  "dump_special i =
     (let opcode = unat (i AND 0x3f) in
      specialops ! opcode @ [CHR 0x09] @
      (if opcode \<in> {I_SLL, I_SRL, I_SRA} then R (i_rd i) @ '','' @ R (i_rt i) @ '',0x'' @ fmt_x (of_nat (shamt i))
       else if opcode \<in> {I_SLLV, I_SRLV, I_SRAV} then R (i_rd i) @ '','' @ R (i_rt i) @ '','' @ R (i_rs i)
       else if opcode \<in> {I_JR, I_JALR, I_MFLO, I_MTLO} then R (i_rs i)
       else if opcode \<in> {I_SYSCALL, I_BREAK} then []
       else if opcode \<in> {I_MFHI, I_MTHI} then R (i_rd i)
       else if opcode \<in> {I_MULT, I_MULTU, I_DIV, I_DIVU} then R (i_rs i) @ '','' @ R (i_rt i)
       else if opcode \<in> {I_ADD, I_ADDU, I_SUB, I_SUBU, I_AND, I_OR, I_XOR, I_NOR, I_SLT, I_SLTU}
       then R (i_rd i) @ '','' @ R (i_rs i) @ '','' @ R (i_rt i)
       else []))"

definition bcond_name :: "32 word \<Rightarrow> string" where
  "bcond_name i =
     (if i_rt i = I_BLTZ then ''bltz''
      else if i_rt i = I_BGEZ then ''bgez''
      else if i_rt i = I_BLTZAL then ''bltzal''
      else if i_rt i = I_BGEZAL then ''bgezal''
      else ''BCOND'')"

definition dump_bcond :: "32 word \<Rightarrow> 32 word \<Rightarrow> string" where
  "dump_bcond i pc = bcond_name i @ [CHR 0x09] @ R (i_rs i) @ '','' @ fmt_08x (off16 i + pc + 4)"

definition dump_normal :: "32 word \<Rightarrow> 32 word \<Rightarrow> string" where
  "dump_normal i pc =
     (let opcode = unat (drop_bit 26 i) in
      normalops ! opcode @ [CHR 0x09] @
      (if opcode \<in> {I_J, I_JAL} then fmt_08x (top4 pc OR off26 i)
       else if opcode \<in> {I_BEQ, I_BNE} then R (i_rt i) @ '','' @ R (i_rs i) @ '','' @ fmt_08x (off16 i + pc + 4)
       else if opcode \<in> {I_ADDI, I_ADDIU, I_SLTI, I_SLTIU, I_ANDI, I_ORI, I_XORI}
       then R (i_rt i) @ '','' @ R (i_rs i) @ '',0x'' @ fmt_x (immed i)
       else if opcode = I_LUI then R (i_rt i) @ '',0x'' @ fmt_x (immed i)
       else if opcode \<in> {I_COP0, I_COP1, I_COP2, I_COP3} then []
       else if opcode \<in> {I_LB, I_LH, I_LWL, I_LW, I_LBU, I_LHU, I_LWR, I_SB, I_SH, I_SWL, I_SW, I_SWR,
                          I_LWC0, I_LWC1, I_LWC2, I_LWC3, I_SWC0, I_SWC1, I_SWC2, I_SWC3}
       then R (i_rt i) @ '',0x'' @ fmt_x (immed i) @ ''('' @ R (i_rs i) @ '')''
       else []))"

text \<open>The text of an instruction, and the whole line; \<open>longdis\<close> is 1.\<close>

definition dump_text :: "32 word \<Rightarrow> 32 word \<Rightarrow> string" where
  "dump_text i pc =
     (let opcode = unat (drop_bit 26 i) in
      if i = 0 then ''nop''
      else if opcode = I_SPECIAL then dump_special i
      else if opcode = I_BCOND then dump_bcond i pc
      else dump_normal i pc)"

definition dump_ascii :: "32 word \<Rightarrow> 32 word \<Rightarrow> string" where
  "dump_ascii i pc = fmt_08x pc @ '': '' @ fmt_08x i @ ''  '' @ [CHR 0x09] @ dump_text i pc"

text \<open>\<open>disasm\<close> prints the text section word by word; \<open>n\<close> is the number of words left, and \<open>i\<close> counts bytes in the
  source.\<close>

fun disasm_loop :: "Interp \<Rightarrow> nat \<Rightarrow> 32 word \<Rightarrow> string res" where
  "disasm_loop s 0 pc = Inr []"
| "disasm_loop s (Suc n) pc =
     bindR (fetch s pc) (\<lambda>instr.
     bindR (disasm_loop s n (pc + 4)) (\<lambda>rest. Inr (dump_ascii instr pc @ [CHR 0x0A] @ rest)))"

definition disasm :: "Interp \<Rightarrow> nat \<Rightarrow> string res" where
  "disasm s text_size = disasm_loop s ((text_size + 3) div 4) memoffset"


section \<open>The names agree\<close>

definition tolower :: "char \<Rightarrow> char" where
  "tolower c = (let n = of_char c :: nat in if 65 \<le> n \<and> n \<le> 90 then char_of (n + 32) else c)"

definition dis_name :: "32 word \<Rightarrow> string" where
  "dis_name i = takeWhile (\<lambda>c. c \<noteq> CHR 0x09) (dump_text i 0)"

definition trace_name :: "OpCode \<Rightarrow> string" where
  "trace_name op = map tolower (takeWhile (\<lambda>c. c \<noteq> CHR '' '') (fst (opStrings ! opNumber op)))"

lemma normal_names:
  "list_all2 (\<lambda>(op, _) s. op \<in> {SPECIAL, BCOND, OP_UNIMP, OP_RES} \<or> trace_name op = s) opTable normalops"
  by code_simp

lemma special_names: "list_all2 (\<lambda>op s. op \<in> {OP_UNIMP, OP_RES} \<or> trace_name op = s) specialTable specialops"
  by code_simp

lemma bcond_names: "trace_name OP_BLTZ = ''bltz''" "trace_name OP_BGEZ = ''bgez''" "trace_name OP_BLTZAL = ''bltzal''"
  "trace_name OP_BGEZAL = ''bgezal''"
  by code_simp+


lemma names_lengths: "length normalops = 64" "length specialops = 64"
  by (simp_all add: normalops_def specialops_def)

lemma no_tabs: "list_all (list_all (\<lambda>c. c \<noteq> CHR 0x09)) (normalops @ specialops)"
  by code_simp

lemma opcode_field: "drop_bit 26 (v :: 32 word) AND 0x3f = drop_bit 26 v"
proof -
  have "(0x3f :: 32 word) = mask 6"
    by (simp add: mask_eq_exp_minus_1)
  then have "drop_bit 26 v AND 0x3f = take_bit 6 (drop_bit 26 v)"
    by (simp add: take_bit_eq_mask)
  also have "\<dots> = drop_bit 26 v"
    by (rule bit_word_eqI) (auto simp: bit_simps dest: bit_imp_le_length)
  finally show ?thesis .
qed

lemma bcond_Decode:
  assumes "unat (drop_bit 26 v) = I_BCOND" and "opCode (Decode v) \<noteq> OP_UNIMP"
  shows "bcond_name v = trace_name (opCode (Decode v))"
proof -
  define u where "u = v AND 0x1f0000"
  have i: "i_rt v = unat (drop_bit 16 u)"
    unfolding i_rt_def u_def by (rule rt_field)
  have "drop_bit 16 (0x10000 :: 32 word) = 1" "drop_bit 16 (0x100000 :: 32 word) = 16" "drop_bit 16 (0x110000 :: 32 word) = 17"
    by code_simp+
  moreover have "opCode (Decode v) = decode_opCode BCOND v"
    using assms(1) by (simp add: Decode_def opcode_field I_defs opTable_def)
  ultimately show ?thesis
    using assms(2) unfolding decode_opCode_def bcond_name_def u_def [symmetric] i
    by (auto simp: Let_def I_defs bcond_names split: if_splits)
qed

lemma printed_name:
  assumes "v \<noteq> 0"
  shows "dis_name v = (let n = unat (drop_bit 26 v) in
    if n = I_SPECIAL then specialops ! unat (v AND 0x3f) else if n = I_BCOND then bcond_name v else normalops ! n)"
proof -
  have n: "unat (drop_bit 26 v) < length normalops" "unat (v AND 0x3f) < length specialops"
    using table_index [of v] table_index [of "drop_bit 26 v"] by (simp_all add: opcode_field names_lengths)
  have t: "takeWhile (\<lambda>c. c \<noteq> CHR 0x09) (s @ [CHR 0x09] @ r) = s" if "list_all (\<lambda>c. c \<noteq> CHR 0x09) s" for s r
    using that by (simp add: list_all_iff takeWhile_append2)
  have "list_all (\<lambda>c. c \<noteq> CHR 0x09) (normalops ! unat (drop_bit 26 v))" "list_all (\<lambda>c. c \<noteq> CHR 0x09) (specialops ! unat (v AND 0x3f))"
    using no_tabs nth_mem [OF n(1)] nth_mem [OF n(2)] unfolding list_all_iff by auto
  moreover have "list_all (\<lambda>c. c \<noteq> CHR 0x09) (bcond_name v)"
    by (simp add: bcond_name_def)
  ultimately show ?thesis
    using assms t by (auto simp: dis_name_def dump_text_def dump_special_def dump_bcond_def dump_normal_def Let_def)
qed

text \<open>C23.  The disassembler and the trace of the simulator call every instruction that the simulator implements by the
  same name, up to the case of its letters, except the all-zero word, which the disassembler prints as \<open>nop\<close>.\<close>

theorem printers_agree:
  assumes "v \<noteq> 0" and "opCode (Decode v) \<notin> {OP_UNIMP, OP_RES}"
  shows "dis_name v = trace_name (opCode (Decode v))"
proof -
  let ?n = "unat (drop_bit 26 v)" and ?f = "unat (v AND 0x3f)"
  obtain op fmt where e: "opTable ! ?n = (op, fmt)"
    by fastforce
  have d: "opCode (Decode v) = decode_opCode op v"
    using e by (simp add: Decode_def opcode_field)
  have n: "?n < length opTable" "?f < length specialTable"
    using table_index [of v] table_index [of "drop_bit 26 v"] by (simp_all add: opcode_field table_lengths)
  have N: "op \<in> {SPECIAL, BCOND, OP_UNIMP, OP_RES} \<or> trace_name op = normalops ! ?n"
    using list_all2_nthD [OF normal_names n(1)] e by simp
  have F: "specialTable ! ?f \<in> {OP_UNIMP, OP_RES} \<or> trace_name (specialTable ! ?f) = specialops ! ?f"
    using list_all2_nthD [OF special_names n(2)] .
  have z: "op = SPECIAL \<longleftrightarrow> ?n = 0" "op = BCOND \<longleftrightarrow> ?n = 1"
    using all_below [OF opTable_encoding(2), of ?n] n(1) e by (auto simp: table_lengths) (simp_all add: opTable_def)
  show ?thesis
    using assms(2) N F bcond_Decode [of v] z unfolding printed_name [OF assms(1)] d
    by (auto simp: Let_def I_defs d [symmetric]) (auto simp: d decode_opCode_def)
qed

theorem printers_agree_witness: "dis_name 0x00a62821 = ''addu''"
proof -
  have "opCode (Decode 0x00a62821) = OP_ADDU"
    by code_simp
  with printers_agree [of "0x00a62821"] show ?thesis
    by (simp, code_simp)
qed

text \<open>The operands do not agree: \<open>mflo\<close> is printed with its source field and \<open>mthi\<close> with its destination field, both
  unused, and \<open>blez\<close> and \<open>bgtz\<close> without operands.\<close>

lemma operands_differ:
  "dump_text 0x00002812 0 = ''mflo'' @ [CHR 0x09] @ ''0''" "trace_instruction 0 0x00002812 = ''At PC = 0x0: MFLO r5'' @ [CHR 0x0A]"
  "dump_text 0x00a00011 0 = ''mthi'' @ [CHR 0x09] @ ''0''" "trace_instruction 0 0x00a00011 = ''At PC = 0x0: MTHI r5'' @ [CHR 0x0A]"
  "dump_text 0x18a00003 0 = ''blez'' @ [CHR 0x09]" "trace_instruction 0 0x18a00003 = ''At PC = 0x0: BLEZ r5,3'' @ [CHR 0x0A]"
  by code_simp+

end
