(* ===== verification/Spec2Isabelle.thy ===== *)
theory Spec2Isabelle
  imports Nachos_Prelude Bit_Map Linked_List Machine_Memory Machine_CPU CPU_Correct File_System_Calls
    Kernel_Theorems Memory_View Example_Stack Mail_Delivery Coff_Convert MIPS_Interpreter Syscall_Results
    Context_Switch File_Test Thread_Test Command_Line Disassembler
begin

text \<open>
  \<^bold>\<open>Nachos 3.4: a verification development.\<close>

  Nachos is a teaching operating system that runs as one process of a host.  The process simulates a MIPS
  workstation and runs the kernel beside it.  Paths below are relative to \<^verbatim>\<open>src/nachos-3.4/code\<close>.

  \<^bold>\<open>The parts and how they interact.\<close>

  \<^item> The \<^emph>\<open>machine\<close> (\<^verbatim>\<open>machine/\<close>) executes user instructions, translates addresses through a page table or a TLB,
    keeps simulated time and a list of pending interrupts, and offers devices: timer, console, disk, network.
    Time advances when an instruction ends and when the kernel enables interrupts; then due interrupts fire.
  \<^item> The \<^emph>\<open>thread system\<close> (\<^verbatim>\<open>threads/\<close>) schedules kernel threads first come first served.  Mutual exclusion is the
    disabling of interrupts; threads wait on semaphores, which interrupt handlers signal.
  \<^item> The \<^emph>\<open>user-program layer\<close> (\<^verbatim>\<open>userprog/\<close>) loads programs into page frames, handles system calls and keeps the
    process table and the table of named semaphores.
  \<^item> The \<^emph>\<open>file system\<close> (\<^verbatim>\<open>filesys/\<close>) stores a flat directory of files on the disk.  The user-program build uses a
    stub on top of host files instead.
  \<^item> The \<^emph>\<open>network\<close> (\<^verbatim>\<open>machine/network.cc\<close>, \<^verbatim>\<open>network/\<close>) carries packets over host sockets; the post office sorts
    them into mailboxes.
  \<^item> The \<^emph>\<open>tools\<close> (\<^verbatim>\<open>bin/\<close>) convert object files to the format the loader reads and run them without the kernel.

  \<^bold>\<open>Conventions.\<close>

  A definition has the name of its function, prefixed by its class where the name alone is ambiguous
  (\<open>BitMap_Find\<close> is \<open>BitMap::Find\<close>).  An object is a record and a method takes and returns it.  Machine words are
  \<open>32 word\<close> and bytes \<open>8 word\<close>, with the little-endian layout of the i386 host.  A failing \<open>ASSERT\<close>, an access out of
  bounds, a null dereference, undefined behaviour and the end of the process are values of \<open>kerror\<close> in the
  result type \<open>'a res\<close>; nothing is assumed not to fail.  Calls of the host are the fields of the record
  \<open>Host\<close> (\<open>NetHost\<close> for sockets) over an abstract state of the outside world, and what a theorem needs of
  them is a named hypothesis, e.g. \<open>posix_file\<close>.  Memory that the code allocates and does not initialise comes
  from a parameter (\<open>Junk\<close>, \<open>Fresh\<close>, \<open>NetFresh\<close>), and the theorems hold for all its values; \<open>junk_ok\<close> only says that
  they fit their types.

  \<^bold>\<open>The theories.\<close>

  \<^item> \<^verbatim>\<open>Nachos_Prelude\<close>: the result type, C division, strings, little-endian words, shared list lemmas.
  \<^item> \<^verbatim>\<open>Linked_List\<close> (\<^verbatim>\<open>threads/list.cc\<close>): list elements on a heap.  The locale \<open>keyed_list\<close> is the interface; it is
    interpreted on the pointer structure and on the sequences that the other theories use in its place.
  \<^item> \<^verbatim>\<open>Bit_Map\<close> (\<^verbatim>\<open>userprog/bitmap.cc\<close>): bits packed in words behind the locale \<open>bit_table\<close>; \<open>Find\<close> never returns a
    bit twice.
  \<^item> \<^verbatim>\<open>Machine_Memory\<close>, \<^verbatim>\<open>Machine_CPU\<close>, \<^verbatim>\<open>CPU_Correct\<close> (\<^verbatim>\<open>machine/machine.cc\<close>, \<^verbatim>\<open>translate.cc\<close>, \<^verbatim>\<open>mipssim.cc\<close>): the
    workstation as the record \<open>Machine\<close>; \<open>Translate\<close>, \<open>ReadMem\<close>, \<open>WriteMem\<close>; \<open>Decode\<close> and \<open>OneInstruction\<close>.  Translation is
    sound, stores are isolated between disjoint page tables, every word decodes to a well-formed
    instruction, every instruction keeps the machine well formed, multiplication and overflow tests
    are exact, delays are those of the R2000.
  \<^item> \<^verbatim>\<open>Disk_Device\<close>, \<^verbatim>\<open>File_Header\<close>, \<^verbatim>\<open>File_IO\<close>, \<^verbatim>\<open>File_Directory\<close>, \<^verbatim>\<open>File_System\<close>, \<^verbatim>\<open>File_System_Correct\<close>, \<^verbatim>\<open>File_System_Calls\<close>
    (\<^verbatim>\<open>machine/disk.cc\<close>, \<^verbatim>\<open>filesys/\<close>): the disk and its synchronous interface, the on-disk structures as bytes
    of sectors, and the calls.  The invariant \<open>fs_inv\<close> says that every sector is free or owned once;
    any history of legal calls on a formatted disk refines a map from names to contents.
  \<^item> \<^verbatim>\<open>Kernel_State\<close>, \<^verbatim>\<open>Interrupt_Sim\<close>, \<^verbatim>\<open>Kernel_Threads\<close> (\<^verbatim>\<open>machine/interrupt.cc\<close>, \<^verbatim>\<open>threads/thread.cc\<close>, \<^verbatim>\<open>scheduler.cc\<close>,
    \<^verbatim>\<open>synch.cc\<close>): the thread system with explicit control.  The stack of a thread is the list of calls it has still
    to finish, and \<open>kernel_step\<close> runs the innermost one to its next program point.  Handlers, client code and
    the other globals are type parameters.
  \<^item> \<^verbatim>\<open>Context_Switch\<close> (\<^verbatim>\<open>threads/switch.c\<close>, \<^verbatim>\<open>switch.h\<close>): the i386 code below that picture.  A thread that is switched out and
    in again resumes with all its registers, and the frame of \<open>StackAllocate\<close> starts a new thread with the calls that
    the list \<open>continuation\<close> has in the kernel model.
  \<^item> \<^verbatim>\<open>Kernel_Invariant\<close>, \<^verbatim>\<open>Kernel_Correct\<close>, \<^verbatim>\<open>Kernel_Run\<close>, \<^verbatim>\<open>Kernel_Progress\<close>, \<^verbatim>\<open>Kernel_Client\<close>: the invariant of the thread
    system, its preservation by every step, dispatch order, transparent switches, absence of failing
    assertions, termination of the interrupt loop.  They are proved once inside the locales
    \<open>interrupt_handlers\<close>, \<open>live_handlers\<close> and \<open>kernel_client\<close>, the contracts of handlers and of client code.
  \<^item> \<^verbatim>\<open>Host_System\<close>, \<^verbatim>\<open>User_State\<close>, \<^verbatim>\<open>Console_Device\<close>, \<^verbatim>\<open>User_Memory\<close>, \<^verbatim>\<open>Address_Space\<close>, \<^verbatim>\<open>Process_Table\<close>, \<^verbatim>\<open>Syscalls\<close>,
    \<^verbatim>\<open>User_Client\<close> (\<^verbatim>\<open>machine/sysdep.cc\<close>, \<^verbatim>\<open>timer.cc\<close>, \<^verbatim>\<open>console.cc\<close>, \<^verbatim>\<open>threads/system.cc\<close>, \<^verbatim>\<open>synchcons.cc\<close>, \<^verbatim>\<open>userprog/\<close>): the
    user-program build.  A method that waits is cut where it waits, one program point per piece.
    \<^verbatim>\<open>Console_Device\<close> and \<^verbatim>\<open>User_Client\<close> interpret the locales of the thread system on this build.
  \<^item> \<^verbatim>\<open>Kernel_Theorems\<close>: the results on the thread system for this build, from boot on.
  \<^item> \<^verbatim>\<open>Memory_View\<close>, \<^verbatim>\<open>Program_Load\<close>, \<^verbatim>\<open>Syscall_Results\<close>: what a program sees of its memory, of the strings the
    kernel moves, of the loader and of the system calls.
  \<^item> \<^verbatim>\<open>Synch_List\<close>, \<^verbatim>\<open>Network_Device\<close>, \<^verbatim>\<open>Network_Client\<close>, \<^verbatim>\<open>Mail_Delivery\<close> (\<^verbatim>\<open>threads/synchlist.cc\<close>, \<^verbatim>\<open>machine/network.cc\<close>,
    \<^verbatim>\<open>network/\<close>): the network build, a second instance of the same locales, and the delivery of mail.
  \<^item> \<^verbatim>\<open>Coff_Convert\<close>, \<^verbatim>\<open>MIPS_Interpreter\<close> (\<^verbatim>\<open>bin/\<close>): the converters, whose output the loader reads as intended, and
    the stand-alone interpreter, which agrees with the simulator except where \<open>comparable\<close> says.
  \<^item> \<^verbatim>\<open>Disassembler\<close> (\<^verbatim>\<open>bin/d.c\<close>, \<^verbatim>\<open>opstrings.c\<close>, the trace of \<^verbatim>\<open>mipssim.cc\<close>): the text of an instruction as the tools and as the
    simulator print it; the names agree.
  \<^item> \<^verbatim>\<open>Thread_Test\<close>, \<^verbatim>\<open>File_Test\<close> (\<^verbatim>\<open>threads/threadtest.cc\<close>, \<^verbatim>\<open>filesys/fstest.cc\<close>): the test programs of the kernel on top of the
    models of the thread system and of the file system.  The thread test is the third instance of
    \<open>kernel_client\<close>.
  \<^item> \<^verbatim>\<open>Command_Line\<close> (\<^verbatim>\<open>threads/system.cc\<close>, \<^verbatim>\<open>main.cc\<close>, the makefiles): the options and commands of every build.
  \<^item> \<^verbatim>\<open>Example_Stack\<close> (\<^verbatim>\<open>c++example/\<close>): the stacks of the C++ tutorial behind the locale \<open>stack_class\<close>.

  \<^bold>\<open>Bounds and termination.\<close>

  Most loops of the code are structural recursions or functions with a termination proof.  Loops that follow
  pointers or wait, and so need not end (\<open>List_find_place\<close>, \<open>IntList_delete\<close>, \<open>SynchList_wait\<close> and their like), are partial functions
  with the value \<open>None\<close> for a run that does not end; the lemmas on well-formed lists show that they return.  Two definitions
  count steps: \<open>i_run\<close> of the stand-alone interpreter runs any given number of instructions, and \<open>run_steps\<close> of
  \<^verbatim>\<open>Thread_Test\<close> is used with 200, more than the thread test takes to halt the machine; that it halts is part of
  the theorem.  The kernel, which may run for ever, is a step
  function: its runs are the inductive relation \<open>kernel_run\<close>, and theorems about runs hold for every length.  That the loop which
  fires interrupts ends is a theorem, not an assumption.  Sizes are those of the source: 128
  frames of 512 bytes, 1024 disk sectors, 10 directory entries, 10 processes and 10 semaphores.

  \<^bold>\<open>Not modelled.\<close>

  \<^item> Output for the operator: \<open>DEBUG\<close>, the \<open>Print\<close> and \<open>DumpState\<close> methods, the printer of object files \<^verbatim>\<open>bin/out.c\<close>.
    They change no state that the code reads again.
  \<^item> Destructors at the end of the process and \<open>Cleanup\<close>; deletions in mid-run are modelled.
  \<^item> Signal handling and the guard pages of \<open>AllocBoundedArray\<close>: they serve the host debugger.
  \<^item> The context switches of hosts other than the i386: they are not assembled in this build.
  \<^item> \<^verbatim>\<open>bin/main.c\<close> and \<^verbatim>\<open>bin/system.c\<close>: they call an object-file library and host services that the repository does
    not contain.
  \<^item> The user programs under \<^verbatim>\<open>test/\<close>: they run on the model, as the contents of its memory.
\<close>

end
